(* ===== verification/Js_Values.thy ===== *)
theory Js_Values
  imports Complex_Main
begin

text \<open>
  The values and operators of JavaScript that the modelled scripts use, and the generic lemmas
  every other theory shares.

  A dynamically typed value is a \<open>jsval\<close>. Objects are association lists with distinct keys, in
  insertion order, as object literals and \<^verbatim>\<open>JSON.parse\<close> build them; a property that is absent
  reads as \<open>JUndef\<close>. The property names the scripts use are none of those of
  \<^verbatim>\<open>Object.prototype\<close>, so the prototype chain is never consulted. Strings are sequences of
  code units below 256. Finite numbers are exact rationals: the scripts only compare numbers and
  count with small integers, so the rounding of binary64 and the sign of zero are not observed.
  An exception is the left summand of a sum type.
\<close>

named_theorems js_simps \<open>the operators of the language, unfolded by evaluation\<close>

section \<open>Values\<close>

datatype jsnum = NaN | PosInf | NegInf | Fin rat

datatype jsval =
    JUndef
  | JNull
  | JBool bool
  | JNum jsnum
  | JStr string
  | JArr "jsval list"
  | JObj "(string \<times> jsval) list"

datatype js_error = TypeError | Thrown string

type_synonym 'a js = "js_error + 'a"

type_synonym props = "(string \<times> jsval) list"

abbreviation jint :: "int \<Rightarrow> jsval" where
  "jint n \<equiv> JNum (Fin (rat_of_int n))"

section \<open>Coercions and operators\<close>

text \<open>\<^verbatim>\<open>Boolean(v)\<close>, the test of an \<^verbatim>\<open>if\<close> and of \<^verbatim>\<open>!\<close>.\<close>

fun truthy :: "jsval \<Rightarrow> bool" where
  "truthy JUndef = False"
| "truthy JNull = False"
| "truthy (JBool b) = b"
| "truthy (JNum NaN) = False"
| "truthy (JNum (Fin q)) = (q \<noteq> 0)"
| "truthy (JNum PosInf) = True"
| "truthy (JNum NegInf) = True"
| "truthy (JStr s) = (s \<noteq> [])"
| "truthy (JArr xs) = True"
| "truthy (JObj kvs) = True"

fun nullish :: "jsval \<Rightarrow> bool" where
  "nullish JUndef = True"
| "nullish JNull = True"
| "nullish _ = False"

text \<open>\<^verbatim>\<open>a ?? b\<close> and \<^verbatim>\<open>a || b\<close>.\<close>

definition coalesce :: "jsval \<Rightarrow> jsval \<Rightarrow> jsval" where
  [js_simps]: "coalesce a b = (if nullish a then b else a)"

definition js_or :: "jsval \<Rightarrow> jsval \<Rightarrow> jsval" where
  [js_simps]: "js_or a b = (if truthy a then a else b)"

fun is_str :: "jsval \<Rightarrow> bool" where
  "is_str (JStr _) = True"
| "is_str _ = False"

fun is_arr :: "jsval \<Rightarrow> bool" where
  "is_arr (JArr _) = True"
| "is_arr _ = False"

text \<open>\<^verbatim>\<open>typeof v === 'object'\<close>: it holds of \<^verbatim>\<open>null\<close> and of arrays.\<close>

fun typeof_object :: "jsval \<Rightarrow> bool" where
  "typeof_object JNull = True"
| "typeof_object (JArr _) = True"
| "typeof_object (JObj _) = True"
| "typeof_object _ = False"

definition is_integral :: "rat \<Rightarrow> bool" where
  "is_integral q = (rat_of_int \<lfloor>q\<rfloor> = q)"

text \<open>\<^verbatim>\<open>Number.isInteger(v)\<close> and \<^verbatim>\<open>Number.isFinite(v)\<close>: no coercion.\<close>

fun num_is_integer :: "jsval \<Rightarrow> bool" where
  "num_is_integer (JNum (Fin q)) = is_integral q"
| "num_is_integer _ = False"

fun num_is_finite :: "jsval \<Rightarrow> bool" where
  "num_is_finite (JNum (Fin q)) = True"
| "num_is_finite _ = False"

text \<open>
  \<^verbatim>\<open>a === b\<close>. \<^verbatim>\<open>NaN\<close> differs from itself; two objects that come from different
  literals or parses are never identical.
\<close>

fun strict_eq :: "jsval \<Rightarrow> jsval \<Rightarrow> bool" where
  "strict_eq JUndef JUndef = True"
| "strict_eq JNull JNull = True"
| "strict_eq (JBool a) (JBool b) = (a = b)"
| "strict_eq (JNum a) (JNum b) = (a = b \<and> a \<noteq> NaN)"
| "strict_eq (JStr a) (JStr b) = (a = b)"
| "strict_eq _ _ = False"

text \<open>Numeric comparison of two numbers: every comparison with \<^verbatim>\<open>NaN\<close> is false.\<close>

fun num_le :: "jsnum \<Rightarrow> jsnum \<Rightarrow> bool" where
  "num_le NaN _ = False"
| "num_le _ NaN = False"
| "num_le NegInf _ = True"
| "num_le _ PosInf = True"
| "num_le (Fin a) (Fin b) = (a \<le> b)"
| "num_le _ _ = False"

fun num_lt :: "jsnum \<Rightarrow> jsnum \<Rightarrow> bool" where
  "num_lt NaN _ = False"
| "num_lt _ NaN = False"
| "num_lt (Fin a) (Fin b) = (a < b)"
| "num_lt NegInf NegInf = False"
| "num_lt NegInf _ = True"
| "num_lt PosInf _ = False"
| "num_lt _ PosInf = True"
| "num_lt _ NegInf = False"

section \<open>Strings\<close>

text \<open>The white space \<^verbatim>\<open>String.prototype.trim\<close> and \<^verbatim>\<open>\s\<close> know below code unit 256.\<close>

definition is_ws :: "char \<Rightarrow> bool" where
  "is_ws c = (let n = (of_char c :: nat) in (9 \<le> n \<and> n \<le> 13) \<or> n = 32 \<or> n = 160)"

definition trim :: "string \<Rightarrow> string" where
  "trim s = rev (dropWhile is_ws (rev (dropWhile is_ws s)))"

definition is_digit :: "char \<Rightarrow> bool" where
  "is_digit c = (let n = (of_char c :: nat) in 48 \<le> n \<and> n \<le> 57)"

definition digit_val :: "char \<Rightarrow> nat" where
  "digit_val c = (of_char c :: nat) - 48"

definition is_lower_hex :: "char \<Rightarrow> bool" where
  "is_lower_hex c = (is_digit c \<or> (let n = (of_char c :: nat) in 97 \<le> n \<and> n \<le> 102))"

fun starts_with :: "string \<Rightarrow> string \<Rightarrow> bool" where
  "starts_with s [] = True"
| "starts_with [] (p # ps) = False"
| "starts_with (c # cs) (p # ps) = (c = p \<and> starts_with cs ps)"

definition ends_with :: "string \<Rightarrow> string \<Rightarrow> bool" where
  "ends_with s p = starts_with (rev s) (rev p)"

fun str_includes :: "string \<Rightarrow> string \<Rightarrow> bool" where
  "str_includes [] p = (p = [])"
| "str_includes (c # cs) p = (starts_with (c # cs) p \<or> str_includes cs p)"

text \<open>\<^verbatim>\<open>s.split(c)\<close> for a one-character separator, and \<^verbatim>\<open>xs.join(sep)\<close>.\<close>

fun split_on :: "char \<Rightarrow> string \<Rightarrow> string list" where
  "split_on c [] = [[]]"
| "split_on c (x # xs) =
     (if x = c then [] # split_on c xs
      else (case split_on c xs of [] \<Rightarrow> [[x]] | y # ys \<Rightarrow> (x # y) # ys))"

fun join_with :: "string \<Rightarrow> string list \<Rightarrow> string" where
  "join_with sep [] = []"
| "join_with sep [x] = x"
| "join_with sep (x # y # zs) = x @ sep @ join_with sep (y # zs)"

section \<open>Property access\<close>

text \<open>\<^verbatim>\<open>v?.k\<close>, and \<^verbatim>\<open>v.k\<close> where \<open>v\<close> is known not to be nullish.\<close>

fun dot :: "jsval \<Rightarrow> string \<Rightarrow> jsval" where
  "dot (JObj kvs) k = (case map_of kvs k of Some v \<Rightarrow> v | None \<Rightarrow> JUndef)"
| "dot (JArr xs) k = (if k = ''length'' then jint (int (length xs)) else JUndef)"
| "dot (JStr s) k = (if k = ''length'' then jint (int (length s)) else JUndef)"
| "dot _ k = JUndef"

text \<open>\<^verbatim>\<open>v.k\<close>: reading a property of \<^verbatim>\<open>undefined\<close> or \<^verbatim>\<open>null\<close> throws.\<close>

definition dot_js :: "jsval \<Rightarrow> string \<Rightarrow> jsval js" where
  "dot_js v k = (if nullish v then Inl TypeError else Inr (dot v k))"

fun arr_elems :: "jsval \<Rightarrow> jsval list" where
  "arr_elems (JArr xs) = xs"
| "arr_elems _ = []"

text \<open>Assigning a property keeps the place of a key that exists and appends a new one.\<close>

fun obj_set :: "props \<Rightarrow> string \<Rightarrow> jsval \<Rightarrow> props" where
  "obj_set [] k v = [(k, v)]"
| "obj_set ((k', v') # kvs) k v = (if k' = k then (k, v) # kvs else (k', v') # obj_set kvs k v)"

definition obj_delete :: "props \<Rightarrow> string \<Rightarrow> props" where
  "obj_delete kvs k = filter (\<lambda>(k', _). k' \<noteq> k) kvs"

definition obj_merge :: "props \<Rightarrow> props \<Rightarrow> props" where
  "obj_merge kvs new = foldl (\<lambda>o' (k, v). obj_set o' k v) kvs new"

text \<open>The decimal digits of a natural number, as in a property key or a template literal.\<close>

fun nat_str :: "nat \<Rightarrow> string" where
  "nat_str n = (if n < 10 then [char_of (48 + n)] else nat_str (n div 10) @ [char_of (48 + n mod 10)])"

declare nat_str.simps [simp del]

definition indexed_props :: "jsval list \<Rightarrow> props" where
  "indexed_props xs = map (\<lambda>(i, x). (nat_str i, x)) (zip [0..<length xs] xs)"

text \<open>The own enumerable properties that \<^verbatim>\<open>{ ...v }\<close> copies.\<close>

fun own_props :: "jsval \<Rightarrow> props" where
  "own_props (JObj kvs) = kvs"
| "own_props (JArr xs) = indexed_props xs"
| "own_props (JStr s) = indexed_props (map (\<lambda>c. JStr [c]) s)"
| "own_props _ = []"

section \<open>The conversion \<^verbatim>\<open>Number(v)\<close>\<close>

definition digits_val :: "string \<Rightarrow> nat" where
  "digits_val ds = foldl (\<lambda>n c. 10 * n + digit_val c) 0 ds"

text \<open>
  An unsigned decimal literal: an integer part and a fraction of which one may be empty, and an
  optional exponent. Nothing may follow it.
\<close>

definition parse_exponent :: "string \<Rightarrow> int option" where
  "parse_exponent s = (case s of
      [] \<Rightarrow> Some 0
    | e # rest \<Rightarrow>
       if e \<noteq> CHR ''e'' \<and> e \<noteq> CHR ''E'' then None
       else
        (let sg = (if starts_with rest ''-'' then -1 else 1);
             ds = (if starts_with rest ''-'' \<or> starts_with rest ''+'' then tl rest else rest)
         in if ds = [] \<or> \<not> list_all is_digit ds then None
            else Some (sg * int (digits_val ds))))"

definition ten_to :: "int \<Rightarrow> rat" where
  "ten_to e = (if 0 \<le> e then 10 ^ nat e else 1 / 10 ^ nat (- e))"

definition parse_udecimal :: "string \<Rightarrow> jsnum" where
  "parse_udecimal s =
     (let ip = takeWhile is_digit s; r1 = dropWhile is_digit s;
          fp = (if starts_with r1 ''.'' then takeWhile is_digit (tl r1) else []);
          r2 = (if starts_with r1 ''.'' then dropWhile is_digit (tl r1) else r1)
      in if ip = [] \<and> fp = [] then NaN
         else (case parse_exponent r2 of
                 None \<Rightarrow> NaN
               | Some e \<Rightarrow> Fin (of_nat (digits_val (ip @ fp)) * ten_to (e - int (length fp)))))"

definition hex_digit :: "char \<Rightarrow> nat option" where
  "hex_digit c = (let n = (of_char c :: nat) in
     if 48 \<le> n \<and> n \<le> 57 then Some (n - 48)
     else if 97 \<le> n \<and> n \<le> 102 then Some (n - 87)
     else if 65 \<le> n \<and> n \<le> 70 then Some (n - 55) else None)"

definition parse_radix :: "nat \<Rightarrow> string \<Rightarrow> jsnum" where
  "parse_radix b s =
     (if s = [] \<or> \<not> list_all (\<lambda>c. case hex_digit c of None \<Rightarrow> False | Some d \<Rightarrow> d < b) s then NaN
      else Fin (of_nat (foldl (\<lambda>n c. b * n + the (hex_digit c)) 0 s)))"

fun num_neg :: "jsnum \<Rightarrow> jsnum" where
  "num_neg NaN = NaN"
| "num_neg PosInf = NegInf"
| "num_neg NegInf = PosInf"
| "num_neg (Fin q) = Fin (- q)"

definition str_to_number :: "string \<Rightarrow> jsnum" where
  "str_to_number s0 =
     (let s = trim s0 in
      if s = [] then Fin 0
      else if starts_with s ''0x'' \<or> starts_with s ''0X'' then parse_radix 16 (drop 2 s)
      else if starts_with s ''0o'' \<or> starts_with s ''0O'' then parse_radix 8 (drop 2 s)
      else if starts_with s ''0b'' \<or> starts_with s ''0B'' then parse_radix 2 (drop 2 s)
      else
       (let neg = starts_with s ''-'';
            u = (if neg \<or> starts_with s ''+'' then tl s else s);
            n = (if u = ''Infinity'' then PosInf else parse_udecimal u)
        in if neg then num_neg n else n))"

text \<open>
  An array converts through its string form: the empty array is \<^verbatim>\<open>''\<close>, one element is that
  element's text, and more elements contain a comma.
\<close>

fun to_number :: "jsval \<Rightarrow> jsnum" where
  "to_number JUndef = NaN"
| "to_number JNull = Fin 0"
| "to_number (JBool b) = Fin (if b then 1 else 0)"
| "to_number (JNum n) = n"
| "to_number (JStr s) = str_to_number s"
| "to_number (JArr []) = Fin 0"
| "to_number (JArr [JUndef]) = Fin 0"
| "to_number (JArr [JNull]) = Fin 0"
| "to_number (JArr [JBool _]) = NaN"
| "to_number (JArr [x]) = to_number x"
| "to_number (JArr (x # y # zs)) = NaN"
| "to_number (JObj _) = NaN"

text \<open>
  \<^verbatim>\<open>a >= b\<close>: two strings compare by code units, anything else as numbers.
\<close>

fun str_less :: "string \<Rightarrow> string \<Rightarrow> bool" where
  "str_less _ [] = False"
| "str_less [] (_ # _) = True"
| "str_less (a # as) (b # bs) =
     ((of_char a :: nat) < of_char b \<or> (a = b \<and> str_less as bs))"

fun js_ge :: "jsval \<Rightarrow> jsval \<Rightarrow> bool" where
  "js_ge (JStr a) (JStr b) = (\<not> str_less a b)"
| "js_ge a b = num_le (to_number b) (to_number a)"

section \<open>The conversion \<^verbatim>\<open>String(v)\<close>\<close>

text \<open>
  Integral numbers print their decimal digits and fractions their terminating decimal expansion
  (the exponent notation of numbers from \<open>10 ^ 21\<close> on or below \<open>10 ^ -6\<close> is not reproduced).
\<close>

fun frac_digits :: "nat \<Rightarrow> rat \<Rightarrow> string" where
  "frac_digits 0 q = []"
| "frac_digits (Suc n) q =
     (if q = 0 then [] else char_of (48 + nat \<lfloor>10 * q\<rfloor>) # frac_digits n (10 * q - of_int \<lfloor>10 * q\<rfloor>))"

fun num_text :: "jsnum \<Rightarrow> string" where
  "num_text NaN = ''NaN''"
| "num_text PosInf = ''Infinity''"
| "num_text NegInf = ''-Infinity''"
| "num_text (Fin q) =
     (let a = \<bar>q\<bar>; ip = nat \<lfloor>a\<rfloor>; fp = a - of_int \<lfloor>a\<rfloor>
      in (if q < 0 then ''-'' else []) @ nat_str ip @
         (if fp = 0 then [] else CHR ''.'' # frac_digits 340 fp))"

fun js_text :: "jsval \<Rightarrow> string" where
  "js_text JUndef = ''undefined''"
| "js_text JNull = ''null''"
| "js_text (JBool b) = (if b then ''true'' else ''false'')"
| "js_text (JNum n) = num_text n"
| "js_text (JStr s) = s"
| "js_text (JArr xs) = join_with '','' (map (\<lambda>x. if nullish x then [] else js_text x) xs)"
| "js_text (JObj _) = ''[object Object]''"

section \<open>Generic lemmas\<close>

lemma dot_obj_set [simp]:
  "dot (JObj (obj_set kvs k v)) k' = (if k' = k then v else dot (JObj kvs) k')"
  by (induction kvs k v rule: obj_set.induct) (auto split: option.splits)

lemma map_of_obj_set: "map_of (obj_set kvs k v) = (map_of kvs)(k \<mapsto> v)"
  by (induction kvs k v rule: obj_set.induct) auto

lemma map_of_obj_delete: "map_of (obj_delete kvs k) = (map_of kvs)(k := None)"
  by (induction kvs) (auto simp: obj_delete_def fun_eq_iff)

lemma dot_obj_delete [simp]:
  "dot (JObj (obj_delete kvs k)) k' = (if k' = k then JUndef else dot (JObj kvs) k')"
  by (simp add: map_of_obj_delete)

lemma obj_set_keys: "fst ` set (obj_set kvs k v) = insert k (fst ` set kvs)"
  by (induction kvs k v rule: obj_set.induct) auto

lemma distinct_obj_set: "distinct (map fst kvs) \<Longrightarrow> distinct (map fst (obj_set kvs k v))"
  by (induction kvs k v rule: obj_set.induct) (auto simp: obj_set_keys)

lemma is_integral_of_int [simp]: "is_integral (rat_of_int n)"
  by (simp add: is_integral_def)

lemma is_integral_numeral [simp]: "is_integral (numeral n)"
  using is_integral_of_int [of "numeral n"] by simp

lemma is_integral_0_1 [simp]: "is_integral 0" "is_integral 1"
  by (simp_all add: is_integral_def)

lemma is_integralE:
  assumes "is_integral q"
  obtains n where "q = rat_of_int n"
  using assms by (metis is_integral_def)

lemma num_is_integerE:
  assumes "num_is_integer v"
  obtains n where "v = jint n"
  using assms by (cases v rule: num_is_integer.cases) (auto elim: is_integralE)

lemma num_is_integer_jint [simp]: "num_is_integer (jint n)"
  by simp

lemma strict_eq_JStr [simp]:
  "strict_eq v (JStr s) \<longleftrightarrow> v = JStr s" "strict_eq (JStr s) v \<longleftrightarrow> v = JStr s"
  by (cases v; auto)+

lemma strict_eq_JBool [simp]: "strict_eq v (JBool b) \<longleftrightarrow> v = JBool b"
  by (cases v; auto)

lemma is_str_iff: "is_str v \<longleftrightarrow> (\<exists>s. v = JStr s)"
  by (cases v) auto

lemma is_arr_iff: "is_arr v \<longleftrightarrow> (\<exists>xs. v = JArr xs)"
  by (cases v) auto

lemma truthy_JStr_iff [simp]: "truthy (JStr s) \<longleftrightarrow> s \<noteq> []"
  by simp

lemma coalesce_not_nullish: "\<not> nullish b \<Longrightarrow> \<not> nullish (coalesce a b)"
  by (simp add: coalesce_def)

lemma num_le_refl: "n \<noteq> NaN \<Longrightarrow> num_le n n"
  by (cases n) auto

lemma num_le_trans: "num_le a b \<Longrightarrow> num_le b c \<Longrightarrow> num_le a c"
  by (cases a; cases b; cases c) auto

lemma js_ge_jint [simp]: "js_ge (jint a) (jint b) \<longleftrightarrow> b \<le> a"
  by simp

end
