(* ===== verification/Live_Vocabulary.thy ===== *)
theory Live_Vocabulary
  imports Js_Values
begin

text \<open>
  The wire contract of live mode (\<^verbatim>\<open>scripts/live/vocabulary.mjs\<close>): the enumerations the validator,
  the session store and the server share, in the order the source lists them.
\<close>

definition VISUAL_ACTIONS :: "string list" where
  "VISUAL_ACTIONS =
     [''impeccable'', ''bolder'', ''quieter'', ''distill'', ''polish'', ''typeset'', ''colorize'',
      ''layout'', ''adapt'', ''animate'', ''delight'', ''overdrive'']"

definition AGENT_PHASES :: "string list" where
  "AGENT_PHASES =
     [''picked_up'', ''scaffolding'', ''source_ready'', ''scaffold_fallback'', ''generation_ready'',
      ''first_reviewable'', ''second_reviewable'', ''all_variants_ready'']"

definition CLIENT_EVENT_TYPES :: "string list" where
  "CLIENT_EVENT_TYPES =
     [''generate'', ''accept'', ''discard'', ''checkpoint'', ''agent_phase'', ''variant_mounted'',
      ''variant_mount_failed'', ''exit'', ''prefetch'', ''manual_edits'', ''steer'',
      ''carbonize_cleanup'']"

definition JOURNAL_EVENT_TYPES :: "string list" where
  "JOURNAL_EVENT_TYPES =
     [''generate'', ''variant_plan'', ''detector_waivers'', ''agent_phase'', ''variants_ready'',
      ''agent_done'', ''variant_mounted'', ''variant_mount_failed'', ''checkpoint'', ''accept'',
      ''accept_intent'', ''manual_edit_apply'', ''steer'', ''steer_done'', ''carbonize_cleanup'',
      ''discard'', ''discarded'', ''complete'', ''agent_error'']"

definition SESSION_PHASES :: "string list" where
  "SESSION_PHASES =
     [''new'', ''generate_requested'', ''variants_ready'', ''carbonize_required'',
      ''carbonize_cleanup_requested'', ''manual_edit_apply_requested'', ''steer_requested'',
      ''steer_done'', ''accept_requested'', ''discard_requested'', ''discarded'', ''completed'',
      ''agent_error'']"

definition COMPLETED_SESSION_PHASES :: "string list" where
  "COMPLETED_SESSION_PHASES = [''completed'', ''discarded'']"

definition GENERATION_FENCED_SESSION_PHASES :: "string list" where
  "GENERATION_FENCED_SESSION_PHASES =
     [''accept_requested'', ''discard_requested'', ''carbonize_required'', ''completed'',
      ''discarded'']"

definition VARIANT_PROGRESS_CHECKPOINT_REASONS :: "string list" where
  "VARIANT_PROGRESS_CHECKPOINT_REASONS = [''variants_progress'', ''variants_ready'']"

text \<open>\<^verbatim>\<open>set.has(v)\<close> and \<^verbatim>\<open>list.includes(v)\<close> for a list of strings and any value.\<close>

fun has_str :: "string list \<Rightarrow> jsval \<Rightarrow> bool" where
  "has_str xs (JStr s) = (s \<in> set xs)"
| "has_str xs _ = False"

lemma has_str_iff: "has_str xs v \<longleftrightarrow> (\<exists>s \<in> set xs. v = JStr s)"
  by (cases v) auto

lemmas vocabulary_defs =
  VISUAL_ACTIONS_def AGENT_PHASES_def CLIENT_EVENT_TYPES_def JOURNAL_EVENT_TYPES_def
  SESSION_PHASES_def COMPLETED_SESSION_PHASES_def GENERATION_FENCED_SESSION_PHASES_def
  VARIANT_PROGRESS_CHECKPOINT_REASONS_def

lemma completed_phases_fenced:
  "has_str COMPLETED_SESSION_PHASES v \<Longrightarrow> has_str GENERATION_FENCED_SESSION_PHASES v"
  by (auto simp: has_str_iff COMPLETED_SESSION_PHASES_def GENERATION_FENCED_SESSION_PHASES_def)

end
