(* ===== verification/Event_Validation.thy ===== *)
theory Event_Validation
  imports Live_Vocabulary
begin

text \<open>
  The validator of browser messages (\<^verbatim>\<open>scripts/live/event-validation.mjs\<close>, with
  \<^verbatim>\<open>canCreateInsert\<close> of \<^verbatim>\<open>scripts/live/insert-ui.mjs\<close>). A validator returns \<open>None\<close> for
  the source's \<^verbatim>\<open>null\<close> (accepted) and \<open>Some\<close> of the message it rejects with. The manual-edit
  validator reads properties of elements of an unchecked array, so it may throw: its result, and
  that of \<open>validateEvent\<close>, is a sum.
\<close>

section \<open>The definitions\<close>

definition MOUNT_URL_MAX_LENGTH :: nat where "MOUNT_URL_MAX_LENGTH = 2000"
definition MOUNT_ERROR_MAX_LENGTH :: nat where "MOUNT_ERROR_MAX_LENGTH = 1000"

definition FORBIDDEN_MANUAL_EDIT_TEXT_CHARS :: "string list" where
  "FORBIDDEN_MANUAL_EDIT_TEXT_CHARS = [''<'', ''{'', ''}'', [CHR 0x60]]"

text \<open>\<^verbatim>\<open>/^[0-9a-f]{8}$/\<close> and \<^verbatim>\<open>/^[0-9]{1,3}$/\<close>.\<close>

definition matches_ID_PATTERN :: "string \<Rightarrow> bool" where
  "matches_ID_PATTERN s = (length s = 8 \<and> list_all is_lower_hex s)"

definition matches_VARIANT_ID_PATTERN :: "string \<Rightarrow> bool" where
  "matches_VARIANT_ID_PATTERN s = (1 \<le> length s \<and> length s \<le> 3 \<and> list_all is_digit s)"

fun isValidId :: "jsval \<Rightarrow> bool" where
  "isValidId (JStr s) = matches_ID_PATTERN s"
| "isValidId _ = False"

fun isValidVariantId :: "jsval \<Rightarrow> bool" where
  "isValidVariantId (JStr s) = matches_VARIANT_ID_PATTERN s"
| "isValidVariantId _ = False"

definition validateManualEditText :: "jsval \<Rightarrow> string list option" where
  "validateManualEditText newText = (case newText of
      JStr s \<Rightarrow>
        (let hits = filter (\<lambda>c. str_includes s c) FORBIDDEN_MANUAL_EDIT_TEXT_CHARS
         in if hits \<noteq> [] then Some hits else None)
    | _ \<Rightarrow> None)"

definition validateAnnotationFields :: "jsval \<Rightarrow> string option" where
  "validateAnnotationFields msg =
     (if dot msg ''screenshotPath'' \<noteq> JUndef \<and> \<not> is_str (dot msg ''screenshotPath'')
        then Some ''generate: screenshotPath must be string''
      else if dot msg ''comments'' \<noteq> JUndef \<and> \<not> is_arr (dot msg ''comments'')
        then Some ''generate: comments must be array''
      else if dot msg ''strokes'' \<noteq> JUndef \<and> \<not> is_arr (dot msg ''strokes'')
        then Some ''generate: strokes must be array''
      else None)"

text \<open>\<^verbatim>\<open>canCreateInsert({ prompt, comments, strokes })\<close>.\<close>

definition canCreateInsert :: "jsval \<Rightarrow> jsval \<Rightarrow> jsval \<Rightarrow> bool" where
  "canCreateInsert prompt comments strokes =
     (let hasPrompt = (case prompt of JStr s \<Rightarrow> trim s \<noteq> [] | _ \<Rightarrow> False);
          hasComments = (is_arr comments \<and> arr_elems comments \<noteq> []);
          hasStrokes = (is_arr strokes \<and>
             list_ex (\<lambda>s. is_arr (dot s ''points'') \<and> 2 \<le> length (arr_elems (dot s ''points'')))
               (arr_elems strokes))
      in hasPrompt \<or> hasComments \<or> hasStrokes)"

definition validateInsertGenerate :: "jsval \<Rightarrow> string option" where
  "validateInsertGenerate msg =
     (let ins = dot msg ''insert''; anchor = dot ins ''anchor''; ph = dot msg ''placeholder'' in
      if \<not> truthy ins \<or> \<not> typeof_object ins
        then Some ''generate: insert mode requires insert object''
      else if \<not> has_str [''before'', ''after''] (dot ins ''position'')
        then Some ''generate: insert.position must be before or after''
      else if \<not> truthy anchor \<or> \<not> typeof_object anchor
        then Some ''generate: insert.anchor required''
      else if \<not> truthy (dot anchor ''tagName'') \<and> \<not> truthy (dot anchor ''outerHTML'')
              \<and> \<not> (is_arr (dot anchor ''classes'') \<and> arr_elems (dot anchor ''classes'') \<noteq> [])
        then Some ''generate: insert.anchor needs tagName, classes, or outerHTML''
      else if \<not> truthy ph \<or> \<not> typeof_object ph
        then Some ''generate: insert mode requires placeholder dimensions''
      else if \<not> num_is_finite (dot ph ''width'') \<or> \<not> num_is_finite (dot ph ''height'')
        then Some ''generate: placeholder width and height must be numbers''
      else if \<not> canCreateInsert (dot msg ''freeformPrompt'') (dot msg ''comments'') (dot msg ''strokes'')
        then Some ''generate: insert requires freeformPrompt or annotations''
      else validateAnnotationFields msg)"

definition validateReplaceGenerate :: "jsval \<Rightarrow> string option" where
  "validateReplaceGenerate msg =
     (if \<not> truthy (dot msg ''action'') \<or> \<not> has_str VISUAL_ACTIONS (dot msg ''action'')
        then Some ''generate: invalid action''
      else if \<not> truthy (dot msg ''element'') \<or> \<not> truthy (dot (dot msg ''element'') ''outerHTML'')
        then Some ''generate: missing element context''
      else validateAnnotationFields msg)"

text \<open>One iteration of the loop over \<^verbatim>\<open>msg.ops\<close>.\<close>

definition validateManualEditOp :: "string \<Rightarrow> jsval \<Rightarrow> string option js" where
  "validateManualEditOp label oper =
     (if nullish oper then Inl TypeError
      else Inr
       (if \<not> is_str (dot oper ''ref'') then Some (label @ '': op.ref required'')
        else if \<not> is_str (dot oper ''tag'') then Some (label @ '': op.tag required'')
        else if \<not> is_str (dot oper ''originalText'') then Some (label @ '': op.originalText required'')
        else if dot oper ''deleted'' \<noteq> JBool True \<and> \<not> is_str (dot oper ''newText'')
          then Some (label @ '': text op requires newText'')
        else (case dot oper ''newText'' of
            JStr newText \<Rightarrow>
              if dot oper ''deleted'' \<noteq> JBool True \<and> trim newText = []
                then Some (label @ '': newText cannot be empty'')
              else (case validateManualEditText (JStr newText) of
                  Some forbidden \<Rightarrow>
                    Some (label @ '': newText cannot contain '' @ join_with '' '' forbidden
                          @ '' (plain text only; ask the AI to insert markup)'')
                | None \<Rightarrow> None)
          | _ \<Rightarrow> None)))"

fun validateManualEditOps :: "string \<Rightarrow> jsval list \<Rightarrow> string option js" where
  "validateManualEditOps label [] = Inr None"
| "validateManualEditOps label (oper # opers) =
     (case validateManualEditOp label oper of
        Inl e \<Rightarrow> Inl e
      | Inr (Some err) \<Rightarrow> Inr (Some err)
      | Inr None \<Rightarrow> validateManualEditOps label opers)"

definition validateManualEditEvent :: "jsval \<Rightarrow> string \<Rightarrow> string option js" where
  "validateManualEditEvent msg label =
     (if \<not> isValidId (dot msg ''id'') then Inr (Some (label @ '': missing or malformed id''))
      else if \<not> truthy (dot msg ''pageUrl'') \<or> \<not> is_str (dot msg ''pageUrl'')
        then Inr (Some (label @ '': missing pageUrl''))
      else if \<not> truthy (dot msg ''element'') \<or> \<not> typeof_object (dot msg ''element'')
        then Inr (Some (label @ '': missing element''))
      else if \<not> is_arr (dot msg ''ops'') \<or> arr_elems (dot msg ''ops'') = []
        then Inr (Some (label @ '': ops must be non-empty array''))
      else if 100 < length (arr_elems (dot msg ''ops''))
        then Inr (Some (label @ '': too many ops (max 100)''))
      else validateManualEditOps label (arr_elems (dot msg ''ops'')))"

text \<open>\<^verbatim>\<open>Number.isInteger(value) && value >= lo && value <= hi\<close>.\<close>

definition int_between :: "int \<Rightarrow> int \<Rightarrow> jsval \<Rightarrow> bool" where
  "int_between lo hi v = (num_is_integer v \<and> js_ge v (jint lo) \<and> js_ge (jint hi) v)"

definition isValidMountVariant :: "jsval \<Rightarrow> bool" where
  "isValidMountVariant v = int_between 1 999 v"

definition validateMountAck :: "jsval \<Rightarrow> string option" where
  "validateMountAck msg =
     (if \<not> isValidId (dot msg ''id'') then Some ''variant_mounted: missing or malformed id''
      else if \<not> isValidMountVariant (dot msg ''variant'')
        then Some ''variant_mounted: variant must be an integer 1-999''
      else (case dot msg ''url'' of
          JUndef \<Rightarrow> None
        | JStr u \<Rightarrow> if MOUNT_URL_MAX_LENGTH < length u then Some ''variant_mounted: url too long'' else None
        | _ \<Rightarrow> Some ''variant_mounted: url must be string''))"

definition blank_str :: "jsval \<Rightarrow> bool" where
  "blank_str v = (case v of JStr s \<Rightarrow> trim s = [] | _ \<Rightarrow> True)"

definition str_length :: "jsval \<Rightarrow> nat" where
  "str_length v = (case v of JStr s \<Rightarrow> length s | _ \<Rightarrow> 0)"

definition validateMountFailure :: "jsval \<Rightarrow> string option" where
  "validateMountFailure msg =
     (if \<not> isValidId (dot msg ''id'') then Some ''variant_mount_failed: missing or malformed id''
      else if \<not> isValidMountVariant (dot msg ''variant'')
        then Some ''variant_mount_failed: variant must be an integer 1-999''
      else if blank_str (dot msg ''url'') then Some ''variant_mount_failed: url required''
      else if MOUNT_URL_MAX_LENGTH < str_length (dot msg ''url'')
        then Some ''variant_mount_failed: url too long''
      else if blank_str (dot msg ''error'') then Some ''variant_mount_failed: error required''
      else if MOUNT_ERROR_MAX_LENGTH < str_length (dot msg ''error'')
        then Some ''variant_mount_failed: error too long''
      else None)"

text \<open>\<^verbatim>\<open>v !== undefined && (typeof v !== 'object' || v === null || Array.isArray(v))\<close>.\<close>

definition bad_paramValues :: "jsval \<Rightarrow> bool" where
  "bad_paramValues v = (v \<noteq> JUndef \<and> (\<not> typeof_object v \<or> v = JNull \<or> is_arr v))"

definition validateGenerate :: "jsval \<Rightarrow> string option" where
  "validateGenerate msg =
     (if \<not> isValidId (dot msg ''id'') then Some ''generate: missing or malformed id''
      else if \<not> int_between 1 8 (dot msg ''count'') then Some ''generate: count must be 1-8''
      else if dot msg ''mode'' = JStr ''insert'' then validateInsertGenerate msg
      else validateReplaceGenerate msg)"

definition validateAccept :: "jsval \<Rightarrow> string option" where
  "validateAccept msg =
     (if \<not> isValidId (dot msg ''id'') then Some ''accept: missing or malformed id''
      else if \<not> isValidVariantId (dot msg ''variantId'')
        then Some ''accept: missing or malformed variantId''
      else if bad_paramValues (dot msg ''paramValues'')
        then Some ''accept: paramValues must be an object''
      else None)"

definition validateCheckpoint :: "jsval \<Rightarrow> string option" where
  "validateCheckpoint msg =
     (if \<not> isValidId (dot msg ''id'') then Some ''checkpoint: missing or malformed id''
      else if \<not> num_is_integer (dot msg ''revision'') \<or> \<not> js_ge (dot msg ''revision'') (jint 0)
        then Some ''checkpoint: revision must be a non-negative integer''
      else if bad_paramValues (dot msg ''paramValues'')
        then Some ''checkpoint: paramValues must be an object''
      else None)"

definition validateAgentPhase :: "jsval \<Rightarrow> string option" where
  "validateAgentPhase msg =
     (if \<not> isValidId (dot msg ''id'') then Some ''agent_phase: missing or malformed id''
      else if \<not> is_str (dot msg ''phase'') \<or> \<not> truthy (dot msg ''phase'')
        then Some ''agent_phase: missing phase''
      else if \<not> has_str AGENT_PHASES (dot msg ''phase'')
        then Some (''agent_phase: unknown phase '' @ js_text (dot msg ''phase'') @ '' (expected one of ''
                   @ join_with '', '' AGENT_PHASES @ '')'')
      else if dot msg ''durationMs'' \<noteq> JUndef \<and>
              (\<not> num_is_finite (dot msg ''durationMs'') \<or> \<not> js_ge (dot msg ''durationMs'') (jint 0))
        then Some ''agent_phase: durationMs must be a non-negative number''
      else None)"

definition validateSteer :: "jsval \<Rightarrow> string option" where
  "validateSteer msg =
     (if \<not> isValidId (dot msg ''id'') then Some ''steer: missing or malformed id''
      else if blank_str (dot msg ''message'') then Some ''steer: message required''
      else if 4000 < str_length (dot msg ''message'') then Some ''steer: message too long''
      else if dot msg ''pageUrl'' \<noteq> JUndef \<and> \<not> is_str (dot msg ''pageUrl'')
        then Some ''steer: pageUrl must be string''
      else None)"

definition validateCarbonizeCleanup :: "jsval \<Rightarrow> string option" where
  "validateCarbonizeCleanup msg =
     (if \<not> isValidId (dot msg ''id'') then Some ''carbonize_cleanup: missing or malformed id''
      else if \<not> isValidId (dot msg ''sessionId'')
        then Some ''carbonize_cleanup: missing or malformed sessionId''
      else if \<not> truthy (dot msg ''file'') \<or> \<not> is_str (dot msg ''file'')
        then Some ''carbonize_cleanup: missing file''
      else if \<not> isValidVariantId (JStr (js_text (dot msg ''variantId'')))
        then Some ''carbonize_cleanup: missing or malformed variantId''
      else None)"

definition validateEvent :: "jsval \<Rightarrow> string option js" where
  "validateEvent msg =
     (if \<not> truthy msg \<or> \<not> typeof_object msg \<or> \<not> truthy (dot msg ''type'')
        then Inr (Some ''Missing or invalid message'')
      else (case dot msg ''type'' of
          JStr t \<Rightarrow>
            if t = ''generate'' then Inr (validateGenerate msg)
            else if t = ''accept'' then Inr (validateAccept msg)
            else if t = ''discard'' then
              Inr (if isValidId (dot msg ''id'') then None else Some ''discard: missing or malformed id'')
            else if t = ''checkpoint'' then Inr (validateCheckpoint msg)
            else if t = ''agent_phase'' then Inr (validateAgentPhase msg)
            else if t = ''variant_mounted'' then Inr (validateMountAck msg)
            else if t = ''variant_mount_failed'' then Inr (validateMountFailure msg)
            else if t = ''exit'' then Inr None
            else if t = ''prefetch'' then
              Inr (if \<not> truthy (dot msg ''pageUrl'') \<or> \<not> is_str (dot msg ''pageUrl'')
                   then Some ''prefetch: missing pageUrl'' else None)
            else if t = ''manual_edits'' then validateManualEditEvent msg ''manual_edits''
            else if t = ''steer'' then Inr (validateSteer msg)
            else if t = ''carbonize_cleanup'' then Inr (validateCarbonizeCleanup msg)
            else Inr (Some (''Unknown event type: '' @ t))
        | other \<Rightarrow> Inr (Some (''Unknown event type: '' @ js_text other))))"

end
