(* ===== verification/Session_Reducer.thy ===== *)
theory Session_Reducer
  imports Event_Validation
begin

text \<open>
  The pure core of the live session store (\<^verbatim>\<open>scripts/live/session-store.mjs\<close>): the snapshot of a
  session and \<open>applyEvent\<close>, which folds one journal entry into it.

  A snapshot is a record with the fields of \<^verbatim>\<open>baseSnapshot\<close>, and the two fields the reducer adds
  later (\<^verbatim>\<open>detectorWaivers\<close>, \<^verbatim>\<open>message\<close>). A field that is copied from an event is a
  \<open>jsval\<close>, since events are not typed; lists only the reducer builds are lists. The clock and
  \<^verbatim>\<open>Date.parse\<close> (whose result is up to the host for most inputs) are the argument \<open>host\<close>.
\<close>

section \<open>The snapshot\<close>

record host =
  h_now :: int
  h_iso :: string
  h_date_parse :: "jsval \<Rightarrow> jsnum"

record snapshot =
  sn_id :: string
  sn_phase :: jsval
  sn_pageUrl :: jsval
  sn_sourceFile :: jsval
  sn_previewFile :: jsval
  sn_previewMode :: jsval
  sn_expectedVariants :: jsval
  sn_arrivedVariants :: jsval
  sn_visibleVariant :: jsval
  sn_paramValues :: props
  sn_pendingEventSeq :: jsval
  sn_pendingEvent :: jsval
  sn_deliveryLease :: jsval
  sn_checkpointRevision :: jsval
  sn_browserCheckpointRevision :: jsval
  sn_publicationCheckpointRevision :: jsval
  sn_activeOwner :: jsval
  sn_sourceMarkers :: props
  sn_fallbackMode :: jsval
  sn_generationPhase :: jsval
  sn_generationCompletedAt :: jsval
  sn_generationTimings :: props
  sn_variantPlan :: jsval
  sn_generationCanceled :: bool
  sn_generationCanceledAt :: jsval
  sn_cancelReason :: jsval
  sn_annotationArtifacts :: "jsval list"
  sn_mountedVariants :: "int list"
  sn_mountFailures :: "jsval list"
  sn_renderState :: jsval
  sn_diagnostics :: "jsval list"
  sn_updatedAt :: jsval
  sn_detectorWaivers :: "jsval list option"
  sn_message :: jsval

definition baseSnapshot :: "string \<Rightarrow> snapshot" where
  "baseSnapshot i = \<lparr>
     sn_id = i, sn_phase = JStr ''new'', sn_pageUrl = JNull, sn_sourceFile = JNull,
     sn_previewFile = JNull, sn_previewMode = JNull, sn_expectedVariants = jint 0,
     sn_arrivedVariants = jint 0, sn_visibleVariant = JNull, sn_paramValues = [],
     sn_pendingEventSeq = JNull, sn_pendingEvent = JNull, sn_deliveryLease = JNull,
     sn_checkpointRevision = jint 0, sn_browserCheckpointRevision = jint 0,
     sn_publicationCheckpointRevision = jint 0, sn_activeOwner = JNull, sn_sourceMarkers = [],
     sn_fallbackMode = JNull, sn_generationPhase = JNull, sn_generationCompletedAt = JNull,
     sn_generationTimings = [], sn_variantPlan = JNull, sn_generationCanceled = False,
     sn_generationCanceledAt = JNull, sn_cancelReason = JNull, sn_annotationArtifacts = [],
     sn_mountedVariants = [], sn_mountFailures = [], sn_renderState = JNull,
     sn_diagnostics = [], sn_updatedAt = JNull, sn_detectorWaivers = None, sn_message = JUndef \<rparr>"

definition MOUNT_FAILURE_HISTORY :: nat where "MOUNT_FAILURE_HISTORY = 5"

definition deriveRenderState :: "snapshot \<Rightarrow> jsval" where
  "deriveRenderState s =
     (if sn_mountedVariants s \<noteq> [] then JStr ''mounted''
      else if sn_mountFailures s \<noteq> [] then JStr ''failed''
      else if truthy (sn_generationCompletedAt s) then JStr ''pending''
      else JNull)"

definition toPendingEvent :: "jsval \<Rightarrow> jsval" where
  "toPendingEvent event = JObj (obj_delete (own_props event) ''token'')"

definition upsertArtifact :: "jsval list \<Rightarrow> jsval \<Rightarrow> jsval list" where
  "upsertArtifact artifacts artifact =
     (if \<not> list_ex (\<lambda>existing. strict_eq (dot existing ''path'') (dot artifact ''path'')
                        \<and> strict_eq (dot existing ''type'') (dot artifact ''type'')) artifacts
      then artifacts @ [artifact] else artifacts)"

section \<open>Helpers of the reducer's cases\<close>

definition generation_fenced :: "snapshot \<Rightarrow> bool" where
  "generation_fenced s =
     (sn_generationCanceled s \<or> has_str GENERATION_FENCED_SESSION_PHASES (sn_phase s))"

definition push_diag :: "props \<Rightarrow> snapshot \<Rightarrow> snapshot" where
  "push_diag d s = s\<lparr>sn_diagnostics := sn_diagnostics s @ [JObj d]\<rparr>"

text \<open>\<^verbatim>\<open>Date.parse(entry.ts || '')\<close>, and \<^verbatim>\<open>event.at ?? (Date.parse(entry.ts || '') || Date.now())\<close>.\<close>

definition entry_time :: "host \<Rightarrow> jsval \<Rightarrow> jsval" where
  "entry_time h entry = JNum (h_date_parse h (js_or (dot entry ''ts'') (JStr [])))"

definition event_at :: "host \<Rightarrow> jsval \<Rightarrow> jsval \<Rightarrow> jsval" where
  "event_at h entry event = coalesce (dot event ''at'') (js_or (entry_time h entry) (jint (h_now h)))"

text \<open>\<^verbatim>\<open>next.pendingEventSeq = entry.seq ?? next.pendingEventSeq; next.pendingEvent = toPendingEvent(event)\<close>.\<close>

definition set_pending :: "jsval \<Rightarrow> jsval \<Rightarrow> snapshot \<Rightarrow> snapshot" where
  "set_pending entry event s =
     s\<lparr>sn_pendingEventSeq := coalesce (dot entry ''seq'') (sn_pendingEventSeq s),
       sn_pendingEvent := toPendingEvent event\<rparr>"

definition clear_pending :: "snapshot \<Rightarrow> snapshot" where
  "clear_pending s = s\<lparr>sn_pendingEventSeq := JNull, sn_pendingEvent := JNull\<rparr>"

text \<open>The three file fields: \<^verbatim>\<open>previewFile\<close> and \<^verbatim>\<open>previewMode\<close>, with the given source file.\<close>

definition set_files :: "jsval \<Rightarrow> jsval \<Rightarrow> snapshot \<Rightarrow> snapshot" where
  "set_files src event s =
     s\<lparr>sn_sourceFile := coalesce src (sn_sourceFile s),
       sn_previewFile := coalesce (dot event ''previewFile'') (sn_previewFile s),
       sn_previewMode := coalesce (dot event ''previewMode'') (sn_previewMode s)\<rparr>"

section \<open>The cases of \<^verbatim>\<open>applyEvent\<close>\<close>

definition apply_generate :: "jsval \<Rightarrow> jsval \<Rightarrow> snapshot \<Rightarrow> snapshot" where
  "apply_generate entry event n =
     (let n1 = set_pending entry event
                 (n\<lparr>sn_phase := JStr ''generate_requested'',
                    sn_pageUrl := coalesce (dot event ''pageUrl'') (sn_pageUrl n),
                    sn_expectedVariants := coalesce (dot event ''count'') (sn_expectedVariants n)\<rparr>);
          n2 = n1\<lparr>sn_variantPlan := JNull, sn_mountedVariants := [], sn_mountFailures := [],
                  sn_renderState := JNull\<rparr>
      in if truthy (dot event ''screenshotPath'')
         then n2\<lparr>sn_annotationArtifacts := upsertArtifact (sn_annotationArtifacts n2)
                   (JObj [(''type'', JStr ''screenshot''), (''path'', dot event ''screenshotPath'')])\<rparr>
         else n2)"

definition apply_variant_plan :: "jsval \<Rightarrow> snapshot \<Rightarrow> snapshot" where
  "apply_variant_plan event n =
     (if \<not> generation_fenced n
      then n\<lparr>sn_variantPlan := coalesce (dot event ''plan'') (sn_variantPlan n)\<rparr> else n)"

definition apply_detector_waivers :: "jsval \<Rightarrow> snapshot \<Rightarrow> snapshot" where
  "apply_detector_waivers event n =
     (if \<not> generation_fenced n
      then n\<lparr>sn_detectorWaivers := Some ((case sn_detectorWaivers n of Some ws \<Rightarrow> ws | None \<Rightarrow> [])
                @ arr_elems (dot event ''waivers''))\<rparr>
      else n)"

definition apply_agent_phase :: "host \<Rightarrow> jsval \<Rightarrow> jsval \<Rightarrow> snapshot \<Rightarrow> snapshot" where
  "apply_agent_phase h entry event n =
     (let n1 = n\<lparr>sn_generationPhase := coalesce (dot event ''phase'') (sn_generationPhase n)\<rparr>
      in if truthy (dot event ''phase'')
         then n1\<lparr>sn_generationTimings := obj_set (sn_generationTimings n1) (js_text (dot event ''phase''))
                (JObj [(''at'', coalesce (dot event ''at'') (js_or (entry_time h entry) JNull)),
                       (''durationMs'', coalesce (dot event ''durationMs'') JNull)])\<rparr>
         else n1)"

text \<open>
  \<^verbatim>\<open>variants_ready\<close> and \<^verbatim>\<open>agent_done\<close>: a late one is refused, unless it is the carbonize
  acknowledgement of the accept that is under way.
\<close>

definition ready_refused :: "jsval \<Rightarrow> snapshot \<Rightarrow> bool" where
  "ready_refused event n =
     (generation_fenced n
      \<and> \<not> (dot event ''type'' = JStr ''agent_done'' \<and> dot event ''carbonize'' = JBool True
           \<and> sn_phase n = JStr ''accept_requested''))"

definition ready_accepted :: "host \<Rightarrow> jsval \<Rightarrow> jsval \<Rightarrow> snapshot \<Rightarrow> snapshot" where
  "ready_accepted h entry event n =
     (let carbonize = (dot event ''carbonize'' = JBool True);
          n1 = n\<lparr>sn_phase := JStr (if carbonize then ''carbonize_required'' else ''variants_ready''),
                 sn_generationCompletedAt := event_at h entry event\<rparr>;
          n2 = set_files (coalesce (dot event ''sourceFile'') (dot event ''file'')) event n1;
          n3 = clear_pending (n2\<lparr>sn_arrivedVariants :=
                 coalesce (dot event ''arrivedVariants'')
                   (js_or (js_or (sn_expectedVariants n2) (sn_arrivedVariants n2)) (jint 0))\<rparr>);
          n4 = (if carbonize
                then push_diag [(''error'', JStr ''carbonize_cleanup_required''),
                       (''file'', js_or (dot event ''file'') JNull),
                       (''message'', JStr ''Accepted variant still has carbonize markers that must be folded into source CSS.'')] n3
                else n3)
      in n4\<lparr>sn_renderState := deriveRenderState n4\<rparr>)"

definition apply_ready :: "host \<Rightarrow> jsval \<Rightarrow> jsval \<Rightarrow> snapshot \<Rightarrow> snapshot" where
  "apply_ready h entry event n =
     (if ready_refused event n
      then push_diag [(''error'', JStr ''late_generation_event_ignored''),
                      (''type'', dot event ''type''), (''phase'', sn_phase n)] n
      else ready_accepted h entry event n)"

text \<open>\<^verbatim>\<open>Number(event.variant)\<close> when it is an integer from 1 on.\<close>

definition mount_variant :: "jsval \<Rightarrow> int option" where
  "mount_variant event = (case to_number (dot event ''variant'') of
      Fin q \<Rightarrow> if is_integral q \<and> \<not> q < 1 then Some \<lfloor>q\<rfloor> else None
    | _ \<Rightarrow> None)"

definition malformed_mount_ack :: "jsval \<Rightarrow> props" where
  "malformed_mount_ack event =
     [(''error'', JStr ''malformed_mount_ack''), (''type'', dot event ''type''),
      (''variant'', coalesce (dot event ''variant'') JNull)]"

definition apply_variant_mounted :: "jsval \<Rightarrow> snapshot \<Rightarrow> snapshot" where
  "apply_variant_mounted event n = (case mount_variant event of
      None \<Rightarrow> push_diag (malformed_mount_ack event) n
    | Some v \<Rightarrow>
       (let n1 = (if v \<notin> set (sn_mountedVariants n)
                  then n\<lparr>sn_mountedVariants := sort (sn_mountedVariants n @ [v])\<rparr> else n)
        in n1\<lparr>sn_renderState := deriveRenderState n1\<rparr>))"

definition keep_last :: "nat \<Rightarrow> 'a list \<Rightarrow> 'a list" where
  "keep_last k xs = drop (length xs - k) xs"

definition str_or_null :: "jsval \<Rightarrow> jsval" where
  "str_or_null v = (if is_str v then v else JNull)"

definition apply_variant_mount_failed :: "host \<Rightarrow> jsval \<Rightarrow> jsval \<Rightarrow> snapshot \<Rightarrow> snapshot" where
  "apply_variant_mount_failed h entry event n = (case mount_variant event of
      None \<Rightarrow> push_diag (malformed_mount_ack event) n
    | Some v \<Rightarrow>
       (let failure = JObj [(''variant'', jint v), (''url'', str_or_null (dot event ''url'')),
                            (''error'', str_or_null (dot event ''error'')),
                            (''at'', event_at h entry event)];
            n1 = n\<lparr>sn_mountFailures := keep_last MOUNT_FAILURE_HISTORY (sn_mountFailures n @ [failure])\<rparr>;
            n2 = n1\<lparr>sn_renderState := deriveRenderState n1\<rparr>
        in if \<not> truthy (sn_pendingEvent n2)
           then n2\<lparr>sn_pendingEvent := toPendingEvent event\<rparr> else n2))"

definition publication_domain :: "jsval \<Rightarrow> bool" where
  "publication_domain event =
     (dot event ''revisionDomain'' = JStr ''publication''
      \<or> (dot event ''reason'' = JStr ''variants_progress'' \<and> \<not> truthy (dot event ''owner'')))"

definition current_revision :: "bool \<Rightarrow> snapshot \<Rightarrow> jsval" where
  "current_revision pub n =
     (if pub then coalesce (coalesce (sn_publicationCheckpointRevision n) (jint 0)) (jint 0)
      else coalesce (coalesce (sn_browserCheckpointRevision n) (sn_checkpointRevision n)) (jint 0))"

text \<open>A checkpoint of the publication domain, and one of the browser domain, that is not stale.\<close>

definition apply_checkpoint_fields :: "bool \<Rightarrow> jsval \<Rightarrow> snapshot \<Rightarrow> snapshot" where
  "apply_checkpoint_fields pub event n =
     (let rev' = coalesce (dot event ''revision'') (current_revision pub n);
          n1 = n\<lparr>sn_phase := coalesce (dot event ''phase'') (sn_phase n)\<rparr>;
          n2 = (if pub then n1\<lparr>sn_publicationCheckpointRevision := rev'\<rparr>
                else n1\<lparr>sn_browserCheckpointRevision := rev',
                        sn_checkpointRevision := coalesce (dot event ''revision'') (sn_checkpointRevision n1),
                        sn_activeOwner := coalesce (dot event ''owner'') (sn_activeOwner n1)\<rparr>);
          n3 = n2\<lparr>sn_arrivedVariants := coalesce (dot event ''arrivedVariants'') (sn_arrivedVariants n2)\<rparr>;
          n4 = (if pub then n3
                else n3\<lparr>sn_visibleVariant := coalesce (dot event ''visibleVariant'') (sn_visibleVariant n3)\<rparr>);
          n5 = set_files (dot event ''sourceFile'') event n4
      in if \<not> pub \<and> truthy (dot event ''paramValues'')
         then n5\<lparr>sn_paramValues := own_props (dot event ''paramValues'')\<rparr> else n5)"

definition apply_checkpoint :: "jsval \<Rightarrow> snapshot \<Rightarrow> snapshot" where
  "apply_checkpoint event n =
     (if generation_fenced n
      then push_diag [(''error'', JStr ''checkpoint_after_terminal_ignored''),
                      (''phase'', coalesce (dot event ''phase'') JNull),
                      (''revision'', coalesce (dot event ''revision'') JNull)] n
      else
       (let pub = publication_domain event in
        if js_ge (coalesce (dot event ''revision'') (jint 0)) (current_revision pub n)
        then apply_checkpoint_fields pub event n
        else push_diag [(''error'', JStr ''stale_checkpoint_ignored''),
                        (''revision'', dot event ''revision''),
                        (''revisionDomain'', JStr (if pub then ''publication'' else ''browser''))] n))"

definition apply_accept :: "host \<Rightarrow> jsval \<Rightarrow> jsval \<Rightarrow> snapshot \<Rightarrow> snapshot" where
  "apply_accept h entry event n =
     (let n1 = n\<lparr>sn_phase := JStr ''accept_requested'', sn_generationCanceled := True,
                 sn_generationCanceledAt := event_at h entry event, sn_cancelReason := JStr ''accept'',
                 sn_visibleVariant := JNum (to_number (coalesce (dot event ''variantId'') (sn_visibleVariant n)))\<rparr>;
          n2 = (if truthy (dot event ''paramValues'')
                then n1\<lparr>sn_paramValues := own_props (dot event ''paramValues'')\<rparr> else n1)
      in set_pending entry event n2)"

text \<open>\<^verbatim>\<open>manual_edit_apply\<close> and \<^verbatim>\<open>steer\<close> differ in the phase only.\<close>

definition apply_request :: "string \<Rightarrow> jsval \<Rightarrow> jsval \<Rightarrow> snapshot \<Rightarrow> snapshot" where
  "apply_request ph entry event n =
     set_pending entry event
       (n\<lparr>sn_phase := JStr ph, sn_pageUrl := coalesce (dot event ''pageUrl'') (sn_pageUrl n)\<rparr>)"

definition apply_carbonize_cleanup :: "jsval \<Rightarrow> jsval \<Rightarrow> snapshot \<Rightarrow> snapshot" where
  "apply_carbonize_cleanup entry event n =
     set_pending entry event
       (n\<lparr>sn_phase := JStr ''carbonize_cleanup_requested'',
          sn_sourceFile := coalesce (dot event ''file'') (sn_sourceFile n)\<rparr>)"

definition apply_steer_done :: "jsval \<Rightarrow> snapshot \<Rightarrow> snapshot" where
  "apply_steer_done event n =
     (let n1 = set_files (coalesce (dot event ''sourceFile'') (dot event ''file'')) event
                 (n\<lparr>sn_phase := JStr ''steer_done''\<rparr>)
      in clear_pending (n1\<lparr>sn_message := coalesce (dot event ''message'') (sn_message n1)\<rparr>))"

definition apply_discard :: "host \<Rightarrow> jsval \<Rightarrow> jsval \<Rightarrow> snapshot \<Rightarrow> snapshot" where
  "apply_discard h entry event n =
     set_pending entry event
       (n\<lparr>sn_phase := JStr ''discard_requested'', sn_generationCanceled := True,
          sn_generationCanceledAt := event_at h entry event, sn_cancelReason := JStr ''discard''\<rparr>)"

definition apply_discarded :: "snapshot \<Rightarrow> snapshot" where
  "apply_discarded n = clear_pending (n\<lparr>sn_phase := JStr ''discarded''\<rparr>)"

definition apply_complete :: "jsval \<Rightarrow> snapshot \<Rightarrow> snapshot" where
  "apply_complete event n =
     clear_pending (set_files (coalesce (dot event ''sourceFile'') (dot event ''file'')) event
       (n\<lparr>sn_phase := JStr ''completed''\<rparr>))"

definition apply_agent_error :: "jsval \<Rightarrow> snapshot \<Rightarrow> snapshot" where
  "apply_agent_error event n =
     (if sn_generationCanceled n \<and> dot event ''sourceEventType'' = JStr ''generate''
      then push_diag [(''error'', JStr ''late_generation_event_ignored''),
                      (''type'', dot event ''type''), (''phase'', sn_phase n)] n
      else push_diag [(''error'', JStr ''agent_error''),
                      (''message'', js_or (dot event ''message'') (JStr ''unknown agent error''))]
             (clear_pending (n\<lparr>sn_phase := JStr ''agent_error''\<rparr>)))"

text \<open>The copy every case starts from.\<close>

definition next_base :: "host \<Rightarrow> jsval \<Rightarrow> snapshot \<Rightarrow> snapshot" where
  "next_base h entry s =
     s\<lparr>sn_variantPlan := js_or (sn_variantPlan s) JNull,
       sn_renderState := coalesce (sn_renderState s) JNull,
       sn_updatedAt := js_or (dot entry ''ts'') (JStr (h_iso h))\<rparr>"

definition entry_event :: "jsval \<Rightarrow> jsval" where
  "entry_event entry = js_or (dot entry ''event'') entry"

definition apply_by_type :: "host \<Rightarrow> jsval \<Rightarrow> jsval \<Rightarrow> snapshot \<Rightarrow> snapshot" where
  "apply_by_type h entry event =
     (let t = dot event ''type'' in
      if t = JStr ''generate'' then apply_generate entry event
      else if t = JStr ''variant_plan'' then apply_variant_plan event
      else if t = JStr ''detector_waivers'' then apply_detector_waivers event
      else if t = JStr ''agent_phase'' then apply_agent_phase h entry event
      else if t = JStr ''variants_ready'' \<or> t = JStr ''agent_done'' then apply_ready h entry event
      else if t = JStr ''variant_mounted'' then apply_variant_mounted event
      else if t = JStr ''variant_mount_failed'' then apply_variant_mount_failed h entry event
      else if t = JStr ''checkpoint'' then apply_checkpoint event
      else if t = JStr ''accept'' \<or> t = JStr ''accept_intent'' then apply_accept h entry event
      else if t = JStr ''manual_edit_apply'' then apply_request ''manual_edit_apply_requested'' entry event
      else if t = JStr ''steer'' then apply_request ''steer_requested'' entry event
      else if t = JStr ''carbonize_cleanup'' then apply_carbonize_cleanup entry event
      else if t = JStr ''steer_done'' then apply_steer_done event
      else if t = JStr ''discard'' then apply_discard h entry event
      else if t = JStr ''discarded'' then apply_discarded
      else if t = JStr ''complete'' then apply_complete event
      else if t = JStr ''agent_error'' then apply_agent_error event
      else push_diag [(''error'', JStr ''unknown_event_type''), (''type'', t)])"

definition applyEvent :: "host \<Rightarrow> snapshot \<Rightarrow> jsval \<Rightarrow> snapshot" where
  "applyEvent h s entry = apply_by_type h entry (entry_event entry) (next_base h entry s)"

section \<open>Case analysis of the reducer\<close>

lemmas reducer_helper_defs =
  set_pending_def clear_pending_def set_files_def push_diag_def Let_def

lemmas reducer_case_defs =
  apply_generate_def apply_variant_plan_def apply_detector_waivers_def apply_agent_phase_def
  apply_ready_def ready_accepted_def apply_variant_mounted_def apply_variant_mount_failed_def
  apply_checkpoint_def apply_checkpoint_fields_def apply_accept_def apply_request_def
  apply_carbonize_cleanup_def apply_steer_done_def apply_discard_def apply_discarded_def
  apply_complete_def apply_agent_error_def reducer_helper_defs

lemma apply_by_type_rule:
  assumes "dot event ''type'' = JStr ''generate'' \<Longrightarrow> P (apply_generate entry event)"
    and "dot event ''type'' = JStr ''variant_plan'' \<Longrightarrow> P (apply_variant_plan event)"
    and "dot event ''type'' = JStr ''detector_waivers'' \<Longrightarrow> P (apply_detector_waivers event)"
    and "dot event ''type'' = JStr ''agent_phase'' \<Longrightarrow> P (apply_agent_phase h entry event)"
    and "dot event ''type'' \<in> {JStr ''variants_ready'', JStr ''agent_done''} \<Longrightarrow>
         P (apply_ready h entry event)"
    and "dot event ''type'' = JStr ''variant_mounted'' \<Longrightarrow> P (apply_variant_mounted event)"
    and "dot event ''type'' = JStr ''variant_mount_failed'' \<Longrightarrow>
         P (apply_variant_mount_failed h entry event)"
    and "dot event ''type'' = JStr ''checkpoint'' \<Longrightarrow> P (apply_checkpoint event)"
    and "dot event ''type'' \<in> {JStr ''accept'', JStr ''accept_intent''} \<Longrightarrow>
         P (apply_accept h entry event)"
    and "dot event ''type'' = JStr ''manual_edit_apply'' \<Longrightarrow>
         P (apply_request ''manual_edit_apply_requested'' entry event)"
    and "dot event ''type'' = JStr ''steer'' \<Longrightarrow> P (apply_request ''steer_requested'' entry event)"
    and "dot event ''type'' = JStr ''carbonize_cleanup'' \<Longrightarrow> P (apply_carbonize_cleanup entry event)"
    and "dot event ''type'' = JStr ''steer_done'' \<Longrightarrow> P (apply_steer_done event)"
    and "dot event ''type'' = JStr ''discard'' \<Longrightarrow> P (apply_discard h entry event)"
    and "dot event ''type'' = JStr ''discarded'' \<Longrightarrow> P apply_discarded"
    and "dot event ''type'' = JStr ''complete'' \<Longrightarrow> P (apply_complete event)"
    and "dot event ''type'' = JStr ''agent_error'' \<Longrightarrow> P (apply_agent_error event)"
    and "\<not> has_str JOURNAL_EVENT_TYPES (dot event ''type'') \<Longrightarrow>
         P (push_diag [(''error'', JStr ''unknown_event_type''), (''type'', dot event ''type'')])"
  shows "P (apply_by_type h entry event)"
  using assms unfolding apply_by_type_def Let_def
  by (simp add: has_str_iff JOURNAL_EVENT_TYPES_def)

section \<open>Diagnostics are a log that no case reads\<close>

definition add_diags :: "jsval list \<Rightarrow> snapshot \<Rightarrow> snapshot" where
  "add_diags d n = n\<lparr>sn_diagnostics := d @ sn_diagnostics n\<rparr>"

definition diag_log :: "(snapshot \<Rightarrow> snapshot) \<Rightarrow> bool" where
  "diag_log f \<longleftrightarrow> (\<forall>n d. f (add_diags d n) = add_diags d (f n))"

lemma add_diags_sel [simp]:
  "sn_phase (add_diags d n) = sn_phase n"
  "sn_sourceFile (add_diags d n) = sn_sourceFile n"
  "sn_previewFile (add_diags d n) = sn_previewFile n"
  "sn_previewMode (add_diags d n) = sn_previewMode n"
  "sn_arrivedVariants (add_diags d n) = sn_arrivedVariants n"
  "sn_expectedVariants (add_diags d n) = sn_expectedVariants n"
  "sn_visibleVariant (add_diags d n) = sn_visibleVariant n"
  "sn_paramValues (add_diags d n) = sn_paramValues n"
  "sn_checkpointRevision (add_diags d n) = sn_checkpointRevision n"
  "sn_browserCheckpointRevision (add_diags d n) = sn_browserCheckpointRevision n"
  "sn_publicationCheckpointRevision (add_diags d n) = sn_publicationCheckpointRevision n"
  "sn_activeOwner (add_diags d n) = sn_activeOwner n"
  by (simp_all add: add_diags_def)

lemma add_diags_upd [simp]:
  "(add_diags d n)\<lparr>sn_phase := x0\<rparr> = add_diags d (n\<lparr>sn_phase := x0\<rparr>)"
  "(add_diags d n)\<lparr>sn_sourceFile := x1\<rparr> = add_diags d (n\<lparr>sn_sourceFile := x1\<rparr>)"
  "(add_diags d n)\<lparr>sn_previewFile := x2\<rparr> = add_diags d (n\<lparr>sn_previewFile := x2\<rparr>)"
  "(add_diags d n)\<lparr>sn_previewMode := x3\<rparr> = add_diags d (n\<lparr>sn_previewMode := x3\<rparr>)"
  "(add_diags d n)\<lparr>sn_arrivedVariants := x4\<rparr> = add_diags d (n\<lparr>sn_arrivedVariants := x4\<rparr>)"
  "(add_diags d n)\<lparr>sn_expectedVariants := x5\<rparr> = add_diags d (n\<lparr>sn_expectedVariants := x5\<rparr>)"
  "(add_diags d n)\<lparr>sn_visibleVariant := x6\<rparr> = add_diags d (n\<lparr>sn_visibleVariant := x6\<rparr>)"
  "(add_diags d n)\<lparr>sn_paramValues := x7\<rparr> = add_diags d (n\<lparr>sn_paramValues := x7\<rparr>)"
  "(add_diags d n)\<lparr>sn_checkpointRevision := x8\<rparr> = add_diags d (n\<lparr>sn_checkpointRevision := x8\<rparr>)"
  "(add_diags d n)\<lparr>sn_browserCheckpointRevision := x9\<rparr> = add_diags d (n\<lparr>sn_browserCheckpointRevision := x9\<rparr>)"
  "(add_diags d n)\<lparr>sn_publicationCheckpointRevision := x10\<rparr> = add_diags d (n\<lparr>sn_publicationCheckpointRevision := x10\<rparr>)"
  "(add_diags d n)\<lparr>sn_activeOwner := x11\<rparr> = add_diags d (n\<lparr>sn_activeOwner := x11\<rparr>)"
  by (simp_all add: add_diags_def)

lemma add_diags_reads [simp]:
  "generation_fenced (add_diags d n) = generation_fenced n"
  "deriveRenderState (add_diags d n) = deriveRenderState n"
  "current_revision p (add_diags d n) = current_revision p n"
  by (simp_all add: generation_fenced_def deriveRenderState_def current_revision_def add_diags_def)

lemma add_diags_helpers [simp]:
  "push_diag x (add_diags d n) = add_diags d (push_diag x n)"
  "set_files f e (add_diags d n) = add_diags d (set_files f e n)"
  "clear_pending (add_diags d n) = add_diags d (clear_pending n)"
  "set_pending en e (add_diags d n) = add_diags d (set_pending en e n)"
  by (simp_all add: add_diags_def reducer_helper_defs)

lemma ready_accepted_diags:
  "ready_accepted h entry event (add_diags d n) = add_diags d (ready_accepted h entry event n)"
  unfolding ready_accepted_def Let_def add_diags_def
  by (cases "dot event ''carbonize'' = JBool True")
     (simp_all add: push_diag_def clear_pending_def set_files_def deriveRenderState_def)

lemma checkpoint_fields_diags:
  "apply_checkpoint_fields p event (add_diags d n) = add_diags d (apply_checkpoint_fields p event n)"
  by (cases p) (simp_all add: apply_checkpoint_fields_def Let_def)

lemma diag_log_cases [intro!]:
  "diag_log (apply_generate entry event)"
  "diag_log (apply_variant_plan event)"
  "diag_log (apply_detector_waivers event)"
  "diag_log (apply_agent_phase h entry event)"
  "diag_log (apply_variant_mounted event)"
  "diag_log (apply_variant_mount_failed h entry event)"
  "diag_log (apply_accept h entry event)"
  "diag_log (apply_request ph entry event)"
  "diag_log (apply_carbonize_cleanup entry event)"
  "diag_log (apply_steer_done event)"
  "diag_log (apply_discard h entry event)"
  "diag_log apply_discarded"
  "diag_log (apply_complete event)"
  "diag_log (apply_agent_error event)"
  "diag_log (push_diag x)"
  by (simp_all add: diag_log_def add_diags_def reducer_case_defs deriveRenderState_def
        generation_fenced_def split: option.split)

lemma diag_log_ready [intro!]: "diag_log (apply_ready h entry event)"
  unfolding diag_log_def
proof (intro allI)
  fix n d
  have "ready_refused event (add_diags d n) = ready_refused event n"
    by (simp add: ready_refused_def)
  then show "apply_ready h entry event (add_diags d n) = add_diags d (apply_ready h entry event n)"
    by (cases "ready_refused event n") (simp_all add: apply_ready_def ready_accepted_diags)
qed

lemma diag_log_checkpoint [intro!]: "diag_log (apply_checkpoint event)"
  by (simp add: diag_log_def apply_checkpoint_def checkpoint_fields_diags Let_def)

lemma diag_log_by_type: "diag_log (apply_by_type h entry event)"
  by (rule apply_by_type_rule) auto

lemma applyEvent_add_diags:
  "applyEvent h (add_diags d s) entry = add_diags d (applyEvent h s entry)"
proof -
  have "next_base h entry (add_diags d s) = add_diags d (next_base h entry s)"
    by (simp add: next_base_def add_diags_def)
  then show ?thesis
    using diag_log_by_type [of h entry "entry_event entry"] by (simp add: applyEvent_def diag_log_def)
qed

section \<open>What every event keeps\<close>

lemma next_base_sel [simp]:
  "sn_generationCanceled (next_base h entry s) = sn_generationCanceled s"
  "sn_phase (next_base h entry s) = sn_phase s"
  "sn_diagnostics (next_base h entry s) = sn_diagnostics s"
  "sn_generationCompletedAt (next_base h entry s) = sn_generationCompletedAt s"
  "sn_pendingEvent (next_base h entry s) = sn_pendingEvent s"
  "sn_mountedVariants (next_base h entry s) = sn_mountedVariants s"
  "sn_mountFailures (next_base h entry s) = sn_mountFailures s"
  "sn_browserCheckpointRevision (next_base h entry s) = sn_browserCheckpointRevision s"
  "sn_publicationCheckpointRevision (next_base h entry s) = sn_publicationCheckpointRevision s"
  "sn_checkpointRevision (next_base h entry s) = sn_checkpointRevision s"
  "sn_id (next_base h entry s) = sn_id s"
  "generation_fenced (next_base h entry s) = generation_fenced s"
  by (simp_all add: next_base_def generation_fenced_def)

lemma applyEvent_id [simp]: "sn_id (applyEvent h s entry) = sn_id s"
proof -
  have "sn_id (apply_by_type h entry event n) = sn_id n" for event n
    by (rule apply_by_type_rule [where P = "\<lambda>f. sn_id (f n) = sn_id n"])
       (simp_all add: reducer_case_defs split: option.split)
  then show ?thesis by (simp add: applyEvent_def)
qed

lemma applyEvent_canceled_mono:
  assumes "sn_generationCanceled s"
  shows "sn_generationCanceled (applyEvent h s entry)"
proof -
  have "sn_generationCanceled (apply_by_type h entry event n)" if "sn_generationCanceled n" for event n
    using that
    by (intro apply_by_type_rule [where P = "\<lambda>f. sn_generationCanceled (f n)"])
       (simp_all add: reducer_case_defs split: option.split)
  with assms show ?thesis by (simp add: applyEvent_def)
qed

section \<open>The well-formedness invariant\<close>

text \<open>
  The mounted variants are an increasing list of positive numbers, at most
  \<^verbatim>\<open>MOUNT_FAILURE_HISTORY\<close> failures are kept, the render state agrees with both, and the event
  held for redelivery carries no session token.
\<close>

definition snapshot_wf :: "snapshot \<Rightarrow> bool" where
  "snapshot_wf s \<longleftrightarrow>
     sorted (sn_mountedVariants s) \<and> distinct (sn_mountedVariants s) \<and>
     (\<forall>v \<in> set (sn_mountedVariants s). 1 \<le> v) \<and>
     length (sn_mountFailures s) \<le> MOUNT_FAILURE_HISTORY \<and>
     (sn_renderState s = JStr ''mounted'' \<longleftrightarrow> sn_mountedVariants s \<noteq> []) \<and>
     (sn_renderState s = JStr ''failed'' \<longleftrightarrow> sn_mountedVariants s = [] \<and> sn_mountFailures s \<noteq> []) \<and>
     dot (sn_pendingEvent s) ''token'' = JUndef"

lemma toPendingEvent_token [simp]: "dot (toPendingEvent event) ''token'' = JUndef"
  unfolding toPendingEvent_def dot_obj_delete by simp

lemma length_keep_last: "length (keep_last k xs) \<le> k"
  by (simp add: keep_last_def)

lemma keep_last_eq_Nil [simp]: "0 < k \<Longrightarrow> keep_last k xs = [] \<longleftrightarrow> xs = []"
  by (cases xs) (auto simp: keep_last_def)

lemma mount_variant_pos: "mount_variant event = Some v \<Longrightarrow> 1 \<le> v"
  by (auto simp: mount_variant_def le_floor_iff split: jsnum.splits if_splits)

lemma deriveRenderState_cases:
  "deriveRenderState s = JStr ''mounted'' \<longleftrightarrow> sn_mountedVariants s \<noteq> []"
  "deriveRenderState s = JStr ''failed'' \<longleftrightarrow> sn_mountedVariants s = [] \<and> sn_mountFailures s \<noteq> []"
  by (simp_all add: deriveRenderState_def)

lemma wf_generate: "snapshot_wf n \<Longrightarrow> snapshot_wf (apply_generate entry event n)"
  by (simp add: snapshot_wf_def apply_generate_def set_pending_def Let_def del: dot.simps)

lemma wf_ready_accepted: "snapshot_wf n \<Longrightarrow> snapshot_wf (ready_accepted h entry event n)"
  by (simp add: snapshot_wf_def ready_accepted_def reducer_helper_defs deriveRenderState_cases)

lemma wf_ready: "snapshot_wf n \<Longrightarrow> snapshot_wf (apply_ready h entry event n)"
  by (auto simp: apply_ready_def wf_ready_accepted)
     (simp add: snapshot_wf_def push_diag_def)

lemma wf_variant_mounted: "snapshot_wf n \<Longrightarrow> snapshot_wf (apply_variant_mounted event n)"
  by (auto simp: snapshot_wf_def apply_variant_mounted_def push_diag_def Let_def
        deriveRenderState_cases dest: mount_variant_pos split: option.splits)

lemma wf_variant_mount_failed: "snapshot_wf n \<Longrightarrow> snapshot_wf (apply_variant_mount_failed h entry event n)"
  by (auto simp: snapshot_wf_def apply_variant_mount_failed_def push_diag_def Let_def
        deriveRenderState_cases length_keep_last MOUNT_FAILURE_HISTORY_def
        simp del: dot.simps split: option.splits)

lemma wf_checkpoint: "snapshot_wf n \<Longrightarrow> snapshot_wf (apply_checkpoint event n)"
  by (simp add: snapshot_wf_def apply_checkpoint_def apply_checkpoint_fields_def reducer_helper_defs)

lemma wf_accept: "snapshot_wf n \<Longrightarrow> snapshot_wf (apply_accept h entry event n)"
  by (simp add: snapshot_wf_def apply_accept_def set_pending_def Let_def del: dot.simps)

lemma wf_others:
  assumes "snapshot_wf n"
  shows "snapshot_wf (apply_variant_plan event n)"
    and "snapshot_wf (apply_detector_waivers event n)"
    and "snapshot_wf (apply_agent_phase h entry event n)"
    and "snapshot_wf (apply_request ph entry event n)"
    and "snapshot_wf (apply_carbonize_cleanup entry event n)"
    and "snapshot_wf (apply_steer_done event n)"
    and "snapshot_wf (apply_discard h entry event n)"
    and "snapshot_wf (apply_discarded n)"
    and "snapshot_wf (apply_complete event n)"
    and "snapshot_wf (apply_agent_error event n)"
    and "snapshot_wf (push_diag d n)"
  using assms by (simp_all add: snapshot_wf_def reducer_case_defs del: dot.simps) simp_all

lemmas wf_cases = wf_generate wf_ready wf_variant_mounted wf_variant_mount_failed wf_checkpoint
  wf_accept wf_others

lemma snapshot_wf_base: "snapshot_wf (baseSnapshot i)"
  by (simp add: snapshot_wf_def baseSnapshot_def)

lemma applyEvent_wf:
  assumes "snapshot_wf s"
  shows "snapshot_wf (applyEvent h s entry)"
proof -
  have base: "snapshot_wf (next_base h entry s)"
    using assms by (auto simp: snapshot_wf_def next_base_def coalesce_def)
  have "snapshot_wf (apply_by_type h entry event n)" if "snapshot_wf n" for event n
    using that by (intro apply_by_type_rule [where P = "\<lambda>f. snapshot_wf (f n)"]) (simp_all add: wf_cases)
  with base show ?thesis by (simp add: applyEvent_def)
qed

section \<open>The fence around a cancelled generation\<close>

text \<open>The late writes of a generation: everything an agent or a resumed page may still send.\<close>

definition late_generation_write :: "jsval \<Rightarrow> snapshot \<Rightarrow> bool" where
  "late_generation_write event s \<longleftrightarrow>
     (has_str [''variant_plan'', ''detector_waivers'', ''checkpoint''] (dot event ''type'') \<or>
      has_str [''variants_ready'', ''agent_done''] (dot event ''type'') \<and> ready_refused event s)"

lemma ready_refused_next_base [simp]:
  "ready_refused event (next_base h entry s) = ready_refused event s"
  by (simp add: ready_refused_def)

text \<open>\<open>m\<close> is \<open>n\<close> with diagnostics appended.\<close>

definition diag_only :: "snapshot \<Rightarrow> snapshot \<Rightarrow> bool" where
  "diag_only n m \<longleftrightarrow> (\<exists>d. m = n\<lparr>sn_diagnostics := sn_diagnostics n @ d\<rparr>)"

lemma diag_only_refl [simp]: "diag_only n n"
  by (auto simp: diag_only_def intro: exI [of _ "[]"])

lemma diag_only_push [simp]: "diag_only n (push_diag d n)"
  by (auto simp: diag_only_def push_diag_def)

lemma fenced_cases:
  assumes "generation_fenced n"
  shows "apply_variant_plan event n = n" "apply_detector_waivers event n = n"
    "diag_only n (apply_checkpoint event n)"
    "ready_refused event n \<Longrightarrow> diag_only n (apply_ready h entry event n)"
  using assms by (simp_all add: apply_variant_plan_def apply_detector_waivers_def
      apply_checkpoint_def apply_ready_def)

lemma applyEvent_fenced:
  assumes "generation_fenced s" and "late_generation_write (entry_event entry) s"
  shows "diag_only (next_base h entry s) (applyEvent h s entry)"
proof -
  let ?n = "next_base h entry s" and ?ev = "entry_event entry"
  have fenced: "generation_fenced ?n" using assms(1) by simp
  have "dot ?ev ''type'' \<in> {JStr ''variant_plan'', JStr ''detector_waivers'', JStr ''checkpoint''} \<or>
    dot ?ev ''type'' \<in> {JStr ''variants_ready'', JStr ''agent_done''} \<and> ready_refused ?ev ?n"
    using assms(2) by (simp add: late_generation_write_def has_str_iff)
  then have "diag_only ?n (apply_by_type h entry ?ev ?n)"
    by (elim disjE conjE insertE emptyE)
       (simp_all add: apply_by_type_def fenced_cases [OF fenced])
  then show ?thesis by (simp add: applyEvent_def)
qed

section \<open>Checkpoint revisions\<close>

definition int_revisions :: "snapshot \<Rightarrow> int \<Rightarrow> int \<Rightarrow> bool" where
  "int_revisions s b p \<longleftrightarrow> sn_browserCheckpointRevision s = jint b \<and>
     sn_publicationCheckpointRevision s = jint p"

definition int_revision_event :: "jsval \<Rightarrow> bool" where
  "int_revision_event event \<longleftrightarrow> nullish (dot event ''revision'') \<or> num_is_integer (dot event ''revision'')"

lemma nullish_jint [simp]: "\<not> nullish (jint b)"
  by simp

lemma checkpoint_revisions:
  assumes r: "int_revisions n b p" and i: "int_revision_event event"
  shows "\<exists>b' p'. int_revisions (apply_checkpoint event n) b' p' \<and> b \<le> b' \<and> p \<le> p'"
proof -
  have b: "sn_browserCheckpointRevision n = jint b" and p: "sn_publicationCheckpointRevision n = jint p"
    using r by (simp_all add: int_revisions_def)
  consider (none) "nullish (dot event ''revision'')" | (int) k where "dot event ''revision'' = jint k"
    using i by (auto simp: int_revision_event_def elim: num_is_integerE)
  then show ?thesis
  proof cases
    case none
    then have "int_revisions (apply_checkpoint event n) b p"
      using b p by (auto simp: int_revisions_def apply_checkpoint_def apply_checkpoint_fields_def
          reducer_helper_defs coalesce_def current_revision_def)
    then show ?thesis by blast
  next
    case (int k)
    then show ?thesis
      using b p by (auto simp: int_revisions_def apply_checkpoint_def apply_checkpoint_fields_def
          reducer_helper_defs coalesce_def current_revision_def)
  qed
qed

lemma applyEvent_revisions:
  assumes "int_revisions s b p" and "int_revision_event (entry_event entry)"
  shows "\<exists>b' p'. int_revisions (applyEvent h s entry) b' p' \<and> b \<le> b' \<and> p \<le> p'"
proof -
  let ?n = "next_base h entry s" and ?ev = "entry_event entry"
  have n: "int_revisions ?n b p" using assms(1) by (simp add: int_revisions_def)
  then have same: "\<exists>b' p'. int_revisions m b' p' \<and> b \<le> b' \<and> p \<le> p'"
    if "sn_browserCheckpointRevision m = sn_browserCheckpointRevision ?n"
      "sn_publicationCheckpointRevision m = sn_publicationCheckpointRevision ?n" for m
    using that by (auto simp: int_revisions_def)
  show ?thesis unfolding applyEvent_def
    by (rule apply_by_type_rule
         [where P = "\<lambda>f. \<exists>b' p'. int_revisions (f ?n) b' p' \<and> b \<le> b' \<and> p \<le> p'"];
        (rule checkpoint_revisions [OF n assms(2)])?;
        rule same; simp add: reducer_case_defs split: option.split)
qed

lemma publication_checkpoint_frame:
  assumes "publication_domain event"
  shows "sn_browserCheckpointRevision (apply_checkpoint event n) = sn_browserCheckpointRevision n"
    and "sn_checkpointRevision (apply_checkpoint event n) = sn_checkpointRevision n"
    and "sn_activeOwner (apply_checkpoint event n) = sn_activeOwner n"
    and "sn_visibleVariant (apply_checkpoint event n) = sn_visibleVariant n"
    and "sn_paramValues (apply_checkpoint event n) = sn_paramValues n"
  using assms by (simp_all add: apply_checkpoint_def apply_checkpoint_fields_def reducer_helper_defs)

section \<open>Completion of a generation\<close>

text \<open>An event without a time, or with a time that is not falsy, and a clock past zero.\<close>

definition dated_event :: "host \<Rightarrow> jsval \<Rightarrow> bool" where
  "dated_event h event \<longleftrightarrow> h_now h \<noteq> 0 \<and> (nullish (dot event ''at'') \<or> truthy (dot event ''at''))"

lemma event_at_truthy: "dated_event h event \<Longrightarrow> truthy (event_at h entry event)"
  by (auto simp: dated_event_def event_at_def coalesce_def js_or_def)

lemma applyEvent_completed_mono:
  assumes "truthy (sn_generationCompletedAt s)" and "dated_event h (entry_event entry)"
  shows "truthy (sn_generationCompletedAt (applyEvent h s entry))"
proof -
  have "truthy (sn_generationCompletedAt (apply_by_type h entry (entry_event entry) n))"
    if "truthy (sn_generationCompletedAt n)" for n
    using that event_at_truthy [OF assms(2)]
    by (intro apply_by_type_rule [where P = "\<lambda>f. truthy (sn_generationCompletedAt (f n))"])
       (simp_all add: reducer_case_defs split: option.split)
  with assms(1) show ?thesis by (simp add: applyEvent_def)
qed

section \<open>The clock and replay\<close>

text \<open>An entry whose own time stamp parses makes the reducer independent of the clock.\<close>

definition stamped_entry :: "host \<Rightarrow> jsval \<Rightarrow> bool" where
  "stamped_entry h entry \<longleftrightarrow> truthy (dot entry ''ts'') \<and> truthy (entry_time h entry)"

lemma applyEvent_clock:
  assumes "stamped_entry h entry" and "h_date_parse h' = h_date_parse h"
  shows "applyEvent h' s entry = applyEvent h s entry"
proof -
  have time: "entry_time h' entry = entry_time h entry"
    using assms(2) by (simp add: entry_time_def)
  then have at: "event_at h' entry event = event_at h entry event" for event
    using assms(1) by (simp add: event_at_def stamped_entry_def js_or_def)
  have base: "next_base h' entry s = next_base h entry s"
    using assms(1) by (simp add: next_base_def stamped_entry_def js_or_def)
  have "apply_by_type h' entry event = apply_by_type h entry event" for event
    unfolding apply_by_type_def apply_agent_phase_def [abs_def] apply_ready_def [abs_def]
      ready_accepted_def [abs_def] apply_variant_mount_failed_def [abs_def]
      apply_accept_def [abs_def] apply_discard_def [abs_def] time at ..
  then show ?thesis by (simp add: applyEvent_def base)
qed

section \<open>Agreement with the vocabulary and the validator\<close>

lemma applyEvent_unknown:
  assumes "\<not> has_str JOURNAL_EVENT_TYPES (dot (entry_event entry) ''type'')"
  shows "applyEvent h s entry =
    push_diag [(''error'', JStr ''unknown_event_type''), (''type'', dot (entry_event entry) ''type'')]
      (next_base h entry s)"
  using assms
  by (auto simp: applyEvent_def apply_by_type_def has_str_iff JOURNAL_EVENT_TYPES_def Let_def)

lemma int_between_iff: "int_between lo hi v \<longleftrightarrow> (\<exists>n. v = jint n \<and> lo \<le> n \<and> n \<le> hi)"
proof
  assume a: "int_between lo hi v"
  then obtain n where "v = jint n" by (auto simp: int_between_def elim: num_is_integerE)
  with a show "\<exists>n. v = jint n \<and> lo \<le> n \<and> n \<le> hi" by (auto simp: int_between_def)
qed (auto simp: int_between_def)

lemma mount_variant_valid:
  assumes "isValidMountVariant (dot event ''variant'')"
  shows "\<exists>v. mount_variant event = Some v \<and> 1 \<le> v \<and> v \<le> 999"
  using assms by (auto simp: isValidMountVariant_def int_between_iff mount_variant_def)

end
