(* ===== verification/Session_Json.thy ===== *)
theory Session_Json
  imports Session_Reducer
begin

text \<open>
  What a value, and a session snapshot, is after a round trip through JSON, and the proof that the
  reducer keeps snapshots in the fragment that survives one. The snapshot file of the session store
  (\<^verbatim>\<open>readSnapshotFile\<close> and \<^verbatim>\<open>writeSnapshot\<close> in \<^verbatim>\<open>scripts/live/session-store.mjs\<close>) is
  sound because of that.
\<close>

section \<open>JSON round trips\<close>

text \<open>
  \<^verbatim>\<open>JSON.parse(JSON.stringify(v))\<close>, \<open>None\<close> where \<^verbatim>\<open>stringify\<close> gives \<^verbatim>\<open>undefined\<close>:
  undefined properties vanish, undefined elements and numbers that are not finite become null.
\<close>

fun json_val :: "jsval \<Rightarrow> jsval option" where
  "json_val JUndef = None"
| "json_val JNull = Some JNull"
| "json_val (JBool b) = Some (JBool b)"
| "json_val (JNum (Fin q)) = Some (JNum (Fin q))"
| "json_val (JNum _) = Some JNull"
| "json_val (JStr s) = Some (JStr s)"
| "json_val (JArr xs) = Some (JArr (map (\<lambda>x. case json_val x of None \<Rightarrow> JNull | Some y \<Rightarrow> y) xs))"
| "json_val (JObj kvs) =
     Some (JObj (concat (map (\<lambda>kv. case json_val (snd kv) of None \<Rightarrow> [] | Some y \<Rightarrow> [(fst kv, y)]) kvs)))"

definition json_field :: "jsval \<Rightarrow> jsval \<Rightarrow> jsval" where
  "json_field base v = (case json_val v of None \<Rightarrow> base | Some y \<Rightarrow> y)"

definition json_props :: "props \<Rightarrow> props" where
  "json_props kvs = concat (map (\<lambda>kv. case json_val (snd kv) of None \<Rightarrow> [] | Some y \<Rightarrow> [(fst kv, y)]) kvs)"

definition json_elems :: "jsval list \<Rightarrow> jsval list" where
  "json_elems xs = map (\<lambda>x. case json_val x of None \<Rightarrow> JNull | Some y \<Rightarrow> y) xs"

text \<open>
  The snapshot a reader gets back: the fields of the parsed file over those of
  \<^verbatim>\<open>baseSnapshot(id)\<close>, so that a field that vanished has its base value.
\<close>

definition json_snapshot :: "string \<Rightarrow> snapshot \<Rightarrow> snapshot" where
  "json_snapshot i s =
     (let b = baseSnapshot i in s\<lparr>
        sn_phase := json_field (sn_phase b) (sn_phase s),
        sn_pageUrl := json_field (sn_pageUrl b) (sn_pageUrl s),
        sn_sourceFile := json_field (sn_sourceFile b) (sn_sourceFile s),
        sn_previewFile := json_field (sn_previewFile b) (sn_previewFile s),
        sn_previewMode := json_field (sn_previewMode b) (sn_previewMode s),
        sn_expectedVariants := json_field (sn_expectedVariants b) (sn_expectedVariants s),
        sn_arrivedVariants := json_field (sn_arrivedVariants b) (sn_arrivedVariants s),
        sn_visibleVariant := json_field (sn_visibleVariant b) (sn_visibleVariant s),
        sn_paramValues := json_props (sn_paramValues s),
        sn_pendingEventSeq := json_field (sn_pendingEventSeq b) (sn_pendingEventSeq s),
        sn_pendingEvent := json_field (sn_pendingEvent b) (sn_pendingEvent s),
        sn_deliveryLease := json_field (sn_deliveryLease b) (sn_deliveryLease s),
        sn_checkpointRevision := json_field (sn_checkpointRevision b) (sn_checkpointRevision s),
        sn_browserCheckpointRevision :=
          json_field (sn_browserCheckpointRevision b) (sn_browserCheckpointRevision s),
        sn_publicationCheckpointRevision :=
          json_field (sn_publicationCheckpointRevision b) (sn_publicationCheckpointRevision s),
        sn_activeOwner := json_field (sn_activeOwner b) (sn_activeOwner s),
        sn_sourceMarkers := json_props (sn_sourceMarkers s),
        sn_fallbackMode := json_field (sn_fallbackMode b) (sn_fallbackMode s),
        sn_generationPhase := json_field (sn_generationPhase b) (sn_generationPhase s),
        sn_generationCompletedAt := json_field (sn_generationCompletedAt b) (sn_generationCompletedAt s),
        sn_generationTimings := json_props (sn_generationTimings s),
        sn_variantPlan := json_field (sn_variantPlan b) (sn_variantPlan s),
        sn_generationCanceledAt := json_field (sn_generationCanceledAt b) (sn_generationCanceledAt s),
        sn_cancelReason := json_field (sn_cancelReason b) (sn_cancelReason s),
        sn_annotationArtifacts := json_elems (sn_annotationArtifacts s),
        sn_mountFailures := json_elems (sn_mountFailures s),
        sn_renderState := json_field (sn_renderState b) (sn_renderState s),
        sn_diagnostics := json_elems (sn_diagnostics s),
        sn_updatedAt := json_field (sn_updatedAt b) (sn_updatedAt s),
        sn_detectorWaivers := map_option json_elems (sn_detectorWaivers s),
        sn_message := json_field (sn_message b) (sn_message s)\<rparr>)"

section \<open>Values that survive JSON\<close>

definition json_clean :: "jsval \<Rightarrow> bool" where
  "json_clean v \<longleftrightarrow> json_val v = Some v"

definition clean_field :: "jsval \<Rightarrow> bool" where
  "clean_field v \<longleftrightarrow> v = JUndef \<or> json_clean v"

definition clean_props :: "props \<Rightarrow> bool" where
  "clean_props kvs \<longleftrightarrow> list_all (\<lambda>kv. json_clean (snd kv)) kvs"

lemma json_clean_simps [simp]:
  "\<not> json_clean JUndef" "json_clean JNull" "json_clean (JBool b)" "json_clean (JStr s)"
  "json_clean (JNum (Fin q))" "\<not> json_clean (JNum NaN)" "\<not> json_clean (JNum PosInf)"
  "\<not> json_clean (JNum NegInf)"
  by (simp_all add: json_clean_def)

lemma json_props_clean: "clean_props kvs \<Longrightarrow> json_props kvs = kvs"
  by (induction kvs) (auto simp: json_props_def clean_props_def json_clean_def)

lemma json_props_shape: "json_props kvs = kvs \<Longrightarrow> clean_props kvs"
proof (induction kvs)
  case (Cons kv kvs)
  have len: "length (json_props xs) \<le> length xs" for xs
    by (induction xs) (auto simp: json_props_def split: option.splits)
  obtain y where y: "json_val (snd kv) = Some y"
  proof (cases "json_val (snd kv)")
    case None
    with Cons.prems have "json_props kvs = kv # kvs" by (simp add: json_props_def)
    with len [of kvs] show ?thesis by simp
  qed
  with Cons show ?case by (cases kv) (auto simp: json_props_def clean_props_def json_clean_def)
qed (simp add: clean_props_def)

lemma json_clean_JObj [simp]: "json_clean (JObj kvs) \<longleftrightarrow> clean_props kvs"
  using json_props_clean json_props_shape by (auto simp: json_clean_def json_props_def [symmetric])

lemma json_elems_clean: "list_all json_clean xs \<Longrightarrow> json_elems xs = xs"
  by (induction xs) (auto simp: json_elems_def json_clean_def)

lemma json_clean_JArr [simp]: "json_clean (JArr xs) \<longleftrightarrow> list_all json_clean xs"
proof
  assume "json_clean (JArr xs)"
  then have "json_elems xs = xs" by (simp add: json_clean_def json_elems_def)
  then show "list_all json_clean xs"
  proof (induction xs)
    case (Cons x xs)
    then have "json_val x = Some x \<or> (json_val x = None \<and> x = JNull)"
      by (auto simp: json_elems_def split: option.splits)
    then show ?case using Cons by (auto simp: json_elems_def json_clean_def)
  qed simp
next
  assume "list_all json_clean xs"
  then show "json_clean (JArr xs)" using json_elems_clean [of xs]
    by (simp add: json_clean_def json_elems_def)
qed

lemma clean_props_Nil [simp]: "clean_props []"
  by (simp add: clean_props_def)

lemma clean_props_Cons [simp]: "clean_props (kv # kvs) \<longleftrightarrow> json_clean (snd kv) \<and> clean_props kvs"
  by (simp add: clean_props_def)

lemma clean_props_obj_set: "clean_props kvs \<Longrightarrow> json_clean v \<Longrightarrow> clean_props (obj_set kvs k v)"
  by (induction kvs k v rule: obj_set.induct) auto

lemma clean_props_delete: "clean_props kvs \<Longrightarrow> clean_props (obj_delete kvs k)"
  by (induction kvs) (auto simp: obj_delete_def)

lemma clean_dot: "json_clean v \<Longrightarrow> clean_field (dot v k)"
proof (cases v)
  case (JObj kvs)
  moreover assume "json_clean v"
  ultimately have "\<forall>x. map_of kvs k = Some x \<longrightarrow> json_clean x"
    by (fastforce simp: clean_props_def list_all_iff dest: map_of_SomeD)
  with JObj show ?thesis by (auto simp: clean_field_def split: option.splits)
qed (auto simp: clean_field_def)

lemma clean_coalesce: "clean_field a \<Longrightarrow> json_clean b \<Longrightarrow> json_clean (coalesce a b)"
  by (auto simp: coalesce_def clean_field_def)

lemma clean_coalesce_field: "clean_field a \<Longrightarrow> clean_field b \<Longrightarrow> clean_field (coalesce a b)"
  by (auto simp: coalesce_def clean_field_def)

lemma clean_js_or: "clean_field a \<Longrightarrow> json_clean b \<Longrightarrow> json_clean (js_or a b)"
  by (auto simp: js_or_def clean_field_def)

lemma clean_own_props: "clean_field v \<Longrightarrow> clean_props (own_props v)"
proof (cases v)
  case (JArr xs)
  moreover assume "clean_field v"
  ultimately have "\<forall>x \<in> set xs. json_clean x" by (simp add: clean_field_def list_all_iff)
  with JArr show ?thesis
    by (auto simp: clean_props_def list_all_iff indexed_props_def dest: set_zip_rightD)
next
  case (JStr s)
  then show ?thesis
    by (auto simp: clean_props_def list_all_iff indexed_props_def dest!: set_zip_rightD)
qed (auto simp: clean_field_def)

lemma clean_toPendingEvent: "json_clean event \<Longrightarrow> json_clean (toPendingEvent event)"
  by (simp add: toPendingEvent_def clean_props_delete clean_own_props clean_field_def)

lemma clean_arr_elems: "clean_field v \<Longrightarrow> list_all json_clean (arr_elems v)"
  by (cases v) (auto simp: clean_field_def)

section \<open>Snapshots that survive JSON\<close>

definition snapshot_clean :: "snapshot \<Rightarrow> bool" where
  "snapshot_clean s \<longleftrightarrow>
     json_clean (sn_phase s) \<and> json_clean (sn_pageUrl s) \<and> 
     json_clean (sn_sourceFile s) \<and> json_clean (sn_previewFile s) \<and> 
     json_clean (sn_previewMode s) \<and> json_clean (sn_expectedVariants s) \<and> 
     json_clean (sn_arrivedVariants s) \<and> json_clean (sn_visibleVariant s) \<and> 
     json_clean (sn_pendingEventSeq s) \<and> json_clean (sn_pendingEvent s) \<and> 
     json_clean (sn_deliveryLease s) \<and> json_clean (sn_checkpointRevision s) \<and> 
     json_clean (sn_browserCheckpointRevision s) \<and> 
     json_clean (sn_publicationCheckpointRevision s) \<and> json_clean (sn_activeOwner s) \<and> 
     json_clean (sn_fallbackMode s) \<and> json_clean (sn_generationPhase s) \<and> 
     json_clean (sn_generationCompletedAt s) \<and> json_clean (sn_variantPlan s) \<and> 
     json_clean (sn_generationCanceledAt s) \<and> json_clean (sn_cancelReason s) \<and> 
     json_clean (sn_renderState s) \<and> json_clean (sn_updatedAt s) \<and> 
     clean_props (sn_paramValues s) \<and> clean_props (sn_sourceMarkers s) \<and> 
     clean_props (sn_generationTimings s) \<and> 
     list_all json_clean (sn_annotationArtifacts s) \<and> 
     list_all json_clean (sn_mountFailures s) \<and> list_all json_clean (sn_diagnostics s) \<and> 
     clean_field (sn_message s) \<and> 
     (\<forall>ws. sn_detectorWaivers s = Some ws \<longrightarrow> list_all json_clean ws)"

lemma json_snapshot_clean:
  assumes "snapshot_clean s"
  shows "json_snapshot i s = s"
proof -
  have f: "json_field b v = v" if "json_clean v" for b v
    using that by (simp add: json_field_def json_clean_def)
  have m: "json_field JUndef v = v" if "clean_field v" for v
    using that f by (auto simp: clean_field_def json_field_def)
  have w: "map_option json_elems (sn_detectorWaivers s) = sn_detectorWaivers s"
    using assms by (cases "sn_detectorWaivers s") (auto simp: snapshot_clean_def json_elems_clean)
  show ?thesis
    using assms w by (simp add: snapshot_clean_def json_snapshot_def f m json_props_clean
        json_elems_clean baseSnapshot_def)
qed

text \<open>The events whose effect survives: JSON values, with the revision and variant id the validator asks for.\<close>

definition event_clean :: "jsval \<Rightarrow> bool" where
  "event_clean event \<longleftrightarrow> json_clean event \<and> is_str (dot event ''type'') \<and>
     (dot event ''type'' = JStr ''checkpoint'' \<longrightarrow> dot event ''revision'' \<noteq> JUndef) \<and>
     (has_str [''accept'', ''accept_intent''] (dot event ''type'') \<longrightarrow>
        isValidVariantId (dot event ''variantId''))"

definition finite_dates :: "host \<Rightarrow> bool" where
  "finite_dates h \<longleftrightarrow> (\<forall>v. h_date_parse h v \<noteq> PosInf \<and> h_date_parse h v \<noteq> NegInf)"

lemma clean_entry_time:
  assumes "finite_dates h" and "json_clean b"
  shows "json_clean (js_or (entry_time h entry) b)"
proof -
  have "h_date_parse h v \<noteq> PosInf" "h_date_parse h v \<noteq> NegInf" for v
    using assms(1) by (simp_all add: finite_dates_def)
  with assms(2) show ?thesis
    by (cases "h_date_parse h (js_or (dot entry ''ts'') (JStr []))")
       (auto simp: js_or_def entry_time_def)
qed

lemma clean_event_at: "finite_dates h \<Longrightarrow> json_clean event \<Longrightarrow> json_clean (event_at h entry event)"
  unfolding event_at_def by (intro clean_coalesce clean_dot clean_entry_time) simp_all

lemma digits_not_special:
  assumes "list_all is_digit s" and "s \<noteq> []"
  shows "trim s = s" "\<not> starts_with s ''0x''" "\<not> starts_with s ''0X''" "\<not> starts_with s ''0o''"
    "\<not> starts_with s ''0O''" "\<not> starts_with s ''0b''" "\<not> starts_with s ''0B''"
    "\<not> starts_with s ''-''" "\<not> starts_with s ''+''" "s \<noteq> ''Infinity''"
proof -
  obtain c cs where s: "s = c # cs" using assms(2) by (cases s) auto
  have nws: "\<not> is_ws x" if "x \<in> set s" for x
    using assms(1) that by (auto simp: list_all_iff is_digit_def is_ws_def Let_def)
  have "dropWhile is_ws s = s" using nws s by simp
  moreover have "dropWhile is_ws (rev s) = rev s"
    using nws by (cases "rev s") (simp, metis dropWhile.simps(2) list.set_intros(1) set_rev)
  ultimately show "trim s = s" by (simp add: trim_def)
  show "\<not> starts_with s ''-''" "\<not> starts_with s ''+''" "s \<noteq> ''Infinity''"
    using assms(1) s by (auto simp: is_digit_def)
  show "\<not> starts_with s ''0x''" "\<not> starts_with s ''0X''" "\<not> starts_with s ''0o''"
    "\<not> starts_with s ''0O''" "\<not> starts_with s ''0b''" "\<not> starts_with s ''0B''"
    using assms(1) s by (cases cs; auto simp: is_digit_def)+
qed

lemma str_to_number_digits:
  assumes "list_all is_digit s" and "s \<noteq> []"
  shows "str_to_number s = Fin (of_nat (digits_val s))"
proof -
  have t: "takeWhile is_digit s = s" and d: "dropWhile is_digit s = []"
    using assms(1) by (auto simp: list_all_iff)
  have "parse_udecimal s = Fin (of_nat (digits_val s))"
    using assms(2) by (simp add: parse_udecimal_def parse_exponent_def ten_to_def t d)
  then show ?thesis
    using assms(2) digits_not_special [OF assms] by (simp add: str_to_number_def)
qed

lemma clean_variant_number:
  assumes "isValidVariantId v"
  shows "json_clean (JNum (to_number v))"
proof (cases v)
  case (JStr s)
  with assms have "list_all is_digit s" "s \<noteq> []" by (auto simp: matches_VARIANT_ID_PATTERN_def)
  with JStr show ?thesis by (simp add: str_to_number_digits)
qed (use assms in auto)

lemmas clean_intros = clean_coalesce clean_coalesce_field clean_js_or clean_dot clean_own_props
  clean_toPendingEvent clean_arr_elems clean_props_obj_set clean_event_at clean_entry_time

lemma clean_fieldI [simp]: "json_clean v \<Longrightarrow> clean_field v"
  by (simp add: clean_field_def)

lemma list_all_keep_last: "list_all P xs \<Longrightarrow> list_all P (keep_last k xs)"
  by (auto simp: keep_last_def list_all_iff dest: in_set_dropD)

lemma clean_deriveRenderState [simp]: "json_clean (deriveRenderState s)"
  by (simp add: deriveRenderState_def)

lemma clean_helpers:
  assumes "snapshot_clean n"
  shows "json_clean entry \<Longrightarrow> json_clean event \<Longrightarrow> snapshot_clean (set_pending entry event n)"
    and "snapshot_clean (clear_pending n)"
    and "clean_field src \<Longrightarrow> json_clean event \<Longrightarrow> snapshot_clean (set_files src event n)"
    and "clean_props d \<Longrightarrow> snapshot_clean (push_diag d n)"
    and "json_clean v \<Longrightarrow> snapshot_clean (n\<lparr>sn_phase := v\<rparr>)"
  using assms by (simp_all add: snapshot_clean_def reducer_helper_defs clean_intros)

lemma clean_generate:
  assumes "snapshot_clean n" "json_clean entry" "json_clean event"
  shows "snapshot_clean (apply_generate entry event n)"
proof -
  have "json_clean (dot event ''screenshotPath'')" if "truthy (dot event ''screenshotPath'')"
    using that clean_dot [OF assms(3), of "''screenshotPath''"] by (auto simp: clean_field_def)
  with assms show ?thesis
    by (auto simp: apply_generate_def Let_def upsertArtifact_def snapshot_clean_def set_pending_def
        clean_intros)
qed

lemma clean_agent_phase:
  assumes "snapshot_clean n" "finite_dates h" "json_clean event"
  shows "snapshot_clean (apply_agent_phase h entry event n)"
  using assms by (simp add: apply_agent_phase_def Let_def snapshot_clean_def clean_intros)

lemma clean_plan_waivers:
  assumes "snapshot_clean n" "json_clean event"
  shows "snapshot_clean (apply_variant_plan event n)"
    and "snapshot_clean (apply_detector_waivers event n)"
  using assms by (auto simp: apply_variant_plan_def apply_detector_waivers_def snapshot_clean_def
      clean_intros split: option.splits)

lemma clean_ready:
  assumes "snapshot_clean n" "finite_dates h" "json_clean event"
    and "json_clean (dot event ''type'')"
  shows "snapshot_clean (apply_ready h entry event n)"
proof -
  have "json_clean (sn_phase n)" using assms(1) by (simp add: snapshot_clean_def)
  then have "snapshot_clean (push_diag [(''error'', JStr ''late_generation_event_ignored''),
      (''type'', dot event ''type''), (''phase'', sn_phase n)] n)"
    using assms by (simp add: clean_helpers)
  moreover have "snapshot_clean (ready_accepted h entry event n)"
    using assms(1-3) unfolding ready_accepted_def Let_def
    by (simp add: snapshot_clean_def reducer_helper_defs clean_intros)
  ultimately show ?thesis by (simp add: apply_ready_def)
qed

lemma clean_malformed: "json_clean event \<Longrightarrow> json_clean (dot event ''type'') \<Longrightarrow> clean_props (malformed_mount_ack event)"
  by (simp add: malformed_mount_ack_def clean_intros)

lemma clean_mounts:
  assumes "snapshot_clean n" "finite_dates h" "json_clean event" "json_clean (dot event ''type'')"
  shows "snapshot_clean (apply_variant_mounted event n)"
    and "snapshot_clean (apply_variant_mount_failed h entry event n)"
proof -
  note m = clean_helpers(4) [OF assms(1) clean_malformed [OF assms(3,4)]]
  have s: "json_clean (str_or_null v)" for v by (cases v) (simp_all add: str_or_null_def)
  show "snapshot_clean (apply_variant_mounted event n)"
    using assms(1) m by (auto simp: apply_variant_mounted_def Let_def snapshot_clean_def split: option.split)
  show "snapshot_clean (apply_variant_mount_failed h entry event n)"
    using assms m s by (auto simp: apply_variant_mount_failed_def Let_def snapshot_clean_def
        list_all_keep_last clean_intros split: option.split)
qed

lemma clean_checkpoint:
  assumes "snapshot_clean n" "json_clean event" "dot event ''revision'' \<noteq> JUndef"
  shows "snapshot_clean (apply_checkpoint event n)"
proof -
  have f: "snapshot_clean (apply_checkpoint_fields p event n)" for p
    using assms unfolding apply_checkpoint_fields_def Let_def current_revision_def
    by (cases p) (simp_all add: snapshot_clean_def set_files_def clean_intros)
  have r: "json_clean (dot event ''revision'')"
    using clean_dot [OF assms(2), of "''revision''"] assms(3) by (simp add: clean_field_def)
  show ?thesis using f r assms clean_helpers(4) [OF assms(1)]
    by (simp add: apply_checkpoint_def Let_def clean_intros)
qed

lemma clean_accept:
  assumes "snapshot_clean n" "finite_dates h" "json_clean entry" "json_clean event"
    "isValidVariantId (dot event ''variantId'')"
  shows "snapshot_clean (apply_accept h entry event n)"
proof -
  have "coalesce (dot event ''variantId'') v = dot event ''variantId''" for v
    using assms(5) by (cases "dot event ''variantId''") (simp_all add: coalesce_def)
  then show ?thesis
    using assms clean_variant_number [OF assms(5)]
    by (simp add: apply_accept_def Let_def snapshot_clean_def set_pending_def clean_intros)
qed

lemma clean_rest:
  assumes "snapshot_clean n" "finite_dates h" "json_clean entry" "json_clean event"
    and "json_clean (dot event ''type'')"
  shows "snapshot_clean (apply_request ph entry event n)"
    and "snapshot_clean (apply_carbonize_cleanup entry event n)"
    and "snapshot_clean (apply_steer_done event n)"
    and "snapshot_clean (apply_discard h entry event n)"
    and "snapshot_clean (apply_discarded n)"
    and "snapshot_clean (apply_complete event n)"
    and "snapshot_clean (apply_agent_error event n)"
  using assms by (simp_all add: reducer_case_defs snapshot_clean_def clean_intros)

lemma applyEvent_clean:
  assumes s: "snapshot_clean s" and h: "finite_dates h" and en: "json_clean entry"
    and ev: "event_clean (entry_event entry)"
  shows "snapshot_clean (applyEvent h s entry)"
proof -
  let ?ev = "entry_event entry" and ?n = "next_base h entry s"
  have n: "snapshot_clean ?n"
    using s en by (simp add: next_base_def snapshot_clean_def clean_intros)
  have c: "json_clean ?ev" and t: "json_clean (dot ?ev ''type'')"
    and r: "dot ?ev ''type'' = JStr ''checkpoint'' \<Longrightarrow> dot ?ev ''revision'' \<noteq> JUndef"
    and v: "dot ?ev ''type'' \<in> {JStr ''accept'', JStr ''accept_intent''} \<Longrightarrow> isValidVariantId (dot ?ev ''variantId'')"
    using ev by (auto simp: event_clean_def has_str_iff is_str_iff)
  show ?thesis unfolding applyEvent_def
    by (rule apply_by_type_rule [where P = "\<lambda>f. snapshot_clean (f ?n)"])
       (use n h en c t r v in \<open>simp_all add: clean_generate clean_plan_waivers clean_agent_phase
          clean_ready clean_mounts clean_checkpoint clean_accept clean_rest clean_helpers(4)\<close>)
qed

lemma snapshot_clean_base: "snapshot_clean (baseSnapshot i)"
  by (simp add: snapshot_clean_def baseSnapshot_def clean_field_def)

end
