(* ===== verification/Session_Store.thy ===== *)
theory Session_Store
  imports Session_Json "HOL-Library.Multiset"
begin

text \<open>
  The durable session store (\<^verbatim>\<open>createLiveSessionStore\<close> in
  \<^verbatim>\<open>scripts/live/session-store.mjs\<close>): an append-only journal per session, a snapshot file that
  caches its replay, and an in-memory cache keyed by the journal's path, size and modification time.

  A journal file is a list of newline-terminated lines and possibly an unterminated tail (what a
  writer that died in the middle of a write leaves). A line carries its length in bytes and what
  \<^verbatim>\<open>JSON.parse\<close> makes of it. The text of JSON itself is not modelled: the number of bytes an
  entry takes is the host's \<open>h_json_bytes\<close>, and reading a line back gives \<open>json_val\<close> of the value
  that was written.
\<close>

section \<open>Files\<close>

datatype line_content = Blank | BadJson string | Json jsval

type_synonym jline = "nat \<times> line_content"

record jfile =
  jf_lines :: "jline list"
  jf_tail :: "jline option"
  jf_mtime :: int

record store_host = host +
  h_json_bytes :: "jsval \<Rightarrow> nat"
  h_parse_error :: "jsval \<Rightarrow> string"

text \<open>What \<^verbatim>\<open>JSON.parse\<close> and the metadata checks can tell of a snapshot file.\<close>

datatype snapfile = BadSnap | Snap jsval jsval snapshot

record session_files =
  sf_primary :: "jfile option"
  sf_legacy :: "jfile option"
  sf_snapshot :: "snapfile option"

datatype jpath = Primary | Legacy

record derived =
  d_snapshot :: snapshot
  d_nextSeq :: int
  d_path :: jpath
  d_size :: int
  d_mtime :: int

record store =
  st_files :: "string \<Rightarrow> session_files"
  st_derived :: "string \<Rightarrow> derived option"
  st_sessionId :: jsval

definition jf_size :: "jfile \<Rightarrow> int" where
  "jf_size f = int (sum_list (map fst (jf_lines f)) + (case jf_tail f of None \<Rightarrow> 0 | Some t \<Rightarrow> fst t))"

definition jf_all_lines :: "jfile \<Rightarrow> jline list" where
  "jf_all_lines f = jf_lines f @ (case jf_tail f of None \<Rightarrow> [] | Some t \<Rightarrow> [t])"

text \<open>
  \<^verbatim>\<open>fs.appendFileSync(journalPath, JSON.stringify(entry) + '\n')\<close>. On an unterminated tail the new
  text continues that line, which no longer parses.
\<close>

definition append_line :: "store_host \<Rightarrow> jsval \<Rightarrow> jfile \<Rightarrow> jfile" where
  "append_line h entry f =
     (let b = h_json_bytes h entry in
      (case jf_tail f of
         None \<Rightarrow> f\<lparr>jf_lines := jf_lines f @ [(b, case json_val entry of Some v \<Rightarrow> Json v | None \<Rightarrow> Blank)]\<rparr>
       | Some t \<Rightarrow> f\<lparr>jf_lines := jf_lines f @
                       [(fst t + b, case snd t of
                           Blank \<Rightarrow> (case json_val entry of Some v \<Rightarrow> Json v | None \<Rightarrow> Blank)
                         | _ \<Rightarrow> BadJson (h_parse_error h entry))],
                     jf_tail := None\<rparr>))\<lparr>jf_mtime := h_now h\<rparr>"

definition empty_jfile :: jfile where
  "empty_jfile = \<lparr>jf_lines = [], jf_tail = None, jf_mtime = 0\<rparr>"

section \<open>Session identifiers as path segments\<close>

definition is_session_char :: "char \<Rightarrow> bool" where
  "is_session_char c = (let n = (of_char c :: nat) in
     (65 \<le> n \<and> n \<le> 90) \<or> (97 \<le> n \<and> n \<le> 122) \<or> (48 \<le> n \<and> n \<le> 57) \<or> n = 95 \<or> n = 45)"

definition safe_id_pattern :: "string \<Rightarrow> bool" where
  "safe_id_pattern s = (1 \<le> length s \<and> length s \<le> 128 \<and> list_all is_session_char s)"

definition safeSessionId :: "jsval \<Rightarrow> string js" where
  "safeSessionId v = (case v of
      JStr s \<Rightarrow> if safe_id_pattern s then Inr s else Inl (Thrown (''invalid session id: '' @ s))
    | _ \<Rightarrow> Inl (Thrown (''invalid session id: '' @ js_text v)))"

section \<open>Replaying a journal\<close>

definition journal_parse_failed :: "nat \<Rightarrow> string \<Rightarrow> jsval" where
  "journal_parse_failed i msg =
     JObj [(''error'', JStr ''journal_parse_failed''), (''line'', jint (int i + 1)), (''message'', JStr msg)]"

text \<open>The loop over the lines: the state is the snapshot, the next sequence number and the diagnostics.\<close>

fun replay_lines :: "host \<Rightarrow> nat \<Rightarrow> jline list \<Rightarrow> snapshot \<times> int \<times> jsval list \<Rightarrow> snapshot \<times> int \<times> jsval list"
where
  "replay_lines h i [] st = st"
| "replay_lines h i ((_, Blank) # ls) st = replay_lines h (Suc i) ls st"
| "replay_lines h i ((_, BadJson msg) # ls) (s, sq, ds) =
     replay_lines h (Suc i) ls (s, sq, ds @ [journal_parse_failed i msg])"
| "replay_lines h i ((_, Json entry) # ls) (s, sq, ds) =
     (if \<not> truthy entry \<or> \<not> typeof_object entry
      then replay_lines h (Suc i) ls (s, sq, ds @ [journal_parse_failed i ''entry is not object''])
      else replay_lines h (Suc i) ls
             (applyEvent h s entry,
              (case dot entry ''seq'' of
                 JNum (Fin q) \<Rightarrow> if is_integral q then max sq (\<lfloor>q\<rfloor> + 1) else sq
               | _ \<Rightarrow> sq),
              ds))"

definition rebuildSnapshotFromJournal :: "host \<Rightarrow> jfile option \<Rightarrow> string \<Rightarrow> snapshot \<times> int" where
  "rebuildSnapshotFromJournal h jf i = (case jf of
      None \<Rightarrow> (baseSnapshot i, 1)
    | Some f \<Rightarrow>
       (let (s, sq, ds) = replay_lines h 0 (jf_all_lines f) (baseSnapshot i, 1, [])
        in (s\<lparr>sn_diagnostics := sn_diagnostics s @ ds\<rparr>, sq)))"

section \<open>The store's operations\<close>

definition getReadableJournalPath :: "session_files \<Rightarrow> jpath" where
  "getReadableJournalPath fs =
     (if sf_primary fs \<noteq> None then Primary else if sf_legacy fs \<noteq> None then Legacy else Primary)"

definition journal_at :: "session_files \<Rightarrow> jpath \<Rightarrow> jfile option" where
  "journal_at fs p = (case p of Primary \<Rightarrow> sf_primary fs | Legacy \<Rightarrow> sf_legacy fs)"

definition stat_size :: "jfile option \<Rightarrow> int" where
  "stat_size jf = (case jf of None \<Rightarrow> -1 | Some f \<Rightarrow> jf_size f)"

definition stat_mtime :: "jfile option \<Rightarrow> int" where
  "stat_mtime jf = (case jf of None \<Rightarrow> -1 | Some f \<Rightarrow> jf_mtime f)"

definition readSnapshotFile :: "snapfile option \<Rightarrow> string \<Rightarrow> int \<Rightarrow> (snapshot \<times> int) option" where
  "readSnapshotFile sf i journalBytes = (case sf of
      Some (Snap bytes sq s) \<Rightarrow>
        if \<not> strict_eq bytes (jint journalBytes) then None
        else (case sq of
            JNum (Fin q) \<Rightarrow> if is_integral q \<and> sn_id s = i then Some (json_snapshot i s, \<lfloor>q\<rfloor>) else None
          | _ \<Rightarrow> None)
    | _ \<Rightarrow> None)"

definition readState :: "host \<Rightarrow> bool \<Rightarrow> string \<Rightarrow> store \<Rightarrow> derived \<times> store" where
  "readState h allowSnapshotFile i st =
     (let fs = st_files st i; p = getReadableJournalPath fs; jf = journal_at fs p;
          size = stat_size jf; mtime = stat_mtime jf;
          rebuilt = (let (s, sq) = rebuildSnapshotFromJournal h jf i
                     in \<lparr>d_snapshot = s, d_nextSeq = sq, d_path = p, d_size = size, d_mtime = mtime\<rparr>);
          entry = (if allowSnapshotFile \<and> jf \<noteq> None
                   then (case readSnapshotFile (sf_snapshot fs) i size of
                           Some (s, sq) \<Rightarrow>
                             \<lparr>d_snapshot = s, d_nextSeq = sq, d_path = p, d_size = size, d_mtime = mtime\<rparr>
                         | None \<Rightarrow> rebuilt)
                   else rebuilt)
      in case st_derived st i of
           Some cached \<Rightarrow>
             if d_path cached = p \<and> d_size cached = size \<and> d_mtime cached = mtime then (cached, st)
             else (entry, st\<lparr>st_derived := (st_derived st)(i \<mapsto> entry)\<rparr>)
         | None \<Rightarrow> (entry, st\<lparr>st_derived := (st_derived st)(i \<mapsto> entry)\<rparr>))"

definition writeSnapshot :: "snapshot \<Rightarrow> int \<Rightarrow> int \<Rightarrow> snapfile" where
  "writeSnapshot s journalBytes sq = Snap (jint journalBytes) (jint sq) s"

definition persist :: "string \<Rightarrow> snapshot \<Rightarrow> int \<Rightarrow> store \<Rightarrow> store" where
  "persist i s sq st =
     (let fs = st_files st i; p = getReadableJournalPath fs; jf = journal_at fs p
      in st\<lparr>st_files := (st_files st)(i := fs\<lparr>sf_snapshot := Some (writeSnapshot s (stat_size jf) sq)\<rparr>),
            st_derived := (st_derived st)(i \<mapsto>
              \<lparr>d_snapshot = s, d_nextSeq = sq, d_path = p, d_size = stat_size jf, d_mtime = stat_mtime jf\<rparr>)\<rparr>)"

definition normalizeEvent :: "jsval \<Rightarrow> jsval \<Rightarrow> jsval js" where
  "normalizeEvent event fallbackId =
     (if \<not> truthy event \<or> \<not> typeof_object event then Inl (Thrown ''event object required'')
      else (let i = js_or (dot event ''id'') fallbackId in
        if \<not> truthy i \<or> \<not> is_str i then Inl (Thrown ''event id required'')
        else if \<not> truthy (dot event ''type'') \<or> \<not> is_str (dot event ''type'')
          then Inl (Thrown ''event type required'')
        else Inr (JObj (obj_set (own_props event) ''id'' i))))"

text \<open>The primary journal is first copied from the legacy one where only that exists.\<close>

definition adopt_legacy :: "host \<Rightarrow> string \<Rightarrow> store \<Rightarrow> store" where
  "adopt_legacy h i st =
     (let fs = st_files st i in
      if sf_primary fs = None \<and> sf_legacy fs \<noteq> None
      then st\<lparr>st_files := (st_files st)(i := fs\<lparr>sf_primary := map_option (\<lambda>f. f\<lparr>jf_mtime := h_now h\<rparr>) (sf_legacy fs)\<rparr>),
              st_derived := (st_derived st)(i := None)\<rparr>
      else st)"

definition append_to_primary :: "store_host \<Rightarrow> jsval \<Rightarrow> session_files \<Rightarrow> session_files" where
  "append_to_primary h entry fs =
     fs\<lparr>sf_primary := Some (append_line h entry
          (case sf_primary fs of Some f \<Rightarrow> f | None \<Rightarrow> empty_jfile))\<rparr>"

definition journal_entry :: "host \<Rightarrow> int \<Rightarrow> jsval \<Rightarrow> jsval" where
  "journal_entry h sq normalized =
     JObj [(''seq'', jint sq), (''id'', dot normalized ''id''), (''type'', dot normalized ''type''),
           (''ts'', JStr (h_iso h)), (''event'', normalized)]"

definition append_known :: "store_host \<Rightarrow> string \<Rightarrow> jsval \<Rightarrow> store \<Rightarrow> snapshot \<times> store" where
  "append_known h i normalized st0 =
     (let st1 = adopt_legacy (host.truncate h) i st0;
          (prior, st2) = readState (host.truncate h) True i st1;
          entry = journal_entry (host.truncate h) (d_nextSeq prior) normalized;
          st3 = st2\<lparr>st_files := (st_files st2)(i := append_to_primary h entry (st_files st2 i))\<rparr>;
          next' = applyEvent (host.truncate h) (d_snapshot prior) entry
      in (next', persist i next' (d_nextSeq prior + 1) st3))"

definition appendEvent :: "store_host \<Rightarrow> jsval \<Rightarrow> store \<Rightarrow> (snapshot \<times> store) js" where
  "appendEvent h event st =
     (case normalizeEvent event (st_sessionId st) of
        Inl e \<Rightarrow> Inl e
      | Inr normalized \<Rightarrow>
         (case safeSessionId (dot normalized ''id'') of
            Inl e \<Rightarrow> Inl e
          | Inr i \<Rightarrow> Inr (append_known h i normalized st)))"

definition store_has :: "jsval \<Rightarrow> store \<Rightarrow> bool js" where
  "store_has v st =
     (if \<not> truthy v \<or> \<not> is_str v then Inr False
      else (case safeSessionId v of
          Inl e \<Rightarrow> Inl e
        | Inr i \<Rightarrow> Inr (sf_primary (st_files st i) \<noteq> None \<or> sf_legacy (st_files st i) \<noteq> None)))"

definition getSnapshot :: "host \<Rightarrow> jsval \<Rightarrow> bool \<Rightarrow> store \<Rightarrow> (snapshot option \<times> store) js" where
  "getSnapshot h v includeCompleted st =
     (let v' = (if v = JUndef then st_sessionId st else v) in
      if \<not> truthy v' then Inl (Thrown ''session id required'')
      else (case safeSessionId v' of
          Inl e \<Rightarrow> Inl e
        | Inr i \<Rightarrow>
           (let (d, st') = readState h True i st
            in Inr (if \<not> includeCompleted \<and> has_str COMPLETED_SESSION_PHASES (sn_phase (d_snapshot d))
                    then None else Some (d_snapshot d), st'))))"

definition flush_snapshot :: "host \<Rightarrow> jsval \<Rightarrow> store \<Rightarrow> (snapshot \<times> store) js" where
  "flush_snapshot h v st =
     (let v' = (if v = JUndef then st_sessionId st else v) in
      if \<not> truthy v' then Inl (Thrown ''session id required'')
      else (case safeSessionId v' of
          Inl e \<Rightarrow> Inl e
        | Inr i \<Rightarrow>
           (let (d, st') = readState h False i st
            in Inr (d_snapshot d, persist i (d_snapshot d) (d_nextSeq d) st'))))"

text \<open>
  \<^verbatim>\<open>listActiveSessions\<close>: the ids whose journal either directory holds, sorted by code units, are
  read one after the other, and the ones that are not retired are kept. The directory listings are
  arguments.
\<close>

definition journal_ids :: "string list \<Rightarrow> string list" where
  "journal_ids names = map (\<lambda>n. take (length n - 6) n) (filter (\<lambda>n. ends_with n ''.jsonl'') names)"

fun str_insert :: "string \<Rightarrow> string list \<Rightarrow> string list" where
  "str_insert x [] = [x]"
| "str_insert x (y # ys) = (if str_less y x then y # str_insert x ys else x # y # ys)"

definition str_sort :: "string list \<Rightarrow> string list" where
  "str_sort xs = foldr str_insert xs []"

fun list_active :: "host \<Rightarrow> string list \<Rightarrow> store \<Rightarrow> (snapshot list \<times> store) js" where
  "list_active h [] st = Inr ([], st)"
| "list_active h (i # is) st =
     (case getSnapshot h (JStr i) False st of
        Inl e \<Rightarrow> Inl e
      | Inr (so, st1) \<Rightarrow>
         (case list_active h is st1 of
            Inl e \<Rightarrow> Inl e
          | Inr (ss, st2) \<Rightarrow> Inr ((case so of None \<Rightarrow> ss | Some s \<Rightarrow> s # ss), st2)))"

definition listActiveSessions ::
    "host \<Rightarrow> string list \<Rightarrow> string list \<Rightarrow> store \<Rightarrow> (snapshot list \<times> store) js" where
  "listActiveSessions h legacyNames names st =
     list_active h (str_sort (remdups (journal_ids legacyNames @ journal_ids names))) st"

end
