(* ===== verification/Store_Coherence.thy ===== *)
theory Store_Coherence
  imports Session_Store
begin

text \<open>
  What the session store promises. The abstract state of a session is the replay of its journal; the
  snapshot file and the in-memory caches may only ever describe a prefix of the journal, which a
  matching size shows to be all of it. The theory proves that every operation keeps that invariant,
  also for several processes that share the files, and that an append is one step of the reducer on
  the replayed state. The interface that the rest of the program relies on is the locale
  \<open>event_log\<close>, interpreted here on the store.
\<close>

section \<open>Replay as the specification\<close>

text \<open>The abstract state of a session is the replay of its journal's lines.\<close>

definition replay :: "host \<Rightarrow> string \<Rightarrow> jline list \<Rightarrow> snapshot \<times> int" where
  "replay h i ls = (let (s, sq, ds) = replay_lines h 0 ls (baseSnapshot i, 1, [])
     in (s\<lparr>sn_diagnostics := sn_diagnostics s @ ds\<rparr>, sq))"

definition strip_diags :: "snapshot \<Rightarrow> snapshot" where
  "strip_diags s = s\<lparr>sn_diagnostics := []\<rparr>"

text \<open>Equal up to the order of the diagnostics.\<close>

definition same_snapshot :: "snapshot \<Rightarrow> snapshot \<Rightarrow> bool" where
  "same_snapshot s t \<longleftrightarrow> strip_diags s = strip_diags t \<and>
     mset (sn_diagnostics s) = mset (sn_diagnostics t)"

definition agrees :: "host \<Rightarrow> string \<Rightarrow> jline list \<Rightarrow> snapshot \<Rightarrow> int \<Rightarrow> bool" where
  "agrees h i ls s sq \<longleftrightarrow> same_snapshot s (fst (replay h i ls)) \<and> sq = snd (replay h i ls)"

definition line_ok :: "host \<Rightarrow> jline \<Rightarrow> bool" where
  "line_ok h l \<longleftrightarrow> 0 < fst l \<and>
     (\<forall>e. snd l = Json e \<and> truthy e \<and> typeof_object e \<longrightarrow>
        stamped_entry h e \<and> json_clean e \<and> event_clean (entry_event e))"

definition journal_ok :: "host \<Rightarrow> jfile \<Rightarrow> bool" where
  "journal_ok h f \<longleftrightarrow> jf_tail f = None \<and> list_all (line_ok h) (jf_lines f)"

definition lines_size :: "jline list \<Rightarrow> int" where
  "lines_size ls = int (sum_list (map fst ls))"

definition known_prefix :: "host \<Rightarrow> string \<Rightarrow> jline list \<Rightarrow> int \<Rightarrow> snapshot \<Rightarrow> int \<Rightarrow> bool" where
  "known_prefix h i ls n s sq \<longleftrightarrow>
     (\<exists>k. n = lines_size (take k ls) \<and> agrees h i (take k ls) s sq \<and> snapshot_clean s)"

definition readable_lines :: "session_files \<Rightarrow> jline list" where
  "readable_lines fs = (case journal_at fs (getReadableJournalPath fs) of
      None \<Rightarrow> [] | Some f \<Rightarrow> jf_lines f)"

definition snapfile_ok :: "host \<Rightarrow> string \<Rightarrow> jline list \<Rightarrow> snapfile option \<Rightarrow> bool" where
  "snapfile_ok h i ls sf \<longleftrightarrow> (\<forall>b q s. sf = Some (Snap b q s) \<longrightarrow>
     (\<exists>n m. b = jint n \<and> q = jint m \<and> (n = -1 \<or> known_prefix h i ls n s m)))"

definition files_ok :: "host \<Rightarrow> string \<Rightarrow> session_files \<Rightarrow> bool" where
  "files_ok h i fs \<longleftrightarrow>
     (\<forall>f. sf_primary fs = Some f \<longrightarrow> journal_ok h f) \<and> (\<forall>f. sf_legacy fs = Some f \<longrightarrow> journal_ok h f) \<and>
     snapfile_ok h i (readable_lines fs) (sf_snapshot fs)"

definition derived_ok :: "host \<Rightarrow> string \<Rightarrow> session_files \<Rightarrow> derived \<Rightarrow> bool" where
  "derived_ok h i fs d \<longleftrightarrow>
     (d_size d = -1 \<and> d_snapshot d = baseSnapshot i \<and> d_nextSeq d = 1) \<or>
     (\<exists>f. journal_at fs (d_path d) = Some f \<and>
          known_prefix h i (jf_lines f) (d_size d) (d_snapshot d) (d_nextSeq d))"

definition cache_ok :: "host \<Rightarrow> (string \<Rightarrow> session_files) \<Rightarrow> (string \<Rightarrow> derived option) \<Rightarrow> bool" where
  "cache_ok h files cache \<longleftrightarrow> (\<forall>i d. cache i = Some d \<longrightarrow> derived_ok h i (files i) d)"

definition store_ok :: "host \<Rightarrow> store \<Rightarrow> bool" where
  "store_ok h st \<longleftrightarrow> (\<forall>i. files_ok h i (st_files st i)) \<and> cache_ok h (st_files st) (st_derived st)"

lemma same_snapshot_refl [simp]: "same_snapshot s s"
  by (simp add: same_snapshot_def)

lemma same_snapshot_trans: "same_snapshot s t \<Longrightarrow> same_snapshot t u \<Longrightarrow> same_snapshot s u"
  by (simp add: same_snapshot_def)

lemma strip_add_diags: "add_diags (sn_diagnostics s) (strip_diags s) = s"
  by (simp add: add_diags_def strip_diags_def)

lemma applyEvent_strip:
  "applyEvent h s e = add_diags (sn_diagnostics s) (applyEvent h (strip_diags s) e)"
  by (metis applyEvent_add_diags strip_add_diags)

lemma strip_of_add [simp]: "strip_diags (add_diags d s) = strip_diags s"
  by (simp add: add_diags_def strip_diags_def)

lemma applyEvent_same_snapshot:
  assumes "same_snapshot s t"
  shows "same_snapshot (applyEvent h s e) (applyEvent h t e)"
proof -
  have "strip_diags s = strip_diags t" using assms by (simp add: same_snapshot_def)
  then show ?thesis
    using assms applyEvent_strip [of h s e] applyEvent_strip [of h t e]
    by (simp add: same_snapshot_def strip_of_add) (simp add: add_diags_def)
qed

lemma replay_lines_append:
  "replay_lines h i (ls @ ms) st = replay_lines h (i + length ls) ms (replay_lines h i ls st)"
  by (induction h i ls st rule: replay_lines.induct) simp_all

lemma replay_snoc:
  assumes "truthy e" "typeof_object e" and "dot e ''seq'' = jint (snd (replay h i ls))"
  shows "same_snapshot (fst (replay h i (ls @ [(b, Json e)]))) (applyEvent h (fst (replay h i ls)) e)"
    and "snd (replay h i (ls @ [(b, Json e)])) = snd (replay h i ls) + 1"
proof -
  obtain s sq ds where r: "replay_lines h 0 ls (baseSnapshot i, 1, []) = (s, sq, ds)"
    by (cases "replay_lines h 0 ls (baseSnapshot i, 1, [])") auto
  then have old: "replay h i ls = (s\<lparr>sn_diagnostics := sn_diagnostics s @ ds\<rparr>, sq)"
    by (simp add: replay_def)
  have new: "replay h i (ls @ [(b, Json e)]) =
      ((applyEvent h s e)\<lparr>sn_diagnostics := sn_diagnostics (applyEvent h s e) @ ds\<rparr>, sq + 1)"
    using assms old r by (simp add: replay_def replay_lines_append)
  show "snd (replay h i (ls @ [(b, Json e)])) = snd (replay h i ls) + 1" by (simp add: old new)
  let ?s' = "s\<lparr>sn_diagnostics := sn_diagnostics s @ ds\<rparr>"
  have "strip_diags ?s' = strip_diags s" by (simp add: strip_diags_def)
  then have "applyEvent h ?s' e = add_diags (sn_diagnostics s @ ds) (applyEvent h (strip_diags s) e)"
    using applyEvent_strip [of h ?s' e] by simp
  moreover have "applyEvent h s e = add_diags (sn_diagnostics s) (applyEvent h (strip_diags s) e)"
    by (rule applyEvent_strip)
  ultimately show "same_snapshot (fst (replay h i (ls @ [(b, Json e)]))) (applyEvent h (fst (replay h i ls)) e)"
    unfolding old new by (simp add: same_snapshot_def strip_diags_def add_diags_def)
qed

lemma agrees_snoc:
  assumes "agrees h i ls s sq" "truthy e" "typeof_object e" "dot e ''seq'' = jint sq"
  shows "agrees h i (ls @ [(b, Json e)]) (applyEvent h s e) (sq + 1)"
proof -
  have sq: "sq = snd (replay h i ls)" and s: "same_snapshot s (fst (replay h i ls))"
    using assms(1) by (simp_all add: agrees_def)
  note r = replay_snoc [OF assms(2,3) assms(4) [unfolded sq], of b]
  have "same_snapshot (applyEvent h s e) (fst (replay h i (ls @ [(b, Json e)])))"
    using applyEvent_same_snapshot [OF s, of h e] r(1) by (simp add: same_snapshot_def)
  then show ?thesis using r(2) sq by (simp add: agrees_def)
qed

section \<open>Prefixes are found by their size\<close>

lemma lines_size_append: "lines_size (xs @ ys) = lines_size xs + lines_size ys"
  by (simp add: lines_size_def)

lemma lines_size_nonneg [simp]: "0 \<le> lines_size ls"
  by (simp add: lines_size_def)

lemma lines_size_pos: "list_all (line_ok h) ls \<Longrightarrow> ls \<noteq> [] \<Longrightarrow> 0 < lines_size ls"
  by (cases ls) (auto simp: lines_size_def line_ok_def)

lemma prefix_of_same_size:
  assumes "list_all (line_ok h) ls" and "lines_size (take k ls) = lines_size ls"
  shows "take k ls = ls"
proof -
  have "lines_size (drop k ls) = 0"
    using assms(2) lines_size_append [of "take k ls" "drop k ls"] by simp
  moreover have "list_all (line_ok h) (drop k ls)"
    using assms(1) by (auto simp: list_all_iff dest: in_set_dropD)
  ultimately have "drop k ls = []" using lines_size_pos by fastforce
  then show ?thesis by simp
qed

lemma known_prefix_full:
  assumes "known_prefix h i ls n s sq" "list_all (line_ok h) ls" "n = lines_size ls"
  shows "agrees h i ls s sq \<and> snapshot_clean s"
proof -
  obtain k where k: "n = lines_size (take k ls)" "agrees h i (take k ls) s sq" "snapshot_clean s"
    using assms(1) by (auto simp: known_prefix_def)
  have "take k ls = ls" using assms(2,3) k(1) by (intro prefix_of_same_size) simp_all
  with k show ?thesis by simp
qed

lemma known_prefix_grow:
  assumes "known_prefix h i ls n s sq"
  shows "known_prefix h i (ls @ ms) n s sq"
proof -
  obtain k where k: "n = lines_size (take k ls)" "agrees h i (take k ls) s sq" "snapshot_clean s"
    using assms by (auto simp: known_prefix_def)
  have "take (min k (length ls)) (ls @ ms) = take k ls" by (simp add: min_def)
  with k show ?thesis unfolding known_prefix_def by metis
qed

lemma known_prefix_all: "agrees h i ls s sq \<Longrightarrow> snapshot_clean s \<Longrightarrow> known_prefix h i ls (lines_size ls) s sq"
  unfolding known_prefix_def by (rule exI [of _ "length ls"]) simp

lemma snapfile_ok_grow: "snapfile_ok h i ls sf \<Longrightarrow> snapfile_ok h i (ls @ ms) sf"
  unfolding snapfile_ok_def by (metis known_prefix_grow)

lemma journal_at_ok: "files_ok h i fs \<Longrightarrow> journal_at fs p = Some f \<Longrightarrow> journal_ok h f"
  by (cases p) (simp_all add: files_ok_def journal_at_def)

lemma journal_ok_mtime [simp]: "journal_ok h (f\<lparr>jf_mtime := t\<rparr>) = journal_ok h f"
  by (simp add: journal_ok_def)
section \<open>A clean journal replays to a clean snapshot\<close>

lemma replay_lines_clean:
  assumes "list_all (line_ok h) ls" "finite_dates h" "snapshot_clean s" "list_all json_clean ds"
    "replay_lines h i ls (s, sq, ds) = (s', sq', ds')"
  shows "snapshot_clean s' \<and> list_all json_clean ds'"
  using assms
proof (induction ls arbitrary: i s sq ds)
  case (Cons l ls)
  obtain b c where l: "l = (b, c)" by (cases l)
  have ls: "list_all (line_ok h) ls" and ok: "line_ok h (b, c)" using Cons.prems(1) l by simp_all
  note IH = Cons.IH [OF ls Cons.prems(2)]
  have d: "json_clean (journal_parse_failed j m)" for j m by (simp add: journal_parse_failed_def)
  show ?case
  proof (cases c)
    case Blank
    then show ?thesis using IH Cons.prems l by simp
  next
    case (BadJson m)
    then show ?thesis using IH [of s "ds @ [journal_parse_failed i m]"] Cons.prems l d by simp
  next
    case (Json e)
    show ?thesis
    proof (cases "truthy e \<and> typeof_object e")
      case True
      then have "snapshot_clean (applyEvent h s e)"
        using ok Json Cons.prems(2,3) by (auto simp: line_ok_def intro: applyEvent_clean)
      then show ?thesis using IH [of "applyEvent h s e" ds] Cons.prems l Json True by simp
    next
      case False
      then show ?thesis
        using IH [of s "ds @ [journal_parse_failed i ''entry is not object'']"] Cons.prems l Json d
        by auto
    qed
  qed
qed simp

lemma replay_clean:
  assumes "list_all (line_ok h) ls" "finite_dates h"
  shows "snapshot_clean (fst (replay h i ls))"
proof -
  obtain s sq ds where r: "replay_lines h 0 ls (baseSnapshot i, 1, []) = (s, sq, ds)"
    by (cases "replay_lines h 0 ls (baseSnapshot i, 1, [])") auto
  have "snapshot_clean s \<and> list_all json_clean ds"
    by (rule replay_lines_clean [OF assms snapshot_clean_base _ r]) simp
  then show ?thesis using r by (simp add: replay_def snapshot_clean_def)
qed

section \<open>Reading the state\<close>

lemma rebuild_is_replay:
  assumes "journal_ok h f"
  shows "rebuildSnapshotFromJournal h (Some f) i = replay h i (jf_lines f)"
  using assms by (simp add: rebuildSnapshotFromJournal_def replay_def jf_all_lines_def journal_ok_def)

lemma journal_ok_size: "journal_ok h f \<Longrightarrow> jf_size f = lines_size (jf_lines f)"
  by (simp add: journal_ok_def jf_size_def lines_size_def)

lemma agrees_replay: "agrees h i ls (fst (replay h i ls)) (snd (replay h i ls))"
  by (simp add: agrees_def)

lemma agrees_Nil: "agrees h i [] (baseSnapshot i) 1"
  by (simp add: agrees_def replay_def baseSnapshot_def)

text \<open>What a derived state must satisfy to be current for the readable journal.\<close>

definition current_for :: "host \<Rightarrow> string \<Rightarrow> session_files \<Rightarrow> derived \<Rightarrow> bool" where
  "current_for h i fs d \<longleftrightarrow>
     agrees h i (readable_lines fs) (d_snapshot d) (d_nextSeq d) \<and> snapshot_clean (d_snapshot d) \<and>
     d_path d = getReadableJournalPath fs \<and>
     d_size d = stat_size (journal_at fs (getReadableJournalPath fs)) \<and>
     d_mtime d = stat_mtime (journal_at fs (getReadableJournalPath fs)) \<and>
     (journal_at fs (getReadableJournalPath fs) = None \<longrightarrow> d_snapshot d = baseSnapshot i \<and> d_nextSeq d = 1)"

lemma current_for_derived_ok:
  assumes "current_for h i fs d" "files_ok h i fs"
  shows "derived_ok h i fs d"
proof (cases "journal_at fs (getReadableJournalPath fs)")
  case None
  then show ?thesis using assms(1) by (simp add: current_for_def derived_ok_def stat_size_def)
next
  case (Some f)
  then have "journal_ok h f" using assms(2) journal_at_ok by blast
  then show ?thesis
    using assms(1) Some journal_ok_size [of h f]
      known_prefix_all [of h i "jf_lines f" "d_snapshot d" "d_nextSeq d"]
    by (auto simp: current_for_def derived_ok_def stat_size_def readable_lines_def)
qed

lemma readSnapshotFile_current:
  assumes ok: "files_ok h i fs" and jf: "journal_at fs (getReadableJournalPath fs) = Some f"
    and r: "readSnapshotFile (sf_snapshot fs) i (jf_size f) = Some (s, sq)"
  shows "agrees h i (readable_lines fs) s sq \<and> snapshot_clean s"
proof -
  have lines: "readable_lines fs = jf_lines f" and j: "journal_ok h f"
    using ok jf journal_at_ok by (simp add: readable_lines_def, blast)
  obtain b q s0 where snap: "sf_snapshot fs = Some (Snap b q s0)"
    using r by (auto simp: readSnapshotFile_def split: option.splits snapfile.splits)
  then obtain n m where nm: "b = jint n" "q = jint m"
    and known: "n = -1 \<or> known_prefix h i (readable_lines fs) n s0 m"
    using ok by (auto simp: files_ok_def snapfile_ok_def)
  have n: "n = lines_size (jf_lines f)" and s: "s = json_snapshot i s0" and sq: "sq = m"
    using r snap nm journal_ok_size [OF j] by (auto simp: readSnapshotFile_def split: if_splits)
  then have "known_prefix h i (jf_lines f) n s0 m"
    using known lines lines_size_nonneg [of "jf_lines f"] by auto
  then have full: "agrees h i (jf_lines f) s0 m \<and> snapshot_clean s0"
    using known_prefix_full [of h i "jf_lines f" n s0 m] j n by (simp add: journal_ok_def)
  then have "json_snapshot i s0 = s0" by (simp add: json_snapshot_clean)
  then show ?thesis using full s sq lines by simp
qed

lemma rebuilt_current:
  assumes "files_ok h i fs" "finite_dates h"
    and "rebuildSnapshotFromJournal h (journal_at fs (getReadableJournalPath fs)) i = (s, sq)"
  shows "agrees h i (readable_lines fs) s sq \<and> snapshot_clean s \<and>
    (journal_at fs (getReadableJournalPath fs) = None \<longrightarrow> s = baseSnapshot i \<and> sq = 1)"
proof (cases "journal_at fs (getReadableJournalPath fs)")
  case None
  then show ?thesis using assms(3) agrees_Nil snapshot_clean_base
    by (auto simp: rebuildSnapshotFromJournal_def readable_lines_def)
next
  case (Some f)
  then have j: "journal_ok h f" using assms(1) journal_at_ok by blast
  then have "replay h i (jf_lines f) = (s, sq)" using assms(3) Some rebuild_is_replay by simp
  then show ?thesis
    using Some j agrees_replay [of h i "jf_lines f"] replay_clean [of h "jf_lines f" i] assms(2)
    by (simp add: readable_lines_def journal_ok_def)
qed

lemma cached_current:
  assumes ok: "files_ok h i fs" and d: "derived_ok h i fs d"
    and key: "d_path d = getReadableJournalPath fs"
      "d_size d = stat_size (journal_at fs (getReadableJournalPath fs))"
      "d_mtime d = stat_mtime (journal_at fs (getReadableJournalPath fs))"
  shows "current_for h i fs d"
proof (cases "journal_at fs (getReadableJournalPath fs)")
  case None
  then show ?thesis using d key agrees_Nil snapshot_clean_base
    by (auto simp: derived_ok_def current_for_def readable_lines_def)
next
  case (Some f)
  then have j: "journal_ok h f" using ok journal_at_ok by blast
  have size: "d_size d = lines_size (jf_lines f)"
    using key(2) Some journal_ok_size [OF j] by (simp add: stat_size_def)
  then have "d_size d \<noteq> -1" using lines_size_nonneg [of "jf_lines f"] by linarith
  then have "known_prefix h i (jf_lines f) (d_size d) (d_snapshot d) (d_nextSeq d)"
    using d Some key(1) by (auto simp: derived_ok_def)
  then show ?thesis
    using known_prefix_full size j Some key by (simp add: journal_ok_def current_for_def readable_lines_def)
qed

lemma readState_current:
  assumes ok: "store_ok h st" and fin: "finite_dates h" and r: "readState h a i st = (d, st')"
  shows "current_for h i (st_files st i) d" "st_files st' = st_files st" "store_ok h st'"
    "st_sessionId st' = st_sessionId st"
proof -
  let ?fs = "st_files st i"
  let ?p = "getReadableJournalPath ?fs"
  let ?jf = "journal_at ?fs ?p"
  have fs: "files_ok h i ?fs" using ok by (simp add: store_ok_def)
  obtain s sq where rb: "rebuildSnapshotFromJournal h ?jf i = (s, sq)" by fastforce
  note reb = rebuilt_current [OF fs fin rb]
  show cur: "current_for h i ?fs d"
  proof (cases "\<exists>c. st_derived st i = Some c \<and> d_path c = ?p \<and> d_size c = stat_size ?jf \<and> d_mtime c = stat_mtime ?jf")
    case True
    then obtain c where c: "st_derived st i = Some c" "d_path c = ?p" "d_size c = stat_size ?jf"
      "d_mtime c = stat_mtime ?jf" by blast
    then have "d = c" using r by (simp add: readState_def Let_def)
    moreover have "derived_ok h i ?fs c" using ok c(1) by (auto simp: store_ok_def cache_ok_def)
    ultimately show ?thesis using cached_current [OF fs] c by simp
  next
    case False
    then have "d = (if a \<and> ?jf \<noteq> None
        then (case readSnapshotFile (sf_snapshot ?fs) i (stat_size ?jf) of
            Some (s1, sq1) \<Rightarrow> \<lparr>d_snapshot = s1, d_nextSeq = sq1, d_path = ?p, d_size = stat_size ?jf, d_mtime = stat_mtime ?jf\<rparr>
          | None \<Rightarrow> \<lparr>d_snapshot = s, d_nextSeq = sq, d_path = ?p, d_size = stat_size ?jf, d_mtime = stat_mtime ?jf\<rparr>)
        else \<lparr>d_snapshot = s, d_nextSeq = sq, d_path = ?p, d_size = stat_size ?jf, d_mtime = stat_mtime ?jf\<rparr>)"
      using r rb unfolding readState_def Let_def by (auto split: option.splits if_splits)
    then show ?thesis
      using reb readSnapshotFile_current [OF fs]
      by (auto simp: current_for_def stat_size_def split: option.splits if_splits)
  qed
  have st': "st' = st \<or> st' = st\<lparr>st_derived := (st_derived st)(i \<mapsto> d)\<rparr>"
    using r unfolding readState_def Let_def by (auto split: option.splits if_splits)
  then show "st_files st' = st_files st" "st_sessionId st' = st_sessionId st" by auto
  have "derived_ok h i ?fs d" by (rule current_for_derived_ok [OF cur fs])
  then show "store_ok h st'" using st' ok by (auto simp: store_ok_def cache_ok_def split: if_splits)
qed
section \<open>Appending an event\<close>

definition files_grow :: "session_files \<Rightarrow> session_files \<Rightarrow> bool" where
  "files_grow fs fs' \<longleftrightarrow> (\<forall>p f. journal_at fs p = Some f \<longrightarrow>
     (\<exists>f' ms. journal_at fs' p = Some f' \<and> jf_lines f' = jf_lines f @ ms))"

lemma derived_ok_grow: "derived_ok h i fs d \<Longrightarrow> files_grow fs fs' \<Longrightarrow> derived_ok h i fs' d"
  unfolding derived_ok_def files_grow_def by (metis known_prefix_grow)

lemma cache_ok_grow:
  assumes "cache_ok h files cache" "\<And>i. files_grow (files i) (files' i)"
  shows "cache_ok h files' cache"
  unfolding cache_ok_def
proof (intro allI impI)
  fix i d assume "cache i = Some d"
  then have "derived_ok h i (files i) d" using assms(1) by (simp add: cache_ok_def)
  then show "derived_ok h i (files' i) d" using assms(2) by (rule derived_ok_grow)
qed

lemma files_grow_refl [simp]: "files_grow fs fs"
  by (auto simp: files_grow_def)

lemma files_grow_trans: "files_grow a b \<Longrightarrow> files_grow b c \<Longrightarrow> files_grow a c"
  unfolding files_grow_def by (metis append_assoc)

definition clock_ok :: "store_host \<Rightarrow> bool" where
  "clock_ok h \<longleftrightarrow> h_iso h \<noteq> [] \<and> truthy (JNum (h_date_parse h (JStr (h_iso h)))) \<and>
     finite_dates (host.truncate h) \<and> (\<forall>v. 0 < h_json_bytes h v)"

lemma adopt_legacy_ok:
  assumes "store_ok h st"
  shows "store_ok h (adopt_legacy h' i st)"
    and "readable_lines (st_files (adopt_legacy h' i st) i) = readable_lines (st_files st i)"
    and "\<And>j. files_grow (st_files st j) (st_files (adopt_legacy h' i st) j)"
    and "\<And>j. j \<noteq> i \<Longrightarrow> st_files (adopt_legacy h' i st) j = st_files st j"
    and "sf_primary (st_files (adopt_legacy h' i st) i) = None \<longrightarrow>
      sf_legacy (st_files (adopt_legacy h' i st) i) = None"
    and "st_sessionId (adopt_legacy h' i st) = st_sessionId st"
proof -
  let ?st = "adopt_legacy h' i st"
  show grow: "files_grow (st_files st j) (st_files ?st j)" for j
    by (auto simp: adopt_legacy_def files_grow_def journal_at_def Let_def split: jpath.splits)
  show lines: "readable_lines (st_files ?st i) = readable_lines (st_files st i)"
    by (auto simp: adopt_legacy_def readable_lines_def getReadableJournalPath_def journal_at_def
        Let_def split: option.splits)
  show "\<And>j. j \<noteq> i \<Longrightarrow> st_files ?st j = st_files st j"
    "sf_primary (st_files ?st i) = None \<longrightarrow> sf_legacy (st_files ?st i) = None"
    "st_sessionId ?st = st_sessionId st"
    by (auto simp: adopt_legacy_def Let_def)
  have fok: "files_ok h j (st_files st j)" for j using assms by (simp add: store_ok_def)
  have "files_ok h j (st_files ?st j)" for j
  proof (cases "j = i")
    case True
    have "sf_snapshot (st_files ?st i) = sf_snapshot (st_files st i)"
      by (simp add: adopt_legacy_def Let_def)
    moreover have "sf_primary (st_files ?st i) = Some f \<Longrightarrow> journal_ok h f" for f
      using fok [of i] by (auto simp: adopt_legacy_def files_ok_def Let_def split: if_splits)
    moreover have "sf_legacy (st_files ?st i) = Some f \<Longrightarrow> journal_ok h f" for f
      using fok [of i] by (auto simp: adopt_legacy_def files_ok_def Let_def split: if_splits)
    ultimately show ?thesis using fok [of i] True lines by (simp add: files_ok_def)
  next
    case False
    then show ?thesis using fok [of j] by (simp add: adopt_legacy_def Let_def)
  qed
  moreover have "cache_ok h (st_files ?st) (st_derived ?st)"
  proof -
    have "cache_ok h (st_files ?st) (st_derived st)"
      using assms cache_ok_grow [OF _ grow] by (simp add: store_ok_def)
    moreover have "st_derived st j = Some d" if "st_derived ?st j = Some d" for j d
      using that by (auto simp: adopt_legacy_def Let_def split: if_splits)
    ultimately show ?thesis by (simp add: cache_ok_def)
  qed
  ultimately show "store_ok h ?st" by (simp add: store_ok_def)
qed

lemma append_to_primary_ok:
  assumes ok: "files_ok h i fs" and leg: "sf_primary fs = None \<longrightarrow> sf_legacy fs = None"
    and e: "json_clean entry" and lk: "line_ok h (h_json_bytes hs entry, Json entry)"
  shows "readable_lines (append_to_primary hs entry fs) =
           readable_lines fs @ [(h_json_bytes hs entry, Json entry)]"
    and "files_ok h i (append_to_primary hs entry fs)"
    and "files_grow fs (append_to_primary hs entry fs)"
    and "stat_size (journal_at (append_to_primary hs entry fs)
           (getReadableJournalPath (append_to_primary hs entry fs))) =
         lines_size (readable_lines fs @ [(h_json_bytes hs entry, Json entry)])"
proof -
  let ?fs = "append_to_primary hs entry fs" and ?l = "(h_json_bytes hs entry, Json entry)"
  let ?f = "case sf_primary fs of Some f \<Rightarrow> f | None \<Rightarrow> empty_jfile"
  have jl: "jf_tail ?f = None" "list_all (line_ok h) (jf_lines ?f)"
    using ok by (auto simp: files_ok_def journal_ok_def empty_jfile_def split: option.split)
  have new: "sf_primary ?fs = Some (append_line hs entry ?f)" by (simp add: append_to_primary_def)
  have al: "jf_lines (append_line hs entry ?f) = jf_lines ?f @ [?l]"
    "jf_tail (append_line hs entry ?f) = None"
    using jl(1) e by (simp_all add: append_line_def json_clean_def Let_def)
  have rl: "readable_lines fs = jf_lines ?f"
    using leg by (auto simp: readable_lines_def getReadableJournalPath_def journal_at_def
        empty_jfile_def split: option.split)
  show lines: "readable_lines ?fs = readable_lines fs @ [?l]"
    using new al rl by (simp add: readable_lines_def getReadableJournalPath_def journal_at_def)
  have jnew: "journal_ok h (append_line hs entry ?f)"
    using al jl(2) lk by (simp add: journal_ok_def)
  then show "stat_size (journal_at ?fs (getReadableJournalPath ?fs)) = lines_size (readable_lines fs @ [?l])"
    using new al rl journal_ok_size [OF jnew]
    by (simp add: stat_size_def getReadableJournalPath_def journal_at_def)
  have "sf_legacy ?fs = sf_legacy fs" "sf_snapshot ?fs = sf_snapshot fs"
    by (simp_all add: append_to_primary_def)
  then show "files_ok h i ?fs"
    using ok jnew new lines snapfile_ok_grow by (simp add: files_ok_def)
  show "files_grow fs ?fs"
    unfolding files_grow_def
  proof (intro allI impI)
    fix p f assume "journal_at fs p = Some f"
    then show "\<exists>f' ms. journal_at ?fs p = Some f' \<and> jf_lines f' = jf_lines f @ ms"
      using new al by (cases p) (auto simp: journal_at_def append_to_primary_def)
  qed
qed

lemma persist_ok:
  assumes ok: "store_ok h st" and a: "agrees h i (readable_lines (st_files st i)) s sq"
    and c: "snapshot_clean s"
    and f: "journal_at (st_files st i) (getReadableJournalPath (st_files st i)) = None \<longrightarrow>
              s = baseSnapshot i \<and> sq = 1"
  shows "store_ok h (persist i s sq st)"
    and "\<And>j. files_grow (st_files st j) (st_files (persist i s sq st) j)"
    and "readable_lines (st_files (persist i s sq st) i) = readable_lines (st_files st i)"
    and "\<And>j. j \<noteq> i \<Longrightarrow> st_files (persist i s sq st) j = st_files st j"
    and "st_sessionId (persist i s sq st) = st_sessionId st"
proof -
  let ?fs = "st_files st i" and ?st = "persist i s sq st"
  let ?p = "getReadableJournalPath ?fs"
  let ?jf = "journal_at ?fs ?p"
  have fok: "files_ok h j (st_files st j)" for j using ok by (simp add: store_ok_def)
  have jat: "journal_at (st_files ?st j) p = journal_at (st_files st j) p" for j p
    by (cases p) (auto simp: persist_def journal_at_def Let_def)
  have path: "getReadableJournalPath (st_files ?st i) = ?p"
    by (simp add: persist_def getReadableJournalPath_def Let_def)
  show grow: "files_grow (st_files st j) (st_files ?st j)" for j
    by (auto simp: files_grow_def jat)
  show lines: "readable_lines (st_files ?st i) = readable_lines ?fs"
    by (simp add: readable_lines_def path jat)
  show others: "\<And>j. j \<noteq> i \<Longrightarrow> st_files ?st j = st_files st j" and "st_sessionId ?st = st_sessionId st"
    by (simp_all add: persist_def Let_def)
  let ?d = "\<lparr>d_snapshot = s, d_nextSeq = sq, d_path = ?p, d_size = stat_size ?jf, d_mtime = stat_mtime ?jf\<rparr>"
  have cur: "current_for h i ?fs ?d" using a c f by (simp add: current_for_def)
  have known: "stat_size ?jf = -1 \<or> known_prefix h i (readable_lines ?fs) (stat_size ?jf) s sq"
  proof (cases ?jf)
    case (Some jf)
    then have "journal_ok h jf" using fok [of i] journal_at_ok by blast
    then show ?thesis using known_prefix_all [OF a c] Some journal_ok_size [of h jf]
      by (simp add: stat_size_def readable_lines_def)
  qed (simp add: stat_size_def)
  have "sf_snapshot (st_files ?st i) = Some (Snap (jint (stat_size ?jf)) (jint sq) s)"
    by (simp add: persist_def writeSnapshot_def Let_def)
  moreover have "sf_primary (st_files ?st i) = sf_primary ?fs" "sf_legacy (st_files ?st i) = sf_legacy ?fs"
    using jat [of i Primary] jat [of i Legacy] by (simp_all add: journal_at_def)
  ultimately have "files_ok h i (st_files ?st i)"
    using fok [of i] known lines by (simp add: files_ok_def snapfile_ok_def)
  then have "files_ok h j (st_files ?st j)" for j
    using fok [of j] others [of j] by (cases "j = i") simp_all
  moreover have "cache_ok h (st_files ?st) (st_derived ?st)"
  proof -
    have "st_derived ?st = (st_derived st)(i \<mapsto> ?d)" by (simp add: persist_def Let_def)
    moreover have "derived_ok h i ?fs ?d" by (rule current_for_derived_ok [OF cur fok])
    ultimately have "cache_ok h (st_files st) (st_derived ?st)"
      using ok by (auto simp: store_ok_def cache_ok_def split: if_splits)
    then show ?thesis by (rule cache_ok_grow) (rule grow)
  qed
  ultimately show "store_ok h ?st" by (simp add: store_ok_def)
qed
section \<open>The store refines the replay of its journal\<close>

lemma host_truncate_sel [simp]:
  "h_now (host.truncate hs) = h_now hs" "h_iso (host.truncate hs) = h_iso hs"
  "h_date_parse (host.truncate hs) = h_date_parse hs"
  by (simp_all add: host.defs)

definition storable :: "jsval \<Rightarrow> bool" where
  "storable normalized \<longleftrightarrow> event_clean normalized \<and> truthy normalized \<and> is_str (dot normalized ''id'')"

lemma journal_entry_ok:
  fixes sq :: int
  assumes "clock_ok hs" "storable ev"
  defines "e \<equiv> journal_entry (host.truncate hs) sq ev"
  shows "json_clean e" "line_ok (host.truncate hs) (h_json_bytes hs e, Json e)"
    "truthy e" "typeof_object e" "dot e ''seq'' = jint sq" "entry_event e = ev"
proof -
  have ev: "json_clean ev" "truthy ev" "is_str (dot ev ''id'')" "is_str (dot ev ''type'')"
    using assms(2) by (simp_all add: storable_def event_clean_def)
  show ee: "entry_event e = ev" using ev by (simp add: e_def journal_entry_def entry_event_def js_or_def)
  show jc: "json_clean e" using ev by (auto simp: e_def journal_entry_def is_str_iff)
  show "truthy e" "typeof_object e" "dot e ''seq'' = jint sq" by (simp_all add: e_def journal_entry_def)
  have "stamped_entry (host.truncate hs) e"
    using assms(1) by (simp add: stamped_entry_def clock_ok_def e_def journal_entry_def entry_time_def js_or_def)
  then show "line_ok (host.truncate hs) (h_json_bytes hs e, Json e)"
    using assms(1,2) jc ee by (simp add: line_ok_def clock_ok_def storable_def)
qed

lemma append_known_refines:
  assumes ok: "store_ok (host.truncate hs) st" and clk: "clock_ok hs" and ev: "storable ev"
    and r: "append_known hs i ev st = (s', st')"
  defines "h \<equiv> host.truncate hs"
  defines "ls \<equiv> readable_lines (st_files st i)"
  defines "e \<equiv> journal_entry h (snd (replay h i ls)) ev"
  shows "store_ok h st'"
    and "readable_lines (st_files st' i) = ls @ [(h_json_bytes hs e, Json e)]"
    and "same_snapshot s' (fst (replay h i (readable_lines (st_files st' i))))"
    and "\<And>j. j \<noteq> i \<Longrightarrow> st_files st' j = st_files st j"
    and "\<And>j. files_grow (st_files st j) (st_files st' j)"
    and "st_sessionId st' = st_sessionId st"
    and "sf_primary (st_files st' i) \<noteq> None"
proof -
  define st1 where "st1 = adopt_legacy h i st"
  note ad = adopt_legacy_ok [OF ok [folded h_def], where h' = h and i = i, folded st1_def]
  obtain prior st2 where rs: "readState h True i st1 = (prior, st2)" by fastforce
  have fin: "finite_dates h" using clk by (simp add: clock_ok_def h_def)
  note rc = readState_current [OF ad(1) fin rs]
  have pr: "agrees h i ls (d_snapshot prior) (d_nextSeq prior)" "snapshot_clean (d_snapshot prior)"
    using rc(1) ad(2) by (simp_all add: current_for_def ls_def)
  then have sq: "d_nextSeq prior = snd (replay h i ls)" by (simp add: agrees_def)
  note eo = journal_entry_ok [OF clk ev, where sq = "snd (replay h i ls)", folded h_def, folded e_def]
  define fs3 where "fs3 = append_to_primary hs e (st_files st2 i)"
  define st3 where "st3 = st2\<lparr>st_files := (st_files st2)(i := fs3)\<rparr>"
  have f2: "files_ok h i (st_files st2 i)" using rc(3) by (simp add: store_ok_def)
  have leg: "sf_primary (st_files st2 i) = None \<longrightarrow> sf_legacy (st_files st2 i) = None"
    using ad(5) rc(2) by simp
  note ap = append_to_primary_ok [OF f2 leg eo(1,2), folded fs3_def]
  have l2: "readable_lines (st_files st2 i) = ls" using rc(2) ad(2) by (simp add: ls_def)
  have grow3: "files_grow (st_files st2 j) (st_files st3 j)" for j
    using ap(3) by (simp add: st3_def)
  have "cache_ok h (st_files st2) (st_derived st2)" using rc(3) by (simp add: store_ok_def)
  then have "cache_ok h (st_files st3) (st_derived st2)" using grow3 by (rule cache_ok_grow)
  then have ok3: "store_ok h st3" using rc(3) ap(2) by (simp add: store_ok_def st3_def)
  define n where "n = applyEvent h (d_snapshot prior) e"
  have res: "s' = n" "st' = persist i n (d_nextSeq prior + 1) st3"
    using r rs sq by (auto simp: append_known_def Let_def st1_def [symmetric] h_def [symmetric]
        e_def [symmetric] fs3_def [symmetric] st3_def [symmetric] n_def)
  have l3: "readable_lines (st_files st3 i) = ls @ [(h_json_bytes hs e, Json e)]"
    using ap(1) l2 by (simp add: st3_def)
  have a3: "agrees h i (readable_lines (st_files st3 i)) n (d_nextSeq prior + 1)"
    unfolding l3 n_def using pr(1) eo(3,4,5) sq by (intro agrees_snoc) simp_all
  have c3: "snapshot_clean n" unfolding n_def
    using pr(2) fin eo(1,6) ev by (intro applyEvent_clean) (simp_all add: storable_def)
  have p3: "sf_primary (st_files st3 i) \<noteq> None"
    by (simp add: st3_def fs3_def append_to_primary_def)
  then have j3: "journal_at (st_files st3 i) (getReadableJournalPath (st_files st3 i)) \<noteq> None"
    by (simp add: getReadableJournalPath_def journal_at_def)
  have f3: "journal_at (st_files st3 i) (getReadableJournalPath (st_files st3 i)) = None \<longrightarrow>
      n = baseSnapshot i \<and> d_nextSeq prior + 1 = 1" using j3 by blast
  note pe = persist_ok [OF ok3 a3 c3 f3, folded res(2)]
  show "store_ok h st'" using pe(1) by simp
  show lines: "readable_lines (st_files st' i) = ls @ [(h_json_bytes hs e, Json e)]"
    using pe(3) l3 by simp
  show "same_snapshot s' (fst (replay h i (readable_lines (st_files st' i))))"
    using a3 lines l3 res(1) by (simp add: agrees_def)
  show "st_files st' j = st_files st j" if "j \<noteq> i" for j
    using pe(4) [of j] that rc(2) ad(4) [of j] by (simp add: st3_def)
  show "files_grow (st_files st j) (st_files st' j)" for j
    using pe(2) [of j] grow3 [of j] ad(3) [of j] rc(2) files_grow_trans by metis
  show "st_sessionId st' = st_sessionId st"
    using pe(5) rc(4) ad(6) by (simp add: st3_def)
  show "sf_primary (st_files st' i) \<noteq> None"
    using p3 res(2) by (simp add: persist_def Let_def)
qed
lemma getSnapshot_refines:
  assumes "store_ok h st" "finite_dates h" "getSnapshot h v inc st = Inr (so, st')"
  obtains i where "safeSessionId (if v = JUndef then st_sessionId st else v) = Inr i"
    and "\<And>s. so = Some s \<Longrightarrow> same_snapshot s (fst (replay h i (readable_lines (st_files st i))))"
    and "inc \<Longrightarrow> so \<noteq> None"
    and "store_ok h st'" and "st_files st' = st_files st" and "st_sessionId st' = st_sessionId st"
proof -
  obtain i where i: "safeSessionId (if v = JUndef then st_sessionId st else v) = Inr i"
    using assms(3) by (auto simp: getSnapshot_def Let_def split: sum.splits if_splits)
  obtain d st2 where r: "readState h True i st = (d, st2)" by fastforce
  note c = readState_current [OF assms(1,2) r]
  have "st' = st2" "so = None \<or> so = Some (d_snapshot d)" "inc \<Longrightarrow> so = Some (d_snapshot d)"
    using assms(3) i r by (auto simp: getSnapshot_def Let_def split: if_splits)
  then show ?thesis
    using that [OF i] c by (auto simp: current_for_def agrees_def)
qed

lemma flush_refines:
  assumes "store_ok h st" "finite_dates h" "flush_snapshot h v st = Inr (s, st')"
  shows "store_ok h st'" "st_sessionId st' = st_sessionId st"
    "\<And>j. files_grow (st_files st j) (st_files st' j)"
    "\<And>j. readable_lines (st_files st' j) = readable_lines (st_files st j)"
proof -
  obtain i where i: "safeSessionId (if v = JUndef then st_sessionId st else v) = Inr i"
    using assms(3) by (auto simp: flush_snapshot_def Let_def split: sum.splits if_splits)
  obtain d st2 where r: "readState h False i st = (d, st2)" by fastforce
  note c = readState_current [OF assms(1,2) r]
  have st': "st' = persist i (d_snapshot d) (d_nextSeq d) st2"
    using assms(3) i r by (auto simp: flush_snapshot_def Let_def split: if_splits)
  have "agrees h i (readable_lines (st_files st2 i)) (d_snapshot d) (d_nextSeq d)"
    "snapshot_clean (d_snapshot d)"
    "journal_at (st_files st2 i) (getReadableJournalPath (st_files st2 i)) = None \<longrightarrow>
       d_snapshot d = baseSnapshot i \<and> d_nextSeq d = 1"
    using c(1,2) by (simp_all add: current_for_def)
  note p = persist_ok [OF c(3) this, folded st']
  show "store_ok h st'" "st_sessionId st' = st_sessionId st" using p(1,5) c(4) by simp_all
  show "files_grow (st_files st j) (st_files st' j)" for j using p(2) [of j] c(2) by simp
  show "readable_lines (st_files st' j) = readable_lines (st_files st j)" for j
    using p(3) p(4) [of j] c(2) by (cases "j = i") simp_all
qed

lemma normalizeEvent_storable:
  assumes "event_clean ev" "normalizeEvent ev fb = Inr n"
  shows "storable n" "is_str (dot n ''id'')" "n = JObj (obj_set (own_props ev) ''id'' (js_or (dot ev ''id'') fb))"
proof -
  obtain kvs where kvs: "ev = JObj kvs"
    using assms(1) by (cases ev) (auto simp: event_clean_def split: if_splits)
  show n: "n = JObj (obj_set (own_props ev) ''id'' (js_or (dot ev ''id'') fb))"
    using assms(2) by (auto simp: normalizeEvent_def Let_def split: if_splits)
  have i: "is_str (js_or (dot ev ''id'') fb)"
    using assms(2) by (auto simp: normalizeEvent_def Let_def split: if_splits)
  then show "is_str (dot n ''id'')" using n by (simp add: map_of_obj_set)
  have "json_clean (js_or (dot ev ''id'') fb)" using i by (auto simp: is_str_iff)
  then have "json_clean n" using assms(1) n kvs by (simp add: event_clean_def clean_props_obj_set)
  then show "storable n"
    using assms(1) n i kvs unfolding storable_def event_clean_def by (simp add: map_of_obj_set)
qed

section \<open>The clock does not matter\<close>

lemma replay_clock:
  assumes "list_all (line_ok h) ls" "h_date_parse h' = h_date_parse h"
  shows "replay h' i ls = replay h i ls"
proof -
  have "replay_lines h' k ls (s, sq, ds) = replay_lines h k ls (s, sq, ds)" for k s sq ds
    using assms(1)
  proof (induction ls arbitrary: k s sq ds)
    case (Cons l ls)
    obtain b c where l: "l = (b, c)" by (cases l)
    have ap: "applyEvent h' s e = applyEvent h s e" if "c = Json e" "truthy e" "typeof_object e" for e
      using Cons.prems that l assms(2) by (intro applyEvent_clock) (auto simp: line_ok_def)
    show ?case using Cons ap l by (cases c) auto
  qed simp
  then show ?thesis by (simp add: replay_def)
qed

lemma line_ok_clock: "h_date_parse h' = h_date_parse h \<Longrightarrow> line_ok h' = line_ok h"
  by (simp add: line_ok_def stamped_entry_def entry_time_def fun_eq_iff)

lemma known_prefix_clock:
  assumes "list_all (line_ok h) ls" "h_date_parse h' = h_date_parse h" "known_prefix h i ls n s sq"
  shows "known_prefix h' i ls n s sq"
proof -
  obtain k where k: "n = lines_size (take k ls)" "agrees h i (take k ls) s sq" "snapshot_clean s"
    using assms(3) by (auto simp: known_prefix_def)
  have "list_all (line_ok h) (take k ls)" using assms(1) by (auto simp: list_all_iff dest: in_set_takeD)
  then have "replay h' i (take k ls) = replay h i (take k ls)" using assms(2) by (rule replay_clock)
  with k show ?thesis by (auto simp: known_prefix_def agrees_def)
qed

lemma readable_lines_ok: "files_ok h i fs \<Longrightarrow> list_all (line_ok h) (readable_lines fs)"
  using journal_at_ok [of h i fs] by (auto simp: readable_lines_def journal_ok_def split: option.split)

lemma store_ok_clock:
  assumes "store_ok h st" "h_date_parse h' = h_date_parse h"
  shows "store_ok h' st"
proof -
  have f: "files_ok h i (st_files st i)" for i using assms(1) by (simp add: store_ok_def)
  have j: "journal_ok h' = journal_ok h"
    by (rule ext) (simp add: journal_ok_def line_ok_clock [OF assms(2)])
  have "files_ok h' i (st_files st i)" for i
    using f [of i] j known_prefix_clock [OF readable_lines_ok [OF f [of i]] assms(2)]
    unfolding files_ok_def snapfile_ok_def by metis
  moreover have "derived_ok h' i (st_files st i) d" if "derived_ok h i (st_files st i) d" for i d
  proof -
    have "list_all (line_ok h) (jf_lines g)" if "journal_at (st_files st i) (d_path d) = Some g" for g
      using journal_at_ok [OF f that] by (simp add: journal_ok_def)
    then show ?thesis using that known_prefix_clock [OF _ assms(2)] unfolding derived_ok_def by metis
  qed
  ultimately show ?thesis using assms(1) by (auto simp: store_ok_def cache_ok_def)
qed

section \<open>Several processes over the same files\<close>

text \<open>
  The server and the agent's helper commands are separate processes: they share the files and each
  has its own cache. Every operation of the store is one step here.
\<close>

record procs =
  ps_files :: "string \<Rightarrow> session_files"
  ps_caches :: "nat \<Rightarrow> string \<Rightarrow> derived option"

definition proc_view :: "nat \<Rightarrow> procs \<Rightarrow> store" where
  "proc_view p \<sigma> = \<lparr>st_files = ps_files \<sigma>, st_derived = ps_caches \<sigma> p, st_sessionId = JUndef\<rparr>"

definition proc_put :: "nat \<Rightarrow> store \<Rightarrow> procs \<Rightarrow> procs" where
  "proc_put p st \<sigma> = \<lparr>ps_files = st_files st, ps_caches = (ps_caches \<sigma>)(p := st_derived st)\<rparr>"

definition no_files :: session_files where
  "no_files = \<lparr>sf_primary = None, sf_legacy = None, sf_snapshot = None\<rparr>"

inductive store_run :: "(jsval \<Rightarrow> jsnum) \<Rightarrow> procs \<Rightarrow> bool" for dp where
  start: "store_run dp \<lparr>ps_files = \<lambda>_. no_files, ps_caches = \<lambda>_ _. None\<rparr>"
| append: "store_run dp \<sigma> \<Longrightarrow> h_date_parse hs = dp \<Longrightarrow> clock_ok hs \<Longrightarrow> event_clean ev \<Longrightarrow>
     appendEvent hs ev (proc_view p \<sigma>) = Inr (s, st) \<Longrightarrow> store_run dp (proc_put p st \<sigma>)"
| get: "store_run dp \<sigma> \<Longrightarrow> h_date_parse h = dp \<Longrightarrow> finite_dates h \<Longrightarrow>
     getSnapshot h v inc (proc_view p \<sigma>) = Inr (so, st) \<Longrightarrow> store_run dp (proc_put p st \<sigma>)"
| flush: "store_run dp \<sigma> \<Longrightarrow> h_date_parse h = dp \<Longrightarrow> finite_dates h \<Longrightarrow>
     flush_snapshot h v (proc_view p \<sigma>) = Inr (s, st) \<Longrightarrow> store_run dp (proc_put p st \<sigma>)"
| restart: "store_run dp \<sigma> \<Longrightarrow> store_run dp (\<sigma>\<lparr>ps_caches := (ps_caches \<sigma>)(p := \<lambda>_. None)\<rparr>)"

text \<open>A process that moves keeps the caches of the others sound, since journals only grow.\<close>

lemma proc_put_ok:
  assumes all: "\<And>q. store_ok h (proc_view q \<sigma>)" and st: "store_ok h st"
    and sid: "st_sessionId st = JUndef"
    and grow: "\<And>j. files_grow (ps_files \<sigma> j) (st_files st j)"
  shows "store_ok h (proc_view q (proc_put p st \<sigma>))"
proof (cases "q = p")
  case True
  then show ?thesis using st sid by (simp add: proc_view_def proc_put_def store_ok_def)
next
  case False
  have "cache_ok h (ps_files \<sigma>) (ps_caches \<sigma> q)" using all [of q] by (simp add: store_ok_def proc_view_def)
  then have "cache_ok h (st_files st) (ps_caches \<sigma> q)" using grow by (rule cache_ok_grow)
  with st False show ?thesis by (simp add: proc_view_def proc_put_def store_ok_def)
qed

lemma appendEvent_refines:
  assumes ok: "store_ok (host.truncate hs) st" and clk: "clock_ok hs" and ev: "event_clean ev"
    and r: "appendEvent hs ev st = Inr (s, st')"
  obtains n i where "normalizeEvent ev (st_sessionId st) = Inr n" "safeSessionId (dot n ''id'') = Inr i"
    "append_known hs i n st = (s, st')" "storable n"
proof -
  obtain n where n: "normalizeEvent ev (st_sessionId st) = Inr n"
    using r by (auto simp: appendEvent_def split: sum.splits)
  obtain i where i: "safeSessionId (dot n ''id'') = Inr i"
    using r n by (auto simp: appendEvent_def split: sum.splits)
  have "append_known hs i n st = (s, st')" using r n i by (simp add: appendEvent_def)
  then show ?thesis using that [OF n i] normalizeEvent_storable(1) [OF ev n] by simp
qed

lemma store_run_ok:
  assumes "store_run dp \<sigma>"
  shows "h_date_parse h = dp \<Longrightarrow> store_ok h (proc_view q \<sigma>)"
  using assms
proof (induction arbitrary: h q rule: store_run.induct)
  case start
  then show ?case by (simp add: proc_view_def store_ok_def files_ok_def snapfile_ok_def no_files_def cache_ok_def)
next
  case (append \<sigma> hs ev p s st)
  let ?h = "host.truncate hs"
  have all: "store_ok ?h (proc_view q \<sigma>)" for q using append.IH append.hyps(2) by simp
  obtain n i where ni: "append_known hs i n (proc_view p \<sigma>) = (s, st)" "storable n"
    by (rule appendEvent_refines [OF all append.hyps(3,4,5)])
  note a = append_known_refines [OF all append.hyps(3) ni(2,1)]
  have "store_ok ?h (proc_view q (proc_put p st \<sigma>))"
    by (rule proc_put_ok [OF all a(1)]) (use a(5,6) in \<open>simp_all add: proc_view_def\<close>)
  then show ?case by (rule store_ok_clock) (use append in simp)
next
  case (get \<sigma> h' v inc p so st)
  have all: "store_ok h' (proc_view q \<sigma>)" for q using get by simp
  have "store_ok h' st" "st_files st = ps_files \<sigma>" "st_sessionId st = JUndef"
    by (rule getSnapshot_refines [OF all get.hyps(3,4)]; simp add: proc_view_def)+
  then have "store_ok h' (proc_view q (proc_put p st \<sigma>))"
    by (intro proc_put_ok [OF all]) simp_all
  then show ?case by (rule store_ok_clock) (use get in simp)
next
  case (flush \<sigma> h' v p s st)
  have all: "store_ok h' (proc_view q \<sigma>)" for q using flush by simp
  note f = flush_refines [OF all flush.hyps(3,4)]
  have "store_ok h' (proc_view q (proc_put p st \<sigma>))"
    by (rule proc_put_ok [OF all f(1)]) (use f(2,3) in \<open>simp_all add: proc_view_def\<close>)
  then show ?case by (rule store_ok_clock) (use flush in simp)
next
  case (restart \<sigma> p)
  then have "store_ok h (proc_view q \<sigma>)" by simp
  then show ?case by (simp add: proc_view_def store_ok_def cache_ok_def)
qed

section \<open>The interface: an event log\<close>

text \<open>
  What a client may rely on: appending an event is one step of the reducer on the state of the
  session the event names, and leaves every other session alone. States are compared up to an
  equivalence that the steps respect (here: the order of the diagnostics).
\<close>

locale event_log =
  fixes ok :: "'st \<Rightarrow> bool"
    and admissible :: "'op \<Rightarrow> bool"
    and append :: "'op \<Rightarrow> 'st \<Rightarrow> 'st"
    and target :: "'op \<Rightarrow> 'id option"
    and state :: "'st \<Rightarrow> 'id \<Rightarrow> 'a"
    and step :: "'op \<Rightarrow> 'a \<Rightarrow> 'a"
    and eqv :: "'a \<Rightarrow> 'a \<Rightarrow> bool"
  assumes append_ok: "ok st \<Longrightarrow> admissible op \<Longrightarrow> ok (append op st)"
    and append_target: "ok st \<Longrightarrow> admissible op \<Longrightarrow> target op = Some i \<Longrightarrow>
          eqv (state (append op st) i) (step op (state st i))"
    and append_other: "ok st \<Longrightarrow> admissible op \<Longrightarrow> target op \<noteq> Some j \<Longrightarrow>
          state (append op st) j = state st j"
    and eqv_refl: "eqv a a"
    and eqv_trans: "eqv a b \<Longrightarrow> eqv b c \<Longrightarrow> eqv a c"
    and step_eqv: "eqv a b \<Longrightarrow> eqv (step op a) (step op b)"
begin

lemma run_ok: "ok st \<Longrightarrow> list_all admissible ops \<Longrightarrow> ok (fold append ops st)"
  by (induction ops arbitrary: st) (simp_all add: append_ok)

lemma fold_step_eqv: "eqv a b \<Longrightarrow> eqv (fold step ops a) (fold step ops b)"
  by (induction ops arbitrary: a b) (simp_all add: step_eqv)

lemma run_state:
  "ok st \<Longrightarrow> list_all admissible ops \<Longrightarrow>
   eqv (state (fold append ops st) i) (fold step (filter (\<lambda>op. target op = Some i) ops) (state st i))"
proof (induction ops arbitrary: st)
  case Nil
  then show ?case by (simp add: eqv_refl)
next
  case (Cons op ops)
  then have IH: "eqv (state (fold append ops (append op st)) i)
      (fold step (filter (\<lambda>op. target op = Some i) ops) (state (append op st) i))"
    by (simp add: append_ok)
  show ?case
  proof (cases "target op = Some i")
    case True
    then have "eqv (state (append op st) i) (step op (state st i))" using Cons.prems append_target by simp
    then show ?thesis using IH True fold_step_eqv eqv_trans by simp
  next
    case False
    then show ?thesis using IH Cons.prems append_other by simp
  qed
qed

lemma run_invariant:
  assumes "ok st" "list_all admissible ops" "P (state st i)"
    and step: "\<And>op a. admissible op \<Longrightarrow> P a \<Longrightarrow> P (step op a)"
    and resp: "\<And>a b. eqv b a \<Longrightarrow> P a \<Longrightarrow> P b"
  shows "P (state (fold append ops st) i)"
proof -
  have "P (fold step (filter (\<lambda>op. target op = Some i) ops) (state st i))"
    using assms(2,3) step by (induction ops arbitrary: st rule: rev_induct) simp_all
  then show ?thesis using resp run_state [OF assms(1,2)] by blast
qed

lemma run_other:
  "ok st \<Longrightarrow> list_all admissible ops \<Longrightarrow> list_all (\<lambda>op. target op \<noteq> Some j) ops \<Longrightarrow>
   state (fold append ops st) j = state st j"
  by (induction ops arbitrary: st) (simp_all add: append_ok append_other)

end

section \<open>The store is an event log\<close>

type_synonym store_op = "store_host \<times> jsval"

text \<open>A refused append (the error is thrown before anything is written) leaves the store as it is.\<close>

definition store_append :: "store_op \<Rightarrow> store \<Rightarrow> store" where
  "store_append op st = (case appendEvent (fst op) (snd op) st of Inl _ \<Rightarrow> st | Inr (_, st') \<Rightarrow> st')"

definition op_target :: "store_op \<Rightarrow> string option" where
  "op_target op = (case normalizeEvent (snd op) JUndef of
      Inl _ \<Rightarrow> None
    | Inr n \<Rightarrow> (case safeSessionId (dot n ''id'') of Inl _ \<Rightarrow> None | Inr i \<Rightarrow> Some i))"

definition date_host :: "(jsval \<Rightarrow> jsnum) \<Rightarrow> host" where
  "date_host dp = \<lparr>h_now = 0, h_iso = [], h_date_parse = dp\<rparr>"

definition session_state :: "(jsval \<Rightarrow> jsnum) \<Rightarrow> store \<Rightarrow> string \<Rightarrow> snapshot \<times> int" where
  "session_state dp st i = replay (date_host dp) i (readable_lines (st_files st i))"

text \<open>One step of the specification: the event is stamped, numbered and reduced.\<close>

definition log_step :: "store_op \<Rightarrow> snapshot \<times> int \<Rightarrow> snapshot \<times> int" where
  "log_step op a = (case normalizeEvent (snd op) JUndef of
      Inl _ \<Rightarrow> a
    | Inr n \<Rightarrow> (let h = host.truncate (fst op)
               in (applyEvent h (fst a) (journal_entry h (snd a) n), snd a + 1)))"

definition store_good :: "(jsval \<Rightarrow> jsnum) \<Rightarrow> store \<Rightarrow> bool" where
  "store_good dp st \<longleftrightarrow> store_ok (date_host dp) st \<and> st_sessionId st = JUndef"

definition op_admissible :: "(jsval \<Rightarrow> jsnum) \<Rightarrow> store_op \<Rightarrow> bool" where
  "op_admissible dp op \<longleftrightarrow> h_date_parse (fst op) = dp \<and> clock_ok (fst op) \<and> event_clean (snd op)"

definition same_state :: "snapshot \<times> int \<Rightarrow> snapshot \<times> int \<Rightarrow> bool" where
  "same_state a b \<longleftrightarrow> same_snapshot (fst a) (fst b) \<and> snd a = snd b"

lemma date_host_sel [simp]: "h_date_parse (date_host dp) = dp"
  by (simp add: date_host_def)

lemma session_state_clock:
  assumes "store_ok h st" "h_date_parse h = dp"
  shows "session_state dp st i = replay h i (readable_lines (st_files st i))"
proof -
  have "list_all (line_ok h) (readable_lines (st_files st i))"
    using assms(1) readable_lines_ok by (auto simp: store_ok_def)
  then show ?thesis using replay_clock [of h _ "date_host dp"] assms(2) by (simp add: session_state_def)
qed

lemma store_append_cases:
  assumes "store_good dp st" "op_admissible dp op"
  obtains (refused) "op_target op = None" "store_append op st = st"
  | (stored) n i s where "normalizeEvent (snd op) JUndef = Inr n" "op_target op = Some i" "storable n"
      "append_known (fst op) i n st = (s, store_append op st)"
proof (cases "appendEvent (fst op) (snd op) st")
  case (Inl e)
  then show ?thesis using assms(1) refused
    by (auto simp: appendEvent_def store_append_def op_target_def store_good_def split: sum.splits)
next
  case (Inr r)
  obtain s st' where r: "r = (s, st')" by fastforce
  have ok: "store_ok (host.truncate (fst op)) st"
    by (rule store_ok_clock [of "date_host dp"]) (use assms in \<open>simp_all add: store_good_def op_admissible_def\<close>)
  have adm: "clock_ok (fst op)" "event_clean (snd op)" using assms(2) by (simp_all add: op_admissible_def)
  obtain n i where ni: "normalizeEvent (snd op) (st_sessionId st) = Inr n" "safeSessionId (dot n ''id'') = Inr i"
      "append_known (fst op) i n st = (s, st')" "storable n"
    by (rule appendEvent_refines [OF ok adm Inr [unfolded r]])
  then show ?thesis
    using stored [of n i s] Inr r assms(1) by (simp add: store_good_def op_target_def store_append_def)
qed

lemma store_append_stored:
  assumes "store_good dp st" "op_admissible dp op" "normalizeEvent (snd op) JUndef = Inr n"
    "storable n" "append_known (fst op) i n st = (s, st')"
  shows "store_good dp st'" "same_state (session_state dp st' i) (log_step op (session_state dp st i))"
    "\<And>j. j \<noteq> i \<Longrightarrow> session_state dp st' j = session_state dp st j"
proof -
  let ?h = "host.truncate (fst op)"
  have dp: "h_date_parse ?h = dp" "clock_ok (fst op)" using assms(2) by (simp_all add: op_admissible_def)
  have ok: "store_ok ?h st"
    by (rule store_ok_clock [of "date_host dp"]) (use assms(1) dp in \<open>simp_all add: store_good_def\<close>)
  note a = append_known_refines [OF ok dp(2) assms(4,5)]
  show "store_good dp st'"
    using store_ok_clock [OF a(1), of "date_host dp"] a(6) assms(1) dp(1) by (simp add: store_good_def)
  show "session_state dp st' j = session_state dp st j" if "j \<noteq> i" for j
    using a(4) [OF that] by (simp add: session_state_def)
  have e: "truthy (journal_entry ?h sq n)" "typeof_object (journal_entry ?h sq n)"
    "dot (journal_entry ?h sq n) ''seq'' = jint sq" for sq
    by (simp_all add: journal_entry_def)
  have old: "session_state dp st i = replay ?h i (readable_lines (st_files st i))"
    and new: "session_state dp st' i = replay ?h i (readable_lines (st_files st' i))"
    using session_state_clock [OF ok dp(1)] session_state_clock [OF a(1) dp(1)] by simp_all
  show "same_state (session_state dp st' i) (log_step op (session_state dp st i))"
    unfolding old new a(2) using replay_snoc [OF e] assms(3)
    by (simp add: same_state_def log_step_def Let_def)
qed

interpretation slog: event_log "store_good dp" "op_admissible dp" store_append op_target
  "session_state dp" log_step same_state for dp
proof unfold_locales
  fix st op i
  assume st: "store_good dp st" and op: "op_admissible dp op"
  show "store_good dp (store_append op st)"
    by (rule store_append_cases [OF st op]) (use st store_append_stored(1) [OF st op] in auto)
  show "same_state (session_state dp (store_append op st) i) (log_step op (session_state dp st i))"
    if "op_target op = Some i"
    by (rule store_append_cases [OF st op]) (use that store_append_stored(2) [OF st op] in auto)
  show "session_state dp (store_append op st) i = session_state dp st i" if "op_target op \<noteq> Some i"
    by (rule store_append_cases [OF st op]) (use that store_append_stored(3) [OF st op] in auto)
next
  fix a b :: "snapshot \<times> int" and op
  assume "same_state a b"
  then show "same_state (log_step op a) (log_step op b)"
    by (auto simp: same_state_def log_step_def Let_def intro: applyEvent_same_snapshot split: sum.split)
qed (auto simp: same_state_def intro: same_snapshot_trans)

end
