(* ===== verification/Store_Properties.thy ===== *)
theory Store_Properties
  imports Store_Coherence
begin

text \<open>
  The properties of the session store: coherence of what is read with the journal, the fold of the
  reducer over a sequence of appends, the listing of the active sessions, and the two situations in
  which the store does not keep an event (a torn line, an append that another process interleaves).
\<close>

section \<open>Properties of the store\<close>

lemma rebuild_replay:
  assumes "files_ok h i fs"
  shows "rebuildSnapshotFromJournal h (journal_at fs (getReadableJournalPath fs)) i = replay h i (readable_lines fs)"
proof (cases "journal_at fs (getReadableJournalPath fs)")
  case None
  then show ?thesis by (simp add: rebuildSnapshotFromJournal_def readable_lines_def replay_def)
next
  case (Some f)
  then have "jf_tail f = None" using journal_at_ok [OF assms Some] by (simp add: journal_ok_def)
  with Some show ?thesis
    by (simp add: rebuildSnapshotFromJournal_def readable_lines_def replay_def jf_all_lines_def)
qed

lemma getSnapshot_total:
  assumes "safe_id_pattern i"
  shows "\<exists>so st'. getSnapshot h (JStr i) inc st = Inr (so, st')"
  using assms by (cases i) (auto simp: getSnapshot_def safeSessionId_def safe_id_pattern_def split: prod.split)

definition empty_store :: store where
  "empty_store = \<lparr>st_files = \<lambda>_. no_files, st_derived = \<lambda>_. None, st_sessionId = JUndef\<rparr>"

lemma empty_store_good: "store_good dp empty_store"
  by (simp add: store_good_def empty_store_def store_ok_def files_ok_def snapfile_ok_def no_files_def cache_ok_def)

lemma session_state_empty: "session_state dp empty_store i = (baseSnapshot i, 1)"
  by (simp add: session_state_def empty_store_def no_files_def readable_lines_def
      getReadableJournalPath_def journal_at_def replay_def baseSnapshot_def)

text \<open>A concrete host, two events and the stores they lead to, for the examples.\<close>

definition demo_host :: store_host where
  "demo_host = \<lparr>h_now = 1700000000000, h_iso = ''2023-11-14T22:13:20.000Z'',
     h_date_parse = \<lambda>_. Fin 1700000000000, h_json_bytes = \<lambda>_. 100, h_parse_error = \<lambda>_. ''bad''\<rparr>"

definition demo_steer :: jsval where
  "demo_steer = JObj [(''type'', JStr ''steer''), (''id'', JStr ''abcd1234''), (''message'', JStr ''bolder'')]"

definition demo_discard :: jsval where
  "demo_discard = JObj [(''type'', JStr ''discard''), (''id'', JStr ''abcd1234'')]"

definition demo_dates :: "jsval \<Rightarrow> jsnum" where "demo_dates = (\<lambda>_. Fin 1700000000000)"

definition demo_procs :: procs where
  "demo_procs = \<lparr>ps_files = \<lambda>_. no_files, ps_caches = \<lambda>_ _. None\<rparr>"

definition demo_store :: store where
  "demo_store = store_append (demo_host, demo_discard) (proc_view 0 demo_procs)"

lemma demo_dates [simp]: "h_date_parse demo_host = demo_dates" "finite_dates (host.truncate demo_host)"
  by (simp_all add: demo_host_def demo_dates_def finite_dates_def host.defs)

lemma demo_clock: "clock_ok demo_host"
  by (simp add: clock_ok_def demo_host_def finite_dates_def host.defs)

lemma demo_event_clean: "event_clean demo_discard" "event_clean demo_steer"
  by code_simp+

lemma demo_admissible [simp]:
  "op_admissible demo_dates (demo_host, demo_discard)" "op_admissible demo_dates (demo_host, demo_steer)"
  by (simp_all add: op_admissible_def demo_clock demo_event_clean)

lemma demo_append: "\<exists>s. appendEvent demo_host demo_discard (proc_view 0 demo_procs) = Inr (s, demo_store)"
proof -
  have "\<not> isl (appendEvent demo_host demo_discard (proc_view 0 demo_procs))" by code_simp
  then show ?thesis
    by (cases "appendEvent demo_host demo_discard (proc_view 0 demo_procs)") (auto simp: demo_store_def store_append_def)
qed

lemma demo_run: "store_run demo_dates (proc_put 0 demo_store demo_procs)"
proof -
  have "store_run demo_dates demo_procs" unfolding demo_procs_def by (rule store_run.start)
  then show ?thesis using demo_append store_run.append demo_clock demo_event_clean(1) demo_dates(1) by blast
qed





lemma same_snapshot_sel:
  assumes "same_snapshot s t"
  shows "sn_generationCanceled s = sn_generationCanceled t" "sn_phase s = sn_phase t" "sn_id s = sn_id t"
proof -
  have e: "strip_diags s = strip_diags t" using assms by (simp add: same_snapshot_def)
  show "sn_generationCanceled s = sn_generationCanceled t" "sn_phase s = sn_phase t" "sn_id s = sn_id t"
    using arg_cong [OF e, of sn_generationCanceled] arg_cong [OF e, of sn_phase] arg_cong [OF e, of sn_id]
    by (simp_all add: strip_diags_def)
qed

lemma demo_store_canceled:
  "store_good demo_dates demo_store \<and> sn_generationCanceled (fst (session_state demo_dates demo_store ''abcd1234''))"
proof
  have "store_good demo_dates (proc_view 0 demo_procs)"
    using empty_store_good by (simp add: proc_view_def demo_procs_def empty_store_def)
  then show "store_good demo_dates demo_store" unfolding demo_store_def by (rule slog.append_ok) simp
  show "sn_generationCanceled (fst (session_state demo_dates demo_store ''abcd1234''))" by code_simp
qed



section \<open>Listing the active sessions\<close>

lemma str_insert_mset [simp]: "mset (str_insert x ys) = add_mset x (mset ys)"
  by (induction ys) auto

lemma str_sort_mset [simp]: "mset (str_sort xs) = mset xs"
  unfolding str_sort_def by (induction xs) auto

lemma str_sort_set [simp]: "set (str_sort xs) = set xs"
  by (metis mset_eq_setD str_sort_mset)

lemma replay_id: "sn_id (fst (replay h i ls)) = i"
proof -
  have "sn_id (fst (replay_lines h k ls (s, sq, ds))) = sn_id s" for k s sq ds
    by (induction h k ls "(s, sq, ds)" arbitrary: s sq ds rule: replay_lines.induct) simp_all
  then have "sn_id (fst (replay_lines h 0 ls (baseSnapshot i, 1, []))) = i" by (simp add: baseSnapshot_def)
  then show ?thesis by (auto simp: replay_def split: prod.split)
qed

definition session_active :: "host \<Rightarrow> store \<Rightarrow> string \<Rightarrow> bool" where
  "session_active h st i = (\<not> has_str COMPLETED_SESSION_PHASES
      (sn_phase (fst (replay h i (readable_lines (st_files st i))))))"

lemma getSnapshot_active:
  assumes "store_ok h st" "finite_dates h" "safe_id_pattern i"
  obtains so st' where "getSnapshot h (JStr i) False st = Inr (so, st')" "store_ok h st'"
    "st_files st' = st_files st" "so = None \<longleftrightarrow> \<not> session_active h st i"
    "\<And>s. so = Some s \<Longrightarrow> sn_id s = i"
proof -
  have i: "safeSessionId (JStr i) = Inr i" "truthy (JStr i)"
    using assms(3) by (cases i, auto simp: safeSessionId_def safe_id_pattern_def)
  obtain d st2 where r: "readState h True i st = (d, st2)" by fastforce
  note c = readState_current [OF assms(1,2) r]
  have same: "same_snapshot (d_snapshot d) (fst (replay h i (readable_lines (st_files st i))))"
    using c(1) by (simp add: current_for_def agrees_def)
  let ?so = "if has_str COMPLETED_SESSION_PHASES (sn_phase (d_snapshot d)) then None else Some (d_snapshot d)"
  have "getSnapshot h (JStr i) False st = Inr (?so, st2)"
    using i r by (simp add: getSnapshot_def)
  then show ?thesis
    using that [of ?so st2] c(2,3) same_snapshot_sel(2,3) [OF same] replay_id
    by (auto simp: session_active_def split: if_splits)
qed

lemma list_active_spec:
  assumes "store_ok h st" "finite_dates h" "list_all safe_id_pattern is"
  shows "\<exists>ss st'. list_active h is st = Inr (ss, st') \<and> map sn_id ss = filter (session_active h st) is"
  using assms(1,3)
proof (induction "is" arbitrary: st)
  case (Cons i "is")
  from Cons.prems have si: "safe_id_pattern i" by simp
  obtain so st1 where g: "getSnapshot h (JStr i) False st = Inr (so, st1)" "store_ok h st1"
    "st_files st1 = st_files st" "so = None \<longleftrightarrow> \<not> session_active h st i" "\<And>s. so = Some s \<Longrightarrow> sn_id s = i"
    by (rule getSnapshot_active [OF Cons.prems(1) assms(2) si]) blast
  obtain ss st2 where l: "list_active h is st1 = Inr (ss, st2)" "map sn_id ss = filter (session_active h st1) is"
    using Cons.IH [OF g(2)] Cons.prems by auto
  have "session_active h st1 = session_active h st" using g(3) by (simp add: session_active_def fun_eq_iff)
  then show ?case using g(1,4,5) l by (cases so) auto
qed simp

text \<open>
  \<^verbatim>\<open>listActiveSessions\<close> on directories that hold journals of valid session ids only never
  throws and lists exactly the sessions whose replayed phase is not a completed one, each once, in
  the sorted order of their ids.
\<close>

theorem listActiveSessions_exact:
  assumes "store_ok h st" "finite_dates h"
    and "list_all safe_id_pattern (journal_ids legacyNames @ journal_ids names)"
  shows "\<exists>ss st'. listActiveSessions h legacyNames names st = Inr (ss, st') \<and>
    map sn_id ss = filter (session_active h st) (str_sort (remdups (journal_ids legacyNames @ journal_ids names)))"
proof -
  have "list_all safe_id_pattern (str_sort (remdups (journal_ids legacyNames @ journal_ids names)))"
    using assms(3) by (simp add: list_all_iff)
  then show ?thesis unfolding listActiveSessions_def by (rule list_active_spec [OF assms(1,2)])
qed

lemma listActiveSessions_exact_witness:
  "\<exists>ss st'. listActiveSessions (date_host demo_dates) [] [''abcd1234.jsonl'', ''snapshots''] demo_store = Inr (ss, st') \<and>
    map sn_id ss = filter (session_active (date_host demo_dates) demo_store)
      (str_sort (remdups (journal_ids [] @ journal_ids [''abcd1234.jsonl'', ''snapshots''])))"
proof (rule listActiveSessions_exact)
  show "store_ok (date_host demo_dates) demo_store" using demo_store_canceled by (simp add: store_good_def)
  show "finite_dates (date_host demo_dates)" by (simp add: finite_dates_def demo_dates_def)
  show "list_all safe_id_pattern (journal_ids [] @ journal_ids [''abcd1234.jsonl'', ''snapshots''])" by code_simp
qed

lemma list_active_unsafe:
  "\<exists>i\<in>set is. \<not> safe_id_pattern i \<Longrightarrow> \<exists>e. list_active h is st = Inl e"
proof (induction "is" arbitrary: st)
  case (Cons i "is")
  show ?case
  proof (cases "safe_id_pattern i")
    case False
    then show ?thesis by (cases "i = []") (simp_all add: getSnapshot_def safeSessionId_def)
  next
    case True
    then obtain so st1 where g: "getSnapshot h (JStr i) False st = Inr (so, st1)"
      using getSnapshot_total by blast
    obtain e where "list_active h is st1 = Inl e" using Cons True by auto
    then show ?thesis using g by simp
  qed
qed simp

text \<open>
  one stray file is enough to make the listing fail. Where either directory holds a file
  \<^verbatim>\<open><name>.jsonl\<close> whose name is not a valid session id, \<^verbatim>\<open>listActiveSessions\<close> throws, whatever
  the other journals hold.
\<close>

theorem listActiveSessions_stray_name:
  assumes "i \<in> set (journal_ids legacyNames @ journal_ids names)" "\<not> safe_id_pattern i"
  shows "\<exists>e. listActiveSessions h legacyNames names st = Inl e"
  unfolding listActiveSessions_def using assms by (intro list_active_unsafe) auto

lemma listActiveSessions_stray_name_witness:
  "\<exists>e. listActiveSessions (date_host demo_dates) [] [''my notes.jsonl''] demo_store = Inl e"
  by (rule listActiveSessions_stray_name [of "''my notes''"]) code_simp+

section \<open>A torn line\<close>

text \<open>
  C25: an event appended behind a torn line is lost. Where the journal ends in an unterminated line
  that is not JSON (a writer died in the middle of a write), the next append completes that line, so
  that the replay of the longer journal is the old one up to diagnostics, and the next number too.
\<close>

theorem torn_tail_append_lost:
  assumes "jf_tail f = Some (b, BadJson m)"
  shows "strip_diags (fst (rebuildSnapshotFromJournal h (Some (append_line hs entry f)) i)) =
      strip_diags (fst (rebuildSnapshotFromJournal h (Some f) i)) \<and>
    snd (rebuildSnapshotFromJournal h (Some (append_line hs entry f)) i) =
      snd (rebuildSnapshotFromJournal h (Some f) i)"
proof -
  obtain s sq ds where "replay_lines h 0 (jf_lines f) (baseSnapshot i, 1, []) = (s, sq, ds)"
    by (cases "replay_lines h 0 (jf_lines f) (baseSnapshot i, 1, [])") auto
  then show ?thesis
    using assms by (simp add: rebuildSnapshotFromJournal_def append_line_def Let_def jf_all_lines_def
        replay_lines_append strip_diags_def)
qed
lemma torn_tail_append_lost_witness:
  "let f = \<lparr>jf_lines = [(60, Json demo_steer)], jf_tail = Some (7, BadJson ''cut''), jf_mtime = 0\<rparr>;
       h = host.truncate demo_host
   in strip_diags (fst (rebuildSnapshotFromJournal h (Some (append_line demo_host demo_discard f)) ''abcd1234'')) =
      strip_diags (fst (rebuildSnapshotFromJournal h (Some f) ''abcd1234'')) \<and>
    snd (rebuildSnapshotFromJournal h (Some (append_line demo_host demo_discard f)) ''abcd1234'') =
      snd (rebuildSnapshotFromJournal h (Some f) ''abcd1234'')"
  unfolding Let_def by (rule torn_tail_append_lost) simp


section \<open>An append is not atomic\<close>

text \<open>
  The three parts of \<^verbatim>\<open>appendEvent\<close> another process may run between: the read of the prior state,
  the write of the entry to the journal, and the update of the snapshot file.
\<close>

definition append_read :: "host \<Rightarrow> string \<Rightarrow> store \<Rightarrow> derived \<times> store" where
  "append_read h i st = readState h True i (adopt_legacy h i st)"

definition append_write :: "store_host \<Rightarrow> string \<Rightarrow> jsval \<Rightarrow> store \<Rightarrow> store" where
  "append_write h i entry st =
     st\<lparr>st_files := (st_files st)(i := append_to_primary h entry (st_files st i))\<rparr>"

lemma append_known_parts:
  "append_known hs i n st =
     (let h = host.truncate hs; (prior, st2) = append_read h i st;
          entry = journal_entry h (d_nextSeq prior) n;
          next' = applyEvent h (d_snapshot prior) entry
      in (next', persist i next' (d_nextSeq prior + 1) (append_write hs i entry st2)))"
  by (simp add: append_known_def append_read_def append_write_def Let_def split: prod.split)

text \<open>Process 0 reads; process 1 appends a discard; process 0 goes on with its steer.\<close>

definition race_files :: "string \<Rightarrow> session_files" where
  "race_files =
     (let h = host.truncate demo_host; i = ''abcd1234'';
          (prior, a1) = append_read h i empty_store;
          b1 = snd (append_known demo_host i demo_discard (empty_store\<lparr>st_files := st_files a1\<rparr>));
          entry = journal_entry h (d_nextSeq prior) demo_steer;
          a2 = append_write demo_host i entry (a1\<lparr>st_files := st_files b1\<rparr>)
      in st_files (persist i (applyEvent h (d_snapshot prior) entry) (d_nextSeq prior + 1) a2))"

lemma getSnapshot_fresh:
  assumes "st_derived st i = None" "sf_primary (st_files st i) = Some f"
    "sf_snapshot (st_files st i) = Some (Snap (jint (jf_size f)) (jint q) s)" "sn_id s = i" "safe_id_pattern i"
  shows "\<exists>st'. getSnapshot h (JStr i) True st = Inr (Some (json_snapshot i s), st')"
proof -
  have "i \<noteq> []" using assms(5) by (auto simp: safe_id_pattern_def)
  then show ?thesis using assms
    by (simp add: getSnapshot_def safeSessionId_def readState_def getReadableJournalPath_def journal_at_def
        stat_size_def readSnapshotFile_def Let_def)
qed

lemma race_files_journal: "map_option jf_size (sf_primary (race_files ''abcd1234'')) = Some 200"
  by code_simp

lemma race_files_snapshot:
  "case sf_snapshot (race_files ''abcd1234'') of
      Some (Snap b q s) \<Rightarrow> b = jint 200 \<and> q = jint 2 \<and> \<not> sn_generationCanceled s \<and> sn_id s = ''abcd1234''
    | _ \<Rightarrow> False"
  by code_simp

lemma race_files_replay:
  "sn_generationCanceled (fst (rebuildSnapshotFromJournal (host.truncate demo_host)
      (sf_primary (race_files ''abcd1234'')) ''abcd1234''))"
  by code_simp

text \<open>
  C26: an append is not atomic across processes. Process 0 reads the state of a session, process 1
  appends a discard, and process 0 appends its steer: the snapshot file then has the size of the
  whole journal, so a process that starts reads it as current, although it does not contain the
  discard. That process sees a generation that is not cancelled; the journal says that it is.
\<close>

theorem interleaved_append_hides_cancel:
  "\<exists>s st'. getSnapshot (host.truncate demo_host) (JStr ''abcd1234'') True
        (empty_store\<lparr>st_files := race_files\<rparr>) = Inr (Some s, st') \<and> \<not> sn_generationCanceled s \<and>
   sn_generationCanceled (fst (rebuildSnapshotFromJournal (host.truncate demo_host)
      (sf_primary (race_files ''abcd1234'')) ''abcd1234''))"
proof -
  obtain f where f: "sf_primary (race_files ''abcd1234'') = Some f" "jf_size f = 200"
    using race_files_journal by auto
  obtain s where s: "sf_snapshot (race_files ''abcd1234'') = Some (Snap (jint 200) (jint 2) s)"
    "\<not> sn_generationCanceled s" "sn_id s = ''abcd1234''"
    using race_files_snapshot by (auto split: option.splits snapfile.splits)
  have safe: "safe_id_pattern ''abcd1234''" by code_simp
  have "\<exists>st'. getSnapshot (host.truncate demo_host) (JStr ''abcd1234'') True
      (empty_store\<lparr>st_files := race_files\<rparr>) = Inr (Some (json_snapshot ''abcd1234'' s), st')"
    by (rule getSnapshot_fresh [where q = 2 and f = f, OF _ _ _ s(3) safe]) (simp_all add: f s empty_store_def)
  moreover have "\<not> sn_generationCanceled (json_snapshot ''abcd1234'' s)"
    using s(2) by (simp add: json_snapshot_def Let_def)
  ultimately show ?thesis using race_files_replay by blast
qed

end
