(* ===== verification/Session_Properties.thy ===== *)
theory Session_Properties
  imports Store_Properties
begin

text \<open>
  The properties of the browser message validator and of the session reducer, and of the two
  together: what an accepted message guarantees to the store and to the reducer.
\<close>

section \<open>Accepted messages\<close>

lemma ops_throw:
  assumes "validateManualEditOps label ops = Inl e"
  shows "\<exists>oper \<in> set ops. nullish oper"
  using assms
  by (induction label ops rule: validateManualEditOps.induct)
     (auto simp: validateManualEditOp_def split: if_splits option.splits jsval.splits)

lemma validate_annotation_id: "isValidId (JStr i) \<longleftrightarrow> length i = 8 \<and> list_all is_lower_hex i"
  by (auto simp: matches_ID_PATTERN_def)

lemma lower_hex_session_char: "is_lower_hex c \<Longrightarrow> is_session_char c"
  by (auto simp: is_lower_hex_def is_digit_def is_session_char_def Let_def)

lemma isValidId_safe: "isValidId v \<Longrightarrow> \<exists>i. v = JStr i \<and> safe_id_pattern i"
  by (cases v) (auto simp: matches_ID_PATTERN_def safe_id_pattern_def list_all_iff
      intro: lower_hex_session_char)

lemma accepted_type:
  assumes "validateEvent msg = Inr None"
  shows "has_str CLIENT_EVENT_TYPES (dot msg ''type'')"
  using assms unfolding validateEvent_def CLIENT_EVENT_TYPES_def
  by (auto simp: has_str_iff split: if_splits jsval.splits)

lemma accepted_id:
  assumes "validateEvent msg = Inr None" "\<not> has_str [''exit'', ''prefetch''] (dot msg ''type'')"
  shows "isValidId (dot msg ''id'')"
proof -
  have t: "has_str CLIENT_EVENT_TYPES (dot msg ''type'')" using assms(1) by (rule accepted_type)
  have m: "validateManualEditEvent msg ''manual_edits'' = Inr None \<Longrightarrow> isValidId (dot msg ''id'')"
    by (simp add: validateManualEditEvent_def split: if_splits)
  have v: "validateGenerate msg = None \<Longrightarrow> isValidId (dot msg ''id'')"
    "validateAccept msg = None \<Longrightarrow> isValidId (dot msg ''id'')"
    "validateCheckpoint msg = None \<Longrightarrow> isValidId (dot msg ''id'')"
    "validateAgentPhase msg = None \<Longrightarrow> isValidId (dot msg ''id'')"
    "validateMountAck msg = None \<Longrightarrow> isValidId (dot msg ''id'')"
    "validateMountFailure msg = None \<Longrightarrow> isValidId (dot msg ''id'')"
    "validateSteer msg = None \<Longrightarrow> isValidId (dot msg ''id'')"
    "validateCarbonizeCleanup msg = None \<Longrightarrow> isValidId (dot msg ''id'')"
    by (simp_all add: validateGenerate_def validateAccept_def validateCheckpoint_def validateAgentPhase_def
        validateMountAck_def validateMountFailure_def validateSteer_def validateCarbonizeCleanup_def
        split: if_splits)
  obtain s where s: "dot msg ''type'' = JStr s" "s \<in> set CLIENT_EVENT_TYPES"
    using t by (auto simp: has_str_iff)
  show ?thesis
    using assms s m v by (simp add: validateEvent_def has_str_iff split: if_splits)
qed

text \<open>
  An accepted browser message, other than the two that name no session, carries an id that is
  safe as a path segment: the store neither refuses it nor writes outside its directory.
\<close>

theorem accepted_message_id_safe:
  assumes "validateEvent msg = Inr None" "\<not> has_str [''exit'', ''prefetch''] (dot msg ''type'')"
  shows "\<exists>i. safeSessionId (dot msg ''id'') = Inr i \<and> dot msg ''id'' = JStr i \<and> length i = 8"
  using isValidId_safe [OF accepted_id [OF assms]] accepted_id [OF assms]
  by (auto simp: safeSessionId_def matches_ID_PATTERN_def)

definition demo_mount_ack :: jsval where
  "demo_mount_ack = JObj [(''type'', JStr ''variant_mounted''), (''id'', JStr ''abcd1234''), (''variant'', jint 2)]"

lemma accepted_message_id_safe_witness:
  "\<exists>i. safeSessionId (dot demo_mount_ack ''id'') = Inr i \<and> dot demo_mount_ack ''id'' = JStr i \<and> length i = 8"
  by (rule accepted_message_id_safe; code_simp)

text \<open>
  the validator is total but for one hole. It returns a verdict on every value a message may
  parse to, unless the message is a \<^verbatim>\<open>manual_edits\<close> whose list of operations holds a null.
\<close>

theorem validateEvent_throws_only_on_null_op:
  assumes "validateEvent msg = Inl e"
  shows "dot msg ''type'' = JStr ''manual_edits'' \<and> (\<exists>oper \<in> set (arr_elems (dot msg ''ops'')). nullish oper)"
proof -
  have "dot msg ''type'' = JStr ''manual_edits'' \<and> validateManualEditEvent msg ''manual_edits'' = Inl e"
    using assms by (simp add: validateEvent_def split: if_splits jsval.splits)
  then show ?thesis using ops_throw by (auto simp: validateManualEditEvent_def split: if_splits)
qed

definition demo_null_op :: jsval where
  "demo_null_op = JObj [(''type'', JStr ''manual_edits''), (''id'', JStr ''abcd1234''), (''pageUrl'', JStr ''/''),
     (''element'', JObj []), (''ops'', JArr [JNull])]"

lemma validateEvent_throws_only_on_null_op_witness:
  "dot demo_null_op ''type'' = JStr ''manual_edits'' \<and>
   (\<exists>oper \<in> set (arr_elems (dot demo_null_op ''ops'')). nullish oper)"
  by (rule validateEvent_throws_only_on_null_op [of _ TypeError]) code_simp

section \<open>Replay of arbitrary journals\<close>

lemma add_diags_wf: "snapshot_wf (s\<lparr>sn_diagnostics := d\<rparr>) = snapshot_wf s"
  by (simp add: snapshot_wf_def)

lemma replay_lines_wf:
  "snapshot_wf s \<Longrightarrow> snapshot_wf (fst (replay_lines h k ls (s, sq, ds)))"
  by (induction h k ls "(s, sq, ds)" arbitrary: s sq ds rule: replay_lines.induct) (simp_all add: applyEvent_wf)

lemma next_seq_ge:
  fixes sq :: int
  shows "sq \<le> (case v of JNum (Fin q) \<Rightarrow> if is_integral q then max sq (\<lfloor>q\<rfloor> + 1) else sq | _ \<Rightarrow> sq)"
  by (auto split: jsval.split jsnum.split)

lemma replay_lines_seq: "sq \<le> fst (snd (replay_lines h k ls (s, sq, ds)))"
proof (induction h k ls "(s, sq, ds)" arbitrary: s sq ds rule: replay_lines.induct)
  case (4 h i b entry ls s sq ds)
  then show ?case using next_seq_ge [of sq "dot entry ''seq''"] by (cases "\<not> truthy entry \<or> \<not> typeof_object entry") auto
qed simp_all

text \<open>
  C4: whatever a journal holds (garbage lines, entries no validator saw, a torn tail), its replay is a
  well-formed snapshot of the session: the mounted variants increasing and positive, at most five
  mount failures kept, the render state in agreement with both, no token in the pending event, and a
  next sequence number that is positive.
\<close>

theorem any_journal_replays_well_formed:
  "snapshot_wf (fst (rebuildSnapshotFromJournal h jf i)) \<and> 1 \<le> snd (rebuildSnapshotFromJournal h jf i)
   \<and> sn_id (fst (rebuildSnapshotFromJournal h jf i)) = i"
proof (cases jf)
  case None
  have "sn_id (baseSnapshot i) = i" by (simp add: baseSnapshot_def)
  with None show ?thesis by (simp add: rebuildSnapshotFromJournal_def snapshot_wf_base)
next
  case (Some f)
  obtain s sq ds where r: "replay_lines h 0 (jf_all_lines f) (baseSnapshot i, 1, []) = (s, sq, ds)"
    by (cases "replay_lines h 0 (jf_all_lines f) (baseSnapshot i, 1, [])") auto
  have "snapshot_wf s" "1 \<le> sq"
    using replay_lines_wf [OF snapshot_wf_base, of h 0 "jf_all_lines f" i 1 "[]"]
      replay_lines_seq [of 1 h 0 "jf_all_lines f" "baseSnapshot i" "[]"] r by simp_all
  then show ?thesis using r Some replay_id [of h i "jf_all_lines f"]
    by (simp add: rebuildSnapshotFromJournal_def replay_def add_diags_wf)
qed

section \<open>The fence\<close>


definition demo_ready :: jsval where
  "demo_ready = JObj [(''type'', JStr ''variants_ready''), (''id'', JStr ''abcd1234'')]"

definition demo_canceled :: snapshot where
  "demo_canceled = applyEvent (host.truncate demo_host) (baseSnapshot ''abcd1234'') demo_discard"


text \<open>
  the checkpoint counters of the two domains never move backwards, for entries whose revision, if
  any, is an integer (the validator accepts no other).
\<close>

theorem checkpoint_counters_monotone:
  assumes "int_revisions s b p" "int_revision_event (entry_event entry)"
  shows "\<exists>b' p'. int_revisions (applyEvent h s entry) b' p' \<and> b \<le> b' \<and> p \<le> p'"
  using assms by (rule applyEvent_revisions)

definition demo_checkpoint :: jsval where
  "demo_checkpoint = JObj [(''type'', JStr ''checkpoint''), (''id'', JStr ''abcd1234''), (''revision'', jint 3),
     (''owner'', JStr ''tab''), (''phase'', JStr ''cycling'')]"

lemma checkpoint_counters_monotone_witness:
  "\<exists>b' p'. int_revisions (applyEvent (host.truncate demo_host) (baseSnapshot ''abcd1234'') demo_checkpoint) b' p' \<and>
     0 \<le> b' \<and> 0 \<le> p'"
  by (rule checkpoint_counters_monotone) code_simp+

text \<open>
  the publisher cannot take the browser's state away. A checkpoint of the publication domain
  leaves the browser's counters, owner, visible variant and parameter values as they are.
\<close>

theorem publication_checkpoint_keeps_browser_state:
  assumes "publication_domain event"
  shows "let m = apply_checkpoint event n in
    sn_browserCheckpointRevision m = sn_browserCheckpointRevision n \<and>
    sn_checkpointRevision m = sn_checkpointRevision n \<and> sn_activeOwner m = sn_activeOwner n \<and>
    sn_visibleVariant m = sn_visibleVariant n \<and> sn_paramValues m = sn_paramValues n"
  using publication_checkpoint_frame [OF assms] by (simp add: Let_def)

lemma publication_checkpoint_keeps_browser_state_witness:
  "let event = JObj [(''type'', JStr ''checkpoint''), (''reason'', JStr ''variants_progress''), (''revision'', jint 1),
         (''visibleVariant'', jint 9)];
       n = baseSnapshot ''abcd1234''; m = apply_checkpoint event n in
    sn_browserCheckpointRevision m = sn_browserCheckpointRevision n \<and>
    sn_checkpointRevision m = sn_checkpointRevision n \<and> sn_activeOwner m = sn_activeOwner n \<and>
    sn_visibleVariant m = sn_visibleVariant n \<and> sn_paramValues m = sn_paramValues n"
  unfolding Let_def by (rule publication_checkpoint_keeps_browser_state [unfolded Let_def]) code_simp

text \<open>
  a finished generation stays finished: the completion time, once set, is never cleared, by
  whatever event comes (one that carries a falsy time of its own aside).
\<close>

theorem completion_monotone:
  assumes "truthy (sn_generationCompletedAt s)" "dated_event h (entry_event entry)"
  shows "truthy (sn_generationCompletedAt (applyEvent h s entry))"
  using assms by (rule applyEvent_completed_mono)

definition demo_completed :: snapshot where
  "demo_completed = applyEvent (host.truncate demo_host) (baseSnapshot ''abcd1234'') demo_ready"

lemma completion_monotone_witness:
  "truthy (sn_generationCompletedAt (applyEvent (host.truncate demo_host) demo_completed demo_checkpoint))"
  by (rule completion_monotone; code_simp)

lemma sort_eq_Nil: "sort xs = [] \<longleftrightarrow> xs = []"
  by (metis set_empty set_sort)

text \<open>
  the validator and the reducer agree on mount acknowledgements. An accepted
  \<^verbatim>\<open>variant_mounted\<close> is never taken for malformed: its variant is among the mounted ones afterwards,
  and the session is rendered.
\<close>

theorem accepted_mount_ack_is_recorded:
  assumes "validateEvent msg = Inr None" "dot msg ''type'' = JStr ''variant_mounted''" "entry_event entry = msg"
  shows "\<exists>v. dot msg ''variant'' = jint v \<and> v \<in> set (sn_mountedVariants (applyEvent h s entry)) \<and>
    sn_renderState (applyEvent h s entry) = JStr ''mounted''"
proof -
  have "validateMountAck msg = None"
    using assms(1,2) by (simp add: validateEvent_def split: if_splits)
  then have valid: "isValidMountVariant (dot msg ''variant'')"
    by (simp add: validateMountAck_def split: if_splits)
  then obtain v where v: "dot msg ''variant'' = jint v" "1 \<le> v"
    by (auto simp: isValidMountVariant_def int_between_iff)
  then have mv: "mount_variant msg = Some v" by (simp add: mount_variant_def)
  have "applyEvent h s entry = apply_variant_mounted msg (next_base h entry s)"
    using assms(2,3) by (simp add: applyEvent_def apply_by_type_def)
  then show ?thesis
    using v mv by (auto simp: apply_variant_mounted_def Let_def deriveRenderState_def sort_eq_Nil)
qed

lemma accepted_mount_ack_is_recorded_witness:
  "\<exists>v. dot demo_mount_ack ''variant'' = jint v \<and>
    v \<in> set (sn_mountedVariants (applyEvent (host.truncate demo_host) (baseSnapshot ''abcd1234'') demo_mount_ack)) \<and>
    sn_renderState (applyEvent (host.truncate demo_host) (baseSnapshot ''abcd1234'') demo_mount_ack) = JStr ''mounted''"
  by (rule accepted_mount_ack_is_recorded; code_simp)

text \<open>
  the reducer knows the events of the vocabulary and no other. An entry whose type is not a
  journal event type only leaves a diagnostic behind.
\<close>

theorem unknown_entry_only_diagnosed:
  assumes "\<not> has_str JOURNAL_EVENT_TYPES (dot (entry_event entry) ''type'')"
  shows "applyEvent h s entry =
    push_diag [(''error'', JStr ''unknown_event_type''), (''type'', dot (entry_event entry) ''type'')]
      (next_base h entry s)"
  using assms by (rule applyEvent_unknown)

lemma unknown_entry_only_diagnosed_witness:
  "applyEvent (host.truncate demo_host) demo_canceled (JObj [(''type'', JStr ''accepted'')]) =
    push_diag [(''error'', JStr ''unknown_event_type''),
        (''type'', dot (entry_event (JObj [(''type'', JStr ''accepted'')])) ''type'')]
      (next_base (host.truncate demo_host) (JObj [(''type'', JStr ''accepted'')]) demo_canceled)"
  by (rule unknown_entry_only_diagnosed) code_simp

end
