(* ===== verification/Paths.thy ===== *)
theory Paths
  imports Js_Values
begin

text \<open>
  The functions of \<^verbatim>\<open>node:path\<close> (POSIX) that the scripts use, on the segments of a path, and the
  confinement of a file to the project directory, which the scripts check in several places with
  \<^verbatim>\<open>path.relative\<close>.
\<close>

section \<open>Normalisation\<close>

definition isAbsolute :: "string \<Rightarrow> bool" where
  "isAbsolute p = starts_with p ''/''"

text \<open>One segment after those already normalised; \<open>ab\<close> tells whether the path is absolute.\<close>

definition add_segment :: "bool \<Rightarrow> string \<Rightarrow> string list \<Rightarrow> string list" where
  "add_segment ab seg acc =
     (if seg = [] \<or> seg = ''.'' then acc
      else if seg = ''..'' then
        (if acc \<noteq> [] \<and> last acc \<noteq> ''..'' then butlast acc else if ab then acc else acc @ [''..''])
      else acc @ [seg])"

definition norm_segments :: "bool \<Rightarrow> string list \<Rightarrow> string list" where
  "norm_segments ab segs = fold (add_segment ab) segs []"

definition path_segments :: "string \<Rightarrow> string list" where
  "path_segments p = norm_segments (isAbsolute p) (split_on (CHR ''/'') p)"

text \<open>\<^verbatim>\<open>path.resolve(cwd, p)\<close> for an absolute \<open>cwd\<close>, as segments and as text.\<close>

definition resolve_segments :: "string \<Rightarrow> string \<Rightarrow> string list" where
  "resolve_segments cwd p = (if isAbsolute p then path_segments p else path_segments (cwd @ ''/'' @ p))"

definition abs_path :: "string list \<Rightarrow> string" where
  "abs_path segs = CHR ''/'' # join_with ''/'' segs"

definition path_resolve :: "string \<Rightarrow> string \<Rightarrow> string" where
  "path_resolve cwd p = abs_path (resolve_segments cwd p)"

fun common_prefix :: "'a list \<Rightarrow> 'a list \<Rightarrow> nat" where
  "common_prefix (x # xs) (y # ys) = (if x = y then Suc (common_prefix xs ys) else 0)"
| "common_prefix _ _ = 0"

text \<open>\<^verbatim>\<open>path.relative(from, to)\<close> for absolute paths.\<close>

definition relative_segments :: "string list \<Rightarrow> string list \<Rightarrow> string list" where
  "relative_segments fr to =
     (let k = common_prefix fr to in replicate (length fr - k) ''..'' @ drop k to)"

definition path_relative :: "string \<Rightarrow> string \<Rightarrow> string" where
  "path_relative fr to = join_with ''/'' (relative_segments (path_segments fr) (path_segments to))"

definition path_join :: "string \<Rightarrow> string \<Rightarrow> string" where
  "path_join a b =
     (let p = (if a = [] then b else if b = [] then a else a @ ''/'' @ b);
          segs = path_segments p; trail = (if ends_with p ''/'' \<and> segs \<noteq> [] then ''/'' else [])
      in if p = [] then ''.''
         else if isAbsolute p then abs_path segs @ trail
         else if segs = [] then ''.'' else join_with ''/'' segs @ trail)"

definition path_basename :: "string \<Rightarrow> string" where
  "path_basename p = (case filter (\<lambda>s. s \<noteq> []) (split_on (CHR ''/'') p) of [] \<Rightarrow> [] | ss \<Rightarrow> last ss)"

text \<open>\<^verbatim>\<open>path.extname\<close>: from the last dot of the base name on, unless that dot starts it.\<close>

definition path_extname :: "string \<Rightarrow> string" where
  "path_extname p =
     (let b = path_basename p; ext = takeWhile (\<lambda>c. c \<noteq> CHR ''.'') (rev b)
      in if length ext + 1 \<ge> length b \<or> b = ''..'' then [] else CHR ''.'' # rev ext)"

section \<open>Confinement\<close>

text \<open>
  The test of the scripts: \<^verbatim>\<open>!rel || rel.startsWith('..') || path.isAbsolute(rel)\<close> refuses.
\<close>

definition outside_root :: "string \<Rightarrow> bool" where
  "outside_root rel = (rel = [] \<or> starts_with rel ''..'' \<or> isAbsolute rel)"

definition normalizeProjectFile :: "string \<Rightarrow> jsval \<Rightarrow> string option" where
  "normalizeProjectFile cwd file = (case file of
      JStr f \<Rightarrow>
        if f = [] then None
        else (let rel = path_relative cwd (path_resolve cwd f) in if outside_root rel then None else Some rel)
    | _ \<Rightarrow> None)"

section \<open>Segments\<close>

definition plain_segment :: "string \<Rightarrow> bool" where
  "plain_segment s \<longleftrightarrow> s \<noteq> [] \<and> s \<noteq> ''.'' \<and> s \<noteq> ''..'' \<and> CHR ''/'' \<notin> set s"

lemma split_on_no_sep: "s \<in> set (split_on c p) \<Longrightarrow> c \<notin> set s"
  by (induction c p arbitrary: s rule: split_on.induct) (auto split: list.splits if_splits)

lemma split_on_ne [simp]: "split_on c p \<noteq> []"
  by (cases "(c, p)" rule: split_on.cases) (auto split: list.split)

lemma split_on_plain: "c \<notin> set s \<Longrightarrow> split_on c s = [s]"
  by (induction s) auto

lemma split_on_append: "c \<notin> set s \<Longrightarrow> split_on c (s @ c # t) = s # split_on c t"
  by (induction s) auto

lemma split_on_join:
  "\<forall>s\<in>set segs. CHR ''/'' \<notin> set s \<Longrightarrow> segs \<noteq> [] \<Longrightarrow> split_on (CHR ''/'') (join_with ''/'' segs) = segs"
proof (induction segs)
  case (Cons s segs)
  then show ?case by (cases segs) (simp_all add: split_on_plain split_on_append)
qed simp

lemma add_segment_plain:
  "list_all plain_segment acc \<Longrightarrow> CHR ''/'' \<notin> set seg \<Longrightarrow> list_all plain_segment (add_segment True seg acc)"
  by (auto simp: add_segment_def plain_segment_def list_all_iff dest: in_set_butlastD)

lemma norm_segments_plain:
  assumes "\<forall>s\<in>set segs. CHR ''/'' \<notin> set s"
  shows "list_all plain_segment (norm_segments True segs)"
proof -
  have "list_all plain_segment acc \<Longrightarrow> list_all plain_segment (fold (add_segment True) segs acc)" for acc
    using assms by (induction segs arbitrary: acc) (simp_all add: add_segment_plain)
  then show ?thesis by (simp add: norm_segments_def)
qed

lemma path_segments_plain: "isAbsolute p \<Longrightarrow> list_all plain_segment (path_segments p)"
  unfolding path_segments_def using norm_segments_plain split_on_no_sep by simp

lemma norm_segments_id:
  assumes "list_all plain_segment segs"
  shows "norm_segments True segs = segs"
proof -
  have "fold (add_segment True) segs acc = acc @ segs" for acc
    using assms by (induction segs arbitrary: acc) (auto simp: add_segment_def plain_segment_def)
  then show ?thesis by (simp add: norm_segments_def)
qed

lemma path_segments_abs:
  assumes "list_all plain_segment segs"
  shows "path_segments (abs_path segs) = segs"
proof (cases "segs = []")
  case True
  then show ?thesis by (simp add: path_segments_def abs_path_def isAbsolute_def norm_segments_def add_segment_def)
next
  case False
  have "split_on (CHR ''/'') (abs_path segs) = [] # segs"
    using assms False split_on_join [of segs] by (auto simp: abs_path_def plain_segment_def list_all_iff)
  then show ?thesis
    using norm_segments_id [OF assms]
    by (simp add: path_segments_def isAbsolute_def abs_path_def norm_segments_def add_segment_def)
qed

lemma resolve_plain:
  assumes "isAbsolute cwd"
  shows "list_all plain_segment (resolve_segments cwd p)"
proof -
  have "isAbsolute (cwd @ ''/'' @ p)" using assms by (cases cwd) (auto simp: isAbsolute_def)
  then show ?thesis by (simp add: resolve_segments_def path_segments_plain)
qed

lemma split_on_snoc_sep: "split_on c (p @ c # q) = split_on c p @ split_on c q"
  by (induction p) (auto split: list.split)

lemma append_segments:
  assumes "isAbsolute cwd" "list_all plain_segment (split_on (CHR ''/'') rel)"
  shows "path_segments (cwd @ ''/'' @ rel) = path_segments cwd @ split_on (CHR ''/'') rel"
proof -
  have ab: "isAbsolute (cwd @ ''/'' @ rel)" using assms(1) by (cases cwd) (auto simp: isAbsolute_def)
  have "fold (add_segment True) segs acc = acc @ segs" if "list_all plain_segment segs" for segs acc
    using that by (induction segs arbitrary: acc) (auto simp: add_segment_def plain_segment_def)
  then show ?thesis
    using assms ab by (simp add: path_segments_def norm_segments_def split_on_snoc_sep)
qed

lemma common_prefix_le: "common_prefix xs ys \<le> length xs" "common_prefix xs ys \<le> length ys"
  by (induction xs ys rule: common_prefix.induct) auto

lemma common_prefix_take: "take (common_prefix xs ys) xs = take (common_prefix xs ys) ys"
  by (induction xs ys rule: common_prefix.induct) auto

text \<open>A relative path that passes the test names a file strictly below the root.\<close>

lemma starts_with_append: "starts_with (p @ q) p"
  by (induction p) auto

lemma inside_root:
  assumes "list_all plain_segment fr" "list_all plain_segment to"
    and "\<not> outside_root (join_with ''/'' (relative_segments fr to))"
  shows "\<exists>rest. to = fr @ rest \<and> rest \<noteq> [] \<and> relative_segments fr to = rest"
proof -
  let ?k = "common_prefix fr to"
  have "length fr - ?k = 0"
  proof (rule ccontr)
    assume "length fr - ?k \<noteq> 0"
    then obtain n where "length fr - ?k = Suc n" using not0_implies_Suc by blast
    then obtain q where "relative_segments fr to = ''..'' # q" by (simp add: relative_segments_def)
    then have "starts_with (join_with ''/'' (relative_segments fr to)) ''..''"
      by (cases q) (simp_all add: starts_with_append)
    then show False using assms(3) by (simp add: outside_root_def)
  qed
  then have k: "?k = length fr" using common_prefix_le(1) [of fr to] by simp
  then have "take (length fr) to = fr" using common_prefix_take [of fr to] by simp
  then have to: "to = fr @ drop (length fr) to" by (metis append_take_drop_id)
  have rel: "relative_segments fr to = drop (length fr) to" by (simp add: relative_segments_def k)
  moreover have "drop (length fr) to \<noteq> []" using assms(3) rel by (auto simp: outside_root_def)
  ultimately show ?thesis using to by metis
qed

lemma normalizeProjectFile_inside:
  assumes "isAbsolute cwd" "normalizeProjectFile cwd file = Some rel"
  shows "\<exists>rest. rest \<noteq> [] \<and> list_all plain_segment rest \<and> rel = join_with ''/'' rest \<and>
     resolve_segments cwd rel = path_segments cwd @ rest"
proof -
  obtain f where f: "file = JStr f" "\<not> outside_root (path_relative cwd (path_resolve cwd f))"
      "rel = path_relative cwd (path_resolve cwd f)"
    using assms(2) by (auto simp: normalizeProjectFile_def Let_def split: jsval.splits if_splits)
  note plain = resolve_plain [OF assms(1), of f]
  have cwd: "list_all plain_segment (path_segments cwd)" using assms(1) by (rule path_segments_plain)
  have rel: "path_relative cwd (path_resolve cwd f) =
      join_with ''/'' (relative_segments (path_segments cwd) (resolve_segments cwd f))"
    by (simp add: path_relative_def path_resolve_def path_segments_abs [OF plain])
  obtain rest where rest: "resolve_segments cwd f = path_segments cwd @ rest" "rest \<noteq> []"
      "relative_segments (path_segments cwd) (resolve_segments cwd f) = rest"
    using inside_root [OF cwd plain] f(2) rel by auto
  have pr: "list_all plain_segment rest" using plain rest(1) by simp
  have r: "rel = join_with ''/'' rest" using f(3) rel rest(3) by simp
  then have na: "\<not> isAbsolute rel" using f(2,3) by (simp add: outside_root_def)
  have "split_on (CHR ''/'') rel = rest"
    using r pr rest(2) split_on_join [of rest] by (auto simp: plain_segment_def list_all_iff)
  then have "path_segments (cwd @ ''/'' @ rel) = path_segments cwd @ rest"
    using append_segments [OF assms(1), of rel] pr by simp
  then show ?thesis using pr rest(2) r na by (auto simp: resolve_segments_def)
qed

end
