(* ===== verification/Manual_Edits.thy ===== *)
theory Manual_Edits
  imports Paths "HOL-Library.Multiset"
begin

text \<open>
  The buffer of staged copy edits (\<^verbatim>\<open>scripts/live/manual-edits-buffer.mjs\<close>). An entry is one Save of the
  browser; its operations are objects. The file is missing, unreadable (with the message of the
  error), of another shape, or holds entries.
\<close>

section \<open>The buffer\<close>

record bentry =
  be_id :: jsval
  be_pageUrl :: jsval
  be_element :: jsval
  be_ops :: "jsval list"
  be_stagedAt :: jsval

datatype buffer_file = NoBuffer | UnreadableBuffer string | OtherShape | Buffer "bentry list"

definition readBuffer :: "buffer_file \<Rightarrow> bentry list" where
  "readBuffer f = (case f of Buffer es \<Rightarrow> es | _ \<Rightarrow> [])"

definition readBufferStrict :: "buffer_file \<Rightarrow> bentry list js" where
  "readBufferStrict f = (case f of
      NoBuffer \<Rightarrow> Inr []
    | UnreadableBuffer m \<Rightarrow> Inl (Thrown (''manual_edit_buffer_unreadable: '' @ m))
    | OtherShape \<Rightarrow> Inl (Thrown ''manual_edit_buffer_unreadable: manual_edit_buffer_invalid_schema'')
    | Buffer es \<Rightarrow> Inr es)"

definition same_ref :: "jsval \<Rightarrow> jsval \<Rightarrow> bool" where
  "same_ref newOp oper = strict_eq (dot oper ''ref'') (dot newOp ''ref'')"

definition merged_op :: "jsval \<Rightarrow> jsval \<Rightarrow> jsval" where
  "merged_op newOp old =
     JObj (obj_set (obj_set (obj_set (own_props newOp) ''originalText'' (dot old ''originalText''))
             ''newText'' (dot newOp ''newText'')) ''deleted'' (js_or (dot newOp ''deleted'') (JBool False)))"

fun merge_first :: "jsval \<Rightarrow> jsval list \<Rightarrow> jsval list" where
  "merge_first newOp [] = []"
| "merge_first newOp (oper # opers) =
     (if same_ref newOp oper then merged_op newOp oper # opers else oper # merge_first newOp opers)"

definition holds_ref :: "jsval \<Rightarrow> jsval \<Rightarrow> bentry \<Rightarrow> bool" where
  "holds_ref pageUrl newOp entry = (strict_eq (be_pageUrl entry) pageUrl \<and> list_ex (same_ref newOp) (be_ops entry))"

text \<open>The inner loop of \<^verbatim>\<open>stageEntry\<close>: the first entry of the page that has the reference is updated.\<close>

fun merge_into :: "string \<Rightarrow> bentry \<Rightarrow> jsval \<Rightarrow> bentry list \<Rightarrow> bentry list" where
  "merge_into now newEntry newOp [] = []"
| "merge_into now newEntry newOp (e # es) =
     (if holds_ref (be_pageUrl newEntry) newOp e
      then e\<lparr>be_ops := merge_first newOp (be_ops e),
             be_element := (if truthy (be_element newEntry) then be_element newEntry else be_element e),
             be_stagedAt := JStr now\<rparr> # es
      else e # merge_into now newEntry newOp es)"

definition entry_of :: "bentry \<Rightarrow> bentry \<Rightarrow> bool" where
  "entry_of newEntry e = (strict_eq (be_pageUrl e) (be_pageUrl newEntry) \<and> strict_eq (be_id e) (be_id newEntry))"

fun push_op :: "string \<Rightarrow> bentry \<Rightarrow> jsval \<Rightarrow> bentry list \<Rightarrow> bentry list" where
  "push_op now newEntry newOp [] =
     [\<lparr>be_id = be_id newEntry, be_pageUrl = be_pageUrl newEntry, be_element = be_element newEntry,
       be_ops = [newOp], be_stagedAt = JStr now\<rparr>]"
| "push_op now newEntry newOp (e # es) =
     (if entry_of newEntry e then e\<lparr>be_ops := be_ops e @ [newOp], be_stagedAt := JStr now\<rparr> # es
      else e # push_op now newEntry newOp es)"

definition stage_op :: "string \<Rightarrow> bentry \<Rightarrow> jsval \<Rightarrow> bentry list \<Rightarrow> bentry list" where
  "stage_op now newEntry newOp es =
     (if list_ex (holds_ref (be_pageUrl newEntry) newOp) es then merge_into now newEntry newOp es
      else push_op now newEntry newOp es)"

definition stageEntry :: "string \<Rightarrow> bentry \<Rightarrow> buffer_file \<Rightarrow> buffer_file js" where
  "stageEntry now newEntry f = (case readBufferStrict f of
      Inl e \<Rightarrow> Inl e
    | Inr es \<Rightarrow> Inr (Buffer (fold (stage_op now newEntry) (be_ops newEntry) es)))"

definition removeEntries :: "(bentry \<Rightarrow> bool) \<Rightarrow> buffer_file \<Rightarrow> nat \<times> buffer_file" where
  "removeEntries predicate f =
     (let es = readBuffer f
      in (sum_list (map (length \<circ> be_ops) (filter predicate es)),
          Buffer (filter (\<lambda>e. \<not> predicate e \<and> be_ops e \<noteq> []) es)))"

text \<open>\<^verbatim>\<open>perPage[entry.pageUrl] = (perPage[entry.pageUrl] || 0) + n\<close>: keys are texts.\<close>

fun add_count :: "string \<Rightarrow> nat \<Rightarrow> (string \<times> nat) list \<Rightarrow> (string \<times> nat) list" where
  "add_count k n [] = [(k, n)]"
| "add_count k n ((k', m) # kvs) = (if k' = k then (k, m + n) # kvs else (k', m) # add_count k n kvs)"

definition countByPage :: "buffer_file \<Rightarrow> nat \<times> (string \<times> nat) list" where
  "countByPage f =
     (let es = readBuffer f
      in (sum_list (map (length \<circ> be_ops) es),
          fold (\<lambda>e. add_count (js_text (be_pageUrl e)) (length (be_ops e))) es []))"

definition truncateBuffer :: "buffer_file \<Rightarrow> nat \<times> buffer_file" where
  "truncateBuffer f = (sum_list (map (length \<circ> be_ops) (readBuffer f)), Buffer [])"

section \<open>One operation per reference and page\<close>

text \<open>The staged operations as the list of their (page, reference, original text).\<close>

definition buf_ops :: "bentry list \<Rightarrow> (jsval \<times> jsval) list" where
  "buf_ops es = concat (map (\<lambda>e. map (Pair (be_pageUrl e)) (be_ops e)) es)"

definition op_key :: "jsval \<times> jsval \<Rightarrow> jsval \<times> jsval" where
  "op_key po = (fst po, dot (snd po) ''ref'')"

text \<open>References and page addresses are strings (the validator of a Save refuses others).\<close>

definition string_keys :: "(jsval \<times> jsval) list \<Rightarrow> bool" where
  "string_keys pos \<longleftrightarrow> (\<forall>po\<in>set pos. is_str (fst po) \<and> is_str (dot (snd po) ''ref''))"

definition buffer_ok :: "bentry list \<Rightarrow> bool" where
  "buffer_ok es \<longleftrightarrow> string_keys (buf_ops es) \<and> distinct (map op_key (buf_ops es))"

lemma buf_ops_simps [simp]:
  "buf_ops [] = []" "buf_ops (e # es) = map (Pair (be_pageUrl e)) (be_ops e) @ buf_ops es"
  by (simp_all add: buf_ops_def)

lemma merged_op_dot:
  assumes "newOp = JObj kvs"
  shows "dot (merged_op newOp old) ''ref'' = dot newOp ''ref''"
    "dot (merged_op newOp old) ''originalText'' = dot old ''originalText''"
    "dot (merged_op newOp old) ''newText'' = dot newOp ''newText''"
  using assms by (simp_all add: merged_op_def map_of_obj_set)

lemma merge_first_keys:
  assumes "newOp = JObj kvs" "is_str (dot newOp ''ref'')"
  shows "map (\<lambda>oper. dot oper ''ref'') (merge_first newOp ops) = map (\<lambda>oper. dot oper ''ref'') ops"
    "map (\<lambda>oper. dot oper ''originalText'') (merge_first newOp ops) = map (\<lambda>oper. dot oper ''originalText'') ops"
  using assms(2) merged_op_dot [OF assms(1)]
  by (induction ops) (auto simp: same_ref_def is_str_iff)

definition op_original :: "jsval \<times> jsval \<Rightarrow> (jsval \<times> jsval) \<times> jsval" where
  "op_original po = (op_key po, dot (snd po) ''originalText'')"

lemma map_two: "map (\<lambda>x. (f x, g x)) xs = zip (map f xs) (map g xs)"
  by (induction xs) auto

lemma merge_first_originals:
  assumes "newOp = JObj kvs" "is_str (dot newOp ''ref'')"
  shows "map op_original (map (Pair u) (merge_first newOp ops)) = map op_original (map (Pair u) ops)"
proof -
  have "map op_original (map (Pair u) os) =
      map (\<lambda>(r, t). ((u, r), t)) (zip (map (\<lambda>oper. dot oper ''ref'') os) (map (\<lambda>oper. dot oper ''originalText'') os))"
    for os by (induction os) (auto simp: op_original_def op_key_def)
  then show ?thesis using merge_first_keys [OF assms] by presburger
qed

lemma merge_into_originals:
  assumes "newOp = JObj kvs" "is_str (dot newOp ''ref'')"
  shows "map op_original (buf_ops (merge_into now ne newOp es)) = map op_original (buf_ops es)"
proof (induction es)
  case (Cons e es)
  then show ?case
    using merge_first_originals [OF assms, of "be_pageUrl e" "be_ops e"] by simp
qed simp

lemma push_op_mset:
  assumes "is_str (be_pageUrl ne)"
  shows "mset (buf_ops (push_op now ne newOp es)) = add_mset (be_pageUrl ne, newOp) (mset (buf_ops es))"
  using assms by (induction es) (auto simp: entry_of_def is_str_iff)

lemma op_key_original: "op_key = fst \<circ> op_original"
  by (simp add: fun_eq_iff op_original_def)

lemma not_holds_ref:
  assumes "is_str (be_pageUrl ne)" "is_str (dot newOp ''ref'')"
    and "\<not> list_ex (holds_ref (be_pageUrl ne) newOp) es"
  shows "op_key (be_pageUrl ne, newOp) \<notin> op_key ` set (buf_ops es)"
  using assms by (auto simp: buf_ops_def op_key_def list_ex_iff holds_ref_def same_ref_def is_str_iff)

lemma stage_op_ok:
  assumes "buffer_ok es" "newOp = JObj kvs" "is_str (dot newOp ''ref'')" "is_str (be_pageUrl ne)"
  shows "buffer_ok (stage_op now ne newOp es)"
    and "set (map op_original (buf_ops es)) \<subseteq> set (map op_original (buf_ops (stage_op now ne newOp es)))"
proof -
  have "buffer_ok (stage_op now ne newOp es) \<and>
    set (map op_original (buf_ops es)) \<subseteq> set (map op_original (buf_ops (stage_op now ne newOp es)))"
  proof (cases "list_ex (holds_ref (be_pageUrl ne) newOp) es")
    case True
    then have m: "map op_original (buf_ops (stage_op now ne newOp es)) = map op_original (buf_ops es)"
      using merge_into_originals [OF assms(2,3)] by (simp add: stage_op_def)
    then have k: "map op_key (buf_ops (stage_op now ne newOp es)) = map op_key (buf_ops es)"
      using arg_cong [OF m, of "map fst"] unfolding op_key_original map_map [symmetric] by simp
    have "string_keys pos \<longleftrightarrow> (\<forall>k\<in>set (map op_key pos). is_str (fst k) \<and> is_str (snd k))" for pos
      by (auto simp: string_keys_def op_key_def)
    then have "string_keys (buf_ops (stage_op now ne newOp es)) = string_keys (buf_ops es)" using k by presburger
    then show ?thesis using assms(1) m k unfolding buffer_ok_def by simp
  next
    case False
    then have m: "mset (buf_ops (stage_op now ne newOp es)) = add_mset (be_pageUrl ne, newOp) (mset (buf_ops es))"
      using push_op_mset [OF assms(4)] by (simp add: stage_op_def)
    then have s: "set (buf_ops (stage_op now ne newOp es)) = insert (be_pageUrl ne, newOp) (set (buf_ops es))"
      by (metis set_mset_add_mset_insert set_mset_mset)
    have "mset (map op_key (buf_ops (stage_op now ne newOp es))) = mset (map op_key ((be_pageUrl ne, newOp) # buf_ops es))"
      using m by simp
    moreover have "distinct (map op_key ((be_pageUrl ne, newOp) # buf_ops es))"
      using assms(1) not_holds_ref [OF assms(4,3) False] by (simp add: buffer_ok_def)
    ultimately have "distinct (map op_key (buf_ops (stage_op now ne newOp es)))"
      using mset_eq_imp_distinct_iff by blast
    then show ?thesis using assms s by (auto simp: buffer_ok_def string_keys_def)
  qed
  then show "buffer_ok (stage_op now ne newOp es)"
    and "set (map op_original (buf_ops es)) \<subseteq> set (map op_original (buf_ops (stage_op now ne newOp es)))" by simp_all
qed

text \<open>A Save whose operations are objects with string references, of a page given as a string.\<close>

definition save_ok :: "bentry \<Rightarrow> bool" where
  "save_ok ne \<longleftrightarrow> is_str (be_pageUrl ne) \<and> (\<forall>newOp\<in>set (be_ops ne). (\<exists>kvs. newOp = JObj kvs) \<and> is_str (dot newOp ''ref''))"

lemma stage_ops_ok:
  assumes "buffer_ok es" "is_str (be_pageUrl ne)"
    and "\<forall>newOp\<in>set ops. (\<exists>kvs. newOp = JObj kvs) \<and> is_str (dot newOp ''ref'')"
  shows "buffer_ok (fold (stage_op now ne) ops es) \<and>
    set (map op_original (buf_ops es)) \<subseteq> set (map op_original (buf_ops (fold (stage_op now ne) ops es)))"
  using assms(1,3)
proof (induction ops arbitrary: es)
  case (Cons newOp ops)
  then obtain kvs where o: "newOp = JObj kvs" "is_str (dot newOp ''ref'')" by auto
  note s = stage_op_ok [OF Cons.prems(1) o assms(2), of now]
  then show ?case using Cons.IH [OF s(1)] Cons.prems(2) by (simp add: subset_trans)
qed simp

text \<open>
  C21: staging a Save keeps the buffer sound. There is at most one operation per page and reference,
  and the original text recorded for a reference, which is what the source is searched for, survives
  every later edit of the same element.
\<close>

theorem stageEntry_keeps_originals:
  assumes "readBufferStrict f = Inr es" "buffer_ok es" "save_ok ne"
  shows "\<exists>es'. stageEntry now ne f = Inr (Buffer es') \<and> buffer_ok es' \<and>
    set (map op_original (buf_ops es)) \<subseteq> set (map op_original (buf_ops es'))"
  using stage_ops_ok [OF assms(2)] assms(1,3) by (simp add: stageEntry_def save_ok_def)

definition demo_save :: "string \<Rightarrow> bentry" where
  "demo_save t = \<lparr>be_id = JStr ''aaaa0001'', be_pageUrl = JStr ''/'', be_element = JNull, be_ops =
     [JObj [(''ref'', JStr ''h1''), (''originalText'', JStr ''Hello''), (''newText'', JStr t)]], be_stagedAt = JNull\<rparr>"

lemma stageEntry_keeps_originals_witness:
  "\<exists>es'. stageEntry ''now'' (demo_save ''B'') (Buffer [demo_save ''A'']) = Inr (Buffer es') \<and> buffer_ok es' \<and>
    set (map op_original (buf_ops [demo_save ''A''])) \<subseteq> set (map op_original (buf_ops es'))"
  by (rule stageEntry_keeps_originals) (simp_all add: readBufferStrict_def buffer_ok_def demo_save_def string_keys_def save_ok_def)

lemma add_count_get:
  "map_of (add_count k n kvs) k' = (if k' = k then Some (n + (case map_of kvs k of None \<Rightarrow> 0 | Some m \<Rightarrow> m)) else map_of kvs k')"
  by (induction k n kvs rule: add_count.induct) (auto split: option.splits)

lemma add_count_sum: "sum_list (map snd (add_count k n kvs)) = n + sum_list (map snd kvs)"
  by (induction k n kvs rule: add_count.induct) auto

text \<open>
  the counts the overlay shows add up: the per-page counts sum to the total, which is also what
  discarding everything reports as removed.
\<close>

theorem counts_agree:
  "sum_list (map snd (snd (countByPage f))) = fst (countByPage f) \<and> fst (truncateBuffer f) = fst (countByPage f) \<and>
   fst (removeEntries (\<lambda>_. True) f) = fst (countByPage f)"
proof -
  have "sum_list (map snd (fold (\<lambda>e. add_count (js_text (be_pageUrl e)) (length (be_ops e))) es acc)) =
      sum_list (map (length \<circ> be_ops) es) + sum_list (map snd acc)" for es :: "bentry list" and acc
    by (induction es arbitrary: acc) (simp_all add: add_count_sum)
  then show ?thesis by (simp add: countByPage_def truncateBuffer_def removeEntries_def Let_def)
qed

end
