(* ===== verification/Poll_Lanes.thy ===== *)
theory Poll_Lanes
  imports Session_Store "HOL-Library.Product_Lexorder"
begin

text \<open>
  Which queued browser event a poll of the agent receives (\<^verbatim>\<open>scripts/live/poll-lanes.mjs\<close>), and what
  the outcome of an accept is reported as (\<^verbatim>\<open>scripts/live/completion.mjs\<close>).

  An entry of the queue carries the event, the time its lease ends and its number. A lease that
  was computed from a duration that is not a number is itself not a number; every reader of the
  field treats that as no lease, and it is 0 here.
\<close>

section \<open>Selecting an event\<close>

record pentry =
  pe_event :: jsval
  pe_leaseUntil :: int
  pe_seq :: int

definition eventPriority :: "jsval \<Rightarrow> nat" where
  "eventPriority event =
     (if has_str [''accept'', ''discard'', ''exit''] (dot event ''type'') then 0
      else if has_str [''manual_edit_apply'', ''steer'', ''carbonize_cleanup''] (dot event ''type'') then 1
      else if dot event ''type'' = JStr ''generate'' then 2
      else 3)"

definition isLeased :: "int \<Rightarrow> pentry \<Rightarrow> bool" where
  "isLeased now entry = (pe_leaseUntil entry \<noteq> 0 \<and> pe_leaseUntil entry > now)"

definition type_allowed :: "string list option \<Rightarrow> pentry \<Rightarrow> bool" where
  "type_allowed types entry = (case types of None \<Rightarrow> True | Some ts \<Rightarrow> has_str ts (dot (pe_event entry) ''type''))"

definition selectAvailablePendingEvent :: "pentry list \<Rightarrow> int \<Rightarrow> string list option \<Rightarrow> pentry option" where
  "selectAvailablePendingEvent entries now types =
     (case sort_key (\<lambda>e. (eventPriority (pe_event e), pe_seq e))
             (filter (type_allowed types) (filter (\<lambda>e. \<not> isLeased now e) entries)) of
        [] \<Rightarrow> None
      | e # _ \<Rightarrow> Some e)"

section \<open>The outcome of an accept\<close>

definition completionTypeForAcceptResult :: "jsval \<Rightarrow> jsval \<Rightarrow> string" where
  "completionTypeForAcceptResult eventType acceptResult =
     (if eventType = JStr ''discard''
      then (if dot acceptResult ''handled'' = JBool True then ''discarded'' else ''error'')
      else if dot acceptResult ''handled'' = JBool True \<and> dot acceptResult ''carbonize'' = JBool True
        then ''agent_done''
      else if dot acceptResult ''handled'' = JBool True then ''complete''
      else if dot acceptResult ''mode'' = JStr ''error'' then ''error''
      else if eventType = JStr ''accept'' \<and> has_str [''svelte-component''] (dot acceptResult ''previewMode'')
        then ''error''
      else ''agent_done'')"

definition completionAckForAcceptResult :: "jsval \<Rightarrow> string \<Rightarrow> jsval \<Rightarrow> jsval" where
  "completionAckForAcceptResult eventId completionType acceptResult =
     JObj ([(''ok'', JBool True), (''type'', JStr completionType)] @
       (if dot acceptResult ''handled'' = JBool True \<and> dot acceptResult ''carbonize'' = JBool True
        then [(''final'', JBool False), (''requiresComplete'', JBool True),
              (''nextCommand'', JStr (''live-complete.mjs --id '' @ js_text eventId)),
              (''message'', JStr ''Carbonize cleanup must be verified, then the session must be completed explicitly before polling again.'')]
        else []))"

section \<open>What selection guarantees\<close>

definition available :: "pentry list \<Rightarrow> int \<Rightarrow> string list option \<Rightarrow> pentry \<Rightarrow> bool" where
  "available entries now types e \<longleftrightarrow> e \<in> set entries \<and> \<not> isLeased now e \<and> type_allowed types e"

lemma select_cases:
  "case selectAvailablePendingEvent entries now types of
     None \<Rightarrow> (\<forall>e. \<not> available entries now types e)
   | Some e \<Rightarrow> available entries now types e \<and>
       (\<forall>e'. available entries now types e' \<longrightarrow>
          (eventPriority (pe_event e), pe_seq e) \<le> (eventPriority (pe_event e'), pe_seq e'))"
proof -
  let ?k = "\<lambda>e. (eventPriority (pe_event e), pe_seq e)"
  let ?xs = "filter (type_allowed types) (filter (\<lambda>e. \<not> isLeased now e) entries)"
  have set: "set (sort_key ?k ?xs) = {e. available entries now types e}"
    by (auto simp: available_def)
  have sorted: "sorted (map ?k (sort_key ?k ?xs))" by simp
  show ?thesis
  proof (cases "sort_key ?k ?xs")
    case Nil
    then show ?thesis using set by (auto simp: selectAvailablePendingEvent_def)
  next
    case (Cons e es)
    have "available entries now types e"
      using arg_cong [OF Cons, of set] unfolding set by auto
    moreover have "?k e \<le> ?k e'" if "available entries now types e'" for e'
    proof -
      have "e' \<in> set (e # es)" using that set unfolding Cons by auto
      moreover have "sorted (map ?k (e # es))" using sorted unfolding Cons .
      ultimately show ?thesis by (cases "e' = e") (simp_all del: less_eq_prod_simp)
    qed
    moreover have "selectAvailablePendingEvent entries now types = Some e"
      unfolding selectAvailablePendingEvent_def Cons by simp
    ultimately show ?thesis by (simp del: less_eq_prod_simp)
  qed
qed

lemma select_Some:
  assumes "selectAvailablePendingEvent entries now types = Some e"
  shows "available entries now types e"
    and "available entries now types e' \<Longrightarrow>
      (eventPriority (pe_event e), pe_seq e) \<le> (eventPriority (pe_event e'), pe_seq e')"
  using select_cases [of entries now types] assms by simp_all

lemma select_None:
  "selectAvailablePendingEvent entries now types = None \<longleftrightarrow> (\<forall>e. \<not> available entries now types e)"
  using select_cases [of entries now types] by (auto split: option.splits)

end
