(* ===== verification/Live_Queue.thy ===== *)
theory Live_Queue
  imports Poll_Lanes
begin

text \<open>
  The event queue of the live helper server (\<^verbatim>\<open>scripts/live-server.mjs\<close>): browser events that wait
  for an agent, the long polls that wait for an event, and the leases between them.

  Every synchronous piece of code is one function on the state \<open>server\<close>; the clock does not
  advance within it. \<^verbatim>\<open>leaseEvent\<close> is asynchronous: the part up to its first \<^verbatim>\<open>await\<close> claims the
  entry and leaves a lease in \<open>sv_leases\<close> (\<open>lease_start\<close>), and its continuation is a step of its own
  (\<open>lease_finish\<close>), so that other requests may be served in between. The objects of the queue are
  told apart by their number. Messages to the browsers are collected in \<open>sv_sent\<close>, answers to polls
  in \<open>sv_answers\<close>.
\<close>

section \<open>State\<close>

record poll =
  po_id :: nat
  po_leaseMs :: "int option"
  po_types :: "string list option"

text \<open>
  Where a lease stands: to be answered at once, waiting for the scaffold, or rejected by an error
  of the claim.
\<close>

datatype lease_stage = Claimed | Scaffolding | Rejected

record lease =
  ls_seq :: int
  ls_event :: jsval
  ls_leaseMs :: "int option"
  ls_poll :: nat
  ls_parked :: bool
  ls_stage :: lease_stage

text \<open>An Apply that waits for the reply of the agent, with the files as they were before.\<close>

type_synonym rollback_snapshot = "(string \<times> bool \<times> string) list"

record deferred =
  df_event :: jsval
  df_batch :: jsval
  df_pageUrl :: jsval
  df_rollback :: rollback_snapshot

record server =
  sv_token :: string
  sv_clients :: "nat list"
  sv_pending :: "pentry list"
  sv_polls :: "poll list"
  sv_leases :: "lease list"
  sv_nextSeq :: int
  sv_lastPolling :: "bool option"
  sv_exitTimer :: bool
  sv_leaseTimer :: "int option"
  sv_lastPollAt :: int
  sv_pollTimers :: "nat list"
  sv_store :: store
  sv_sent :: "jsval list"
  sv_answers :: "(nat \<times> jsval) list"
  sv_activity :: jsval
  sv_nextManualSeq :: int
  sv_deferreds :: "(string \<times> deferred) list"
  sv_timedOut :: "(string \<times> deferred) list"
  sv_files :: "string \<Rightarrow> string option"

definition POLL_LEASE_EXPIRY_TIMER_GRACE_MS :: int where "POLL_LEASE_EXPIRY_TIMER_GRACE_MS = 2"

definition CHAT_POLL_FRESHNESS_MS :: int where "CHAT_POLL_FRESHNESS_MS = 60000"

section \<open>Broadcasts and phases\<close>

definition broadcast :: "jsval \<Rightarrow> server \<Rightarrow> server" where
  "broadcast msg sv = sv\<lparr>sv_sent := sv_sent sv @ [msg]\<rparr>"

definition agentPollingConnected :: "server \<Rightarrow> bool" where
  "agentPollingConnected sv = (sv_polls sv \<noteq> [])"

definition broadcastAgentPollingIfChanged :: "server \<Rightarrow> server" where
  "broadcastAgentPollingIfChanged sv =
     (let connected = agentPollingConnected sv in
      if sv_lastPolling sv = Some connected then sv
      else broadcast (JObj [(''type'', JStr ''agent_polling''), (''connected'', JBool connected)])
             (sv\<lparr>sv_lastPolling := Some connected\<rparr>))"

text \<open>\<^verbatim>\<open>state.sessionStore.appendEvent(event)\<close>: it may throw.\<close>

definition store_event :: "store_host \<Rightarrow> jsval \<Rightarrow> server \<Rightarrow> server js" where
  "store_event hs event sv = (case appendEvent hs event (sv_store sv) of
      Inl e \<Rightarrow> Inl e
    | Inr (_, st) \<Rightarrow> Inr (sv\<lparr>sv_store := st\<rparr>))"

definition recordAgentPhase :: "store_host \<Rightarrow> jsval \<Rightarrow> string \<Rightarrow> props \<Rightarrow> server \<Rightarrow> server js" where
  "recordAgentPhase hs i phase details sv =
     (if \<not> truthy i then Inr sv
      else (let event = JObj (obj_merge [(''type'', JStr ''agent_phase''), (''id'', i), (''phase'', JStr phase),
                                         (''at'', jint (h_now hs))] details)
            in case store_event hs event sv of Inl e \<Rightarrow> Inl e | Inr sv' \<Rightarrow> Inr (broadcast event sv')))"

definition recordManualEditActivity :: "store_host \<Rightarrow> string \<Rightarrow> props \<Rightarrow> server \<Rightarrow> server" where
  "recordManualEditActivity hs type details sv =
     (let entry = JObj (obj_merge [(''seq'', jint (sv_nextManualSeq sv)), (''type'', JStr type),
                                   (''ts'', JStr (h_iso hs))] details)
      in broadcast entry (sv\<lparr>sv_nextManualSeq := sv_nextManualSeq sv + 1, sv_activity := entry\<rparr>))"

definition chatAgentLikelyActive :: "int \<Rightarrow> server \<Rightarrow> bool" where
  "chatAgentLikelyActive now sv =
     (sv_polls sv \<noteq> [] \<or> (sv_lastPollAt sv \<noteq> 0 \<and> now - sv_lastPollAt sv < CHAT_POLL_FRESHNESS_MS))"

section \<open>Leases\<close>

definition scheduleLeaseFlush :: "int \<Rightarrow> server \<Rightarrow> server" where
  "scheduleLeaseFlush now sv =
     (case sort (filter (\<lambda>t. t > now) (map pe_leaseUntil (sv_pending sv))) of
        [] \<Rightarrow> sv\<lparr>sv_leaseTimer := None\<rparr>
      | t # _ \<Rightarrow> sv\<lparr>sv_leaseTimer :=
          (if t = 0 then None else Some (now + max 0 (t - now + POLL_LEASE_EXPIRY_TIMER_GRACE_MS)))\<rparr>)"

text \<open>\<^verbatim>\<open>Date.now() + leaseMs\<close>.\<close>

definition lease_until :: "int \<Rightarrow> int option \<Rightarrow> int" where
  "lease_until now leaseMs = (case leaseMs of None \<Rightarrow> 0 | Some ms \<Rightarrow> now + ms)"

definition set_lease :: "int \<Rightarrow> int \<Rightarrow> server \<Rightarrow> server" where
  "set_lease sq t sv =
     sv\<lparr>sv_pending := map (\<lambda>e. if pe_seq e = sq then e\<lparr>pe_leaseUntil := t\<rparr> else e) (sv_pending sv)\<rparr>"

definition set_event :: "int \<Rightarrow> jsval \<Rightarrow> server \<Rightarrow> server" where
  "set_event sq ev sv =
     sv\<lparr>sv_pending := map (\<lambda>e. if pe_seq e = sq then e\<lparr>pe_event := ev\<rparr> else e) (sv_pending sv)\<rparr>"

definition needs_scaffold :: "jsval \<Rightarrow> bool" where
  "needs_scaffold event =
     (truthy event \<and> dot event ''type'' = JStr ''generate'' \<and> \<not> truthy (dot event ''scaffoldAttempted''))"

text \<open>
  The part of \<^verbatim>\<open>leaseEvent\<close> up to the first \<^verbatim>\<open>await\<close>, with that of
  \<^verbatim>\<open>prepareGenerateEventForLease\<close>: the claim, and the two phases of a generate. The changes made
  before an error stay.
\<close>

definition claim_phases :: "store_host \<Rightarrow> jsval \<Rightarrow> server \<Rightarrow> lease_stage \<times> server" where
  "claim_phases hs event sv =
     (if \<not> needs_scaffold event then (Claimed, sv)
      else (case recordAgentPhase hs (dot event ''id'') ''picked_up'' [] sv of
          Inl _ \<Rightarrow> (Rejected, sv)
        | Inr sv1 \<Rightarrow>
           (case recordAgentPhase hs (dot event ''id'') ''scaffolding'' [] sv1 of
              Inl _ \<Rightarrow> (Rejected, sv1)
            | Inr sv2 \<Rightarrow> (Scaffolding, sv2))))"

definition lease_start :: "store_host \<Rightarrow> pentry \<Rightarrow> int option \<Rightarrow> nat \<Rightarrow> bool \<Rightarrow> server \<Rightarrow> server" where
  "lease_start hs entry leaseMs pollId parked sv =
     (let (stage, sv') = claim_phases hs (pe_event entry)
                           (set_lease (pe_seq entry) (lease_until (h_now hs) leaseMs) sv)
      in sv'\<lparr>sv_leases := sv_leases sv' @ [\<lparr>ls_seq = pe_seq entry, ls_event = pe_event entry, ls_leaseMs = leaseMs,
               ls_poll = pollId, ls_parked = parked, ls_stage = stage\<rparr>]\<rparr>)"

section \<open>Handing events to polls\<close>

definition findAvailablePendingEvent :: "int \<Rightarrow> string list option \<Rightarrow> server \<Rightarrow> pentry option" where
  "findAvailablePendingEvent now types sv = selectAvailablePendingEvent (sv_pending sv) now types"

text \<open>The inner loop of \<^verbatim>\<open>flushPendingPolls\<close>: the first parked poll that an event is available for.\<close>

fun first_served :: "int \<Rightarrow> pentry list \<Rightarrow> poll list \<Rightarrow> (poll \<times> pentry) option" where
  "first_served now entries [] = None"
| "first_served now entries (po # pos) =
     (case selectAvailablePendingEvent entries now (po_types po) of
        Some e \<Rightarrow> Some (po, e)
      | None \<Rightarrow> first_served now entries pos)"

text \<open>The outer loop; each round takes one poll out, so that as many rounds as polls are enough.\<close>

fun flush_loop :: "nat \<Rightarrow> store_host \<Rightarrow> server \<Rightarrow> server" where
  "flush_loop 0 hs sv = sv"
| "flush_loop (Suc n) hs sv =
     (case first_served (h_now hs) (sv_pending sv) (sv_polls sv) of
        None \<Rightarrow> sv
      | Some (po, e) \<Rightarrow> flush_loop n hs
          (lease_start hs e (po_leaseMs po) (po_id po) True (sv\<lparr>sv_polls := remove1 po (sv_polls sv)\<rparr>)))"

definition flushPendingPolls :: "store_host \<Rightarrow> server \<Rightarrow> server" where
  "flushPendingPolls hs sv =
     (let sv1 = scheduleLeaseFlush (h_now hs) (flush_loop (length (sv_polls sv)) hs sv)
      in if sv_polls sv = [] then sv1 else broadcastAgentPollingIfChanged sv1)"

definition duplicate_of :: "jsval \<Rightarrow> pentry \<Rightarrow> bool" where
  "duplicate_of event entry =
     (strict_eq (dot (pe_event entry) ''id'') (dot event ''id'')
      \<and> strict_eq (dot (pe_event entry) ''type'') (dot event ''type'')
      \<and> (dot event ''type'' \<noteq> JStr ''variant_mount_failed''
         \<or> strict_eq (dot (pe_event entry) ''variant'') (dot event ''variant'')))"

definition enqueueEvent :: "store_host \<Rightarrow> jsval \<Rightarrow> server \<Rightarrow> server" where
  "enqueueEvent hs event sv =
     (if \<not> truthy event then sv
      else if truthy (dot event ''id'') \<and> list_ex (duplicate_of event) (sv_pending sv) then sv
      else flushPendingPolls hs
             (sv\<lparr>sv_pending := sv_pending sv @ [\<lparr>pe_event = event, pe_leaseUntil = 0, pe_seq = sv_nextSeq sv\<rparr>],
                 sv_nextSeq := sv_nextSeq sv + 1\<rparr>))"

text \<open>\<^verbatim>\<open>restorePendingEventsFromStore\<close>, on the listings of the two session directories.\<close>

definition restorePendingEventsFromStore :: "store_host \<Rightarrow> string list \<Rightarrow> string list \<Rightarrow> server \<Rightarrow> server js" where
  "restorePendingEventsFromStore hs legacyNames names sv =
     (case listActiveSessions (host.truncate hs) legacyNames names (sv_store sv) of
        Inl e \<Rightarrow> Inl e
      | Inr (ss, st) \<Rightarrow>
          Inr (fold (\<lambda>s v. if truthy (sn_pendingEvent s) then enqueueEvent hs (sn_pendingEvent s) v else v)
                 ss (sv\<lparr>sv_store := st\<rparr>)))"

section \<open>Taking events out of the queue\<close>

definition matches_event :: "jsval \<Rightarrow> jsval \<Rightarrow> pentry \<Rightarrow> bool" where
  "matches_event i sourceEventType entry =
     (strict_eq (dot (pe_event entry) ''id'') i
      \<and> (\<not> truthy sourceEventType \<or> strict_eq (dot (pe_event entry) ''type'') sourceEventType))"

fun remove_first :: "('a \<Rightarrow> bool) \<Rightarrow> 'a list \<Rightarrow> 'a list" where
  "remove_first P [] = []"
| "remove_first P (x # xs) = (if P x then xs else x # remove_first P xs)"

definition settle_queue :: "store_host \<Rightarrow> server \<Rightarrow> server" where
  "settle_queue hs sv = broadcastAgentPollingIfChanged (scheduleLeaseFlush (h_now hs) sv)"

definition acknowledgePendingEvent :: "store_host \<Rightarrow> jsval \<Rightarrow> jsval \<Rightarrow> server \<Rightarrow> jsval option \<times> server" where
  "acknowledgePendingEvent hs i sourceEventType sv =
     (if \<not> truthy i then (None, sv)
      else (case find (matches_event i sourceEventType) (sv_pending sv) of
          None \<Rightarrow> (None, sv)
        | Some entry \<Rightarrow>
            (Some (pe_event entry),
             settle_queue hs (sv\<lparr>sv_pending := remove_first (matches_event i sourceEventType) (sv_pending sv)\<rparr>))))"

definition releasePendingEvent :: "store_host \<Rightarrow> jsval \<Rightarrow> jsval \<Rightarrow> server \<Rightarrow> jsval option \<times> server" where
  "releasePendingEvent hs i sourceEventType sv =
     (case find (matches_event i sourceEventType) (sv_pending sv) of
        None \<Rightarrow> (None, sv)
      | Some entry \<Rightarrow> (Some (pe_event entry), scheduleLeaseFlush (h_now hs) (set_lease (pe_seq entry) 0 sv)))"

definition generate_of :: "jsval \<Rightarrow> pentry \<Rightarrow> bool" where
  "generate_of i entry =
     (strict_eq (dot (pe_event entry) ''id'') i \<and> dot (pe_event entry) ''type'' = JStr ''generate'')"

definition retirePendingGeneration :: "store_host \<Rightarrow> jsval \<Rightarrow> server \<Rightarrow> server" where
  "retirePendingGeneration hs i sv =
     (if \<not> truthy i \<or> \<not> list_ex (generate_of i) (sv_pending sv) then sv
      else settle_queue hs (sv\<lparr>sv_pending := filter (\<lambda>e. \<not> generate_of i e) (sv_pending sv)\<rparr>))"

definition findPendingEventById :: "jsval \<Rightarrow> jsval \<Rightarrow> server \<Rightarrow> jsval" where
  "findPendingEventById i sourceEventType sv =
     (if \<not> truthy i then JNull
      else (case find (matches_event i sourceEventType) (sv_pending sv) of
          None \<Rightarrow> JNull
        | Some entry \<Rightarrow> js_or (pe_event entry) JNull))"

definition anonymous_exit :: "pentry \<Rightarrow> bool" where
  "anonymous_exit entry = (dot (pe_event entry) ''type'' = JStr ''exit'' \<and> \<not> truthy (dot (pe_event entry) ''id''))"

definition cancelQueuedAnonymousExitEvents :: "store_host \<Rightarrow> server \<Rightarrow> server" where
  "cancelQueuedAnonymousExitEvents hs sv =
     (if \<not> list_ex anonymous_exit (sv_pending sv) then sv
      else settle_queue hs (sv\<lparr>sv_pending := filter (\<lambda>e. \<not> anonymous_exit e) (sv_pending sv)\<rparr>))"

section \<open>The continuation of a lease\<close>

definition recordGenerateDelivery :: "store_host \<Rightarrow> int \<Rightarrow> jsval \<Rightarrow> server \<Rightarrow> jsval \<times> (js_error option \<times> server)" where
  "recordGenerateDelivery hs sq event sv =
     (if \<not> truthy event \<or> dot event ''type'' \<noteq> JStr ''generate'' \<or> truthy (dot event ''generationReadyAt'')
      then (event, None, sv)
      else (let event' = JObj (obj_set (own_props event) ''generationReadyAt'' (jint (h_now hs)));
                sv1 = set_event sq event' sv
            in case store_event hs event' sv1 of
                 Inl e \<Rightarrow> (event', Some e, sv1)
               | Inr sv2 \<Rightarrow>
                  (case recordAgentPhase hs (dot event ''id'') ''generation_ready'' [(''at'', jint (h_now hs))] sv2 of
                     Inl e \<Rightarrow> (event', Some e, sv2)
                   | Inr sv3 \<Rightarrow> (event', None, sv3))))"

definition scaffolded_event :: "jsval \<Rightarrow> jsval \<Rightarrow> jsval" where
  "scaffolded_event event result =
     JObj (obj_merge (obj_merge (own_props event)
             [(''scaffoldAttempted'', JBool True), (''scaffoldDurationMs'', coalesce (dot result ''durationMs'') JNull)])
       (if truthy (dot result ''ok'') then [(''scaffold'', dot result ''scaffold'')]
        else [(''scaffoldError'', js_or (dot result ''error'') (dot result ''reason''))]))"

text \<open>The rest of \<^verbatim>\<open>prepareGenerateEventForLease\<close>, with the result of the preflight.\<close>

definition scaffold_done :: "store_host \<Rightarrow> jsval \<Rightarrow> int \<Rightarrow> jsval \<Rightarrow> server \<Rightarrow> jsval \<times> (js_error option \<times> server)" where
  "scaffold_done hs result sq event sv =
     (let event' = scaffolded_event event result; sv1 = set_event sq event' sv
      in case store_event hs event' sv1 of
           Inl e \<Rightarrow> (event', Some e, sv1)
         | Inr sv2 \<Rightarrow>
            (case recordAgentPhase hs (dot event ''id'')
                    (if truthy (dot result ''ok'') then ''source_ready'' else ''scaffold_fallback'')
                    [(''durationMs'', coalesce (dot result ''durationMs'') JNull),
                     (''previewMode'', js_or (dot (dot result ''scaffold'') ''previewMode'') (JStr ''source''))] sv2 of
               Inl e \<Rightarrow> (event', Some e, sv2)
             | Inr sv3 \<Rightarrow> (event', None, sv3)))"

text \<open>The rest of \<^verbatim>\<open>leaseEvent\<close> once the event is prepared.\<close>

definition lease_deliver :: "store_host \<Rightarrow> lease \<Rightarrow> jsval \<Rightarrow> server \<Rightarrow> jsval \<times> (js_error option \<times> server)" where
  "lease_deliver hs ls event sv =
     (if \<not> truthy (dot event ''id'')
      then (event, None, sv\<lparr>sv_pending := filter (\<lambda>e. pe_seq e \<noteq> ls_seq ls) (sv_pending sv)\<rparr>)
      else
       (case recordGenerateDelivery hs (ls_seq ls) event
               (set_lease (ls_seq ls) (lease_until (h_now hs) (ls_leaseMs ls)) sv) of
          (event', Some e, sv1) \<Rightarrow> (event', Some e, sv1)
        | (event', None, sv1) \<Rightarrow> (event', None, settle_queue hs sv1)))"

definition timeout_reply :: jsval where
  "timeout_reply = JObj [(''type'', JStr ''timeout'')]"

text \<open>
  What the poll is told. \<^verbatim>\<open>resolve\<close> of a parked poll writes the head of its response without
  asking whether that was done already, which throws: the error is nobody's to catch and the process
  ends. The handler of a poll that was served at once checks the response first.
\<close>

definition answered :: "nat \<Rightarrow> server \<Rightarrow> bool" where
  "answered pollId sv = (pollId \<in> fst ` set (sv_answers sv))"

definition resolve_poll :: "store_host \<Rightarrow> lease \<Rightarrow> jsval \<Rightarrow> server \<Rightarrow> server js" where
  "resolve_poll hs ls reply sv =
     (if ls_parked ls
      then (if answered (ls_poll ls) sv then Inl (Thrown ''ERR_HTTP_HEADERS_SENT'')
            else Inr (sv\<lparr>sv_pollTimers := removeAll (ls_poll ls) (sv_pollTimers sv), sv_lastPollAt := h_now hs,
                         sv_answers := sv_answers sv @ [(ls_poll ls, reply)]\<rparr>))
      else Inr (if answered (ls_poll ls) sv then sv
                else sv\<lparr>sv_answers := sv_answers sv @ [(ls_poll ls, reply)]\<rparr>))"

definition lease_finish :: "store_host \<Rightarrow> jsval \<Rightarrow> lease \<Rightarrow> server \<Rightarrow> server js" where
  "lease_finish hs result ls sv0 =
     (let sv = sv0\<lparr>sv_leases := remove1 ls (sv_leases sv0)\<rparr>;
          (event, err, sv1) = (case ls_stage ls of
              Rejected \<Rightarrow> (ls_event ls, Some TypeError, sv)
            | Claimed \<Rightarrow> lease_deliver hs ls (ls_event ls) sv
            | Scaffolding \<Rightarrow>
               (case scaffold_done hs result (ls_seq ls) (ls_event ls) sv of
                  (event', Some e, sv') \<Rightarrow> (event', Some e, sv')
                | (event', None, sv') \<Rightarrow> lease_deliver hs ls event' sv'))
      in resolve_poll hs ls (if err = None then event else timeout_reply) sv1)"

end
