(* ===== verification/Manual_Apply.thy ===== *)
theory Manual_Apply
  imports Manual_Edits Live_Queue
begin

text \<open>
  Applying staged copy edits through the agent (\<^verbatim>\<open>scripts/live/manual-apply.mjs\<close>): splitting a batch into
  chunks, judging and combining the agent's replies, and rolling files back.

  A batch is the object that is sent to the agent; its entries and their operations are objects, as
  the buffer stages them. A \<^verbatim>\<open>Map\<close> is an association list in insertion order whose keys are compared
  as values. Project files are a map from absolute paths to contents; a write or removal that throws
  is given by the argument \<open>fails\<close>, which tells the message for a path.
\<close>

section \<open>Maps and sets in insertion order\<close>

fun amap_set :: "('a \<times> 'b) list \<Rightarrow> 'a \<Rightarrow> 'b \<Rightarrow> ('a \<times> 'b) list" where
  "amap_set [] k v = [(k, v)]"
| "amap_set ((k', v') # kvs) k v = (if k' = k then (k, v) # kvs else (k', v') # amap_set kvs k v)"

definition amap_default :: "'a \<Rightarrow> 'b \<Rightarrow> ('a \<times> 'b) list \<Rightarrow> ('a \<times> 'b) list" where
  "amap_default k v kvs = (if map_of kvs k = None then kvs @ [(k, v)] else kvs)"

definition js_set :: "'a list \<Rightarrow> 'a list" where
  "js_set xs = rev (remdups (rev xs))"

section \<open>Chunk size and counts\<close>

definition DEFAULT_MANUAL_EDIT_APPLY_CHUNK_SIZE :: int where "DEFAULT_MANUAL_EDIT_APPLY_CHUNK_SIZE = 3"
definition MIN_MANUAL_EDIT_APPLY_CHUNK_SIZE :: int where "MIN_MANUAL_EDIT_APPLY_CHUNK_SIZE = 1"
definition MAX_MANUAL_EDIT_APPLY_CHUNK_SIZE :: int where "MAX_MANUAL_EDIT_APPLY_CHUNK_SIZE = 20"

definition math_trunc :: "rat \<Rightarrow> int" where
  "math_trunc q = (if q < 0 then \<lceil>q\<rceil> else \<lfloor>q\<rfloor>)"

definition manualEditApplyChunkSize :: "jsval \<Rightarrow> int" where
  "manualEditApplyChunkSize v = (case to_number v of
      Fin q \<Rightarrow> max MIN_MANUAL_EDIT_APPLY_CHUNK_SIZE (min MAX_MANUAL_EDIT_APPLY_CHUNK_SIZE (math_trunc q))
    | _ \<Rightarrow> DEFAULT_MANUAL_EDIT_APPLY_CHUNK_SIZE)"

definition batch_entries :: "jsval \<Rightarrow> jsval list" where
  "batch_entries batch = arr_elems (dot batch ''entries'')"

definition entry_ops :: "jsval \<Rightarrow> jsval list" where
  "entry_ops entry = arr_elems (dot entry ''ops'')"

definition countManualApplyOps :: "jsval \<Rightarrow> nat" where
  "countManualApplyOps entriesOrBatch =
     sum_list (map (length \<circ> entry_ops)
       (if is_arr entriesOrBatch then arr_elems entriesOrBatch else batch_entries entriesOrBatch))"

section \<open>Splitting a batch\<close>

record chunk_builder =
  cb_entries :: "(jsval \<times> jsval list) list"
  cb_ops :: "jsval list"
  cb_refs :: "(jsval \<times> jsval list) list"
  cb_opCounts :: "(jsval \<times> nat) list"
  cb_opCount :: nat

definition createManualApplyChunkBuilder :: chunk_builder where
  "createManualApplyChunkBuilder = \<lparr>cb_entries = [], cb_ops = [], cb_refs = [], cb_opCounts = [], cb_opCount = 0\<rparr>"

text \<open>The entries of a chunk: the entry as it came, and the operations put into its copy.\<close>

fun add_to_entry :: "jsval \<Rightarrow> jsval \<Rightarrow> (jsval \<times> jsval list) list \<Rightarrow> (jsval \<times> jsval list) list" where
  "add_to_entry entry oper [] = [(entry, [oper])]"
| "add_to_entry entry oper ((e, ops) # es) =
     (if dot e ''id'' = dot entry ''id'' then (e, ops @ [oper]) # es else (e, ops) # add_to_entry entry oper es)"

definition op_with_entry :: "jsval \<Rightarrow> jsval \<Rightarrow> jsval" where
  "op_with_entry entry oper = JObj (obj_set (own_props oper) ''entryId'' (js_or (dot oper ''entryId'') (dot entry ''id'')))"

definition addOpToManualApplyChunk :: "jsval \<Rightarrow> jsval \<Rightarrow> chunk_builder \<Rightarrow> chunk_builder" where
  "addOpToManualApplyChunk entry oper chunk =
     (let i = dot entry ''id'';
          refs = (case map_of (cb_refs chunk) i of None \<Rightarrow> [] | Some rs \<Rightarrow> rs);
          refs' = (if truthy (dot oper ''ref'') \<and> dot oper ''ref'' \<notin> set refs then refs @ [dot oper ''ref''] else refs);
          n = (case map_of (cb_opCounts chunk) i of None \<Rightarrow> 0 | Some m \<Rightarrow> m)
      in chunk\<lparr>cb_entries := add_to_entry entry oper (cb_entries chunk),
               cb_ops := cb_ops chunk @ [op_with_entry entry oper],
               cb_refs := amap_set (cb_refs chunk) i refs',
               cb_opCounts := amap_set (cb_opCounts chunk) i (n + 1),
               cb_opCount := cb_opCount chunk + 1\<rparr>)"

text \<open>The state of the splitting loop: the chunks that are finished and the one being filled.\<close>

type_synonym split_state = "chunk_builder list \<times> chunk_builder"

definition close_chunk :: "split_state \<Rightarrow> split_state" where
  "close_chunk st = (fst st @ [snd st], createManualApplyChunkBuilder)"

definition put_op :: "jsval \<Rightarrow> jsval \<Rightarrow> split_state \<Rightarrow> split_state" where
  "put_op entry oper st = (fst st, addOpToManualApplyChunk entry oper (snd st))"

definition put_op_bounded :: "nat \<Rightarrow> jsval \<Rightarrow> jsval \<Rightarrow> split_state \<Rightarrow> split_state" where
  "put_op_bounded maxOps entry oper st =
     put_op entry oper (if maxOps \<le> cb_opCount (snd st) then close_chunk st else st)"

definition split_entry :: "nat \<Rightarrow> jsval \<Rightarrow> split_state \<Rightarrow> split_state" where
  "split_entry maxOps entry st =
     (let ops = entry_ops entry in
      if length ops \<le> maxOps
      then fold (put_op entry) ops
             (if 0 < cb_opCount (snd st) \<and> maxOps < cb_opCount (snd st) + length ops then close_chunk st else st)
      else fold (put_op_bounded maxOps entry) ops (if 0 < cb_opCount (snd st) then close_chunk st else st))"

definition raw_chunks :: "nat \<Rightarrow> jsval list \<Rightarrow> chunk_builder list" where
  "raw_chunks maxOps entries =
     (let st = fold (split_entry maxOps) entries ([], createManualApplyChunkBuilder)
      in if 0 < cb_opCount (snd st) then fst st @ [snd st] else fst st)"

definition filterManualApplyChunkCandidates :: "jsval \<Rightarrow> (jsval \<times> jsval list) list \<Rightarrow> jsval list" where
  "filterManualApplyChunkCandidates batch refsByEntry =
     filter (\<lambda>c. case map_of refsByEntry (dot c ''entryId'') of
               None \<Rightarrow> False
             | Some refs \<Rightarrow> \<not> truthy (dot c ''ref'') \<or> dot c ''ref'' \<in> set refs)
       (arr_elems (dot batch ''candidates''))"

record chunk =
  ck_batch :: jsval
  ck_meta :: jsval
  ck_entryIds :: "jsval list"
  ck_opCounts :: "(jsval \<times> nat) list"

definition chunk_entry :: "jsval \<times> jsval list \<Rightarrow> jsval" where
  "chunk_entry e = JObj (obj_set (own_props (fst e)) ''ops'' (JArr (snd e)))"

definition truthy_ids :: "jsval list \<Rightarrow> jsval list" where
  "truthy_ids entries = js_set (filter truthy (map (\<lambda>e. dot e ''id'') entries))"

definition finish_chunk :: "jsval \<Rightarrow> nat \<Rightarrow> nat \<Rightarrow> nat \<Rightarrow> chunk_builder \<Rightarrow> chunk" where
  "finish_chunk batch totalOps chunkTotal idx cb =
     (let entries = map chunk_entry (cb_entries cb) in
      \<lparr>ck_batch = JObj (obj_merge (own_props batch)
          [(''count'', jint (int (cb_opCount cb))), (''entries'', JArr entries), (''ops'', JArr (cb_ops cb)),
           (''candidates'', JArr (filterManualApplyChunkCandidates batch (cb_refs cb))),
           (''context'', JObj (obj_merge (own_props (dot batch ''context''))
              [(''totalEntries'', jint (int (length entries))), (''totalOps'', jint (int (cb_opCount cb))),
               (''chunkIndex'', jint (int idx + 1)), (''chunkTotal'', jint (int chunkTotal)),
               (''totalApplyOps'', jint (int totalOps))]))]),
       ck_meta = JObj [(''index'', jint (int idx + 1)), (''total'', jint (int chunkTotal)),
                       (''opCount'', jint (int (cb_opCount cb))), (''totalOpCount'', jint (int totalOps))],
       ck_entryIds = truthy_ids (map fst (cb_entries cb)),
       ck_opCounts = cb_opCounts cb\<rparr>)"

definition splitManualApplyBatch :: "jsval \<Rightarrow> nat \<Rightarrow> chunk list" where
  "splitManualApplyBatch batch maxOps =
     (let totalOps = countManualApplyOps batch in
      if totalOps \<le> maxOps
      then [\<lparr>ck_batch = batch, ck_meta = JNull, ck_entryIds = truthy_ids (batch_entries batch),
             ck_opCounts = fold (\<lambda>e m. amap_set m (dot e ''id'') (length (entry_ops e))) (batch_entries batch) []\<rparr>]
      else (let raw = raw_chunks maxOps (batch_entries batch)
            in map (\<lambda>(i, cb). finish_chunk batch totalOps (length raw) i cb) (zip [0..<length raw] raw)))"

section \<open>Judging a reply\<close>

definition manualApplyResultShapeHint :: "jsval \<Rightarrow> string" where
  "manualApplyResultShapeHint eventId =
     ''Use live-poll.mjs --reply '' @ js_text eventId @ '' done --data '' @ [CHR 0x27] @
     ''{\"status\":\"done\",\"appliedEntryIds\":[\"ENTRY_ID\"],\"failed\":[],\"files\":[\"src/page.html\"],\"notes\":[]}'' @ [CHR 0x27]"

definition invalidManualApplyResult :: "string \<Rightarrow> jsval \<Rightarrow> props \<Rightarrow> jsval" where
  "invalidManualApplyResult reason eventId extra =
     JObj (obj_merge [(''error'', JStr ''invalid_manual_apply_result''), (''reason'', JStr reason),
                      (''hint'', JStr (manualApplyResultShapeHint eventId))] extra)"

definition nonempty_str :: "jsval \<Rightarrow> bool" where
  "nonempty_str v = (is_str v \<and> truthy v)"

text \<open>The index of the first element that fails a test.\<close>

fun first_bad :: "nat \<Rightarrow> ('a \<Rightarrow> bool) \<Rightarrow> 'a list \<Rightarrow> nat option" where
  "first_bad i good [] = None"
| "first_bad i good (x # xs) = (if good x then first_bad (Suc i) good xs else Some i)"

definition failed_item_error :: "jsval \<Rightarrow> string option" where
  "failed_item_error item =
     (if \<not> truthy item \<or> \<not> typeof_object item \<or> is_arr item then Some ''failed_must_contain_objects''
      else if \<not> nonempty_str (dot item ''entryId'') then Some ''failed_entryId_required''
      else if \<not> nonempty_str (dot item ''reason'') then Some ''failed_reason_required''
      else None)"

fun first_failed_error :: "nat \<Rightarrow> jsval list \<Rightarrow> (string \<times> nat) option" where
  "first_failed_error i [] = None"
| "first_failed_error i (x # xs) = (case failed_item_error x of
      Some err \<Rightarrow> Some (err, i)
    | None \<Rightarrow> first_failed_error (Suc i) xs)"

definition result_lists :: "string list" where
  "result_lists = [''appliedEntryIds'', ''failed'', ''files'', ''notes'']"

definition index_extra :: "nat \<Rightarrow> props" where
  "index_extra i = [(''index'', jint (int i))]"

text \<open>The checks on the shape of the data, in their order: the reason and what else is reported.\<close>

definition result_shape_error :: "jsval \<Rightarrow> (string \<times> props) option" where
  "result_shape_error data =
     (if \<not> truthy data \<or> \<not> typeof_object data \<or> is_arr data then Some (''missing_result_data'', [])
      else if map_of (own_props data) ''entries'' \<noteq> None \<or> map_of (own_props data) ''ops'' \<noteq> None
        then Some (''summary_result_not_allowed'', [])
      else if \<not> has_str [''done'', ''partial'', ''error''] (dot data ''status'')
        then Some (''invalid_status'', [(''status'', coalesce (dot data ''status'') JNull)])
      else (case find (\<lambda>k. \<not> is_arr (dot data k)) result_lists of
          Some k \<Rightarrow> Some (k @ ''_must_be_array'', [])
        | None \<Rightarrow>
       (case first_bad 0 nonempty_str (arr_elems (dot data ''appliedEntryIds'')) of
          Some i \<Rightarrow> Some (''appliedEntryIds_must_contain_strings'', index_extra i)
        | None \<Rightarrow>
       (case first_bad 0 nonempty_str (arr_elems (dot data ''files'')) of
          Some i \<Rightarrow> Some (''files_must_contain_strings'', index_extra i)
        | None \<Rightarrow>
       (case first_bad 0 is_str (arr_elems (dot data ''notes'')) of
          Some i \<Rightarrow> Some (''notes_must_contain_strings'', index_extra i)
        | None \<Rightarrow>
       (case first_failed_error 0 (arr_elems (dot data ''failed'')) of
          Some (err, i) \<Rightarrow> Some (err, index_extra i)
        | None \<Rightarrow> None))))))"

text \<open>The checks against the batch that was sent.\<close>

definition result_content_error :: "jsval \<Rightarrow> jsval \<Rightarrow> (string \<times> props) option" where
  "result_content_error data batch =
     (let ids = truthy_ids (batch_entries batch);
          applied = arr_elems (dot data ''appliedEntryIds'');
          failed = arr_elems (dot data ''failed'');
          unknown = (\<lambda>i. ids \<noteq> [] \<and> i \<notin> set ids)
      in case find unknown applied of
           Some i \<Rightarrow> Some (''applied_entry_id_not_in_event'', [(''entryId'', i)])
         | None \<Rightarrow>
        (case find (\<lambda>item. unknown (dot item ''entryId'')) failed of
           Some item \<Rightarrow> Some (''failed_entry_id_not_in_event'', [(''entryId'', dot item ''entryId'')])
         | None \<Rightarrow>
           if dot data ''status'' = JStr ''done'' \<and> failed \<noteq> [] then Some (''done_result_has_failed_entries'', [])
           else if dot data ''status'' = JStr ''done'' \<and> 0 < countManualApplyOps batch \<and> applied = []
             then Some (''done_result_missing_applied_entry_ids'', [])
           else if dot data ''status'' = JStr ''partial'' \<and> applied = [] \<and> failed = []
             then Some (''partial_result_has_no_entries'', [])
           else if dot data ''status'' = JStr ''error'' \<and> applied \<noteq> []
             then Some (''error_result_has_applied_entries'', [])
           else None))"

definition validateManualApplyResultMessage :: "jsval \<Rightarrow> deferred \<Rightarrow> jsval + jsval" where
  "validateManualApplyResultMessage msg d =
     (let data = dot msg ''data'';
          eventId = js_or (js_or (dot msg ''id'') (dot (df_event d) ''id'')) (JStr ''EVENT_ID'')
      in case result_shape_error data of
           Some (reason, extra) \<Rightarrow> Inl (invalidManualApplyResult reason eventId extra)
         | None \<Rightarrow>
        (case result_content_error data (df_batch d) of
           Some (reason, extra) \<Rightarrow> Inl (invalidManualApplyResult reason eventId extra)
         | None \<Rightarrow>
           Inr (JObj [(''status'', dot data ''status''),
                      (''message'', if is_str (dot data ''message'') then dot data ''message'' else JUndef),
                      (''appliedEntryIds'', dot data ''appliedEntryIds''), (''failed'', dot data ''failed''),
                      (''files'', dot data ''files''), (''notes'', dot data ''notes'')])))"

section \<open>Combining the replies of the chunks\<close>

record chunk_result =
  cr_status :: string
  cr_message :: jsval
  cr_applied :: "jsval list"
  cr_failed :: "jsval list"
  cr_files :: "jsval list"
  cr_notes :: "jsval list"

definition normalizeApplyChunkResult :: "jsval \<Rightarrow> chunk_result" where
  "normalizeApplyChunkResult r =
     \<lparr>cr_status = (if dot r ''status'' = JStr ''partial'' then ''partial''
                   else if dot r ''status'' = JStr ''error'' then ''error'' else ''done''),
      cr_message = (if is_str (dot r ''message'') then dot r ''message'' else JNull),
      cr_applied = filter is_str (arr_elems (dot r ''appliedEntryIds'')),
      cr_failed = filter truthy (arr_elems (dot r ''failed'')),
      cr_files = filter is_str (arr_elems (dot r ''files'')),
      cr_notes = filter is_str (arr_elems (dot r ''notes''))\<rparr>"

definition firstFailureReason :: "chunk_result \<Rightarrow> jsval" where
  "firstFailureReason r = (case cr_failed r of
      [] \<Rightarrow> JNull
    | item # _ \<Rightarrow> js_or (js_or (dot item ''reason'') (dot item ''message'')) JNull)"

type_synonym failures = "(jsval \<times> jsval) list"

definition failure :: "jsval \<Rightarrow> jsval \<Rightarrow> jsval list \<Rightarrow> jsval" where
  "failure entryId reason cands = JObj [(''entryId'', entryId), (''reason'', reason), (''candidates'', JArr cands)]"

definition markChunkEntriesFailed :: "jsval \<Rightarrow> jsval list \<Rightarrow> failures \<Rightarrow> failures" where
  "markChunkEntriesFailed reason ids fs = fold (\<lambda>i. amap_default i (failure i reason [])) ids fs"

record apply_state =
  as_failed :: failures
  as_applied :: "(jsval \<times> nat) list"
  as_files :: "jsval list"
  as_notes :: "jsval list"
  as_aborted :: bool

definition failed_item_id :: "jsval \<Rightarrow> jsval" where
  "failed_item_id item = js_or (dot item ''entryId'') (dot item ''id'')"

definition failed_ids :: "chunk_result \<Rightarrow> jsval list" where
  "failed_ids r = filter truthy (map failed_item_id (cr_failed r))"

definition record_failed_item :: "jsval \<Rightarrow> failures \<Rightarrow> failures" where
  "record_failed_item item fs =
     (if \<not> truthy (failed_item_id item) then fs
      else amap_default (failed_item_id item)
             (failure (failed_item_id item)
                (js_or (js_or (dot item ''reason'') (dot item ''message'')) (JStr ''failed''))
                (arr_elems (dot item ''candidates''))) fs)"

definition op_count_of :: "jsval \<Rightarrow> (jsval \<times> nat) list \<Rightarrow> nat" where
  "op_count_of i m = (case map_of m i of None \<Rightarrow> 0 | Some n \<Rightarrow> n)"

text \<open>The reply to one chunk, once it is known not to be an error.\<close>

definition take_chunk_reply :: "chunk \<Rightarrow> chunk_result \<Rightarrow> apply_state \<Rightarrow> apply_state" where
  "take_chunk_reply ck r st =
     (let reported = js_set (cr_applied r); bad = failed_ids r;
          applied' = fold (\<lambda>i m. if i \<notin> set (ck_entryIds ck) \<or> i \<in> set bad then m
                             else amap_set m i (op_count_of i m + op_count_of i (ck_opCounts ck)))
                       reported (as_applied st);
          failed' = fold (\<lambda>i. if i \<in> set reported \<or> i \<in> set bad then id
                          else amap_default i (failure i (JStr ''not_reported_applied'') []))
                      (ck_entryIds ck) (as_failed st)
      in st\<lparr>as_applied := applied', as_failed := failed'\<rparr>)"

text \<open>One round of the loop: the reply is an argument, the left summand the message of a rejection.\<close>

definition chunk_round :: "chunk \<Rightarrow> jsval + jsval \<Rightarrow> apply_state \<Rightarrow> apply_state" where
  "chunk_round ck reply st =
     (if as_aborted st
      then st\<lparr>as_failed := markChunkEntriesFailed (JStr ''manual_edit_chunk_aborted'') (ck_entryIds ck) (as_failed st)\<rparr>
      else (case reply of
          Inl m \<Rightarrow> st\<lparr>as_failed := markChunkEntriesFailed (js_or m (JStr ''chat_agent_error'')) (ck_entryIds ck) (as_failed st),
                      as_aborted := True\<rparr>
        | Inr v \<Rightarrow>
           (let r = normalizeApplyChunkResult v;
                st1 = st\<lparr>as_files := js_set (as_files st @ cr_files r), as_notes := as_notes st @ cr_notes r,
                         as_failed := fold record_failed_item (cr_failed r) (as_failed st)\<rparr>
            in if cr_status r = ''error''
               then st1\<lparr>as_failed := markChunkEntriesFailed
                          (js_or (js_or (cr_message r) (firstFailureReason r)) (JStr ''chat_agent_error''))
                          (ck_entryIds ck) (as_failed st1),
                        as_aborted := True\<rparr>
               else take_chunk_reply ck r st1)))"

text \<open>The final verdict per entry of the batch, from the operations expected and applied.\<close>

definition settle_entry :: "(jsval \<times> nat) list \<Rightarrow> jsval \<times> nat \<Rightarrow> jsval list \<times> failures \<Rightarrow> jsval list \<times> failures" where
  "settle_entry applied e acc =
     (if map_of (snd acc) (fst e) \<noteq> None then acc
      else if op_count_of (fst e) applied = snd e \<and> 0 < snd e then (fst acc @ [fst e], snd acc)
      else (fst acc, amap_default (fst e) (failure (fst e) (JStr ''not_reported_applied'') []) (snd acc)))"

definition expected_ops :: "jsval \<Rightarrow> (jsval \<times> nat) list" where
  "expected_ops batch = fold (\<lambda>e m. amap_set m (dot e ''id'') (length (entry_ops e))) (batch_entries batch) []"

definition chunk_rounds :: "chunk list \<Rightarrow> (nat \<Rightarrow> jsval + jsval) \<Rightarrow> apply_state" where
  "chunk_rounds chunks replies =
     fold (\<lambda>(ck, i). chunk_round ck (replies i)) (zip chunks [0..<length chunks])
       \<lparr>as_failed = [], as_applied = [], as_files = [], as_notes = [], as_aborted = False\<rparr>"

definition settle_batch :: "jsval \<Rightarrow> apply_state \<Rightarrow> jsval list \<times> failures" where
  "settle_batch batch st = fold (settle_entry (as_applied st)) (expected_ops batch) ([], as_failed st)"

definition combine_chunks :: "jsval \<Rightarrow> apply_state \<Rightarrow> jsval" where
  "combine_chunks batch st =
     (let (applied, failed) = settle_batch batch st
      in JObj [(''status'', JStr (if failed = [] then ''done'' else if applied \<noteq> [] then ''partial'' else ''error'')),
               (''appliedEntryIds'', JArr applied), (''failed'', JArr (map snd failed)),
               (''files'', JArr (as_files st)), (''notes'', JArr (as_notes st))])"

text \<open>
  \<^verbatim>\<open>pushBatchInChunksAndWait\<close>, with the agent's reply to each chunk (to the whole batch where it is
  not split). The left summand is the rejection of the whole.
\<close>

definition pushBatchInChunksAndWait :: "jsval \<Rightarrow> jsval \<Rightarrow> jsval \<Rightarrow> (nat \<Rightarrow> jsval + jsval) \<Rightarrow> jsval + jsval" where
  "pushBatchInChunksAndWait chunkSizeEnv batch repairContext replies =
     (let chunks = splitManualApplyBatch batch (nat (manualEditApplyChunkSize chunkSizeEnv))
      in if truthy (js_or repairContext (dot batch ''repair'')) \<or> length chunks \<le> 1 then replies 0
         else Inr (combine_chunks batch (chunk_rounds chunks replies)))"

section \<open>Log texts\<close>

text \<open>\<^verbatim>\<open>value.replace(/\s+/g, ' ')\<close>.\<close>

fun squeeze_ws :: "bool \<Rightarrow> string \<Rightarrow> string" where
  "squeeze_ws inws [] = []"
| "squeeze_ws inws (c # cs) =
     (if is_ws c then (if inws then squeeze_ws True cs else CHR '' '' # squeeze_ws True cs)
      else c # squeeze_ws False cs)"

definition compactManualLogText :: "jsval \<Rightarrow> nat \<Rightarrow> jsval" where
  "compactManualLogText v mx = (case v of
      JStr s \<Rightarrow>
        (let normalized = trim (squeeze_ws False s) in
         if length normalized \<le> mx then JStr normalized
         else JStr (take mx normalized @ ''... [truncated '' @ nat_str (length normalized - mx) @ '' chars]''))
    | _ \<Rightarrow> JUndef)"

definition summarizeManualLogFile :: "string \<Rightarrow> jsval \<Rightarrow> jsval" where
  "summarizeManualLogFile cwd file = (case file of
      JStr f \<Rightarrow>
        if f = [] then JUndef
        else if \<not> isAbsolute f then JStr f
        else (let rel = path_relative cwd f in JStr (if outside_root rel then f else rel))
    | _ \<Rightarrow> JUndef)"

definition summarize_files :: "string \<Rightarrow> nat \<Rightarrow> jsval \<Rightarrow> jsval" where
  "summarize_files cwd mx v =
     (if is_arr v then JArr (filter truthy (map (summarizeManualLogFile cwd) (take mx (arr_elems v)))) else JUndef)"

definition summarizeManualDiagnostics :: "string \<Rightarrow> jsval \<Rightarrow> jsval" where
  "summarizeManualDiagnostics cwd items =
     (if \<not> is_arr items \<or> arr_elems items = [] then JUndef
      else JArr (map (\<lambda>item. JObj [
             (''reason'', js_or (js_or (dot item ''reason'') (dot item ''kind'')) JUndef),
             (''detail'', compactManualLogText (dot item ''detail'') 220),
             (''message'', compactManualLogText (dot item ''message'') 300),
             (''file'', summarizeManualLogFile cwd (js_or (dot item ''file'') (dot item ''relativeFile''))),
             (''line'', js_or (dot item ''line'') JUndef),
             (''ref'', compactManualLogText (dot item ''ref'') 180),
             (''marker'', compactManualLogText (dot item ''marker'') 120),
             (''files'', summarize_files cwd 8 (dot item ''files''))])
           (take 12 (arr_elems items))))"

definition summarizeManualApplyFailures :: "string \<Rightarrow> jsval \<Rightarrow> jsval" where
  "summarizeManualApplyFailures cwd failed =
     JArr (map (\<lambda>item. JObj [
         (''id'', js_or (js_or (dot item ''id'') (dot item ''entryId'')) JNull),
         (''reason'', js_or (js_or (dot item ''reason'') (dot item ''message'')) (JStr ''failed'')),
         (''message'', compactManualLogText (dot item ''message'') 300),
         (''files'', summarize_files cwd 12 (dot item ''files'')),
         (''checks'', summarizeManualDiagnostics cwd (dot item ''checks'')),
         (''failures'', summarizeManualDiagnostics cwd (dot item ''failures'')),
         (''candidates'', summarizeManualDiagnostics cwd (dot item ''candidates''))])
       (take 20 (arr_elems failed)))"

section \<open>The compact form sent to the agent\<close>

definition MANUAL_APPLY_COMPACT_TEXT_LIMIT :: nat where "MANUAL_APPLY_COMPACT_TEXT_LIMIT = 240"
definition MANUAL_APPLY_COMPACT_NEARBY_LIMIT :: nat where "MANUAL_APPLY_COMPACT_NEARBY_LIMIT = 4"

definition truncateManualApplyText :: "jsval \<Rightarrow> nat \<Rightarrow> jsval" where
  "truncateManualApplyText v mx = (case v of JStr s \<Rightarrow> JStr (take mx s) | _ \<Rightarrow> js_or v JNull)"

definition compactManualApplyContext :: "jsval \<Rightarrow> jsval" where
  "compactManualApplyContext v =
     (if \<not> truthy v \<or> \<not> typeof_object v then JNull
      else JObj [(''ref'', dot v ''ref''), (''tagName'', js_or (js_or (dot v ''tagName'') (dot v ''tag'')) JNull),
                 (''id'', js_or (dot v ''id'') JNull), (''classes'', JArr (arr_elems (dot v ''classes''))),
                 (''textContent'', truncateManualApplyText (dot v ''textContent'') MANUAL_APPLY_COMPACT_TEXT_LIMIT)])"

definition compactNearbyManualEditTexts :: "jsval \<Rightarrow> jsval" where
  "compactNearbyManualEditTexts items =
     JArr (map (\<lambda>item. if is_str item
                 then JObj [(''text'', truncateManualApplyText item MANUAL_APPLY_COMPACT_TEXT_LIMIT)]
                 else JObj [(''ref'', dot item ''ref''), (''tag'', dot item ''tag''),
                            (''classes'', JArr (arr_elems (dot item ''classes''))),
                            (''text'', truncateManualApplyText (dot item ''text'') MANUAL_APPLY_COMPACT_TEXT_LIMIT)])
       (take MANUAL_APPLY_COMPACT_NEARBY_LIMIT (arr_elems items)))"

definition compactManualApplyOp :: "jsval \<Rightarrow> jsval" where
  "compactManualApplyOp oper = JObj [
     (''entryId'', dot oper ''entryId''), (''ref'', dot oper ''ref''), (''contextRef'', dot oper ''contextRef''),
     (''tag'', dot oper ''tag''), (''elementId'', dot oper ''elementId''),
     (''classes'', JArr (arr_elems (dot oper ''classes''))),
     (''originalText'', dot oper ''originalText''), (''newText'', dot oper ''newText''),
     (''deleted'', if dot oper ''deleted'' = JBool True then JBool True else JUndef),
     (''sourceHint'', js_or (dot oper ''sourceHint'') JNull),
     (''leaf'', compactManualApplyContext (dot oper ''leaf'')),
     (''nearbyEditableTexts'', compactNearbyManualEditTexts (dot oper ''nearbyEditableTexts'')),
     (''container'', compactManualApplyContext (dot oper ''container'')),
     (''contextHints'', if is_arr (dot oper ''contextHints'') then JArr (take 8 (arr_elems (dot oper ''contextHints''))) else JUndef)]"

definition compactManualApplyEntry :: "jsval \<Rightarrow> jsval" where
  "compactManualApplyEntry entry = JObj [
     (''id'', dot entry ''id''), (''pageUrl'', dot entry ''pageUrl''),
     (''stagedAt'', js_or (dot entry ''stagedAt'') JNull),
     (''element'', compactManualApplyContext (dot entry ''element'')),
     (''ops'', JArr (map compactManualApplyOp (entry_ops entry)))]"

definition compactManualApplySourceMatch :: "string \<Rightarrow> jsval \<Rightarrow> jsval" where
  "compactManualApplySourceMatch cwd m =
     (if \<not> truthy m \<or> \<not> typeof_object m then JNull
      else (let file = js_or (dot m ''relativeFile'') (dot m ''file'') in
        if \<not> truthy file \<and> \<not> truthy (dot m ''line'') then JNull
        else JObj [(''file'', summarizeManualLogFile cwd file), (''line'', js_or (dot m ''line'') JNull),
                   (''column'', js_or (dot m ''column'') JNull),
                   (''reason'', js_or (js_or (dot m ''reason'') (dot m ''kind'')) JUndef),
                   (''status'', js_or (dot m ''status'') JUndef)]))"

definition compactManualApplySourceMatches :: "string \<Rightarrow> nat \<Rightarrow> jsval \<Rightarrow> jsval" where
  "compactManualApplySourceMatches cwd mx ms =
     JArr (filter truthy (map (compactManualApplySourceMatch cwd) (take mx (arr_elems ms))))"

definition compactManualApplyCandidates :: "string \<Rightarrow> jsval \<Rightarrow> jsval list" where
  "compactManualApplyCandidates cwd candidates =
     map (\<lambda>c. JObj [(''entryId'', dot c ''entryId''), (''ref'', dot c ''ref''),
            (''sourceHint'', compactManualApplySourceMatch cwd (dot c ''sourceHint'')),
            (''textMatches'', compactManualApplySourceMatches cwd 8 (dot c ''textMatches'')),
            (''objectKeyMatches'', compactManualApplySourceMatches cwd 8 (dot c ''objectKeyMatches'')),
            (''contextTextMatches'', compactManualApplySourceMatches cwd 8 (dot c ''contextTextMatches'')),
            (''locatorMatches'', compactManualApplySourceMatches cwd 6 (dot c ''locatorMatches''))])
       (take 24 (arr_elems candidates))"

definition compactManualApplyBatch :: "string \<Rightarrow> jsval \<Rightarrow> jsval" where
  "compactManualApplyBatch cwd batch =
     (let entries = map compactManualApplyEntry (batch_entries batch);
          candidates = compactManualApplyCandidates cwd (dot batch ''candidates'');
          ctx = dot batch ''context''
      in JObj [(''version'', dot batch ''version''), (''pageUrl'', js_or (dot batch ''pageUrl'') JNull),
               (''count'', dot batch ''count''), (''entries'', JArr entries),
               (''ops'', JArr (concat (map (\<lambda>e. map (\<lambda>oper. JObj (obj_set (own_props oper) ''entryId'' (dot e ''id'')))
                                            (entry_ops e)) entries))),
               (''candidates'', if candidates \<noteq> [] then JArr candidates else JUndef),
               (''context'', if truthy ctx
                  then JObj (map (\<lambda>k. (k, dot ctx k)) [''bufferPath'', ''totalEntries'', ''totalOps'', ''chunkIndex'',
                                                     ''chunkTotal'', ''totalApplyOps''])
                  else JUndef)])"

section \<open>Files\<close>

text \<open>The files an entry, its candidates and the reply name, confined to the project.\<close>

definition candidate_files :: "jsval \<Rightarrow> jsval list" where
  "candidate_files c =
     [dot (dot c ''sourceHint'') ''relativeFile'', dot (dot c ''sourceHint'') ''file''] @
     concat (map (\<lambda>k. map (\<lambda>item. dot item ''file'') (arr_elems (dot c k)))
       [''textMatches'', ''objectKeyMatches'', ''locatorMatches'', ''contextTextMatches''])"

definition collectManualApplyFiles :: "string \<Rightarrow> jsval \<Rightarrow> jsval list \<Rightarrow> string list" where
  "collectManualApplyFiles cwd batch extraFiles =
     List.map_filter (normalizeProjectFile cwd) (js_set (
       concat (map (\<lambda>e. map (\<lambda>oper. dot (dot oper ''sourceHint'') ''file'') (entry_ops e)) (batch_entries batch))
       @ concat (map candidate_files (arr_elems (dot batch ''candidates''))) @ extraFiles))"

type_synonym files = "string \<Rightarrow> string option"

definition snapshotApplyEventFiles :: "string \<Rightarrow> files \<Rightarrow> jsval \<Rightarrow> rollback_snapshot" where
  "snapshotApplyEventFiles cwd fs batch =
     fold (\<lambda>rel m. amap_set m rel (case fs (path_resolve cwd rel) of None \<Rightarrow> (False, []) | Some c \<Rightarrow> (True, c)))
       (collectManualApplyFiles cwd batch []) []"

text \<open>Putting one file back: written, removed, or left where it is absent as before.\<close>

definition restore_file :: "(string \<Rightarrow> string option) \<Rightarrow> string \<Rightarrow> bool \<times> string \<Rightarrow> files \<Rightarrow> string option \<times> files" where
  "restore_file fails absolute before fs =
     (if fst before
      then (case fails absolute of Some m \<Rightarrow> (Some m, fs) | None \<Rightarrow> (None, fs(absolute \<mapsto> snd before)))
      else if fs absolute = None then (None, fs)
      else (case fails absolute of Some m \<Rightarrow> (Some m, fs) | None \<Rightarrow> (None, fs(absolute := None))))"

record rollback_result =
  rb_files :: "string list"
  rb_failures :: "(string \<times> string) list"

definition rollback_one ::
    "(string \<Rightarrow> string option) \<Rightarrow> string \<Rightarrow> rollback_snapshot \<Rightarrow> string \<Rightarrow> rollback_result \<times> files \<Rightarrow> rollback_result \<times> files" where
  "rollback_one fails cwd snap rel acc = (case map_of snap rel of
      None \<Rightarrow> acc
    | Some before \<Rightarrow>
       (case restore_file fails (path_resolve cwd rel) before (snd acc) of
          (None, fs') \<Rightarrow> ((fst acc)\<lparr>rb_files := rb_files (fst acc) @ [rel]\<rparr>, fs')
        | (Some m, fs') \<Rightarrow> ((fst acc)\<lparr>rb_failures := rb_failures (fst acc) @ [(rel, m)]\<rparr>, fs')))"

definition rollbackApplySnapshot ::
    "(string \<Rightarrow> string option) \<Rightarrow> string \<Rightarrow> jsval \<Rightarrow> rollback_snapshot \<Rightarrow> jsval list \<Rightarrow> files \<Rightarrow> rollback_result \<times> files" where
  "rollbackApplySnapshot fails cwd batch snap extraFiles fs =
     fold (rollback_one fails cwd snap) (collectManualApplyFiles cwd batch extraFiles)
       (\<lparr>rb_files = [], rb_failures = []\<rparr>, fs)"

definition manualApplyReplyCommand :: "jsval \<Rightarrow> string" where
  "manualApplyReplyCommand eventOrId =
     ''live-poll.mjs --reply '' @
     js_text (if is_str eventOrId then eventOrId else js_or (dot eventOrId ''id'') (JStr ''EVENT_ID'')) @
     '' done --data '' @ [CHR 0x27] @ ''<json>'' @ [CHR 0x27]"

definition buildManualApplyAgentAction :: "jsval \<Rightarrow> jsval" where
  "buildManualApplyAgentAction eventOrId = JObj [
     (''kind'', JStr ''manual_edit_apply''), (''required'', JStr ''apply_source_edits_then_reply''),
     (''replyCommand'', JStr (manualApplyReplyCommand eventOrId)),
     (''warning'', JStr ''Polling only leases this work item; it does not commit source edits.'')]"

definition summarizeManualApplyEvent :: "string \<Rightarrow> jsval \<Rightarrow> jsval \<Rightarrow> jsval" where
  "summarizeManualApplyEvent cwd event batch = JObj [
     (''pageUrl'', js_or (dot event ''pageUrl'') JNull), (''chunk'', js_or (dot event ''chunk'') JNull),
     (''entryCount'', jint (int (length (batch_entries batch)))),
     (''opCount'', jint (int (sum_list (map (length \<circ> entry_ops) (batch_entries batch))))),
     (''files'', JArr (map JStr (collectManualApplyFiles cwd batch [])))]"

text \<open>The evidence file of an event, where its path lies in the evidence directory.\<close>

definition normalizeManualApplyEvidencePath :: "string \<Rightarrow> string \<Rightarrow> jsval \<Rightarrow> string option" where
  "normalizeManualApplyEvidencePath cwd evidenceDir p = (case p of
      JStr f \<Rightarrow>
        if f = [] then None
        else (let full = (if isAbsolute f then f else path_resolve cwd f);
                  rel = path_relative evidenceDir full
              in if outside_root rel then None
                 else if path_extname rel \<noteq> ''.json'' then None else Some full)
    | _ \<Rightarrow> None)"

section \<open>The transaction file\<close>

text \<open>The file is missing, does not parse, or holds a transaction.\<close>

record tx_item =
  ti_file :: string
  ti_exists :: bool
  ti_content :: string

record transaction =
  tx_id :: string
  tx_pageUrl :: jsval
  tx_entryIds :: "jsval list"
  tx_files :: "tx_item list"

datatype tx_file = NoTransaction | UnreadableTransaction | Transaction transaction

definition readManualApplyTransaction :: "tx_file \<Rightarrow> transaction option" where
  "readManualApplyTransaction f = (case f of Transaction t \<Rightarrow> Some t | _ \<Rightarrow> None)"

definition writeManualApplyTransaction ::
    "string \<Rightarrow> string \<Rightarrow> files \<Rightarrow> jsval \<Rightarrow> jsval \<Rightarrow> transaction" where
  "writeManualApplyTransaction newId cwd fs pageUrl batch =
     \<lparr>tx_id = newId, tx_pageUrl = pageUrl,
      tx_entryIds = filter truthy (map (\<lambda>e. dot e ''id'') (batch_entries batch)),
      tx_files = map (\<lambda>rel. \<lparr>ti_file = rel, ti_exists = fs (path_resolve cwd rel) \<noteq> None,
                             ti_content = (case fs (path_resolve cwd rel) of None \<Rightarrow> [] | Some c \<Rightarrow> c)\<rparr>)
                   (collectManualApplyFiles cwd batch [])\<rparr>"

definition clearManualApplyTransaction :: "string option \<Rightarrow> tx_file \<Rightarrow> bool \<times> tx_file" where
  "clearManualApplyTransaction transactionId f = (case f of
      NoTransaction \<Rightarrow> (False, f)
    | UnreadableTransaction \<Rightarrow> (True, NoTransaction)
    | Transaction t \<Rightarrow>
       (case transactionId of
          Some i \<Rightarrow> if tx_id t \<noteq> [] \<and> tx_id t \<noteq> i then (False, f) else (True, NoTransaction)
        | None \<Rightarrow> (True, NoTransaction)))"

definition rollback_item ::
    "(string \<Rightarrow> string option) \<Rightarrow> string \<Rightarrow> tx_item \<Rightarrow> rollback_result \<times> files \<Rightarrow> rollback_result \<times> files" where
  "rollback_item fails cwd item acc = (case normalizeProjectFile cwd (JStr (ti_file item)) of
      None \<Rightarrow> acc
    | Some rel \<Rightarrow>
       (case restore_file fails (path_resolve cwd rel) (ti_exists item, ti_content item) (snd acc) of
          (None, fs') \<Rightarrow> ((fst acc)\<lparr>rb_files := rb_files (fst acc) @ [rel]\<rparr>, fs')
        | (Some m, fs') \<Rightarrow> ((fst acc)\<lparr>rb_failures := rb_failures (fst acc) @ [(rel, m)]\<rparr>, fs')))"

text \<open>
  \<^verbatim>\<open>rollbackManualApplyTransaction\<close>. The entries still staged are read with \<^verbatim>\<open>readBuffer\<close>, which
  never throws. The result tells whether the transaction was skipped, and what was rolled back.
\<close>

datatype tx_rollback = NoRollback | Skipped | RolledBack rollback_result

definition rollbackManualApplyTransaction ::
    "(string \<Rightarrow> string option) \<Rightarrow> string \<Rightarrow> jsval \<Rightarrow> buffer_file \<Rightarrow> tx_file \<Rightarrow> files \<Rightarrow> tx_rollback \<times> tx_file \<times> files" where
  "rollbackManualApplyTransaction fails cwd pageUrl buf txf fs = (case readManualApplyTransaction txf of
      None \<Rightarrow> (NoRollback, txf, fs)
    | Some t \<Rightarrow>
       if truthy pageUrl \<and> truthy (tx_pageUrl t) \<and> \<not> strict_eq (tx_pageUrl t) pageUrl then (NoRollback, txf, fs)
       else (let pendingIds = filter truthy (map be_id (readBuffer buf));
                 txf' = snd (clearManualApplyTransaction (if tx_id t = [] then None else Some (tx_id t)) txf)
             in if \<not> list_ex (\<lambda>i. i \<in> set pendingIds) (tx_entryIds t) then (Skipped, txf', fs)
                else (let (r, fs') = fold (rollback_item fails cwd) (tx_files t) (\<lparr>rb_files = [], rb_failures = []\<rparr>, fs)
                      in (RolledBack r, txf', fs'))))"

end
