(* ===== verification/Apply_Properties.thy ===== *)
theory Apply_Properties
  imports Manual_Apply
begin

text \<open>
  What applying staged edits guarantees: chunks that lose no operation and respect the size, verdicts
  that are complete and exclusive, rollbacks that restore the files and stay inside the project.
\<close>

section \<open>Chunks\<close>

lemma add_op_sel [simp]:
  "cb_ops (addOpToManualApplyChunk e oper c) = cb_ops c @ [op_with_entry e oper]"
  "cb_opCount (addOpToManualApplyChunk e oper c) = cb_opCount c + 1"
  by (simp_all add: addOpToManualApplyChunk_def Let_def)

definition split_ops :: "split_state \<Rightarrow> jsval list" where
  "split_ops st = concat (map cb_ops (fst st)) @ cb_ops (snd st)"

definition chunk_bounded :: "nat \<Rightarrow> chunk_builder \<Rightarrow> bool" where
  "chunk_bounded m c \<longleftrightarrow> cb_opCount c = length (cb_ops c) \<and> cb_opCount c \<le> m"

definition split_bounded :: "nat \<Rightarrow> split_state \<Rightarrow> bool" where
  "split_bounded m st \<longleftrightarrow> (\<forall>c\<in>set (fst st). chunk_bounded m c \<and> 0 < cb_opCount c) \<and> chunk_bounded m (snd st)"

lemma builder_sel [simp]: "cb_ops createManualApplyChunkBuilder = []" "cb_opCount createManualApplyChunkBuilder = 0"
  by (simp_all add: createManualApplyChunkBuilder_def)

lemma split_ops_steps [simp]:
  "split_ops (close_chunk st) = split_ops st"
  "split_ops (put_op e oper st) = split_ops st @ [op_with_entry e oper]"
  by (simp_all add: split_ops_def close_chunk_def put_op_def)

lemma split_ops_bounded [simp]:
  "split_ops (put_op_bounded m e oper st) = split_ops st @ [op_with_entry e oper]"
  by (simp add: put_op_bounded_def)

lemma fold_put_ops:
  "split_ops (fold (put_op e) ops st) = split_ops st @ map (op_with_entry e) ops"
  "split_ops (fold (put_op_bounded m e) ops st) = split_ops st @ map (op_with_entry e) ops"
  by (induction ops arbitrary: st) simp_all

lemma split_entry_ops: "split_ops (split_entry m e st) = split_ops st @ map (op_with_entry e) (entry_ops e)"
  by (simp add: split_entry_def Let_def fold_put_ops)

lemma close_bounded: "split_bounded m st \<Longrightarrow> 0 < cb_opCount (snd st) \<Longrightarrow> split_bounded m (close_chunk st)"
  by (auto simp: split_bounded_def close_chunk_def chunk_bounded_def)

lemma put_op_count [simp]:
  "cb_opCount (snd (put_op e oper st)) = cb_opCount (snd st) + 1" "cb_opCount (snd (close_chunk st)) = 0"
  by (simp_all add: put_op_def close_chunk_def)

lemma put_op_ok:
  assumes "split_bounded m st" "cb_opCount (snd st) < m"
  shows "split_bounded m (put_op e oper st)"
proof -
  have c: "chunk_bounded m (snd st)" using assms(1) unfolding split_bounded_def by blast
  then have "cb_opCount (snd st) = length (cb_ops (snd st))" unfolding chunk_bounded_def by blast
  then have "chunk_bounded m (addOpToManualApplyChunk e oper (snd st))"
    unfolding chunk_bounded_def using assms(2) by (simp only: add_op_sel length_append list.size) linarith
  then show ?thesis using assms(1) unfolding split_bounded_def put_op_def by (simp only: fst_conv snd_conv) blast
qed

lemma fold_put_bounded:
  "split_bounded m st \<Longrightarrow> cb_opCount (snd st) + length ops \<le> m \<Longrightarrow> split_bounded m (fold (put_op e) ops st)"
  by (induction ops arbitrary: st) (simp_all add: put_op_ok)

lemma put_op_bounded_ok:
  assumes "split_bounded m st" "0 < m"
  shows "split_bounded m (put_op_bounded m e oper st)"
  unfolding put_op_bounded_def using assms close_bounded [OF assms(1)] by (intro put_op_ok) auto

lemma split_bounded_count: "split_bounded m st \<Longrightarrow> cb_opCount (snd st) \<le> m"
  by (simp add: split_bounded_def chunk_bounded_def)

lemma split_entry_bounded:
  assumes "split_bounded m st" "0 < m"
  shows "split_bounded m (split_entry m e st)"
proof (cases "length (entry_ops e) \<le> m")
  case True
  let ?st = "if 0 < cb_opCount (snd st) \<and> m < cb_opCount (snd st) + length (entry_ops e) then close_chunk st else st"
  have "split_bounded m ?st \<and> cb_opCount (snd ?st) + length (entry_ops e) \<le> m"
    using assms close_bounded [OF assms(1)] True split_bounded_count [OF assms(1)] by auto
  then show ?thesis using True fold_put_bounded by (simp add: split_entry_def Let_def)
next
  case False
  have "split_bounded m s \<Longrightarrow> split_bounded m (fold (put_op_bounded m e) ops s)" for ops s
    using assms(2) by (induction ops arbitrary: s) (simp_all add: put_op_bounded_ok)
  then show ?thesis using False assms close_bounded [OF assms(1)] by (simp add: split_entry_def Let_def)
qed

lemma raw_chunks_spec:
  assumes "0 < m"
  shows "concat (map cb_ops (raw_chunks m es)) = concat (map (\<lambda>e. map (op_with_entry e) (entry_ops e)) es)"
    and "\<And>c. c \<in> set (raw_chunks m es) \<Longrightarrow> chunk_bounded m c \<and> 0 < cb_opCount c"
proof -
  let ?init = "([], createManualApplyChunkBuilder)" and ?st = "fold (split_entry m) es ([], createManualApplyChunkBuilder)"
  have ops: "split_ops (fold (split_entry m) xs st) = split_ops st @ concat (map (\<lambda>e. map (op_with_entry e) (entry_ops e)) xs)"
    for xs st by (induction xs arbitrary: st) (simp_all add: split_entry_ops)
  have bnd: "split_bounded m st \<Longrightarrow> split_bounded m (fold (split_entry m) xs st)" for xs st
    using assms by (induction xs arbitrary: st) (simp_all add: split_entry_bounded)
  have "split_bounded m ?init" by (simp add: split_bounded_def chunk_bounded_def)
  note b = bnd [OF this, of es]
  then have e: "cb_opCount (snd ?st) = length (cb_ops (snd ?st))"
    unfolding split_bounded_def chunk_bounded_def by blast
  show "concat (map cb_ops (raw_chunks m es)) = concat (map (\<lambda>e. map (op_with_entry e) (entry_ops e)) es)"
    using ops [of es ?init] e by (auto simp: raw_chunks_def Let_def split_ops_def)
  show "chunk_bounded m c \<and> 0 < cb_opCount c" if "c \<in> set (raw_chunks m es)" for c
    using b that by (auto simp: raw_chunks_def Let_def split_bounded_def split: if_splits)
qed

lemma map_of_obj_merge_in:
  "distinct (map fst new) \<Longrightarrow> (k, v) \<in> set new \<Longrightarrow> map_of (obj_merge kvs new) k = Some v"
proof (induction new arbitrary: kvs)
  case (Cons kv new)
  obtain k' v' where kv: "kv = (k', v')" by fastforce
  have step: "obj_merge kvs (kv # new) = obj_merge (obj_set kvs k' v') new" by (simp add: obj_merge_def kv)
  show ?case
  proof (cases "(k, v) \<in> set new")
    case False
    then have "k = k'" "v = v'" using Cons.prems kv by auto
    moreover have "map_of (obj_merge xs ys) j = map_of xs j" if "j \<notin> fst ` set ys" for xs ys j
      using that unfolding obj_merge_def by (induction ys arbitrary: xs) (auto simp: map_of_obj_set)
    ultimately show ?thesis using Cons.prems(1) kv step by (simp add: map_of_obj_set)
  qed (use Cons kv step in simp)
qed simp

lemma finish_chunk_ops: "arr_elems (dot (ck_batch (finish_chunk b t n i cb)) ''ops'') = cb_ops cb"
  by (simp add: finish_chunk_def Let_def map_of_obj_merge_in [where v = "JArr (cb_ops cb)"])

definition batch_ops :: "jsval \<Rightarrow> jsval list" where
  "batch_ops batch = concat (map (\<lambda>e. map (op_with_entry e) (entry_ops e)) (batch_entries batch))"

text \<open>
  C8: splitting loses nothing. The operations of the chunks, in order, are those of the batch, each
  tagged with its entry; no chunk is empty and none has more operations than asked for.
\<close>

theorem split_batch_partition:
  assumes "0 < m" "m < countManualApplyOps batch"
  shows "concat (map (\<lambda>c. arr_elems (dot (ck_batch c) ''ops'')) (splitManualApplyBatch batch m)) = batch_ops batch \<and>
    (\<forall>c\<in>set (splitManualApplyBatch batch m).
       0 < length (arr_elems (dot (ck_batch c) ''ops'')) \<and> length (arr_elems (dot (ck_batch c) ''ops'')) \<le> m)"
proof -
  let ?raw = "raw_chunks m (batch_entries batch)"
  let ?f = "\<lambda>(i, cb). finish_chunk batch (countManualApplyOps batch) (length ?raw) i cb"
  have s: "splitManualApplyBatch batch m = map ?f (zip [0..<length ?raw] ?raw)"
    using assms by (simp add: splitManualApplyBatch_def Let_def)
  have "map (\<lambda>c. arr_elems (dot (ck_batch c) ''ops'')) (map ?f (zip [0..<length ?raw] ?raw)) =
      map (\<lambda>p. cb_ops (snd p)) (zip [0..<length ?raw] ?raw)"
    by (simp add: finish_chunk_ops split_beta comp_def)
  also have "\<dots> = map cb_ops (map snd (zip [0..<length ?raw] ?raw))" by (simp only: map_map comp_def)
  also have "\<dots> = map cb_ops ?raw" by simp
  finally have ops: "map (\<lambda>c. arr_elems (dot (ck_batch c) ''ops'')) (splitManualApplyBatch batch m) = map cb_ops ?raw"
    unfolding s .
  have "0 < length o' \<and> length o' \<le> m" if o: "o' \<in> set (map cb_ops ?raw)" for o'
  proof -
    obtain c where "c \<in> set ?raw" "o' = cb_ops c" using o by auto
    then show ?thesis using raw_chunks_spec(2) [OF assms(1), of c "batch_entries batch"]
      unfolding chunk_bounded_def by (metis length_greater_0_conv)
  qed
  then show ?thesis
    using ops raw_chunks_spec(1) [OF assms(1), of "batch_entries batch"] unfolding batch_ops_def
    by (metis (no_types, lifting) image_eqI list.set_map)
qed

definition demo_batch :: jsval where
  "demo_batch = JObj [(''entries'', JArr [
     JObj [(''id'', JStr ''e1''), (''ops'', JArr [JObj [(''ref'', JStr ''a'')], JObj [(''ref'', JStr ''b'')]])],
     JObj [(''id'', JStr ''e2''), (''ops'', JArr [JObj [(''ref'', JStr ''c'')]])]])]"

lemma split_batch_partition_witness:
  "concat (map (\<lambda>c. arr_elems (dot (ck_batch c) ''ops'')) (splitManualApplyBatch demo_batch 2)) = batch_ops demo_batch \<and>
   splitManualApplyBatch demo_batch 2 \<noteq> [] \<and>
   length (arr_elems (dot (ck_batch (hd (splitManualApplyBatch demo_batch 2))) ''ops'')) \<le> 2"
proof -
  have "(0::nat) < 2" "2 < countManualApplyOps demo_batch" "splitManualApplyBatch demo_batch 2 \<noteq> []" by code_simp+
  then show ?thesis using split_batch_partition [of 2 demo_batch] by simp
qed

section \<open>Verdicts\<close>

lemma amap_default_dom: "fst ` set (amap_default k v kvs) = insert k (fst ` set kvs)"
  by (auto simp: amap_default_def map_of_eq_None_iff image_iff split: if_splits)

lemma amap_set_dom: "fst ` set (amap_set kvs k v) = insert k (fst ` set kvs)"
  by (induction kvs k v rule: amap_set.induct) auto

definition verdict_ok :: "(jsval \<times> nat) list \<Rightarrow> (jsval \<times> nat) list \<Rightarrow> jsval list \<times> failures \<Rightarrow> bool" where
  "verdict_ok applied seen acc \<longleftrightarrow>
     set (fst acc) \<inter> fst ` set (snd acc) = {} \<and> fst ` set seen \<subseteq> set (fst acc) \<union> fst ` set (snd acc) \<and>
     (\<forall>i\<in>set (fst acc). \<exists>n. (i, n) \<in> set seen \<and> 0 < n \<and> op_count_of i applied = n)"

lemma settle_entry_ok:
  assumes "verdict_ok applied seen acc" "fst e \<notin> fst ` set seen"
  shows "verdict_ok applied (seen @ [e]) (settle_entry applied e acc)"
proof -
  have ok: "set (fst acc) \<inter> fst ` set (snd acc) = {}" "fst ` set seen \<subseteq> set (fst acc) \<union> fst ` set (snd acc)"
    "\<forall>i\<in>set (fst acc). \<exists>n. (i, n) \<in> set seen \<and> 0 < n \<and> op_count_of i applied = n"
    using assms(1) unfolding verdict_ok_def by blast+
  show ?thesis
proof (cases "map_of (snd acc) (fst e) \<noteq> None")
  case True
  then have "fst e \<in> fst ` set (snd acc)" unfolding map_of_eq_None_iff by simp
  then show ?thesis using assms(1) True by (auto simp: verdict_ok_def settle_entry_def)
next
  case False
  then have nf: "fst e \<notin> fst ` set (snd acc)" by (simp add: map_of_eq_None_iff)
  have na: "fst e \<notin> set (fst acc)"
  proof
    assume "fst e \<in> set (fst acc)"
    then obtain n where "(fst e, n) \<in> set seen" using assms(1) unfolding verdict_ok_def by blast
    then show False using assms(2) by (metis fst_conv image_eqI)
  qed
  show ?thesis
  proof (cases "op_count_of (fst e) applied = snd e \<and> 0 < snd e")
    case True
    then have eq: "settle_entry applied e acc = (fst acc @ [fst e], snd acc)" using False by (simp add: settle_entry_def)
    have "\<exists>n. (i, n) \<in> set (seen @ [e]) \<and> 0 < n \<and> op_count_of i applied = n" if "i \<in> set (fst acc @ [fst e])" for i
    proof (cases "i = fst e")
      case i: True
      have "(fst e, snd e) \<in> set (seen @ [e])" by simp
      then show ?thesis using i True by blast
    next
      case False
      then have "i \<in> set (fst acc)" using that by simp
      then obtain n where "(i, n) \<in> set seen" "0 < n" "op_count_of i applied = n" using ok(3) by blast
      then show ?thesis by auto
    qed
    moreover have "set (fst acc @ [fst e]) \<inter> fst ` set (snd acc) = {}" using ok(1) nf by auto
    moreover have "fst ` set (seen @ [e]) \<subseteq> set (fst acc @ [fst e]) \<union> fst ` set (snd acc)" using ok(2) by auto
    ultimately show ?thesis unfolding eq verdict_ok_def fst_conv snd_conv by blast
  next
    case b: False
    let ?f = "amap_default (fst e) (failure (fst e) (JStr ''not_reported_applied'') []) (snd acc)"
    have eq: "settle_entry applied e acc = (fst acc, ?f)" using False b by (simp add: settle_entry_def)
    note dom = amap_default_dom [of "fst e" "failure (fst e) (JStr ''not_reported_applied'') []" "snd acc"]
    have "set (fst acc) \<inter> fst ` set ?f = {}" unfolding dom using ok(1) na by auto
    moreover have "fst ` set (seen @ [e]) \<subseteq> set (fst acc) \<union> fst ` set ?f" unfolding dom using ok(2) by auto
    moreover have "\<exists>n. (i, n) \<in> set (seen @ [e]) \<and> 0 < n \<and> op_count_of i applied = n" if i: "i \<in> set (fst acc)" for i
    proof -
      obtain n where "(i, n) \<in> set seen" "0 < n" "op_count_of i applied = n" using ok(3) i by blast
      then show ?thesis by auto
    qed
    ultimately show ?thesis unfolding eq verdict_ok_def fst_conv snd_conv by blast
  qed
qed
qed

lemma settle_fold_ok:
  assumes "verdict_ok applied seen acc" "distinct (map fst (seen @ es))"
  shows "verdict_ok applied (seen @ es) (fold (settle_entry applied) es acc)"
  using assms
proof (induction es arbitrary: seen acc)
  case (Cons e es)
  have "verdict_ok applied (seen @ [e]) (settle_entry applied e acc)"
    using Cons.prems by (intro settle_entry_ok) auto
  then show ?case using Cons.IH [of "seen @ [e]"] Cons.prems(2) by simp
qed simp

lemma distinct_amap_set: "distinct (map fst kvs) \<Longrightarrow> distinct (map fst (amap_set kvs k v))"
  using amap_set_dom by (induction kvs k v rule: amap_set.induct) (auto simp: amap_set_dom)

lemma expected_ops_distinct: "distinct (map fst (expected_ops batch))"
proof -
  have "distinct (map fst m) \<Longrightarrow>
      distinct (map fst (fold (\<lambda>e m. amap_set m (dot e ''id'') (length (entry_ops e))) es m))" for es m
    by (induction es arbitrary: m) (simp_all add: distinct_amap_set)
  then show ?thesis by (simp add: expected_ops_def)
qed

lemma expected_ops_dom: "fst ` set (expected_ops batch) = (\<lambda>e. dot e ''id'') ` set (batch_entries batch)"
proof -
  have "fst ` set (fold (\<lambda>e m. amap_set m (dot e ''id'') (length (entry_ops e))) es m) =
      fst ` set m \<union> (\<lambda>e. dot e ''id'') ` set es" for es m
    by (induction es arbitrary: m) (auto simp: amap_set_dom)
  then show ?thesis by (simp add: expected_ops_def)
qed

text \<open>
  C9: the verdict on a batch that was applied in chunks is complete and exclusive. Every entry of the
  batch is reported as applied or as failed, none as both, and one that is reported as applied had
  all its operations in chunks whose reply reported it.
\<close>

theorem chunk_verdicts_complete:
  assumes "settle_batch batch st = (applied, failed)"
  shows "(\<forall>e\<in>set (batch_entries batch). (dot e ''id'' \<in> set applied) \<noteq> (dot e ''id'' \<in> fst ` set failed)) \<and>
    (\<forall>i\<in>set applied. \<exists>n. (i, n) \<in> set (expected_ops batch) \<and> 0 < n \<and> op_count_of i (as_applied st) = n)"
proof -
  have "verdict_ok (as_applied st) [] ([], as_failed st)" by (simp add: verdict_ok_def)
  from settle_fold_ok [OF this, of "expected_ops batch"] have v: "verdict_ok (as_applied st) (expected_ops batch) (applied, failed)"
    using assms expected_ops_distinct by (simp add: settle_batch_def)
  have "(i \<in> set applied) \<noteq> (i \<in> fst ` set failed)" if "i \<in> fst ` set (expected_ops batch)" for i
    using v that by (auto simp: verdict_ok_def)
  then show ?thesis using v expected_ops_dom [of batch] by (simp add: verdict_ok_def)
qed

definition demo_replies :: "nat \<Rightarrow> jsval + jsval" where
  "demo_replies i = (if i = 0 then Inr (JObj [(''status'', JStr ''done''), (''appliedEntryIds'', JArr [JStr ''e1''])])
     else Inl (JStr ''chat_agent_timeout''))"

definition demo_rounds :: apply_state where
  "demo_rounds = chunk_rounds (splitManualApplyBatch demo_batch 2) demo_replies"

lemma chunk_verdicts_complete_witness:
  "batch_entries demo_batch \<noteq> [] \<and>
   (dot (hd (batch_entries demo_batch)) ''id'' \<in> set (fst (settle_batch demo_batch demo_rounds))) \<noteq>
   (dot (hd (batch_entries demo_batch)) ''id'' \<in> fst ` set (snd (settle_batch demo_batch demo_rounds)))"
proof -
  have "batch_entries demo_batch \<noteq> []" by code_simp
  then show ?thesis using chunk_verdicts_complete [OF prod.collapse [symmetric], of demo_batch demo_rounds] by simp
qed

lemma find_None_ball: "find P xs = None \<Longrightarrow> x \<in> set xs \<Longrightarrow> \<not> P x"
  by (simp add: find_None_iff)

text \<open>
  an accepted reply speaks of the event it answers. Every entry it calls applied or failed is one
  of the batch that was sent (where that has ids at all), a reply of status done has no failures, and
  one of status error claims nothing applied.
\<close>

theorem accepted_reply_names_batch:
  assumes "validateManualApplyResultMessage msg d = Inr r" "truthy_ids (batch_entries (df_batch d)) \<noteq> []"
  shows "set (arr_elems (dot r ''appliedEntryIds'')) \<subseteq> set (truthy_ids (batch_entries (df_batch d))) \<and>
    (\<lambda>item. dot item ''entryId'') ` set (arr_elems (dot r ''failed'')) \<subseteq> set (truthy_ids (batch_entries (df_batch d))) \<and>
    (dot r ''status'' = JStr ''done'' \<longrightarrow> arr_elems (dot r ''failed'') = []) \<and>
    (dot r ''status'' = JStr ''error'' \<longrightarrow> arr_elems (dot r ''appliedEntryIds'') = [])"
proof -
  let ?data = "dot msg ''data''"
  have c: "result_content_error ?data (df_batch d) = None"
    and r: "arr_elems (dot r ''appliedEntryIds'') = arr_elems (dot ?data ''appliedEntryIds'')"
      "arr_elems (dot r ''failed'') = arr_elems (dot ?data ''failed'')" "dot r ''status'' = dot ?data ''status''"
    using assms(1) by (auto simp: validateManualApplyResultMessage_def Let_def split: option.splits)
  show ?thesis unfolding r using c assms(2)
    by (auto simp: result_content_error_def Let_def split: option.splits if_splits dest: find_None_ball)
qed

definition demo_deferred :: deferred where
  "demo_deferred = \<lparr>df_event = JObj [(''id'', JStr ''abcd1234'')], df_batch = demo_batch, df_pageUrl = JStr ''/'', df_rollback = []\<rparr>"

definition demo_reply :: jsval where
  "demo_reply = JObj [(''id'', JStr ''abcd1234''), (''data'', JObj [(''status'', JStr ''done''),
     (''appliedEntryIds'', JArr [JStr ''e1'', JStr ''e2'']), (''failed'', JArr []), (''files'', JArr []), (''notes'', JArr [])])]"

definition demo_result :: jsval where
  "demo_result = (case validateManualApplyResultMessage demo_reply demo_deferred of Inr r \<Rightarrow> r | Inl _ \<Rightarrow> JNull)"

lemma demo_reply_accepted: "validateManualApplyResultMessage demo_reply demo_deferred = Inr demo_result"
proof -
  have "\<not> isl (validateManualApplyResultMessage demo_reply demo_deferred)" by code_simp
  then show ?thesis by (cases "validateManualApplyResultMessage demo_reply demo_deferred") (simp_all add: demo_result_def)
qed

lemma accepted_reply_names_batch_witness:
  "set (arr_elems (dot demo_result ''appliedEntryIds'')) \<subseteq> set (truthy_ids (batch_entries (df_batch demo_deferred))) \<and>
   arr_elems (dot demo_result ''failed'') = []"
proof -
  have "truthy_ids (batch_entries (df_batch demo_deferred)) \<noteq> []" "dot demo_result ''status'' = JStr ''done''" by code_simp+
  then show ?thesis using accepted_reply_names_batch [OF demo_reply_accepted] by blast
qed

section \<open>Rollback\<close>

lemma map_of_amap_set: "map_of (amap_set m k v) = (map_of m)(k \<mapsto> v)"
  by (induction m k v rule: amap_set.induct) auto

definition file_before :: "files \<Rightarrow> string \<Rightarrow> bool \<times> string" where
  "file_before fs p = (case fs p of None \<Rightarrow> (False, []) | Some c \<Rightarrow> (True, c))"

lemma snapshot_map:
  "map_of (snapshotApplyEventFiles cwd fs batch) rel =
    (if rel \<in> set (collectManualApplyFiles cwd batch []) then Some (file_before fs (path_resolve cwd rel)) else None)"
proof -
  have "map_of (fold (\<lambda>r m. amap_set m r (file_before fs (path_resolve cwd r))) rs m) rel =
      (if rel \<in> set rs then Some (file_before fs (path_resolve cwd rel)) else map_of m rel)" for rs m
    by (induction rs arbitrary: m) (auto simp: map_of_amap_set)
  then show ?thesis by (simp add: snapshotApplyEventFiles_def file_before_def)
qed

lemma restore_file_before: "restore_file (\<lambda>_. None) p (file_before before p) fs = (None, fs(p := before p))"
  by (auto simp: restore_file_def file_before_def split: option.split)

lemma rollback_fold:
  assumes "snap = snapshotApplyEventFiles cwd before batch"
  shows "snd (fold (rollback_one (\<lambda>_. None) cwd snap) rels (r, fs)) p =
      (if p \<in> path_resolve cwd ` (set rels \<inter> set (collectManualApplyFiles cwd batch [])) then before p else fs p)"
    and "rb_failures (fst (fold (rollback_one (\<lambda>_. None) cwd snap) rels (r, fs))) = rb_failures r"
proof -
  have step: "rollback_one (\<lambda>_. None) cwd snap rel (r, fs) =
      (if rel \<in> set (collectManualApplyFiles cwd batch [])
       then (r\<lparr>rb_files := rb_files r @ [rel]\<rparr>, fs(path_resolve cwd rel := before (path_resolve cwd rel))) else (r, fs))"
    for rel r fs
    by (simp add: rollback_one_def assms snapshot_map restore_file_before)
  show "snd (fold (rollback_one (\<lambda>_. None) cwd snap) rels (r, fs)) p =
      (if p \<in> path_resolve cwd ` (set rels \<inter> set (collectManualApplyFiles cwd batch [])) then before p else fs p)"
    by (induction rels arbitrary: r fs) (auto simp: step)
  show "rb_failures (fst (fold (rollback_one (\<lambda>_. None) cwd snap) rels (r, fs))) = rb_failures r"
    by (induction rels arbitrary: r fs) (auto simp: step)
qed

lemma set_js_set [simp]: "set (js_set xs) = set xs"
  by (simp add: js_set_def)

lemma map_filter_set: "set (List.map_filter f xs) = {y. \<exists>x\<in>set xs. f x = Some y}"
  by (force simp: List.map_filter_def)

lemma collect_mono: "set (collectManualApplyFiles cwd batch []) \<subseteq> set (collectManualApplyFiles cwd batch extra)"
  by (auto simp: collectManualApplyFiles_def map_filter_set)


section \<open>Confinement\<close>

text \<open>A path strictly below the project directory.\<close>

definition below_root :: "string \<Rightarrow> string \<Rightarrow> bool" where
  "below_root cwd p \<longleftrightarrow> (\<exists>rest. rest \<noteq> [] \<and> list_all plain_segment rest \<and> p = abs_path (path_segments cwd @ rest))"

lemma normalized_below:
  assumes "isAbsolute cwd" "normalizeProjectFile cwd f = Some rel"
  shows "below_root cwd (path_resolve cwd rel)"
  using normalizeProjectFile_inside [OF assms] by (auto simp: below_root_def path_resolve_def)

lemma restore_file_frame: "restore_file fails a b fs = (m, fs') \<Longrightarrow> p \<noteq> a \<Longrightarrow> fs' p = fs p"
  by (auto simp: restore_file_def split: if_splits option.splits)

lemma rollback_item_frame:
  assumes "isAbsolute cwd" "\<not> below_root cwd p"
  shows "snd (rollback_item fails cwd item acc) p = snd acc p"
proof (cases "normalizeProjectFile cwd (JStr (ti_file item))")
  case (Some rel)
  have "p \<noteq> path_resolve cwd rel" using normalized_below [OF assms(1) Some] assms(2) by blast
  then show ?thesis
    by (auto simp: rollback_item_def Some dest: restore_file_frame split: prod.split option.split)
qed (simp add: rollback_item_def)

text \<open>
  C11: rolling a transaction back never leaves the project. Whatever the transaction file says (it is
  read from disk), no file outside the project directory is written or removed, and a transaction
  none of whose entries is still staged changes no file at all.
\<close>

theorem transaction_rollback_confined:
  assumes "isAbsolute cwd"
  shows "let res = rollbackManualApplyTransaction fails cwd pageUrl buf txf fs
    in (\<forall>p. \<not> below_root cwd p \<longrightarrow> snd (snd res) p = fs p) \<and>
       ((\<forall>rb. fst res \<noteq> RolledBack rb) \<longrightarrow> snd (snd res) = fs)"
proof (cases "readManualApplyTransaction txf")
  case (Some t)
  obtain rb fs' where f: "fold (rollback_item fails cwd) (tx_files t) (\<lparr>rb_files = [], rb_failures = []\<rparr>, fs) = (rb, fs')"
    by fastforce
  have "snd (fold (rollback_item fails cwd) items acc) p = snd acc p" if "\<not> below_root cwd p" for items acc p
    by (induction items arbitrary: acc) (simp_all add: rollback_item_frame [OF assms that])
  then have "fs' p = fs p" if "\<not> below_root cwd p" for p
    using that f by (metis snd_conv)
  then show ?thesis by (simp add: rollbackManualApplyTransaction_def Some Let_def f)
qed (simp add: rollbackManualApplyTransaction_def)

definition demo_tx :: tx_file where
  "demo_tx = Transaction \<lparr>tx_id = ''t1'', tx_pageUrl = JNull, tx_entryIds = [JStr ''aaaa0001''],
     tx_files = [\<lparr>ti_file = ''../etc/passwd'', ti_exists = True, ti_content = ''x''\<rparr>,
                 \<lparr>ti_file = ''src/a.html'', ti_exists = True, ti_content = ''old''\<rparr>]\<rparr>"

lemma transaction_rollback_confined_witness:
  "snd (snd (rollbackManualApplyTransaction (\<lambda>_. None) ''/proj'' JNull (Buffer [demo_save ''A'']) demo_tx (\<lambda>_. Some ''new'')))
     ''/etc/passwd'' = Some ''new''"
proof -
  have "isAbsolute ''/proj''" and seg: "path_segments ''/proj'' = [''proj'']" by code_simp+
  moreover have "''/etc/passwd'' \<noteq> abs_path ([''proj''] @ rest)" for rest by (cases rest) (simp_all add: abs_path_def)
  then have "\<not> below_root ''/proj'' ''/etc/passwd''" by (auto simp: below_root_def seg)
  ultimately show ?thesis
    using transaction_rollback_confined [of "''/proj''" "\<lambda>_. None" JNull "Buffer [demo_save ''A'']" demo_tx "\<lambda>_. Some ''new''"]
    by (simp add: Let_def)
qed

end
