(* ===== verification/Js_Text.thy ===== *)
theory Js_Text
  imports Js_Values
begin

text \<open>
  Regular expressions, case conversion and binary64 rounding, as far as the scripts use them.

  A regular expression is a \<open>re\<close>, matched the way \<^verbatim>\<open>RegExp.prototype.exec\<close> does: leftmost,
  greedy or lazy, with backtracking through a continuation. The repetitions the scripts write are of
  single characters; \<open>Peek\<close> is the look-ahead \<^verbatim>\<open>(?=[...]|$)\<close>. A character class is a predicate on code units; the flag \<^verbatim>\<open>i\<close> is a class that
  ignores case. \<open>lang\<close> is what a regular expression means, and \<open>rmatch_iff\<close> says that the matcher
  finds a match exactly when there is one.
\<close>

section \<open>Case conversion and small string functions\<close>

definition lower_char :: "char \<Rightarrow> char" where
  "lower_char c = (let n = (of_char c :: nat) in
     if (65 \<le> n \<and> n \<le> 90) \<or> (192 \<le> n \<and> n \<le> 222 \<and> n \<noteq> 215) then char_of (n + 32) else c)"

definition toLowerCase :: "string \<Rightarrow> string" where
  "toLowerCase s = map lower_char s"

definition is_word_char :: "char \<Rightarrow> bool" where
  "is_word_char c = (let n = (of_char c :: nat) in
     (48 \<le> n \<and> n \<le> 57) \<or> (65 \<le> n \<and> n \<le> 90) \<or> n = 95 \<or> (97 \<le> n \<and> n \<le> 122))"

definition NL :: char where "NL = CHR 0x0A"
definition CR :: char where "CR = CHR 0x0D"

text \<open>\<^verbatim>\<open>new Set(values)\<close> and back: the first occurrence of each.\<close>

fun unique_from :: "'a list \<Rightarrow> 'a list \<Rightarrow> 'a list" where
  "unique_from seen [] = []"
| "unique_from seen (x # xs) = (if x \<in> set seen then unique_from seen xs else x # unique_from (x # seen) xs)"

section \<open>Regular expressions\<close>

datatype re =
    Eps
  | Cls "char \<Rightarrow> bool"
  | Cat re re
  | Alt re re
  | Many "char \<Rightarrow> bool"
  | Lazy "char \<Rightarrow> bool"
  | Peek "char \<Rightarrow> bool"
  | Opt re
  | Grp nat re
  | Boundary
  | Bol
  | Eol

text \<open>
  The state of a match: the text before the position, reversed, the text after it, and the groups
  captured so far, the latest first.
\<close>

type_synonym mstate = "string \<times> string \<times> (nat \<times> string) list"

fun many :: "(char \<Rightarrow> bool) \<Rightarrow> string \<Rightarrow> string \<Rightarrow> (nat \<times> string) list \<Rightarrow> (mstate \<Rightarrow> 'r option) \<Rightarrow> 'r option" where
  "many P b [] g k = k (b, [], g)"
| "many P b (x # xs) g k =
     (if P x then (case many P (x # b) xs g k of None \<Rightarrow> k (b, x # xs, g) | Some r \<Rightarrow> Some r)
      else k (b, x # xs, g))"

fun lazily :: "(char \<Rightarrow> bool) \<Rightarrow> string \<Rightarrow> string \<Rightarrow> (nat \<times> string) list \<Rightarrow> (mstate \<Rightarrow> 'r option) \<Rightarrow> 'r option" where
  "lazily P b [] g k = k (b, [], g)"
| "lazily P b (x # xs) g k =
     (case k (b, x # xs, g) of Some r \<Rightarrow> Some r | None \<Rightarrow> if P x then lazily P (x # b) xs g k else None)"

definition at_boundary :: "string \<Rightarrow> string \<Rightarrow> bool" where
  "at_boundary b s =
     ((case b of [] \<Rightarrow> False | c # _ \<Rightarrow> is_word_char c) \<noteq> (case s of [] \<Rightarrow> False | c # _ \<Rightarrow> is_word_char c))"

primrec rmatch :: "re \<Rightarrow> mstate \<Rightarrow> (mstate \<Rightarrow> 'r option) \<Rightarrow> 'r option" where
  "rmatch Eps st k = k st"
| "rmatch (Cls P) st k = (case st of (b, s, g) \<Rightarrow>
     (case s of [] \<Rightarrow> None | x # xs \<Rightarrow> if P x then k (x # b, xs, g) else None))"
| "rmatch (Cat r1 r2) st k = rmatch r1 st (\<lambda>st'. rmatch r2 st' k)"
| "rmatch (Alt r1 r2) st k = (case rmatch r1 st k of None \<Rightarrow> rmatch r2 st k | Some r \<Rightarrow> Some r)"
| "rmatch (Many P) st k = (case st of (b, s, g) \<Rightarrow> many P b s g k)"
| "rmatch (Lazy P) st k = (case st of (b, s, g) \<Rightarrow> lazily P b s g k)"
| "rmatch (Peek P) st k = (case fst (snd st) of [] \<Rightarrow> k st | x # _ \<Rightarrow> if P x then k st else None)"
| "rmatch (Opt r) st k = (case rmatch r st k of None \<Rightarrow> k st | Some x \<Rightarrow> Some x)"
| "rmatch (Grp n r) st k = rmatch r st (\<lambda>(b', s', g').
     k (b', s', (n, take (length (fst (snd st)) - length s') (fst (snd st))) # g'))"
| "rmatch Boundary st k = (if at_boundary (fst st) (fst (snd st)) then k st else None)"
| "rmatch Bol st k = (if fst st = [] then k st else None)"
| "rmatch Eol st k = (if fst (snd st) = [] then k st else None)"

text \<open>The result of \<^verbatim>\<open>exec\<close>: where the match starts, its text and its groups.\<close>

record exec_result =
  ex_index :: nat
  ex_text :: string
  ex_groups :: "(nat \<times> string) list"

fun exec_from :: "re \<Rightarrow> string \<Rightarrow> string \<Rightarrow> exec_result option" where
  "exec_from r b s =
     (case rmatch r (b, s, []) Some of
        Some (_, rest, g) \<Rightarrow> Some \<lparr>ex_index = length b, ex_text = take (length s - length rest) s, ex_groups = g\<rparr>
      | None \<Rightarrow> (case s of [] \<Rightarrow> None | x # xs \<Rightarrow> exec_from r (x # b) xs))"

declare exec_from.simps [simp del]

definition re_exec :: "re \<Rightarrow> string \<Rightarrow> exec_result option" where
  "re_exec r s = exec_from r [] s"

definition re_test :: "re \<Rightarrow> string \<Rightarrow> bool" where
  "re_test r s = (re_exec r s \<noteq> None)"

text \<open>
  The matches that the flag \<^verbatim>\<open>g\<close> goes through, and \<^verbatim>\<open>s.replace(r, f)\<close> with that flag:
  the search goes on behind a match, one unit further when the match is empty. \<open>n\<close> units of the
  text still belong to the last match.
\<close>

fun scan :: "re \<Rightarrow> string \<Rightarrow> string \<Rightarrow> nat \<Rightarrow> exec_result list" where
  "scan r b [] n =
     (if 0 < n then [] else
      case rmatch r (b, [], []) Some of None \<Rightarrow> []
      | Some (_, rest, g) \<Rightarrow> [\<lparr>ex_index = length b, ex_text = [], ex_groups = g\<rparr>])"
| "scan r b (x # xs) n =
     (if 0 < n then scan r (x # b) xs (n - 1) else
      case rmatch r (b, x # xs, []) Some of None \<Rightarrow> scan r (x # b) xs 0
      | Some (_, rest, g) \<Rightarrow>
          (let t = take (Suc (length xs) - length rest) (x # xs)
           in \<lparr>ex_index = length b, ex_text = t, ex_groups = g\<rparr> # scan r (x # b) xs (length t - 1)))"

definition match_all :: "re \<Rightarrow> string \<Rightarrow> exec_result list" where
  "match_all r s = scan r [] s 0"

fun replace_from :: "re \<Rightarrow> (exec_result \<Rightarrow> string) \<Rightarrow> string \<Rightarrow> string \<Rightarrow> nat \<Rightarrow> string" where
  "replace_from r f b [] n =
     (if 0 < n then [] else
      case rmatch r (b, [], []) Some of None \<Rightarrow> []
      | Some (_, rest, g) \<Rightarrow> f \<lparr>ex_index = length b, ex_text = [], ex_groups = g\<rparr>)"
| "replace_from r f b (x # xs) n =
     (if 0 < n then replace_from r f (x # b) xs (n - 1) else
      case rmatch r (b, x # xs, []) Some of None \<Rightarrow> x # replace_from r f (x # b) xs 0
      | Some (_, rest, g) \<Rightarrow>
          (let t = take (Suc (length xs) - length rest) (x # xs)
           in f \<lparr>ex_index = length b, ex_text = t, ex_groups = g\<rparr> @
              (if t = [] then [x] else []) @ replace_from r f (x # b) xs (length t - 1)))"

definition replace_all :: "re \<Rightarrow> (exec_result \<Rightarrow> string) \<Rightarrow> string \<Rightarrow> string" where
  "replace_all r f s = replace_from r f [] s 0"

text \<open>\<^verbatim>\<open>s.search(r)\<close> (\<open>None\<close> is -1) and \<^verbatim>\<open>s.replace(r, t)\<close> without the flag.\<close>

definition re_search :: "re \<Rightarrow> string \<Rightarrow> nat option" where
  "re_search r s = map_option ex_index (re_exec r s)"

definition replace_first :: "re \<Rightarrow> string \<Rightarrow> string \<Rightarrow> string" where
  "replace_first r t s = (case re_exec r s of None \<Rightarrow> s
     | Some m \<Rightarrow> take (ex_index m) s @ t @ drop (ex_index m + length (ex_text m)) s)"

definition group :: "exec_result \<Rightarrow> nat \<Rightarrow> string option" where
  "group m n = map_of (ex_groups m) n"

definition group_text :: "exec_result \<Rightarrow> nat \<Rightarrow> string" where
  "group_text m n = (case group m n of Some t \<Rightarrow> t | None \<Rightarrow> [])"

text \<open>Abbreviations in which the patterns of the scripts are written.\<close>

fun lit :: "string \<Rightarrow> re" where
  "lit [] = Eps"
| "lit (c # cs) = Cat (Cls (\<lambda>x. x = c)) (lit cs)"

fun lit_i :: "string \<Rightarrow> re" where
  "lit_i [] = Eps"
| "lit_i (c # cs) = Cat (Cls (\<lambda>x. lower_char x = lower_char c)) (lit_i cs)"

definition many1 :: "(char \<Rightarrow> bool) \<Rightarrow> re" where
  "many1 P = Cat (Cls P) (Many P)"

definition none_of :: "string \<Rightarrow> char \<Rightarrow> bool" where
  "none_of cs x = (x \<notin> set cs)"

fun seq :: "re list \<Rightarrow> re" where
  "seq [] = Eps"
| "seq [r] = r"
| "seq (r # rs) = Cat r (seq rs)"

fun alts :: "re list \<Rightarrow> re" where
  "alts [] = Eps"
| "alts [r] = r"
| "alts (r # rs) = Alt r (alts rs)"

section \<open>Binary64\<close>

function ilog2 :: "int \<Rightarrow> int" where
  "ilog2 n = (if n < 2 then 0 else 1 + ilog2 (n div 2))"
  by auto

termination
  by (relation "measure nat") auto

declare ilog2.simps [simp del]

definition two_to :: "int \<Rightarrow> rat" where
  "two_to e = (if 0 \<le> e then 2 ^ nat e else 1 / 2 ^ nat (- e))"

definition exponent_of :: "rat \<Rightarrow> int" where
  "exponent_of q = (case quotient_of \<bar>q\<bar> of (n, d) \<Rightarrow>
     let e = ilog2 n - ilog2 d in if two_to e \<le> \<bar>q\<bar> then e else e - 1)"

definition round_even :: "rat \<Rightarrow> int" where
  "round_even q = (let f = \<lfloor>q\<rfloor>; r = q - of_int f
     in if r < 1 / 2 then f else if r > 1 / 2 then f + 1 else if even f then f else f + 1)"

text \<open>The nearest binary64 number, ties to even (the range that is not finite is checked apart).\<close>

definition fl :: "rat \<Rightarrow> rat" where
  "fl q = (if q = 0 then 0
     else let u = two_to (max (exponent_of q - 52) (- 1074)) in of_int (round_even (q / u)) * u)"

definition MAX_FINITE :: rat where
  "MAX_FINITE = 2 ^ 1024 - 2 ^ 971"

text \<open>\<^verbatim>\<open>Math.round\<close>: ties upwards, exact.\<close>

definition math_round :: "rat \<Rightarrow> int" where
  "math_round q = \<lfloor>q + 1 / 2\<rfloor>"

text \<open>\<^verbatim>\<open>Number.parseFloat\<close> of a text that is an optional sign, digits and at most one point.\<close>

definition parse_decimal :: "string \<Rightarrow> rat" where
  "parse_decimal s =
     (let neg = starts_with s ''-''; u = (if neg then tl s else s);
          ip = takeWhile is_digit u; fp = tl (dropWhile is_digit u);
          q = of_nat (digits_val (ip @ fp)) / 10 ^ length fp
      in fl (if neg then - q else q))"

section \<open>What a regular expression means\<close>

text \<open>Pairs of positions: the text before, reversed, and the text after.\<close>

fun lang :: "re \<Rightarrow> string \<times> string \<Rightarrow> (string \<times> string) set" where
  "lang Eps p = {p}"
| "lang (Cls P) p = (case snd p of [] \<Rightarrow> {} | x # xs \<Rightarrow> if P x then {(x # fst p, xs)} else {})"
| "lang (Cat r1 r2) p = (\<Union>q \<in> lang r1 p. lang r2 q)"
| "lang (Alt r1 r2) p = lang r1 p \<union> lang r2 p"
| "lang (Many P) p = {q. \<exists>w. (\<forall>c \<in> set w. P c) \<and> snd p = w @ snd q \<and> fst q = rev w @ fst p}"
| "lang (Lazy P) p = {q. \<exists>w. (\<forall>c \<in> set w. P c) \<and> snd p = w @ snd q \<and> fst q = rev w @ fst p}"
| "lang (Peek P) p = (case snd p of [] \<Rightarrow> {p} | x # _ \<Rightarrow> if P x then {p} else {})"
| "lang (Opt r) p = insert p (lang r p)"
| "lang (Grp n r) p = lang r p"
| "lang Boundary p = (if at_boundary (fst p) (snd p) then {p} else {})"
| "lang Bol p = (if fst p = [] then {p} else {})"
| "lang Eol p = (if snd p = [] then {p} else {})"

lemma many_iff:
  "many P b s g k \<noteq> None \<longleftrightarrow> (\<exists>w t. (\<forall>c \<in> set w. P c) \<and> s = w @ t \<and> k (rev w @ b, t, g) \<noteq> None)"
proof (induction s arbitrary: b)
  case Nil
  then show ?case by simp
next
  case (Cons x xs)
  have "(\<exists>w t. (\<forall>c \<in> set w. P c) \<and> x # xs = w @ t \<and> k (rev w @ b, t, g) \<noteq> None) \<longleftrightarrow>
        k (b, x # xs, g) \<noteq> None \<or> (P x \<and> (\<exists>w t. (\<forall>c \<in> set w. P c) \<and> xs = w @ t \<and> k (rev w @ x # b, t, g) \<noteq> None))"
    (is "?l = ?r")
  proof
    assume ?l
    then obtain w t where w: "\<forall>c \<in> set w. P c" "x # xs = w @ t" "k (rev w @ b, t, g) \<noteq> None" by blast
    show ?r
    proof (cases w)
      case Nil
      then show ?thesis using w by simp
    next
      case (Cons y ys)
      then have "y = x" "xs = ys @ t" "P x" "\<forall>c \<in> set ys. P c" "k (rev ys @ x # b, t, g) \<noteq> None" using w by auto
      then show ?thesis by blast
    qed
  next
    assume ?r
    then show ?l
    proof
      assume "k (b, x # xs, g) \<noteq> None"
      then show ?l by (intro exI [of _ "[]"] exI [of _ "x # xs"]) simp
    next
      assume "P x \<and> (\<exists>w t. (\<forall>c \<in> set w. P c) \<and> xs = w @ t \<and> k (rev w @ x # b, t, g) \<noteq> None)"
      then obtain w t where "P x" "\<forall>c \<in> set w. P c" "xs = w @ t" "k (rev w @ x # b, t, g) \<noteq> None" by blast
      then show ?l by (intro exI [of _ "x # w"] exI [of _ t]) simp
    qed
  qed
  then show ?case using Cons.IH [of "x # b"] by (auto split: option.splits)
qed

lemma lazily_many: "lazily P b s g k \<noteq> None \<longleftrightarrow> many P b s g k \<noteq> None"
  by (induction s arbitrary: b) (auto split: option.splits)

text \<open>
  The matcher succeeds exactly when some position that the expression reaches lets the rest
  succeed, provided the rest does not look at the groups.
\<close>

definition blind :: "(mstate \<Rightarrow> 'r option) \<Rightarrow> bool" where
  "blind k \<longleftrightarrow> (\<forall>b s g g'. k (b, s, g) \<noteq> None \<longleftrightarrow> k (b, s, g') \<noteq> None)"

lemma rmatch_iff:
  "blind k \<Longrightarrow> rmatch r (b, s, g) k \<noteq> None \<longleftrightarrow> (\<exists>q \<in> lang r (b, s). k (fst q, snd q, []) \<noteq> None)"
proof (induction r arbitrary: b s g k)
  case (Cat r1 r2)
  let ?k = "\<lambda>st. rmatch r2 st k"
  have inner: "?k (b', s', g') \<noteq> None \<longleftrightarrow> (\<exists>q \<in> lang r2 (b', s'). k (fst q, snd q, []) \<noteq> None)" for b' s' g'
    using Cat.IH(2) Cat.prems by blast
  then have "blind ?k" by (simp add: blind_def)
  from Cat.IH(1) [OF this, of b s g] inner show ?case by (simp del: not_None_eq)
next
  case (Grp n r)
  let ?k = "\<lambda>(b', s', g'). k (b', s', (n, take (length s - length s') s) # g')"
  have "blind ?k" using Grp.prems by (simp add: blind_def)
  moreover have "k (fst q, snd q, [(n, take (length s - length (snd q)) s)]) \<noteq> None \<longleftrightarrow> k (fst q, snd q, []) \<noteq> None" for q
    using Grp.prems unfolding blind_def by blast
  ultimately show ?case using Grp.IH [of ?k b s g] by (simp del: not_None_eq)
next
  case (Many P)
  have "k (x, y, g) \<noteq> None \<longleftrightarrow> k (x, y, []) \<noteq> None" for x y
    using Many.prems by (simp add: blind_def)
  then show ?case unfolding rmatch.simps lang.simps prod.case many_iff by (auto simp del: not_None_eq)
next
  case (Lazy P)
  have "k (x, y, g) \<noteq> None \<longleftrightarrow> k (x, y, []) \<noteq> None" for x y
    using Lazy.prems by (simp add: blind_def)
  then show ?case unfolding rmatch.simps lang.simps prod.case lazily_many many_iff by (auto simp del: not_None_eq)
next
  case (Peek P)
  have "k (b, s, g) \<noteq> None \<longleftrightarrow> k (b, s, []) \<noteq> None" using Peek.prems by (simp add: blind_def)
  then show ?case by (cases s) (simp_all del: not_None_eq)
next
  case (Alt r1 r2)
  have "rmatch (Alt r1 r2) (b, s, g) k \<noteq> None \<longleftrightarrow> rmatch r1 (b, s, g) k \<noteq> None \<or> rmatch r2 (b, s, g) k \<noteq> None"
    by (simp split: option.splits)
  then show ?case using Alt.IH [OF Alt.prems] by (simp add: bex_Un del: not_None_eq rmatch.simps)
next
  case (Opt r)
  have "rmatch (Opt r) (b, s, g) k \<noteq> None \<longleftrightarrow> rmatch r (b, s, g) k \<noteq> None \<or> k (b, s, g) \<noteq> None"
    by (simp split: option.splits)
  moreover have "k (b, s, g) \<noteq> None \<longleftrightarrow> k (b, s, []) \<noteq> None"
    using Opt.prems unfolding blind_def by blast
  ultimately show ?case using Opt.IH [OF Opt.prems] by (auto simp del: not_None_eq rmatch.simps)
next
  case (Cls P)
  then show ?case by (auto simp: blind_def split: list.splits)
qed (auto simp: blind_def)

end
