(* ===== verification/Detection_Config.thy ===== *)
theory Detection_Config
  imports Js_Text Session_Store Paths
begin

text \<open>
  The configuration that says which detector findings are suppressed
  (\<^verbatim>\<open>scripts/lib/impeccable-config.mjs\<close>): reading and writing it, normal forms of its entries,
  colours, globs, and the filter that findings go through.

  Files hold what \<^verbatim>\<open>JSON.parse\<close> makes of them (\<open>None\<close>: absent or not JSON); what is written
  is a value of the JSON fragment, so that a later read gets it back. \<^verbatim>\<open>sep\<close> is \<^verbatim>\<open>/\<close>.
  A key of a \<^verbatim>\<open>Map\<close> that the code builds by joining texts with control characters is the
  tuple of these texts, which do not contain them. Colours are computed in binary64 (a hue so large
  that its conversion to degrees overflows is not reproduced).
\<close>

section \<open>Normal forms\<close>

definition normalizeIgnoreRule :: "jsval \<Rightarrow> string" where
  "normalizeIgnoreRule rule = toLowerCase (trim (js_text (js_or rule (JStr []))))"

definition is_quote :: "char \<Rightarrow> bool" where
  "is_quote c = (c = CHR 0x22 \<or> c = CHR 0x27)"

text \<open>\<^verbatim>\<open>replace(/^["']|["']$/g, '')\<close>: one quote at each end.\<close>

definition strip_quotes :: "string \<Rightarrow> string" where
  "strip_quotes s =
     (let s1 = (case s of c # cs \<Rightarrow> if is_quote c then cs else s | [] \<Rightarrow> [])
      in if s1 \<noteq> [] \<and> is_quote (last s1) then butlast s1 else s1)"

text \<open>\<^verbatim>\<open>replace(/\s+/g, ' ')\<close>.\<close>

fun collapse_ws :: "bool \<Rightarrow> string \<Rightarrow> string" where
  "collapse_ws in_ws [] = []"
| "collapse_ws in_ws (c # cs) =
     (if is_ws c then (if in_ws then collapse_ws True cs else CHR '' '' # collapse_ws True cs)
      else c # collapse_ws False cs)"

definition plus_to_space :: "string \<Rightarrow> string" where
  "plus_to_space s = map (\<lambda>c. if c = CHR ''+'' then CHR '' '' else c) s"

definition cleanIgnoreValueDisplay :: "jsval \<Rightarrow> string" where
  "cleanIgnoreValueDisplay v = collapse_ws False (plus_to_space (strip_quotes (trim (js_text (js_or v (JStr []))))))"

definition normalizeIgnoreValue :: "jsval \<Rightarrow> string" where
  "normalizeIgnoreValue v = toLowerCase (collapse_ws False (plus_to_space (strip_quotes (trim (js_text (js_or v (JStr [])))))))"

definition uniqueStrings :: "jsval list \<Rightarrow> string list" where
  "uniqueStrings values = unique_from [] (map js_text values)"

definition jstrs :: "string list \<Rightarrow> jsval" where
  "jstrs ss = JArr (map JStr ss)"

text \<open>The strings of an array that are not blank, trimmed.\<close>

fun trimmed_str :: "jsval \<Rightarrow> jsval list" where
  "trimmed_str (JStr s) = (if trim s = [] then [] else [JStr (trim s)])"
| "trimmed_str _ = []"

definition trimmed_strs :: "jsval list \<Rightarrow> jsval list" where
  "trimmed_strs vs = concat (map trimmed_str vs)"

record ignore_entry =
  ie_rule :: string
  ie_value :: string
  ie_files :: "string list"
  ie_createdAt :: "string option"
  ie_reason :: "string option"

fun opt_str :: "jsval \<Rightarrow> string option" where
  "opt_str (JStr s) = (if trim s = [] then None else Some (trim s))"
| "opt_str _ = None"

definition normalize_entry :: "jsval \<Rightarrow> ignore_entry option" where
  "normalize_entry entry =
     (if \<not> truthy entry \<or> \<not> typeof_object entry then None
      else
       (let rule = normalizeIgnoreRule (dot entry ''rule''); v = normalizeIgnoreValue (dot entry ''value'')
        in if rule = [] \<or> v = [] then None
           else Some \<lparr>ie_rule = rule, ie_value = v,
             ie_files = uniqueStrings (trimmed_str (dot entry ''file'') @ trimmed_strs (arr_elems (dot entry ''files''))),
             ie_createdAt = opt_str (dot entry ''createdAt''), ie_reason = opt_str (dot entry ''reason'')\<rparr>))"

definition normalizeIgnoreValueEntries :: "jsval \<Rightarrow> ignore_entry list" where
  "normalizeIgnoreValueEntries entries = List.map_filter normalize_entry (arr_elems entries)"

text \<open>A normalized entry as the object it is, with the keys in the order the code emits them.\<close>

definition entry_obj :: "ignore_entry \<Rightarrow> jsval" where
  "entry_obj e = JObj ([(''rule'', JStr (ie_rule e)), (''value'', JStr (ie_value e))] @
     (if ie_files e = [] then [] else [(''files'', jstrs (ie_files e))]) @
     (case ie_createdAt e of None \<Rightarrow> [] | Some s \<Rightarrow> [(''createdAt'', JStr s)]) @
     (case ie_reason e of None \<Rightarrow> [] | Some s \<Rightarrow> [(''reason'', JStr s)]))"

definition entries_arr :: "ignore_entry list \<Rightarrow> jsval" where
  "entries_arr es = JArr (map entry_obj es)"

type_synonym entry_key = "string \<times> string \<times> string list"

definition ignoreValueFilesKey :: "string list \<Rightarrow> string list" where
  "ignoreValueFilesKey files = str_sort files"

definition entry_key :: "ignore_entry \<Rightarrow> entry_key" where
  "entry_key e = (ie_rule e, ie_value e, ignoreValueFilesKey (ie_files e))"

fun put_entry :: "ignore_entry \<Rightarrow> ignore_entry list \<Rightarrow> ignore_entry list" where
  "put_entry e [] = [e]"
| "put_entry e (x # xs) = (if entry_key x = entry_key e then e # xs else x # put_entry e xs)"

definition mergeIgnoreValues :: "ignore_entry list \<Rightarrow> jsval \<Rightarrow> ignore_entry list" where
  "mergeIgnoreValues existing incoming =
     foldl (\<lambda>m e. put_entry e m)
       (foldl (\<lambda>m e. put_entry e m) [] (normalizeIgnoreValueEntries (entries_arr existing)))
       (normalizeIgnoreValueEntries incoming)"

section \<open>The configuration\<close>

text \<open>\<^verbatim>\<open>designSystem\<close> is absent in the raw form of the configuration.\<close>

record detection_config =
  dc_ignoreRules :: "string list"
  dc_ignoreFiles :: "string list"
  dc_ignoreValues :: "ignore_entry list"
  dc_designSystem :: "bool option"
  dc_advisoryRules :: "string option"

type_synonym config_files = "string \<Rightarrow> jsval option"

definition getConfigPath :: "string \<Rightarrow> string" where
  "getConfigPath cwd = path_join (path_join cwd ''.impeccable'') ''config.json''"

definition getLocalConfigPath :: "string \<Rightarrow> string" where
  "getLocalConfigPath cwd = path_join (path_join cwd ''.impeccable'') ''config.local.json''"

definition plain_object :: "jsval \<Rightarrow> props option" where
  "plain_object v = (case v of JObj kvs \<Rightarrow> Some kvs | _ \<Rightarrow> None)"

definition safeReadJson :: "config_files \<Rightarrow> string \<Rightarrow> props option" where
  "safeReadJson fs path = (case fs path of None \<Rightarrow> None | Some v \<Rightarrow> plain_object v)"

text \<open>\<open>section_of\<close> is \<^verbatim>\<open>hookSection\<close> and \<^verbatim>\<open>detectorSection\<close>, which differ in the key.\<close>

definition section_of :: "string \<Rightarrow> props option \<Rightarrow> props option" where
  "section_of key raw = (case raw of None \<Rightarrow> None | Some kvs \<Rightarrow> plain_object (dot (JObj kvs) key))"

definition hookSection :: "props option \<Rightarrow> props option" where
  "hookSection raw = section_of ''hook'' raw"

definition detectorSection :: "props option \<Rightarrow> props option" where
  "detectorSection raw = section_of ''detector'' raw"

definition cloneDetectionConfig :: detection_config where
  "cloneDetectionConfig = \<lparr>dc_ignoreRules = [], dc_ignoreFiles = [], dc_ignoreValues = [],
     dc_designSystem = Some True, dc_advisoryRules = None\<rparr>"

definition cloneRawDetectionConfig :: detection_config where
  "cloneRawDetectionConfig = \<lparr>dc_ignoreRules = [], dc_ignoreFiles = [], dc_ignoreValues = [],
     dc_designSystem = None, dc_advisoryRules = None\<rparr>"

definition advisory_of :: "jsval \<Rightarrow> string option" where
  "advisory_of v = (case v of JStr s \<Rightarrow> if s = ''include'' \<or> s = ''exclude'' then Some s else None | _ \<Rightarrow> None)"

definition enabled_of :: "jsval \<Rightarrow> bool option" where
  "enabled_of v = (case plain_object v of None \<Rightarrow> None | Some kvs \<Rightarrow> Some (dot (JObj kvs) ''enabled'' \<noteq> JBool False))"

definition applyDetectionConfigSource :: "detection_config \<Rightarrow> props option \<Rightarrow> detection_config" where
  "applyDetectionConfigSource config src = (case src of None \<Rightarrow> config | Some kvs \<Rightarrow>
     let raw = JObj kvs;
         c1 = (case advisory_of (dot raw ''advisoryRules'') of None \<Rightarrow> config | Some s \<Rightarrow> config\<lparr>dc_advisoryRules := Some s\<rparr>);
         c2 = (case enabled_of (dot raw ''designSystem'') of None \<Rightarrow> c1 | Some b \<Rightarrow> c1\<lparr>dc_designSystem := Some b\<rparr>);
         c3 = (if is_arr (dot raw ''ignoreRules'')
               then c2\<lparr>dc_ignoreRules := uniqueStrings (map JStr (dc_ignoreRules c2) @ arr_elems (dot raw ''ignoreRules''))\<rparr> else c2);
         c4 = (if is_arr (dot raw ''ignoreFiles'')
               then c3\<lparr>dc_ignoreFiles := uniqueStrings (map JStr (dc_ignoreFiles c3) @ arr_elems (dot raw ''ignoreFiles''))\<rparr> else c3)
     in if is_arr (dot raw ''ignoreValues'')
        then c4\<lparr>dc_ignoreValues := mergeIgnoreValues (dc_ignoreValues c4) (dot raw ''ignoreValues'')\<rparr> else c4)"

definition apply_file :: "detection_config \<Rightarrow> props option \<Rightarrow> detection_config" where
  "apply_file config raw = applyDetectionConfigSource (applyDetectionConfigSource config (hookSection raw)) (detectorSection raw)"

definition readDetectionConfig :: "config_files \<Rightarrow> string \<Rightarrow> detection_config" where
  "readDetectionConfig fs cwd =
     foldl (\<lambda>config path. apply_file config (safeReadJson fs path)) cloneDetectionConfig
       [getConfigPath cwd, getLocalConfigPath cwd]"

definition config_target :: "string \<Rightarrow> bool \<Rightarrow> string" where
  "config_target cwd local = (if local then getLocalConfigPath cwd else getConfigPath cwd)"

definition readRawDetectionConfig :: "config_files \<Rightarrow> string \<Rightarrow> bool \<Rightarrow> detection_config" where
  "readRawDetectionConfig fs cwd local = apply_file cloneRawDetectionConfig (safeReadJson fs (config_target cwd local))"

definition DETECTOR_CONFIG_KEYS :: "string list" where
  "DETECTOR_CONFIG_KEYS = [''ignoreRules'', ''ignoreFiles'', ''ignoreValues'', ''designSystem'', ''advisoryRules'']"

definition stripDetectorKeys :: "props option \<Rightarrow> props option" where
  "stripDetectorKeys raw = map_option (filter (\<lambda>kv. fst kv \<notin> set DETECTOR_CONFIG_KEYS)) raw"

text \<open>The argument is any value; what the code makes of it is the list of properties it spreads.\<close>

definition normalizeDetectionConfigForWrite :: "jsval \<Rightarrow> props" where
  "normalizeDetectionConfigForWrite config =
     (if is_arr (dot config ''ignoreRules'')
      then [(''ignoreRules'', jstrs (unique_from [] (filter (\<lambda>s. s \<noteq> []) (map normalizeIgnoreRule (arr_elems (dot config ''ignoreRules''))))))]
      else []) @
     (if is_arr (dot config ''ignoreFiles'')
      then [(''ignoreFiles'', jstrs (uniqueStrings (trimmed_strs (arr_elems (dot config ''ignoreFiles'')))))] else []) @
     [(''ignoreValues'', entries_arr (normalizeIgnoreValueEntries (js_or (dot config ''ignoreValues'') (JArr []))))] @
     (case advisory_of (dot config ''advisoryRules'') of None \<Rightarrow> [] | Some s \<Rightarrow> [(''advisoryRules'', JStr s)]) @
     (case enabled_of (dot config ''designSystem'') of None \<Rightarrow> []
      | Some b \<Rightarrow> [(''designSystem'', JObj [(''enabled'', JBool b)])])"

definition next_config :: "props \<Rightarrow> jsval \<Rightarrow> props" where
  "next_config existing detectorConfig =
     (let nextHook = stripDetectorKeys (hookSection (Some existing));
          nextDetector = obj_merge (case detectorSection (Some existing) of None \<Rightarrow> [] | Some kvs \<Rightarrow> kvs)
                                   (normalizeDetectionConfigForWrite detectorConfig);
          nxt = obj_set existing ''detector'' (JObj nextDetector)
      in case nextHook of
           Some (kv # kvs) \<Rightarrow> obj_set nxt ''hook'' (JObj (kv # kvs))
         | _ \<Rightarrow> obj_delete nxt ''hook'')"

definition writeDetectionConfig :: "config_files \<Rightarrow> string \<Rightarrow> jsval \<Rightarrow> bool \<Rightarrow> config_files" where
  "writeDetectionConfig fs cwd detectorConfig local =
     (let path = config_target cwd local;
          existing = (case safeReadJson fs path of None \<Rightarrow> [] | Some kvs \<Rightarrow> kvs)
      in fs(path := Some (JObj (next_config existing detectorConfig))))"

text \<open>The hook decision: the later file overrides.\<close>

definition consent_of :: "props option \<Rightarrow> string option" where
  "consent_of raw = (case hookSection raw of None \<Rightarrow> None | Some kvs \<Rightarrow>
     (case dot (JObj kvs) ''consent'' of
        JStr s \<Rightarrow> if s = ''accepted'' \<or> s = ''declined'' then Some s else None | _ \<Rightarrow> None))"

definition getHookConsent :: "config_files \<Rightarrow> string \<Rightarrow> string option" where
  "getHookConsent fs cwd =
     foldl (\<lambda>c path. case consent_of (safeReadJson fs path) of None \<Rightarrow> c | Some s \<Rightarrow> Some s) None
       [getConfigPath cwd, getLocalConfigPath cwd]"

definition setHookConsent :: "config_files \<Rightarrow> string \<Rightarrow> jsval \<Rightarrow> config_files" where
  "setHookConsent fs cwd v =
     (let path = getLocalConfigPath cwd;
          existing = (case safeReadJson fs path of None \<Rightarrow> [] | Some kvs \<Rightarrow> kvs);
          hook = (case hookSection (Some existing) of None \<Rightarrow> [] | Some kvs \<Rightarrow> kvs)
      in fs(path := Some (JObj (obj_set existing ''hook'' (JObj (obj_set hook ''consent'' v))))))"

section \<open>Colours\<close>

record ignore_color =
  col_r :: int
  col_g :: int
  col_b :: int
  col_a :: rat

text \<open>\<^verbatim>\<open>parseInt(xy, 16)\<close> for two hexadecimal digits.\<close>

definition hex_pair :: "char \<Rightarrow> char \<Rightarrow> int" where
  "hex_pair x y = int (16 * the (hex_digit x) + the (hex_digit y))"

definition parseHexIgnoreColor :: "string \<Rightarrow> ignore_color" where
  "parseHexIgnoreColor h =
     (if length h = 3 \<or> length h = 4
      then \<lparr>col_r = hex_pair (h ! 0) (h ! 0), col_g = hex_pair (h ! 1) (h ! 1), col_b = hex_pair (h ! 2) (h ! 2),
            col_a = (if length h = 4 then fl (of_int (hex_pair (h ! 3) (h ! 3)) / 255) else 1)\<rparr>
      else \<lparr>col_r = hex_pair (h ! 0) (h ! 1), col_g = hex_pair (h ! 2) (h ! 3), col_b = hex_pair (h ! 4) (h ! 5),
            col_a = (if length h = 8 then fl (of_int (hex_pair (h ! 6) (h ! 7)) / 255) else 1)\<rparr>)"

text \<open>\<^verbatim>\<open>split(/\s+/)\<close>, without the empty parts that the caller drops.\<close>

fun split_ws :: "string \<Rightarrow> string list" where
  "split_ws [] = [[]]"
| "split_ws (c # cs) =
     (if is_ws c then [] # split_ws cs
      else (case split_ws cs of [] \<Rightarrow> [[c]] | w # ws \<Rightarrow> (c # w) # ws))"

text \<open>
  The arguments of a colour function. Spaces around a slash only separate, so that putting
  \<^verbatim>\<open> / \<close> for it is putting spaces around it.
\<close>

definition splitColorArgs :: "string \<Rightarrow> string list" where
  "splitColorArgs body =
     (let text = trim body in
      if text = [] then []
      else if CHR '','' \<in> set text then
       (let parts = filter (\<lambda>p. p \<noteq> []) (map trim (split_on CHR '','' text))
        in if parts \<noteq> [] \<and> CHR ''/'' \<in> set (last parts)
           then butlast parts @ filter (\<lambda>p. p \<noteq> []) (map trim (split_on CHR ''/'' (last parts)))
           else parts)
      else filter (\<lambda>p. p \<noteq> [] \<and> p \<noteq> ''/'')
             (split_ws (concat (map (\<lambda>c. if c = CHR ''/'' then '' / '' else [c]) text))))"

text \<open>\<^verbatim>\<open>-?\d*\.?\d+\<close> as group 1, then what may follow it as group 2.\<close>

definition number_re :: "re \<Rightarrow> re" where
  "number_re suffix =
     seq [Bol, Grp 1 (seq [Opt (lit ''-''), Many is_digit, Opt (lit ''.''), many1 is_digit]), suffix, Eol]"

definition percent_opt :: re where "percent_opt = Opt (Grp 2 (lit ''%''))"

definition match_number :: "re \<Rightarrow> string \<Rightarrow> (rat \<times> string option) option" where
  "match_number suffix raw = (case re_exec (number_re suffix) (trim raw) of
      None \<Rightarrow> None
    | Some m \<Rightarrow> (let v = parse_decimal (the (group m 1)) in if \<bar>v\<bar> > MAX_FINITE then None else Some (v, group m 2)))"

definition parseRgbChannel :: "string \<Rightarrow> int option" where
  "parseRgbChannel raw = (case match_number percent_opt raw of None \<Rightarrow> None | Some (v, pct) \<Rightarrow>
     (let scaled = (if pct \<noteq> None then fl (v * fl (255 / 100)) else v)
      in if scaled < 0 \<or> scaled > 255 then None else Some (math_round scaled)))"

definition parseAlphaChannel :: "string \<Rightarrow> rat option" where
  "parseAlphaChannel raw = (case match_number percent_opt raw of None \<Rightarrow> None | Some (v, pct) \<Rightarrow>
     (let alpha = (if pct \<noteq> None then fl (v / 100) else v)
      in if alpha \<ge> 0 \<and> alpha \<le> 1 then Some alpha else None))"

text \<open>The binary64 number \<^verbatim>\<open>Math.PI\<close>.\<close>

definition MATH_PI :: rat where "MATH_PI = 884279719003555 / 281474976710656"

definition parseHueChannel :: "string \<Rightarrow> rat option" where
  "parseHueChannel raw = (case match_number (Opt (Grp 2 (alts [lit ''deg'', lit ''rad'', lit ''turn'', lit ''grad'']))) raw of
      None \<Rightarrow> None
    | Some (v, u) \<Rightarrow> Some (if u = Some ''turn'' then fl (v * 360)
        else if u = Some ''rad'' then fl (v * fl (180 / MATH_PI))
        else if u = Some ''grad'' then fl (v * fl (9 / 10)) else v))"

definition parsePercentChannel :: "string \<Rightarrow> rat option" where
  "parsePercentChannel raw = (case match_number (lit ''%'') raw of None \<Rightarrow> None | Some (v, _) \<Rightarrow>
     (if v \<ge> 0 \<and> v \<le> 100 then Some (fl (v / 100)) else None))"

definition clampByte :: "int \<Rightarrow> int" where
  "clampByte v = min 255 (max 0 v)"

text \<open>The remainder of two finite numbers has the sign of the first and is exact.\<close>

definition js_rem :: "rat \<Rightarrow> rat \<Rightarrow> rat" where
  "js_rem x y = (if x < 0 then - (\<bar>x\<bar> - y * of_int \<lfloor>\<bar>x\<bar> / y\<rfloor>) else x - y * of_int \<lfloor>x / y\<rfloor>)"

definition hue_to_channel :: "rat \<Rightarrow> rat \<Rightarrow> rat \<Rightarrow> rat" where
  "hue_to_channel p q t =
     (let c1 = (if t < 0 then fl (t + 1) else t);
          c = (if c1 > 1 then fl (c1 - 1) else c1)
      in if c < fl (1 / 6) then fl (p + fl (fl (fl (q - p) * 6) * c))
         else if c < 1 / 2 then q
         else if c < fl (2 / 3) then fl (p + fl (fl (fl (q - p) * fl (fl (2 / 3) - c)) * 6))
         else p)"

definition hslToRgb :: "rat \<Rightarrow> rat \<Rightarrow> rat \<Rightarrow> rat \<Rightarrow> ignore_color" where
  "hslToRgb hue saturation lightness alpha =
     (let h = fl (js_rem (fl (js_rem hue 360 + 360)) 360 / 360)
      in if saturation = 0
         then (let gray = clampByte (math_round (fl (lightness * 255)))
               in \<lparr>col_r = gray, col_g = gray, col_b = gray, col_a = alpha\<rparr>)
         else
          (let q = (if lightness < 1 / 2 then fl (lightness * fl (1 + saturation))
                    else fl (fl (lightness + saturation) - fl (lightness * saturation)));
               p = fl (2 * lightness - q);
               channel = (\<lambda>t. clampByte (math_round (fl (hue_to_channel p q t * 255))))
           in \<lparr>col_r = channel (fl (h + fl (1 / 3))), col_g = channel h, col_b = channel (fl (h - fl (1 / 3))), col_a = alpha\<rparr>))"

text \<open>\<^verbatim>\<open>/^name a?\((.*)\)$/i\<close>: the text between the parentheses (no line terminator in it).\<close>

definition call_re :: "string \<Rightarrow> re" where
  "call_re name = seq [Bol, lit_i name, Opt (lit_i ''a''), lit ''('', Grp 1 (Many (none_of [NL, CR])), lit '')'', Eol]"

definition fourth_alpha :: "string list \<Rightarrow> rat option" where
  "fourth_alpha parts = (if length parts = 4 then parseAlphaChannel (parts ! 3) else Some 1)"

definition is_hex_color :: "string \<Rightarrow> bool" where
  "is_hex_color text = (starts_with text ''#'' \<and> length (tl text) \<in> {3, 4, 6, 8} \<and> list_all (\<lambda>c. hex_digit c \<noteq> None) (tl text))"

definition parseIgnoreColor :: "string \<Rightarrow> ignore_color option" where
  "parseIgnoreColor v =
     (let text = toLowerCase (trim v) in
      if text = [] then None
      else if is_hex_color text then Some (parseHexIgnoreColor (tl text))
      else (case re_exec (call_re ''rgb'') text of
        Some m \<Rightarrow>
         (let parts = splitColorArgs (the (group m 1)) in
          if length parts < 3 \<or> length parts > 4 then None
          else (case (parseRgbChannel (parts ! 0), parseRgbChannel (parts ! 1), parseRgbChannel (parts ! 2), fourth_alpha parts) of
              (Some r, Some g, Some b, Some a) \<Rightarrow> Some \<lparr>col_r = r, col_g = g, col_b = b, col_a = a\<rparr>
            | _ \<Rightarrow> None))
      | None \<Rightarrow> (case re_exec (call_re ''hsl'') text of
          Some m \<Rightarrow>
           (let parts = splitColorArgs (the (group m 1)) in
            if length parts < 3 \<or> length parts > 4 then None
            else (case (parseHueChannel (parts ! 0), parsePercentChannel (parts ! 1), parsePercentChannel (parts ! 2), fourth_alpha parts) of
                (Some h, Some s, Some l, Some a) \<Rightarrow> Some (hslToRgb h s l a)
              | _ \<Rightarrow> None))
        | None \<Rightarrow> None)))"

text \<open>The key joins the four numbers; equal keys are equal quadruples.\<close>

definition colorIgnoreKey :: "string \<Rightarrow> (int \<times> int \<times> int \<times> int) option" where
  "colorIgnoreKey v = map_option (\<lambda>c. (col_r c, col_g c, col_b c, math_round (fl (col_a c * 255)))) (parseIgnoreColor v)"

definition ignoreValueMatches :: "string \<Rightarrow> string \<Rightarrow> string \<Rightarrow> bool" where
  "ignoreValueMatches rule entryValue findingValue =
     (entryValue = findingValue \<or>
      (rule = ''design-system-color'' \<and> colorIgnoreKey entryValue \<noteq> None \<and> colorIgnoreKey entryValue = colorIgnoreKey findingValue))"

end
