(* ===== verification/Detection_Filter.thy ===== *)
theory Detection_Filter
  imports Detection_Config
begin

text \<open>
  Globs, the value a finding is ignored by, and the filters of the detector
  (the second half of \<^verbatim>\<open>scripts/lib/impeccable-config.mjs\<close>), and the block that keeps the
  local configuration out of git.

  A glob becomes the regular expression that the code writes as text; \<open>None\<close> is a text that
  \<^verbatim>\<open>new RegExp\<close> rejects. \<^verbatim>\<open>decodeURIComponent\<close> is a parameter, \<open>None\<close> where it throws:
  what it gives may be text outside of the alphabet of the model.
\<close>

section \<open>Globs\<close>

definition dot_re :: re where "dot_re = Many (none_of [NL, CR])"

definition segment_re :: re where "segment_re = Many (\<lambda>c. c \<noteq> CHR ''/'')"

text \<open>
  One alternative of a brace group. Its stars and question marks are not escaped, so they are
  quantifiers of the character before them, and a syntax error where there is none. A question mark
  behind a quantifier makes it lazy.
\<close>

definition skip_lazy :: "string \<Rightarrow> string" where
  "skip_lazy s = (if starts_with s ''?'' then tl s else s)"

lemma length_skip_lazy: "length (skip_lazy s) \<le> length s"
  by (simp add: skip_lazy_def)

function part_re :: "string \<Rightarrow> re option" where
  "part_re [] = Some Eps"
| "part_re (c # cs) =
     (if c = CHR ''*'' \<or> c = CHR ''?'' then None
      else if starts_with cs ''*'' then map_option (Cat (Many (\<lambda>x. x = c))) (part_re (skip_lazy (tl cs)))
      else if starts_with cs ''?'' then map_option (Cat (Opt (Cls (\<lambda>x. x = c)))) (part_re (skip_lazy (tl cs)))
      else map_option (Cat (Cls (\<lambda>x. x = c))) (part_re cs))"
  by pat_completeness auto

termination
  by (relation "measure length") (auto intro: le_less_trans [OF length_skip_lazy])

fun collect :: "'a option list \<Rightarrow> 'a list option" where
  "collect [] = Some []"
| "collect (None # xs) = None"
| "collect (Some x # xs) = map_option (Cons x) (collect xs)"

definition brace_re :: "string \<Rightarrow> re option" where
  "brace_re body = map_option alts (collect (map part_re (split_on CHR '','' body)))"

definition after_stars :: "string \<Rightarrow> string" where
  "after_stars s = (if starts_with s ''/'' then tl s else s)"

definition option_cat :: "re option \<Rightarrow> re option \<Rightarrow> re option" where
  "option_cat a b = (case a of None \<Rightarrow> None | Some r \<Rightarrow> map_option (Cat r) b)"

function globToRegex :: "string \<Rightarrow> re option" where
  "globToRegex [] = Some Eol"
| "globToRegex (c # cs) =
     (if c = CHR ''*'' then
        (if starts_with cs ''*'' then option_cat (Some dot_re) (globToRegex (after_stars (tl cs)))
         else option_cat (Some segment_re) (globToRegex cs))
      else if c = CHR ''?'' then option_cat (Some (Cls (\<lambda>x. x \<noteq> CHR ''/''))) (globToRegex cs)
      else if c = CHR ''{'' \<and> CHR ''}'' \<in> set cs then
        option_cat (brace_re (takeWhile (\<lambda>x. x \<noteq> CHR ''}'') cs)) (globToRegex (tl (dropWhile (\<lambda>x. x \<noteq> CHR ''}'') cs)))
      else option_cat (Some (Cls (\<lambda>x. x = c))) (globToRegex cs))"
  by pat_completeness auto

termination
  by (relation "measure length")
     (auto simp: after_stars_def less_Suc_eq_le intro: le_trans [OF diff_le_self] le_trans [OF length_dropWhile_le])

definition glob_test :: "re \<Rightarrow> string \<Rightarrow> bool" where
  "glob_test r s = re_test (Cat Bol r) s"

definition path_last :: "string \<Rightarrow> string" where
  "path_last s = last (split_on CHR ''/'' s)"

definition matches_glob :: "string \<Rightarrow> string \<Rightarrow> bool" where
  "matches_glob filePath g = (case globToRegex g of None \<Rightarrow> False
     | Some r \<Rightarrow> glob_test r filePath \<or> glob_test r (path_last filePath))"

definition matchesAnyGlob :: "string \<Rightarrow> string list \<Rightarrow> bool" where
  "matchesAnyGlob filePath globs = list_ex (matches_glob filePath) globs"

definition shouldIgnoreDetectionFile :: "string \<Rightarrow> string \<Rightarrow> detection_config \<Rightarrow> bool" where
  "shouldIgnoreDetectionFile filePath cwd config =
     (let globs = dc_ignoreFiles config; raw = trim filePath in
      if globs = [] \<or> raw = [] then False
      else if matchesAnyGlob raw globs then True
      else
       (let abs = (if isAbsolute raw then raw else path_resolve cwd raw) in
        if matchesAnyGlob abs globs then True
        else
         (let rel = path_relative cwd abs in
          rel \<noteq> [] \<and> \<not> starts_with rel ''..'' \<and> \<not> isAbsolute rel \<and> matchesAnyGlob rel globs)))"

section \<open>The value of a finding\<close>

definition first_group :: "re \<Rightarrow> string \<Rightarrow> string option" where
  "first_group r text = (case re_exec r text of None \<Rightarrow> None | Some m \<Rightarrow> group m 1)"

definition PRIMARY_RE :: re where
  "PRIMARY_RE = seq [lit_i ''Primary font:'', Many is_ws, Grp 1 (many1 (none_of [CHR ''('', CHR '')'', NL, CHR '';'']))]"

definition GOOGLE_LABEL_RE :: re where
  "GOOGLE_LABEL_RE = seq [lit_i ''Google Fonts:'', Many is_ws, Grp 1 (many1 (none_of [CHR ''('', CHR '')'', NL, CHR '';'']))]"

definition FAMILY_RE :: re where
  "FAMILY_RE = seq [lit_i ''font-family'', Many is_ws, lit '':'', Many is_ws, Opt (Cls is_quote),
     Grp 1 (many1 (none_of [CHR 0x27, CHR 0x22, CHR '','', CHR '';'', NL]))]"

definition GOOGLE_RE :: re where
  "GOOGLE_RE = seq [Cls (\<lambda>c. c = CHR ''?'' \<or> c = CHR ''&''), lit_i ''family='', Grp 1 (many1 (none_of [CHR ''&'', CHR '':'', CHR '';'', NL]))]"

definition TAILWIND_RE :: re where "TAILWIND_RE = seq [Boundary, lit_i ''animate-bounce'', Boundary]"

definition BEZIER_RE :: re where
  "BEZIER_RE = seq [lit_i ''cubic-bezier'', lit ''('', many1 (none_of [CHR '')'']), lit '')'']"

definition ANIMATION_RE :: re where
  "ANIMATION_RE = seq [lit_i ''animation'', Opt (lit_i ''-name''), Many is_ws, lit '':'', Many is_ws, Grp 1 (many1 (none_of [CHR '';'', NL]))]"

definition BOUNCY_RE :: re where
  "BOUNCY_RE = alts [lit_i ''bounce'', lit_i ''elastic'', lit_i ''wobble'', lit_i ''jiggle'', lit_i ''spring'']"

text \<open>\<^verbatim>\<open>split(/[,\s]+/)\<close>; the empty parts are never looked for.\<close>

definition comma_parts :: "string \<Rightarrow> string list" where
  "comma_parts s = concat (map split_ws (split_on CHR '','' s))"

definition extractMotionIgnoreValue :: "string \<Rightarrow> string" where
  "extractMotionIgnoreValue text = (case re_exec TAILWIND_RE text of
      Some m \<Rightarrow> cleanIgnoreValueDisplay (JStr (ex_text m))
    | None \<Rightarrow> (case re_exec BEZIER_RE text of
        Some m \<Rightarrow> cleanIgnoreValueDisplay (JStr (ex_text m))
      | None \<Rightarrow> (case first_group ANIMATION_RE text of
          None \<Rightarrow> []
        | Some a \<Rightarrow> (case find (re_test BOUNCY_RE) (comma_parts a) of
            None \<Rightarrow> [] | Some token \<Rightarrow> cleanIgnoreValueDisplay (JStr token)))))"

definition font_value :: "(string \<Rightarrow> string option) \<Rightarrow> string \<Rightarrow> string option" where
  "font_value decodeURIComponent text = (case first_group PRIMARY_RE text of
      Some v \<Rightarrow> Some (cleanIgnoreValueDisplay (JStr v))
    | None \<Rightarrow> (case first_group GOOGLE_LABEL_RE text of
        Some v \<Rightarrow> Some (cleanIgnoreValueDisplay (JStr v))
      | None \<Rightarrow> (case first_group FAMILY_RE text of
          Some v \<Rightarrow> Some (cleanIgnoreValueDisplay (JStr v))
        | None \<Rightarrow> (case first_group GOOGLE_RE text of
            Some v \<Rightarrow> Some (cleanIgnoreValueDisplay (JStr (case decodeURIComponent v of Some d \<Rightarrow> d | None \<Rightarrow> v)))
          | None \<Rightarrow> None))))"

fun value_from_texts :: "(string \<Rightarrow> string option) \<Rightarrow> string \<Rightarrow> string list \<Rightarrow> string" where
  "value_from_texts dec rule [] = []"
| "value_from_texts dec rule (t # ts) =
     (if rule = ''bounce-easing''
      then (let motion = extractMotionIgnoreValue t in if motion \<noteq> [] then motion else value_from_texts dec rule ts)
      else (case font_value dec t of Some v \<Rightarrow> v | None \<Rightarrow> value_from_texts dec rule ts))"

fun nonempty_str :: "jsval \<Rightarrow> string list" where
  "nonempty_str (JStr s) = (if s = [] then [] else [s])"
| "nonempty_str _ = []"

definition extractFindingIgnoreValueRaw :: "(string \<Rightarrow> string option) \<Rightarrow> jsval \<Rightarrow> string \<Rightarrow> string" where
  "extractFindingIgnoreValueRaw dec finding rule =
     (let direct = cleanIgnoreValueDisplay (js_or (js_or (dot finding ''ignoreValue'') (dot finding ''value'')) (JStr []))
      in if direct \<noteq> [] then direct
         else value_from_texts dec rule (nonempty_str (dot finding ''detail'') @ nonempty_str (dot finding ''snippet'')))"

definition directValueRules :: "string list" where
  "directValueRules = [''overused-font'', ''bounce-easing'', ''design-system-font'', ''design-system-color'',
     ''design-system-radius'', ''design-system-font-size'']"

definition extractFindingIgnoreValue :: "(string \<Rightarrow> string option) \<Rightarrow> jsval \<Rightarrow> string" where
  "extractFindingIgnoreValue dec finding =
     (if \<not> truthy finding \<or> \<not> typeof_object finding then []
      else
       (let rule = normalizeIgnoreRule (dot finding ''antipattern'')
        in if rule \<notin> set directValueRules then []
           else normalizeIgnoreValue (JStr (extractFindingIgnoreValueRaw dec finding rule))))"

section \<open>Filtering\<close>

definition suffixes_of :: "string list \<Rightarrow> string list" where
  "suffixes_of parts = map (\<lambda>i. join_with ''/'' (drop i parts)) [0..<length parts]"

definition findingMatchesScopedIgnoreFile :: "jsval \<Rightarrow> string list \<Rightarrow> bool" where
  "findingMatchesScopedIgnoreFile finding globs =
     (let filePath = trim (js_text (js_or (dot finding ''file'') (JStr []))) in
      if filePath = [] then False
      else if matchesAnyGlob filePath globs then True
      else list_ex (\<lambda>suffix. matchesAnyGlob suffix globs) (suffixes_of (filter (\<lambda>p. p \<noteq> []) (split_on CHR ''/'' filePath))))"

definition entry_ignores :: "string \<Rightarrow> string \<Rightarrow> jsval \<Rightarrow> ignore_entry \<Rightarrow> bool" where
  "entry_ignores rule v finding e =
     (if ie_rule e \<noteq> rule then False
      else
       (let wildcardValue = (ie_value e = ''*'') in
        if \<not> wildcardValue \<and> (v = [] \<or> \<not> ignoreValueMatches rule (ie_value e) v) then False
        else if ie_files e = [] then \<not> wildcardValue
        else findingMatchesScopedIgnoreFile finding (ie_files e)))"

definition isIgnoredFindingValue :: "(string \<Rightarrow> string option) \<Rightarrow> jsval \<Rightarrow> ignore_entry list \<Rightarrow> bool" where
  "isIgnoredFindingValue dec finding ignoreValues =
     (let rule = normalizeIgnoreRule (dot finding ''antipattern'')
      in ignoreValues \<noteq> [] \<and> rule \<noteq> [] \<and>
         list_ex (entry_ignores rule (extractFindingIgnoreValue dec finding) finding) ignoreValues)"

definition filterDetectionFindings :: "(string \<Rightarrow> string option) \<Rightarrow> jsval list \<Rightarrow> detection_config \<Rightarrow> jsval list" where
  "filterDetectionFindings dec findings config =
     (let ignoreRules = map (\<lambda>r. normalizeIgnoreRule (JStr r)) (dc_ignoreRules config);
          ignoreValues = normalizeIgnoreValueEntries (entries_arr (dc_ignoreValues config))
      in filter (\<lambda>finding. truthy finding \<and> typeof_object finding \<and>
           normalizeIgnoreRule (dot finding ''antipattern'') \<notin> set ignoreRules \<and>
           \<not> isIgnoredFindingValue dec finding ignoreValues) findings)"

section \<open>The exclude file\<close>

definition EXCLUDE_OPEN :: string where "EXCLUDE_OPEN = ''# impeccable-config-ignore-start''"
definition EXCLUDE_CLOSE :: string where "EXCLUDE_CLOSE = ''# impeccable-config-ignore-end''"
definition EXCLUDE_PATTERNS :: "string list" where "EXCLUDE_PATTERNS = [''.impeccable/config.local.json'']"

definition exclude_block :: string where
  "exclude_block = join_with [NL] ([EXCLUDE_OPEN] @ EXCLUDE_PATTERNS @ [EXCLUDE_CLOSE])"

text \<open>The text before and after the first occurrence.\<close>

fun split_first :: "string \<Rightarrow> string \<Rightarrow> (string \<times> string) option" where
  "split_first p s =
     (if starts_with s p then Some ([], drop (length p) s)
      else (case s of [] \<Rightarrow> None | c # cs \<Rightarrow> map_option (\<lambda>(pre, post). (c # pre, post)) (split_first p cs)))"

declare split_first.simps [simp del]

text \<open>
  The first match of the marker expression: from the first opening marker to the closing marker
  that comes next. Nothing else than the two markers and any text between them is in it.
\<close>

definition marker_match :: "string \<Rightarrow> (string \<times> string) option" where
  "marker_match s = (case split_first EXCLUDE_OPEN s of None \<Rightarrow> None | Some (pre, rest) \<Rightarrow>
     (case split_first EXCLUDE_CLOSE rest of None \<Rightarrow> None | Some (_, post) \<Rightarrow> Some (pre, post)))"

definition exclude_update :: "string \<Rightarrow> string" where
  "exclude_update existing = (case marker_match existing of
      Some (pre, post) \<Rightarrow> pre @ exclude_block @ post
    | None \<Rightarrow> (if existing = [] then [] else if ends_with existing [NL] then existing else existing @ [NL]) @ exclude_block @ [NL])"

datatype dotgit = NoGit | GitDir | GitFile string

text \<open>What the writers of the configuration see of the disk.\<close>

record config_disk =
  cd_json :: config_files
  cd_dotgit :: "string \<Rightarrow> dotgit"
  cd_text :: "string \<Rightarrow> string option"

definition GITDIR_RE :: re where
  "GITDIR_RE = seq [lit ''gitdir:'', Many is_ws, Grp 1 (many1 (none_of [NL, CR]))]"

definition resolveGitDir :: "config_disk \<Rightarrow> string \<Rightarrow> string option" where
  "resolveGitDir d cwd = (case cd_dotgit d (path_join cwd ''.git'') of
      NoGit \<Rightarrow> None
    | GitDir \<Rightarrow> Some (path_join cwd ''.git'')
    | GitFile content \<Rightarrow> (case first_group GITDIR_RE content of
        None \<Rightarrow> None
      | Some v \<Rightarrow> (let resolved = trim v in Some (if isAbsolute resolved then resolved else path_join cwd resolved))))"

definition ensureConfigGitExclude :: "config_disk \<Rightarrow> string \<Rightarrow> config_disk \<times> bool" where
  "ensureConfigGitExclude d cwd = (case resolveGitDir d cwd of
      None \<Rightarrow> (d, False)
    | Some gitDir \<Rightarrow>
       (let target = path_join (path_join gitDir ''info'') ''exclude'';
            existing = (case cd_text d target of None \<Rightarrow> [] | Some s \<Rightarrow> s)
        in (d\<lparr>cd_text := (cd_text d)(target := Some (exclude_update existing))\<rparr>, True)))"

text \<open>The two writers, with the exclude file: first for the local configuration, last for the consent.\<close>

definition write_config :: "config_disk \<Rightarrow> string \<Rightarrow> jsval \<Rightarrow> bool \<Rightarrow> config_disk" where
  "write_config d cwd detectorConfig local =
     (let d1 = (if local then fst (ensureConfigGitExclude d cwd) else d)
      in d1\<lparr>cd_json := writeDetectionConfig (cd_json d1) cwd detectorConfig local\<rparr>)"

definition write_consent :: "config_disk \<Rightarrow> string \<Rightarrow> jsval \<Rightarrow> config_disk" where
  "write_consent d cwd v = fst (ensureConfigGitExclude (d\<lparr>cd_json := setHookConsent (cd_json d) cwd v\<rparr>) cwd)"

end
