(* ===== verification/Regex_Lemmas.thy ===== *)
theory Regex_Lemmas
  imports Js_Text
begin

text \<open>
  How the matcher of \<open>Js_Text\<close> is reasoned about. \<open>steps\<close> are all states that an expression can
  reach, groups included; the matcher returns what its continuation makes of one of them, and fails
  only when the continuation fails on all. The lemmas on \<open>many\<close>, \<open>lazily\<close> and \<open>lit\<close> compute which
  one it takes. Prefixes and occurrences become equations between texts.
\<close>

named_theorems re_eval \<open>one step of the matcher on a text whose beginning is known\<close>

section \<open>All ways to match\<close>

fun steps :: "re \<Rightarrow> mstate \<Rightarrow> mstate set" where
  "steps Eps st = {st}"
| "steps (Cls P) st = {st'. \<exists>x. P x \<and> fst (snd st) = x # fst (snd st') \<and> fst st' = x # fst st \<and> snd (snd st') = snd (snd st)}"
| "steps (Cat r1 r2) st = (\<Union>st' \<in> steps r1 st. steps r2 st')"
| "steps (Alt r1 r2) st = steps r1 st \<union> steps r2 st"
| "steps (Many P) st = {st'. \<exists>w. (\<forall>c \<in> set w. P c) \<and> fst (snd st) = w @ fst (snd st') \<and> fst st' = rev w @ fst st \<and> snd (snd st') = snd (snd st)}"
| "steps (Lazy P) st = {st'. \<exists>w. (\<forall>c \<in> set w. P c) \<and> fst (snd st) = w @ fst (snd st') \<and> fst st' = rev w @ fst st \<and> snd (snd st') = snd (snd st)}"
| "steps (Peek P) st = (if fst (snd st) = [] \<or> P (hd (fst (snd st))) then {st} else {})"
| "steps (Opt r) st = insert st (steps r st)"
| "steps (Grp n r) st = {(b', s', (n, take (length (fst (snd st)) - length s') (fst (snd st))) # g') | b' s' g'. (b', s', g') \<in> steps r st}"
| "steps Boundary st = (if at_boundary (fst st) (fst (snd st)) then {st} else {})"
| "steps Bol st = (if fst st = [] then {st} else {})"
| "steps Eol st = (if fst (snd st) = [] then {st} else {})"

lemma many_Some: "many P b s g k = Some x \<Longrightarrow> \<exists>w t. (\<forall>c \<in> set w. P c) \<and> s = w @ t \<and> k (rev w @ b, t, g) = Some x"
proof (induction s arbitrary: b)
  case (Cons y ys)
  show ?case
  proof (cases "P y \<and> many P (y # b) ys g k = Some x")
    case True
    then obtain w t where "\<forall>c \<in> set w. P c" "ys = w @ t" "k (rev w @ y # b, t, g) = Some x" using Cons.IH by blast
    then show ?thesis using True by (intro exI [of _ "y # w"] exI [of _ t]) simp
  next
    case False
    then have "k (b, y # ys, g) = Some x" using Cons.prems by (auto split: if_splits option.splits)
    then show ?thesis by (intro exI [of _ "[]"] exI [of _ "y # ys"]) simp
  qed
qed simp

lemma lazily_Some: "lazily P b s g k = Some x \<Longrightarrow> \<exists>w t. (\<forall>c \<in> set w. P c) \<and> s = w @ t \<and> k (rev w @ b, t, g) = Some x"
proof (induction s arbitrary: b)
  case (Cons y ys)
  show ?case
  proof (cases "k (b, y # ys, g)")
    case None
    then have y: "P y" "lazily P (y # b) ys g k = Some x" using Cons.prems by (auto split: if_splits)
    then obtain w t where "\<forall>c \<in> set w. P c" "ys = w @ t" "k (rev w @ y # b, t, g) = Some x" using Cons.IH by blast
    then show ?thesis using y by (intro exI [of _ "y # w"] exI [of _ t]) simp
  next
    case Some
    then show ?thesis using Cons.prems by (intro exI [of _ "[]"] exI [of _ "y # ys"]) simp
  qed
qed simp

lemma rmatch_Some: "rmatch r st k = Some x \<Longrightarrow> \<exists>st' \<in> steps r st. k st' = Some x"
proof (induction r arbitrary: st k)
  case (Cat r1 r2)
  have "rmatch r1 st (\<lambda>st'. rmatch r2 st' k) = Some x" using Cat.prems by simp
  then obtain q where q: "q \<in> steps r1 st" "rmatch r2 q k = Some x" using Cat.IH(1) by blast
  then obtain st' where "st' \<in> steps r2 q" "k st' = Some x" using Cat.IH(2) by blast
  then show ?case using q(1) by auto
next
  case (Alt r1 r2)
  then show ?case by (fastforce split: option.splits)
next
  case (Opt r)
  then show ?case by (fastforce split: option.splits)
next
  case (Grp n r)
  let ?k = "\<lambda>(b', s', g'). k (b', s', (n, take (length (fst (snd st)) - length s') (fst (snd st))) # g')"
  have "rmatch r st ?k = Some x" using Grp.prems by simp
  then obtain q where "q \<in> steps r st" "?k q = Some x" using Grp.IH by blast
  then show ?case by (cases q) auto
next
  case (Many P)
  then obtain w t where "\<forall>c \<in> set w. P c" "fst (snd st) = w @ t" "k (rev w @ fst st, t, snd (snd st)) = Some x"
    using many_Some [of P "fst st" "fst (snd st)" "snd (snd st)" k x] by (auto split: prod.splits)
  then show ?case by auto
next
  case (Lazy P)
  then obtain w t where "\<forall>c \<in> set w. P c" "fst (snd st) = w @ t" "k (rev w @ fst st, t, snd (snd st)) = Some x"
    using lazily_Some [of P "fst st" "fst (snd st)" "snd (snd st)" k x] by (auto split: prod.splits)
  then show ?case by auto
qed (auto split: prod.splits list.splits if_splits)

lemma many_None: "many P b (w @ t) g k = None \<Longrightarrow> \<forall>c \<in> set w. P c \<Longrightarrow> k (rev w @ b, t, g) = None"
proof (induction w arbitrary: b)
  case Nil
  then show ?case by (cases t) (auto split: if_splits option.splits)
next
  case (Cons x w)
  then show ?case using Cons.IH [of "x # b"] by (auto split: option.splits)
qed

lemma lazily_None: "lazily P b (w @ t) g k = None \<Longrightarrow> \<forall>c \<in> set w. P c \<Longrightarrow> k (rev w @ b, t, g) = None"
proof (induction w arbitrary: b)
  case Nil
  then show ?case by (cases t) (auto split: if_splits option.splits)
next
  case (Cons x w)
  then show ?case using Cons.IH [of "x # b"] by (auto split: option.splits)
qed

lemma rmatch_None: "rmatch r st k = None \<Longrightarrow> st' \<in> steps r st \<Longrightarrow> k st' = None"
proof (induction r arbitrary: st st' k)
  case (Cat r1 r2)
  then obtain q where q: "q \<in> steps r1 st" "st' \<in> steps r2 q" by auto
  have "rmatch r2 q k = None" using Cat.IH(1) [of st "\<lambda>st'. rmatch r2 st' k" q] Cat.prems(1) q(1) by simp
  then show ?case using Cat.IH(2) q(2) by blast
next
  case (Grp n r)
  then obtain b' s' g' where q: "(b', s', g') \<in> steps r st"
      "st' = (b', s', (n, take (length (fst (snd st)) - length s') (fst (snd st))) # g')" by auto
  show ?case
    using Grp.IH [of st "\<lambda>(b', s', g'). k (b', s', (n, take (length (fst (snd st)) - length s') (fst (snd st))) # g')" "(b', s', g')"]
      Grp.prems(1) q by simp
next
  case (Many P)
  then obtain w where "\<forall>c \<in> set w. P c" "fst (snd st) = w @ fst (snd st')" "fst st' = rev w @ fst st" "snd (snd st') = snd (snd st)"
    by auto
  moreover from this have "many P (fst st) (w @ fst (snd st')) (snd (snd st)) k = None"
    using Many.prems(1) by (auto split: prod.splits)
  ultimately show ?case using many_None [of P "fst st" w "fst (snd st')" "snd (snd st)" k] by (metis prod.collapse)
next
  case (Lazy P)
  then obtain w where "\<forall>c \<in> set w. P c" "fst (snd st) = w @ fst (snd st')" "fst st' = rev w @ fst st" "snd (snd st') = snd (snd st)"
    by auto
  moreover from this have "lazily P (fst st) (w @ fst (snd st')) (snd (snd st)) k = None"
    using Lazy.prems(1) by (auto split: prod.splits)
  ultimately show ?case using lazily_None [of P "fst st" w "fst (snd st')" "snd (snd st)" k] by (metis prod.collapse)
qed (fastforce split: prod.splits list.splits if_splits option.splits)+

lemma rmatch_fails: "rmatch r st k = None \<longleftrightarrow> (\<forall>st' \<in> steps r st. k st' = None)"
  using rmatch_Some [of r st k] rmatch_None [of r st k] by (metis not_None_eq)

lemma rmatch_start_fails: "rmatch r st Some = None \<longleftrightarrow> steps r st = {}"
  by (auto simp: rmatch_fails)

text \<open>A match never gives text back: it consumes a prefix of what is left.\<close>

lemma steps_consume: "st' \<in> steps r st \<Longrightarrow> \<exists>w. fst (snd st) = w @ fst (snd st') \<and> fst st' = rev w @ fst st"
proof (induction r arbitrary: st st')
  case (Cat r1 r2)
  then obtain q where q: "q \<in> steps r1 st" "st' \<in> steps r2 q" by auto
  obtain u where "fst (snd st) = u @ fst (snd q)" "fst q = rev u @ fst st" using Cat.IH(1) [OF q(1)] by blast
  moreover obtain v where "fst (snd q) = v @ fst (snd st')" "fst st' = rev v @ fst q" using Cat.IH(2) [OF q(2)] by blast
  ultimately show ?case by (intro exI [of _ "u @ v"]) simp
next
  case (Grp n r)
  then obtain b' s' g' where q: "(b', s', g') \<in> steps r st" "fst st' = b'" "fst (snd st') = s'" by auto
  then show ?case using Grp.IH [OF q(1)] by simp
next
  case (Cls P)
  then obtain x where "fst (snd st) = x # fst (snd st')" "fst st' = x # fst st" by auto
  then show ?case by (intro exI [of _ "[x]"]) simp
qed (auto split: if_splits)

section \<open>Prefixes and occurrences\<close>

lemma starts_with_ex: "starts_with s p \<longleftrightarrow> (\<exists>t. s = p @ t)"
  by (induction s p rule: starts_with.induct) auto

lemma str_includes_ex: "str_includes s p \<longleftrightarrow> (\<exists>a b. s = a @ p @ b)"
proof (induction s)
  case Nil
  then show ?case by auto
next
  case (Cons c s)
  show ?case
  proof
    assume "str_includes (c # s) p"
    then consider t where "c # s = p @ t" | a b where "s = a @ p @ b"
      using Cons.IH by (auto simp: starts_with_ex)
    then show "\<exists>a b. c # s = a @ p @ b"
      by cases (metis append_Nil, metis append_Cons)
  next
    assume "\<exists>a b. c # s = a @ p @ b"
    then obtain a b where ab: "c # s = a @ p @ b" by blast
    show "str_includes (c # s) p"
    proof (cases a)
      case Nil
      then have "starts_with (c # s) p" using ab by (auto simp: starts_with_ex)
      then show ?thesis by simp
    next
      case (Cons x a')
      then show ?thesis using ab Cons.IH \<open>str_includes s p \<longleftrightarrow> _\<close> by auto
    qed
  qed
qed

lemma steps_lit: "steps (lit p) (b, s, g) = (if starts_with s p then {(rev p @ b, drop (length p) s, g)} else {})"
proof (induction p arbitrary: b s)
  case (Cons c p)
  show ?case
  proof (cases s)
    case (Cons x s')
    have "steps (lit (c # p)) (b, s, g) = (if x = c then steps (lit p) (x # b, s', g) else {})"
      using Cons by (auto simp: set_eq_iff)
    then show ?thesis using Cons.IH Cons by simp
  qed auto
qed auto

section \<open>Which way is taken\<close>

lemma rmatch_lit [re_eval]: "rmatch (lit p) (b, p @ t, g) k = k (rev p @ b, t, g)"
  by (induction p arbitrary: b) auto

lemma rmatch_lit_fails: "\<not> starts_with s p \<Longrightarrow> rmatch (lit p) (b, s, g) k = None"
  by (simp add: rmatch_fails steps_lit)

lemma many_takes_all:
  assumes "\<forall>c \<in> set w. P c" "t = [] \<or> \<not> P (hd t)" "k (rev w @ b, t, g) \<noteq> None"
  shows "many P b (w @ t) g k = k (rev w @ b, t, g)"
  using assms
proof (induction w arbitrary: b)
  case Nil
  then show ?case by (cases t) auto
next
  case (Cons x w)
  then show ?case using Cons.IH [of "x # b"] by auto
qed

lemma lazily_takes:
  assumes "\<forall>c \<in> set w. P c" "\<And>u v. w = u @ v \<Longrightarrow> v \<noteq> [] \<Longrightarrow> k (rev u @ b, v @ t, g) = None"
  shows "lazily P b (w @ t) g k = lazily P (rev w @ b) t g k"
  using assms
proof (induction w arbitrary: b)
  case (Cons x w)
  have "k (b, (x # w) @ t, g) = None" using Cons.prems(2) [of "[]" "x # w"] by simp
  moreover have "lazily P (x # b) (w @ t) g k = lazily P (rev w @ x # b) t g k"
  proof (rule Cons.IH)
    fix u v
    assume "w = u @ v" "v \<noteq> []"
    then show "k (rev u @ x # b, v @ t, g) = None" using Cons.prems(2) [of "x # u" v] by simp
  qed (use Cons.prems in simp)
  ultimately show ?case using Cons.prems(1) by simp
qed simp

lemma lazily_stops: "k (b, t, g) \<noteq> None \<Longrightarrow> lazily P b t g k = k (b, t, g)"
  by (cases t) auto

text \<open>The same as rules that follow one successful path.\<close>

lemma hit_Cat: "rmatch r1 st (\<lambda>st'. rmatch r2 st' k) = Some x \<Longrightarrow> rmatch (Cat r1 r2) st k = Some x"
  by simp

lemma hit_lit: "k (rev p @ b, t, g) = Some x \<Longrightarrow> rmatch (lit p) (b, p @ t, g) k = Some x"
  by (simp add: rmatch_lit)

lemma hit_Many:
  "\<forall>c \<in> set w. P c \<Longrightarrow> t = [] \<or> \<not> P (hd t) \<Longrightarrow> k (rev w @ b, t, g) = Some x \<Longrightarrow> rmatch (Many P) (b, w @ t, g) k = Some x"
  using many_takes_all [of w P t k b g] by simp

lemma hit_Lazy:
  assumes "\<forall>c \<in> set w. P c" "\<And>u v. w = u @ v \<Longrightarrow> v \<noteq> [] \<Longrightarrow> k (rev u @ b, v @ t, g) = None"
    and "k (rev w @ b, t, g) = Some x"
  shows "rmatch (Lazy P) (b, w @ t, g) k = Some x"
  using lazily_takes [of w P k b t g, OF assms(1)] assms(2) lazily_stops [of k "rev w @ b" t g P] assms(3) by simp

lemma hit_Grp_Many:
  assumes "\<forall>c \<in> set w. P c" "t = [] \<or> \<not> P (hd t)" "k (rev w @ b, t, (n, w) # g) = Some x"
  shows "rmatch (Grp n (Many P)) (b, w @ t, g) k = Some x"
  using hit_Many [OF assms(1,2), of "\<lambda>(b', s', g'). k (b', s', (n, take (length (w @ t) - length s') (w @ t)) # g')" b g x] assms(3)
  by simp

text \<open>Where the search finds its match.\<close>

lemma exec_from_skip:
  assumes "\<And>u v. w = u @ v \<Longrightarrow> v \<noteq> [] \<Longrightarrow> steps r (rev u @ b, v @ t, []) = {}"
  shows "exec_from r b (w @ t) = exec_from r (rev w @ b) t"
  using assms
proof (induction w arbitrary: b)
  case (Cons x w)
  have "rmatch r (b, x # w @ t, []) Some = None"
    using Cons.prems [of "[]" "x # w"] by (simp add: rmatch_start_fails)
  moreover have "exec_from r (x # b) (w @ t) = exec_from r (rev w @ x # b) t"
  proof (rule Cons.IH)
    fix u v
    assume "w = u @ v" "v \<noteq> []"
    then show "steps r (rev u @ x # b, v @ t, []) = {}" using Cons.prems [of "x # u" v] by simp
  qed
  ultimately show ?case by (subst exec_from.simps) simp
qed simp

lemma exec_from_hit:
  assumes "rmatch r (b, s, []) Some = Some (b', t, g)" "s = w @ t"
  shows "exec_from r b s = Some \<lparr>ex_index = length b, ex_text = w, ex_groups = g\<rparr>"
  using assms by (subst exec_from.simps) simp

lemma exec_from_None: "exec_from r b s = None \<longleftrightarrow> (\<forall>u v. s = u @ v \<longrightarrow> steps r (rev u @ b, v, []) = {})"
proof (induction s arbitrary: b)
  case Nil
  have "exec_from r b [] = None \<longleftrightarrow> rmatch r (b, [], []) Some = None"
    by (subst exec_from.simps) (auto split: option.splits)
  then show ?case by (simp add: rmatch_start_fails)
next
  case (Cons x xs)
  note IH = Cons.IH
  have "exec_from r b (x # xs) = None \<longleftrightarrow> steps r (b, x # xs, []) = {} \<and> exec_from r (x # b) xs = None"
    by (subst exec_from.simps) (auto simp: rmatch_start_fails [symmetric] split: option.splits)
  also have "\<dots> \<longleftrightarrow> (\<forall>u v. x # xs = u @ v \<longrightarrow> steps r (rev u @ b, v, []) = {})"
  proof (intro iffI allI impI)
    fix u v
    assume l: "steps r (b, x # xs, []) = {} \<and> exec_from r (x # b) xs = None" and s: "x # xs = u @ v"
    show "steps r (rev u @ b, v, []) = {}"
    proof (cases u)
      case Nil
      then show ?thesis using l s by simp
    next
      case (Cons y u')
      then show ?thesis using l s IH [of "x # b"] by auto
    qed
  next
    assume "\<forall>u v. x # xs = u @ v \<longrightarrow> steps r (rev u @ b, v, []) = {}"
    then have "steps r (rev u @ b, v, []) = {}" if "x # xs = u @ v" for u v using that by blast
    from this [of "[]"] this [of "x # u" for u] show "steps r (b, x # xs, []) = {} \<and> exec_from r (x # b) xs = None"
      unfolding IH by auto
  qed
  finally show ?case .
qed

lemma re_exec_None: "re_exec r s = None \<longleftrightarrow> (\<forall>u v. s = u @ v \<longrightarrow> steps r (rev u, v, []) = {})"
  using exec_from_None [of r "[]" s] by (simp add: re_exec_def)

lemma exec_from_Some:
  "exec_from r b s = Some m \<Longrightarrow> \<exists>u v b' t g. s = u @ v \<and> (b', t, g) \<in> steps r (rev u @ b, v, []) \<and>
     ex_index m = length u + length b \<and> v = ex_text m @ t \<and> ex_groups m = g"
proof (induction s arbitrary: b)
  case Nil
  then obtain b' t g where "rmatch r (b, [], []) Some = Some (b', t, g)" "m = \<lparr>ex_index = length b, ex_text = [], ex_groups = g\<rparr>"
    by (subst (asm) exec_from.simps) (auto split: option.splits)
  moreover from this have "(b', t, g) \<in> steps r (b, [], [])" using rmatch_Some by fastforce
  moreover from this have "t = []" using steps_consume by fastforce
  ultimately show ?case by (intro exI [of _ "[]"] exI [of _ "[]"] exI [of _ b'] exI [of _ t] exI [of _ g]) simp
next
  case (Cons x xs)
  show ?case
  proof (cases "rmatch r (b, x # xs, []) Some")
    case None
    then have "exec_from r (x # b) xs = Some m" using Cons.prems by (subst (asm) exec_from.simps) simp
    then obtain u v b' t g where "xs = u @ v" "(b', t, g) \<in> steps r (rev u @ x # b, v, [])"
        "ex_index m = length u + length (x # b)" "v = ex_text m @ t" "ex_groups m = g"
      using Cons.IH by blast
    then show ?thesis
      by (intro exI [of _ "x # u"] exI [of _ v] exI [of _ b'] exI [of _ t] exI [of _ g]) simp
  next
    case (Some st)
    obtain b' t g where st: "st = (b', t, g)" by (cases st)
    have q: "(b', t, g) \<in> steps r (b, x # xs, [])" using rmatch_Some [of r _ Some st] Some st by fastforce
    obtain w where w: "x # xs = w @ t" using steps_consume [OF q] by auto
    have "m = \<lparr>ex_index = length b, ex_text = w, ex_groups = g\<rparr>"
      using Cons.prems Some st w by (subst (asm) exec_from.simps) simp
    then show ?thesis using q w
      by (intro exI [of _ "[]"] exI [of _ "x # xs"] exI [of _ b'] exI [of _ t] exI [of _ g]) simp
  qed
qed

lemma re_exec_Some:
  assumes "re_exec r s = Some m"
  obtains u b' t g where "s = u @ ex_text m @ t" "(b', t, g) \<in> steps r (rev u, ex_text m @ t, [])"
    "ex_index m = length u" "ex_groups m = g"
  using exec_from_Some [of r "[]" s m] assms unfolding re_exec_def by auto

text \<open>When a text cannot match: alternatives one by one, and a part of a sequence that nothing in the text fits.\<close>

lemma re_test_Alt: "re_test (Alt r1 r2) s \<longleftrightarrow> re_test r1 s \<or> re_test r2 s"
  by (auto simp: re_test_def re_exec_None)

lemma steps_lit_i_needs: "q \<in> steps (lit_i p) st \<Longrightarrow> c \<in> set p \<Longrightarrow> lower_char c \<in> lower_char ` set (fst (snd st))"
proof (induction p arbitrary: st)
  case (Cons a p)
  then obtain st' x where "fst (snd st) = x # fst (snd st')" "lower_char x = lower_char a" "q \<in> steps (lit_i p) st'" by auto
  then show ?case using Cons.IH [of st'] Cons.prems(2) by (auto simp: image_iff)
qed simp

lemma third_needed:
  assumes "\<And>q. set (fst (snd q)) \<subseteq> set s \<Longrightarrow> steps C q = {}"
  shows "\<not> re_test (Cat A (Cat B (Cat C D))) s"
proof -
  have "steps C q = {}" if "s = u @ v" "p \<in> steps A (rev u, v, [])" "q \<in> steps B p" for u v p q
    using steps_consume [OF that(2)] steps_consume [OF that(3)] that(1) by (intro assms) auto
  then show ?thesis unfolding re_test_def re_exec_None by auto
qed

end
