(* ===== verification/Source_Search.thy ===== *)
theory Source_Search
  imports Detection_Filter Regex_Lemmas
begin

text \<open>
  The walk over the project's sources (\<^verbatim>\<open>scripts/live/source-search.mjs\<close>), the file names that
  count as templates (\<^verbatim>\<open>scripts/lib/template-extensions.mjs\<close>), the signs of a generated file
  (\<^verbatim>\<open>scripts/lib/is-generated.mjs\<close>) and the traits of a source file
  (\<^verbatim>\<open>scripts/live/frameworks/index.mjs\<close> with the \<^verbatim>\<open>source\<close> entries of the frameworks).

  The project is a tree without symbolic links, in the order in which a directory is read. Whether
  git ignores a file is a parameter.
\<close>

section \<open>Template extensions\<close>

definition LIVE_TEMPLATE_EXTENSIONS :: "string list" where
  "LIVE_TEMPLATE_EXTENSIONS = [''.html'', ''.jsx'', ''.tsx'', ''.vue'', ''.svelte'', ''.astro'', ''.ex'', ''.heex'', ''.eex'']"

definition extension_entry :: "jsval \<Rightarrow> (string \<times> string) list" where
  "extension_entry entry = (case (if is_str entry then entry else dot entry ''ext'') of
      JStr raw \<Rightarrow>
       (let ext = toLowerCase (trim raw)
        in if ext = [] then []
           else [(if starts_with ext ''.'' then ext else CHR ''.'' # ext,
                  if \<not> is_str entry \<and> dot entry ''engine'' = JStr ''text'' then ''text'' else ''html'')])
    | _ \<Rightarrow> [])"

definition normalizeExtensionEntries :: "jsval \<Rightarrow> (string \<times> string) list" where
  "normalizeExtensionEntries entries = (case entries of JArr es \<Rightarrow> concat (map extension_entry es) | _ \<Rightarrow> [])"

text \<open>\<^verbatim>\<open>map.set\<close>: a key that exists keeps its place and takes the new value.\<close>

fun set_key :: "('k \<times> 'v) list \<Rightarrow> 'k \<Rightarrow> 'v \<Rightarrow> ('k \<times> 'v) list" where
  "set_key [] k v = [(k, v)]"
| "set_key ((k', v') # kvs) k v = (if k' = k then (k, v) # kvs else (k', v') # set_key kvs k v)"

definition mergeExtensions :: "jsval \<Rightarrow> jsval \<Rightarrow> (string \<times> string) list" where
  "mergeExtensions existing incoming =
     fold (\<lambda>(ext, engine) m. set_key m ext engine) (normalizeExtensionEntries existing @ normalizeExtensionEntries incoming) []"

definition better_match :: "string \<Rightarrow> string \<times> string \<Rightarrow> (string \<times> string) option \<Rightarrow> (string \<times> string) option" where
  "better_match name e best =
     (if length (fst e) < length name \<and> ends_with name (fst e) \<and>
         (case best of None \<Rightarrow> True | Some b \<Rightarrow> length (fst b) < length (fst e))
      then Some e else best)"

definition matchConfiguredExtension :: "string \<Rightarrow> jsval \<Rightarrow> (string \<times> string) option" where
  "matchConfiguredExtension filePath extensions =
     (let name = toLowerCase (path_basename filePath) in
      if arr_elems extensions = [] \<or> name = [] then None
      else fold (better_match name) (normalizeExtensionEntries extensions) None)"

definition matchesTemplateExtension :: "string \<Rightarrow> string list \<Rightarrow> bool" where
  "matchesTemplateExtension filePath extensions =
     (let name = toLowerCase (path_basename filePath)
      in name \<noteq> [] \<and> list_ex (\<lambda>ext. length ext < length name \<and> ends_with name ext) extensions)"

text \<open>The two configuration files, parsed; \<open>None\<close> is a file that is missing or does not parse.\<close>

definition configured_extensions :: "jsval option \<Rightarrow> string list" where
  "configured_extensions raw = (case raw of None \<Rightarrow> []
     | Some j \<Rightarrow> (case dot j ''detector'' of
          JObj kvs \<Rightarrow> map fst (normalizeExtensionEntries (dot (JObj kvs) ''extensions''))
        | _ \<Rightarrow> []))"

definition resolveLiveTemplateExtensions :: "jsval option \<Rightarrow> jsval option \<Rightarrow> string list" where
  "resolveLiveTemplateExtensions config local_config =
     LIVE_TEMPLATE_EXTENSIONS @
     unique_from LIVE_TEMPLATE_EXTENSIONS (configured_extensions config @ configured_extensions local_config)"

section \<open>Generated files\<close>

definition HEADER_SCAN_BYTES :: nat where "HEADER_SCAN_BYTES = 300"

definition HEADER_MARKERS :: "re list" where
  "HEADER_MARKERS =
     [Cat (lit_i ''@generated'') Boundary,
      seq [Boundary, lit ''GENERATED'', many1 is_ws, lit ''FILE'', Boundary],
      seq [Boundary, lit_i ''AUTO'', Opt (lit ''-''), lit_i ''GENERATED'', Boundary],
      seq [Boundary, lit_i ''DO'', many1 is_ws, lit_i ''NOT'', many1 is_ws, lit_i ''EDIT'', Boundary]]"

definition hasGeneratedHeader :: "string option \<Rightarrow> bool" where
  "hasGeneratedHeader content = (case content of None \<Rightarrow> False
     | Some c \<Rightarrow> list_ex (\<lambda>r. re_test r (take HEADER_SCAN_BYTES c)) HEADER_MARKERS)"

definition isGeneratedFile :: "(string list \<Rightarrow> bool) \<Rightarrow> string list \<Rightarrow> string option \<Rightarrow> bool" where
  "isGeneratedFile isGitIgnored path content = (isGitIgnored path \<or> hasGeneratedHeader content)"

section \<open>The walk\<close>

datatype node = File string "string option" | Dir string "node list"

definition SOURCE_SEARCH_DIRS :: "string list" where
  "SOURCE_SEARCH_DIRS = [''src'', ''app'', ''pages'', ''components'', ''public'', ''views'', ''templates'', ''lib'', ''.'']"

definition NEVER_SOURCE_DIRS :: "string list" where
  "NEVER_SOURCE_DIRS = [''node_modules'', ''.git'', ''.impeccable'']"

definition MAX_DEPTH :: nat where "MAX_DEPTH = 5"

type_synonym file_filter = "string list \<Rightarrow> string option \<Rightarrow> bool"

definition file_matches :: "string \<Rightarrow> string list \<Rightarrow> file_filter \<Rightarrow> string list \<Rightarrow> string \<Rightarrow> string option \<Rightarrow> bool" where
  "file_matches query extensions fileFilter dir name content =
     (matchesTemplateExtension name extensions \<and> fileFilter (dir @ [name]) content \<and>
      (case content of None \<Rightarrow> False | Some c \<Rightarrow> str_includes c query))"

fun first_file :: "string \<Rightarrow> string list \<Rightarrow> file_filter \<Rightarrow> string list \<Rightarrow> node list \<Rightarrow> string list option" where
  "first_file query extensions fileFilter dir [] = None"
| "first_file query extensions fileFilter dir (File name content # entries) =
     (if file_matches query extensions fileFilter dir name content then Some (dir @ [name])
      else first_file query extensions fileFilter dir entries)"
| "first_file query extensions fileFilter dir (Dir name sub # entries) = first_file query extensions fileFilter dir entries"

text \<open>The walk of one directory, and of the directories among its entries; \<open>seen\<close> is threaded through.\<close>

function (sequential) walk and walk_dirs where
  "walk query extensions skip fileFilter seen depth dir entries =
     (if MAX_DEPTH < depth \<or> dir \<in> set seen then (None, seen)
      else (case first_file query extensions fileFilter dir entries of
          Some f \<Rightarrow> (Some f, dir # seen)
        | None \<Rightarrow> walk_dirs query extensions skip fileFilter (dir # seen) depth dir entries))"
| "walk_dirs query extensions skip fileFilter seen depth dir [] = (None :: string list option, seen)"
| "walk_dirs query extensions skip fileFilter seen depth dir (Dir name sub # entries) =
     (if name \<in> set skip then walk_dirs query extensions skip fileFilter seen depth dir entries
      else (case walk query extensions skip fileFilter seen (Suc depth) (dir @ [name]) sub of
          (Some f, seen') \<Rightarrow> (Some f, seen')
        | (None, seen') \<Rightarrow> walk_dirs query extensions skip fileFilter seen' depth dir entries))"
| "walk_dirs query extensions skip fileFilter seen depth dir (File name content # entries) =
     walk_dirs query extensions skip fileFilter seen depth dir entries"
  by pat_completeness auto

termination
  by (relation "measure (\<lambda>x. case x of Inl (_, _, _, _, _, _, _, entries) \<Rightarrow> 2 * size_list size entries + 1
        | Inr (_, _, _, _, _, _, _, entries) \<Rightarrow> 2 * size_list size entries)") auto

declare walk.simps [simp del]

definition child_dir :: "node list \<Rightarrow> string \<Rightarrow> node list option" where
  "child_dir tree name = (if name = ''.'' then Some tree
     else map_of (concat (map (\<lambda>n. case n of Dir m sub \<Rightarrow> [(m, sub)] | File _ _ \<Rightarrow> []) tree)) name)"

fun search_dirs :: "string \<Rightarrow> string list \<Rightarrow> string list \<Rightarrow> file_filter \<Rightarrow> string list list \<Rightarrow> node list \<Rightarrow> string list \<Rightarrow> string list option" where
  "search_dirs query extensions skip fileFilter seen tree [] = None"
| "search_dirs query extensions skip fileFilter seen tree (dir # dirs) =
     (case child_dir tree dir of
        None \<Rightarrow> search_dirs query extensions skip fileFilter seen tree dirs
      | Some entries \<Rightarrow>
         (case walk query extensions skip fileFilter seen 0 (if dir = ''.'' then [] else [dir]) entries of
            (Some f, _) \<Rightarrow> Some f
          | (None, seen') \<Rightarrow> search_dirs query extensions skip fileFilter seen' tree dirs))"

definition findSourceFile :: "string \<Rightarrow> string list \<Rightarrow> string list \<Rightarrow> file_filter \<Rightarrow> node list \<Rightarrow> string list option" where
  "findSourceFile query extensions skip fileFilter tree =
     search_dirs query extensions skip fileFilter [] tree SOURCE_SEARCH_DIRS"

section \<open>Traits of a source file\<close>

record traits =
  tr_preview :: string
  tr_styleMode :: string
  tr_styleTag :: string
  tr_commentSyntax :: string
  tr_injectScriptAttrs :: string

definition SOURCE_TRAIT_DEFAULTS :: traits where
  "SOURCE_TRAIT_DEFAULTS = \<lparr>tr_preview = ''source'', tr_styleMode = ''scoped'',
     tr_styleTag = ''<style data-impeccable-css=\"SESSION_ID\">'', tr_commentSyntax = ''html'', tr_injectScriptAttrs = []\<rparr>"

definition file_ext :: "string \<Rightarrow> string" where
  "file_ext filePath = toLowerCase (path_extname filePath)"

definition resolveSourceTraits :: "string \<Rightarrow> traits" where
  "resolveSourceTraits filePath =
     (let ext = file_ext filePath in
      if ext = ''.svelte'' then SOURCE_TRAIT_DEFAULTS\<lparr>tr_preview := ''component''\<rparr>
      else if ext = ''.tsx'' \<or> ext = ''.jsx'' then SOURCE_TRAIT_DEFAULTS\<lparr>tr_commentSyntax := ''jsx''\<rparr>
      else if ext = ''.astro'' then SOURCE_TRAIT_DEFAULTS\<lparr>tr_styleMode := ''astro-global-prefixed'',
        tr_styleTag := ''<style is:inline data-impeccable-css=\"SESSION_ID\">'', tr_injectScriptAttrs := ''is:inline ''\<rparr>
      else SOURCE_TRAIT_DEFAULTS)"

section \<open>What the walk finds\<close>

text \<open>The files of a tree, with the directories they are in.\<close>

inductive in_tree :: "string list \<Rightarrow> node list \<Rightarrow> string list \<Rightarrow> string \<Rightarrow> string option \<Rightarrow> bool" where
  here: "File name content \<in> set entries \<Longrightarrow> in_tree dir entries dir name content"
| deeper: "Dir d sub \<in> set entries \<Longrightarrow> in_tree (dir @ [d]) sub dir' name content \<Longrightarrow> in_tree dir entries dir' name content"

lemma first_file_sound:
  "first_file query extensions fileFilter dir entries = Some f \<Longrightarrow>
   \<exists>name content. File name content \<in> set entries \<and> f = dir @ [name] \<and> file_matches query extensions fileFilter dir name content"
  by (induction query extensions fileFilter dir entries rule: first_file.induct) (auto split: if_splits)

definition found_in :: "string \<Rightarrow> string list \<Rightarrow> string list \<Rightarrow> file_filter \<Rightarrow> string list \<Rightarrow> node list \<Rightarrow> string list \<Rightarrow> bool" where
  "found_in query extensions skip fileFilter dir entries f \<longleftrightarrow>
     (\<exists>rest name content. in_tree dir entries (dir @ rest) name content \<and> f = dir @ rest @ [name] \<and> set rest \<inter> set skip = {} \<and>
        file_matches query extensions fileFilter (dir @ rest) name content)"

lemma found_deeper:
  assumes "found_in query extensions skip fileFilter (dir @ [d]) sub f" "Dir d sub \<in> set entries" "d \<notin> set skip"
  shows "found_in query extensions skip fileFilter dir entries f"
proof -
  obtain rest name content where f: "in_tree (dir @ [d]) sub ((dir @ [d]) @ rest) name content" "f = (dir @ [d]) @ rest @ [name]"
      "set rest \<inter> set skip = {}" "file_matches query extensions fileFilter ((dir @ [d]) @ rest) name content"
    using assms(1) unfolding found_in_def by blast
  have "in_tree dir entries (dir @ d # rest) name content" using deeper [OF assms(2) f(1)] by simp
  then show ?thesis unfolding found_in_def using f(2-4) assms(3)
    by (intro exI [of _ "d # rest"] exI [of _ name] exI [of _ content]) simp
qed

lemma walk_sound:
  "walk query extensions skip fileFilter seen depth dir entries = (Some f, seen') \<Longrightarrow>
     found_in query extensions skip fileFilter dir entries f"
  "walk_dirs query extensions skip fileFilter seen depth dir entries = (Some f, seen') \<Longrightarrow>
     found_in query extensions skip fileFilter dir entries f"
proof (induction query extensions skip fileFilter seen depth dir entries and query extensions skip fileFilter seen depth dir entries
    arbitrary: seen' and seen' rule: walk_walk_dirs.induct)
  case (1 query extensions skip fileFilter seen depth dir entries)
  show ?case
  proof (cases "first_file query extensions fileFilter dir entries")
    case None
    then show ?thesis using 1 by (auto simp: walk.simps [of query] split: if_splits)
  next
    case (Some f')
    then have "f' = f" using "1.prems" by (auto simp: walk.simps [of query] split: if_splits)
    then show ?thesis using first_file_sound [OF Some] here unfolding found_in_def
      by (metis append_Nil append_Nil2 empty_set inf_bot_left)
  qed
next
  case (3 query extensions skip fileFilter seen depth dir name sub entries)
  have up: "found_in query extensions skip fileFilter dir (Dir name sub # entries) f"
    if "found_in query extensions skip fileFilter dir entries f"
    using that unfolding found_in_def by (metis (no_types, lifting) in_tree.simps list.set_intros(2))
  show ?case
  proof (cases "name \<in> set skip")
    case True
    then show ?thesis using 3 up by simp
  next
    case False
    obtain r s where w: "walk query extensions skip fileFilter seen (Suc depth) (dir @ [name]) sub = (r, s)" by fastforce
    show ?thesis
    proof (cases r)
      case None
      then have "found_in query extensions skip fileFilter dir entries f"
        using "3.IH"(3) [OF False w [symmetric]] "3.prems" w False by auto
      then show ?thesis by (rule up)
    next
      case (Some f')
      then have "found_in query extensions skip fileFilter (dir @ [name]) sub f"
        using "3.IH"(2) [OF False] "3.prems" w False by auto
      then show ?thesis by (rule found_deeper) (use False in auto)
    qed
  qed
next
  case (4 query extensions skip fileFilter seen depth dir name content entries)
  then have "found_in query extensions skip fileFilter dir entries f" by simp
  then show ?case unfolding found_in_def by (metis (no_types, lifting) in_tree.simps list.set_intros(2))
qed simp

end
