(* ===== verification/Tag_Injection.thy ===== *)
theory Tag_Injection
  imports Regex_Lemmas
begin

text \<open>
  The generic injection strategy (\<^verbatim>\<open>scripts/live/frameworks/tag-strategy.mjs\<close> and
  \<^verbatim>\<open>script-src.mjs\<close>): the block that loads the overlay, its insertion at the configured anchor
  and its removal, and the checks of \<^verbatim>\<open>scripts/live-inject.mjs\<close> on its configuration.

  The patch of a content security policy is a parameter where it is used: the functions here only
  find the meta tags it looks at.
\<close>

section \<open>Searching in a text\<close>

text \<open>\<^verbatim>\<open>indexOf\<close> and \<^verbatim>\<open>lastIndexOf\<close>; \<open>None\<close> is -1.\<close>

fun index_of :: "string \<Rightarrow> string \<Rightarrow> nat option" where
  "index_of [] p = (if p = [] then Some 0 else None)"
| "index_of (c # cs) p = (if starts_with (c # cs) p then Some 0 else map_option Suc (index_of cs p))"

fun last_index_of :: "string \<Rightarrow> string \<Rightarrow> nat option" where
  "last_index_of [] p = (if p = [] then Some 0 else None)"
| "last_index_of (c # cs) p = (case last_index_of cs p of Some i \<Rightarrow> Some (Suc i)
     | None \<Rightarrow> if starts_with (c # cs) p then Some 0 else None)"

section \<open>The script tag\<close>

definition hex_upper :: "nat \<Rightarrow> char" where
  "hex_upper n = char_of (if n < 10 then 48 + n else 55 + n)"

definition percent_byte :: "nat \<Rightarrow> string" where
  "percent_byte n = [CHR ''%'', hex_upper (n div 16), hex_upper (n mod 16)]"

definition uri_plain :: "char \<Rightarrow> bool" where
  "uri_plain c = (is_word_char c \<or> c \<in> set ''-.!~*'' \<or> c = CHR 0x27 \<or> c = CHR ''('' \<or> c = CHR '')'')"

definition encodeURIComponent :: "string \<Rightarrow> string" where
  "encodeURIComponent s = concat (map (\<lambda>c. let n = (of_char c :: nat) in
     if uri_plain c then [c]
     else if n < 128 then percent_byte n
     else percent_byte (192 + n div 64) @ percent_byte (128 + n mod 64)) s)"

definition buildLiveScriptSrc :: "int \<Rightarrow> string option \<Rightarrow> string" where
  "buildLiveScriptSrc port token =
     (let base = ''http://localhost:'' @ js_text (jint port) @ ''/live.js''
      in case token of None \<Rightarrow> base
         | Some t \<Rightarrow> if t = [] then base else base @ ''?token='' @ encodeURIComponent t)"

definition MARKER_OPEN_TEXT :: string where "MARKER_OPEN_TEXT = ''impeccable-live-start''"
definition MARKER_CLOSE_TEXT :: string where "MARKER_CLOSE_TEXT = ''impeccable-live-end''"

definition TAG_PATCH_MARKERS :: "string list" where
  "TAG_PATCH_MARKERS = [MARKER_OPEN_TEXT, ''data-impeccable-csp-original'']"

definition commentOpen :: "string \<Rightarrow> string" where
  "commentOpen syn = (if syn = ''jsx'' then ''{/*'' else ''<!--'')"

definition commentClose :: "string \<Rightarrow> string" where
  "commentClose syn = (if syn = ''jsx'' then ''*/}'' else ''-->'')"

definition script_line :: "int \<Rightarrow> string option \<Rightarrow> string \<Rightarrow> string" where
  "script_line port token attrs = ''<script '' @ attrs @ ''src=\"'' @ buildLiveScriptSrc port token @ ''\"></script>''"

definition buildTagBlock :: "string \<Rightarrow> int \<Rightarrow> string option \<Rightarrow> string \<Rightarrow> string" where
  "buildTagBlock syn port token attrs =
     commentOpen syn @ '' '' @ MARKER_OPEN_TEXT @ '' '' @ commentClose syn @ [NL] @
     script_line port token attrs @ [NL] @
     commentOpen syn @ '' '' @ MARKER_CLOSE_TEXT @ '' '' @ commentClose syn @ [NL]"

section \<open>Insertion\<close>

definition detectLineEnding :: "string \<Rightarrow> string" where
  "detectLineEnding content =
     (if str_includes content [CR, NL] then [CR, NL] else if str_includes content [CR] then [CR] else [NL])"

definition normalizeLineEndings :: "string \<Rightarrow> string \<Rightarrow> string" where
  "normalizeLineEndings content le =
     (if le = [NL] then content else concat (map (\<lambda>c. if c = NL then le else [c]) content))"

definition readLineEndingAt :: "string \<Rightarrow> nat \<Rightarrow> string" where
  "readLineEndingAt content i =
     (let r = drop i content in
      if starts_with r [CR, NL] then [CR, NL] else if starts_with r [NL] then [NL]
      else if starts_with r [CR] then [CR] else [])"

text \<open>
  What \<^verbatim>\<open>insertTag\<close> reads of a configuration that \<open>validateConfig\<close> accepts; an anchor that is not
  a string counts as absent. Without \<^verbatim>\<open>insertAfter\<close> the code searches for the text
  \<^verbatim>\<open>undefined\<close> and reads the length of \<^verbatim>\<open>undefined\<close> where it finds it.
\<close>

record tag_config =
  tc_insertBefore :: "string option"
  tc_insertAfter :: "string option"
  tc_commentSyntax :: string

definition insertTag :: "string \<Rightarrow> tag_config \<Rightarrow> int \<Rightarrow> string option \<Rightarrow> string \<Rightarrow> string js" where
  "insertTag content config port token attrs =
     (let le = detectLineEnding content;
          block = normalizeLineEndings (buildTagBlock (tc_commentSyntax config) port token attrs) le
      in case tc_insertBefore config of
           Some (a # anchor) \<Rightarrow> (case last_index_of content (a # anchor) of
               None \<Rightarrow> Inr content
             | Some i \<Rightarrow> Inr (take i content @ block @ drop i content))
         | _ \<Rightarrow> (case index_of content (case tc_insertAfter config of Some a \<Rightarrow> a | None \<Rightarrow> ''undefined'') of
               None \<Rightarrow> Inr content
             | Some i \<Rightarrow> (case tc_insertAfter config of
                 None \<Rightarrow> Inl TypeError
               | Some a \<Rightarrow>
                  (let after = i + length a; existing = readLineEndingAt content after;
                       pre = take after content @ (if existing \<noteq> [] then existing else le);
                       rest = drop (after + length existing) content
                   in Inr (pre @ block @ rest)))))"

section \<open>Removal\<close>

definition is_blank :: "char \<Rightarrow> bool" where
  "is_blank c = (c = CHR '' '' \<or> c = CHR 0x09)"

definition is_any :: "char \<Rightarrow> bool" where "is_any c = True"

definition newline_re :: re where
  "newline_re = alts [lit [CR, NL], lit [NL], lit [CR], Eol]"

definition tag_pattern :: "string \<Rightarrow> string \<Rightarrow> re" where
  "tag_pattern op cl = seq
     [Grp 1 (Many is_blank), lit op, Many is_ws, lit MARKER_OPEN_TEXT, Many is_ws, lit cl, Lazy is_any,
      lit op, Many is_ws, lit MARKER_CLOSE_TEXT, Many is_ws, lit cl, Grp 2 (Cat (Many is_blank) (Opt newline_re))]"

definition tag_replacement :: "exec_result \<Rightarrow> string" where
  "tag_replacement m =
     (let leadingIndent = group_text m 1; trailing = group_text m 2 in
      if list_ex (\<lambda>c. c = CR \<or> c = NL) trailing then leadingIndent
      else if leadingIndent \<noteq> [] then leadingIndent else trailing)"

text \<open>One turn of the loop: \<^verbatim>\<open>content.replace(pat, ...)\<close>, the first match only.\<close>

definition detag_once :: "re \<Rightarrow> string \<Rightarrow> string" where
  "detag_once pat content = (case re_exec pat content of
      None \<Rightarrow> content
    | Some m \<Rightarrow> take (ex_index m) content @ tag_replacement m @ drop (ex_index m + length (ex_text m)) content)"

text \<open>
  What a match consists of: the blanks that are captured, at least the four comment signs and the two
  markers, and the trailing part that is captured.
\<close>

lemma steps_Grp:
  assumes "(b', t, g') \<in> steps (Grp n r) (b, s, g)"
  obtains w g'' where "s = w @ t" "b' = rev w @ b" "g' = (n, w) # g''" "(b', t, g'') \<in> steps r (b, s, g)"
proof -
  obtain g'' where g: "g' = (n, take (length s - length t) s) # g''" "(b', t, g'') \<in> steps r (b, s, g)"
    using assms by auto
  then show thesis using steps_consume [OF g(2)] that by auto
qed

lemma steps_Many: "(b', t, g') \<in> steps (Many P) (b, s, g) \<longleftrightarrow> (\<exists>w. (\<forall>c \<in> set w. P c) \<and> s = w @ t \<and> b' = rev w @ b \<and> g' = g)"
  by auto

lemma steps_Lazy: "(b', t, g') \<in> steps (Lazy P) (b, s, g) \<longleftrightarrow> (\<exists>w. (\<forall>c \<in> set w. P c) \<and> s = w @ t \<and> b' = rev w @ b \<and> g' = g)"
  by auto

lemma steps_lit_iff: "(b', t, g') \<in> steps (lit p) (b, s, g) \<longleftrightarrow> s = p @ t \<and> b' = rev p @ b \<and> g' = g"
  by (auto simp: steps_lit starts_with_ex)

lemma steps_Cat_iff: "q \<in> steps (Cat r1 r2) st \<longleftrightarrow> (\<exists>b t g. (b, t, g) \<in> steps r1 st \<and> q \<in> steps r2 (b, t, g))"
  by auto

lemma tag_pattern_steps:
  assumes "(b', t, g) \<in> steps (tag_pattern op cl) (b, s, [])"
  obtains w1 x1 x2 y x3 x4 w2 where
    "s = w1 @ op @ x1 @ MARKER_OPEN_TEXT @ x2 @ cl @ y @ op @ x3 @ MARKER_CLOSE_TEXT @ x4 @ cl @ w2 @ t"
    "\<forall>c \<in> set w1. is_blank c" "\<forall>c \<in> set x1. is_ws c" "g = [(2, w2), (1, w1)]"
proof -
  have "\<exists>w1 x1 x2 y x3 x4 w2.
    s = w1 @ op @ x1 @ MARKER_OPEN_TEXT @ x2 @ cl @ y @ op @ x3 @ MARKER_CLOSE_TEXT @ x4 @ cl @ w2 @ t \<and>
    (\<forall>c \<in> set w1. is_blank c) \<and> (\<forall>c \<in> set x1. is_ws c) \<and> g = [(2, w2), (1, w1)]"
  proof -
    obtain b1 t1 g1 where 1: "(b1, t1, g1) \<in> steps (Grp 1 (Many is_blank)) (b, s, [])"
        "(b', t, g) \<in> steps (seq [lit op, Many is_ws, lit MARKER_OPEN_TEXT, Many is_ws, lit cl, Lazy is_any,
           lit op, Many is_ws, lit MARKER_CLOSE_TEXT, Many is_ws, lit cl, Grp 2 (Cat (Many is_blank) (Opt newline_re))]) (b1, t1, g1)"
      using assms unfolding tag_pattern_def seq.simps steps_Cat_iff [of _ "Grp 1 (Many is_blank)"] by blast
    obtain w1 where w1: "s = w1 @ t1" "\<forall>c \<in> set w1. is_blank c" "g1 = [(1, w1)]"
      using 1(1) by (elim steps_Grp) (auto simp: steps_Many)
    obtain b2 t2 x1 x2 y x3 x4 where 2: "t1 = op @ x1 @ MARKER_OPEN_TEXT @ x2 @ cl @ y @ op @ x3 @ MARKER_CLOSE_TEXT @ x4 @ cl @ t2"
        "\<forall>c \<in> set x1. is_ws c" "(b', t, g) \<in> steps (Grp 2 (Cat (Many is_blank) (Opt newline_re))) (b2, t2, g1)"
      using 1(2) unfolding seq.simps steps_Cat_iff steps_lit_iff steps_Many steps_Lazy by blast
    obtain w2 g2 b3 t3 g3 where "t2 = w2 @ t" "g = (2, w2) # g2" "(b3, t3, g3) \<in> steps (Many is_blank) (b2, t2, g1)"
        "(b', t, g2) \<in> steps (Opt newline_re) (b3, t3, g3)"
      using 2(3) by (elim steps_Grp) (simp add: steps_Cat_iff del: steps.simps, blast)
    moreover from this have "g2 = g1"
      by (auto simp: newline_re_def steps_lit_iff steps_Many simp del: lit.simps steps.simps(5) split: if_splits)
    ultimately have "s = w1 @ op @ x1 @ MARKER_OPEN_TEXT @ x2 @ cl @ y @ op @ x3 @ MARKER_CLOSE_TEXT @ x4 @ cl @ w2 @ t"
        "g = [(2, w2), (1, w1)]" using w1 2(1) by simp_all
    then show ?thesis using w1(2) 2(2) by blast
  qed
  then show thesis using that by blast
qed

lemma detag_match:
  assumes "re_exec (tag_pattern op cl) content = Some m"
  obtains core where "ex_text m = group_text m 1 @ core @ group_text m 2" "40 \<le> length core"
    "ex_index m + length (ex_text m) \<le> length content"
proof -
  obtain u b' t g where m: "content = u @ ex_text m @ t" "(b', t, g) \<in> steps (tag_pattern op cl) (rev u, ex_text m @ t, [])"
      "ex_index m = length u" "ex_groups m = g"
    by (rule re_exec_Some [OF assms])
  obtain w1 x1 x2 y x3 x4 w2 where w: "ex_text m @ t = w1 @ op @ x1 @ MARKER_OPEN_TEXT @ x2 @ cl @ y @ op @ x3 @ MARKER_CLOSE_TEXT @ x4 @ cl @ w2 @ t"
      "g = [(2, w2), (1, w1)]"
    by (rule tag_pattern_steps [OF m(2)])
  let ?core = "op @ x1 @ MARKER_OPEN_TEXT @ x2 @ cl @ y @ op @ x3 @ MARKER_CLOSE_TEXT @ x4 @ cl"
  have "ex_text m = w1 @ ?core @ w2" using w(1) by simp
  moreover have "group_text m 1 = w1" "group_text m 2 = w2" using m(4) w(2) by (simp_all add: group_text_def group_def)
  moreover have "40 \<le> length ?core" by (simp add: MARKER_OPEN_TEXT_def MARKER_CLOSE_TEXT_def)
  moreover have "ex_index m + length (ex_text m) \<le> length content" using m(1,3) by simp
  ultimately show thesis using that by metis
qed

text \<open>A turn that changes the text shortens it.\<close>

lemma tag_replacement_length: "length (tag_replacement m) \<le> length (group_text m 1) + length (group_text m 2)"
  by (simp add: tag_replacement_def Let_def)

lemma detag_once_shrinks:
  assumes "detag_once (tag_pattern op cl) content \<noteq> content"
  shows "length (detag_once (tag_pattern op cl) content) + 40 \<le> length content"
proof -
  obtain m where m: "re_exec (tag_pattern op cl) content = Some m"
    using assms by (auto simp: detag_once_def split: option.splits)
  obtain core where c: "ex_text m = group_text m 1 @ core @ group_text m 2" "40 \<le> length core"
      "ex_index m + length (ex_text m) \<le> length content" by (rule detag_match [OF m])
  have "length (detag_once (tag_pattern op cl) content) =
      ex_index m + length (tag_replacement m) + (length content - (ex_index m + length (ex_text m)))"
    using m c(3) by (simp add: detag_once_def)
  then show ?thesis using c tag_replacement_length [of m] by simp
qed

text \<open>The loop of \<^verbatim>\<open>removeTag\<close> for one of the two patterns, with its flag \<open>changed\<close>.\<close>

function detag_loop :: "string \<Rightarrow> string \<Rightarrow> string \<Rightarrow> bool \<Rightarrow> string \<times> bool" where
  "detag_loop op cl content changed =
     (let next = detag_once (tag_pattern op cl) content
      in if next = content then (content, changed) else detag_loop op cl next True)"
  by auto

termination
proof (relation "measure (\<lambda>(_, _, content, _). length content)")
  fix op cl content :: string and changed :: bool and x
  assume "x = detag_once (tag_pattern op cl) content" "x \<noteq> content"
  then show "((op, cl, x, True), op, cl, content, changed) \<in> measure (\<lambda>(_, _, content, _). length content)"
    using detag_once_shrinks [of op cl content] by simp
qed simp

declare detag_loop.simps [simp del]

definition removeTag :: "string \<Rightarrow> string" where
  "removeTag content =
     (let (c1, changed1) = detag_loop ''<!--'' ''-->'' content False in
      if changed1 then c1
      else (let (c2, changed2) = detag_loop ''{/*'' ''*/}'' c1 False in c2))"

section \<open>Meta tags of a content security policy\<close>

definition META_RE :: re where
  "META_RE = seq [lit_i ''<meta'', many1 is_ws, Grp 1 (Lazy (\<lambda>c. c \<noteq> CHR ''>'')), Opt (lit ''/''), lit ''>'']"

definition quoted_csp :: "char \<Rightarrow> re" where
  "quoted_csp q = seq [lit [q], lit_i ''Content-Security-Policy'', lit [q]]"

definition CSP_EQUIV_RE :: re where
  "CSP_EQUIV_RE = seq [Alt (lit_i ''http-equiv'') (lit_i ''httpEquiv''), Many is_ws, lit ''='', Many is_ws,
     Alt (quoted_csp (CHR 0x27)) (quoted_csp (CHR 0x22))]"

definition findCspMetaTags :: "string \<Rightarrow> exec_result list" where
  "findCspMetaTags content = filter (\<lambda>m. re_test CSP_EQUIV_RE (group_text m 1)) (match_all META_RE content)"

section \<open>Configuration\<close>

definition nonempty_strings :: "jsval \<Rightarrow> bool" where
  "nonempty_strings v = list_all (\<lambda>f. is_str f \<and> f \<noteq> JStr []) (arr_elems v)"

definition validateConfig :: "jsval \<Rightarrow> unit js" where
  "validateConfig cfg =
     (let files = dot cfg ''files''; excl = dot cfg ''exclude'' in
      if \<not> truthy cfg \<or> \<not> typeof_object cfg then Inl (Thrown ''config.json must be an object'')
      else if \<not> is_arr files \<or> arr_elems files = [] then Inl (Thrown ''config.files (non-empty string array) required'')
      else if \<not> nonempty_strings files then Inl (Thrown ''config.files must contain only non-empty strings'')
      else if excl \<noteq> JUndef \<and> \<not> is_arr excl then Inl (Thrown ''config.exclude, if present, must be a string array'')
      else if excl \<noteq> JUndef \<and> \<not> nonempty_strings excl then Inl (Thrown ''config.exclude must contain only non-empty strings'')
      else if \<not> is_str (dot cfg ''insertBefore'') \<and> \<not> is_str (dot cfg ''insertAfter'')
        then Inl (Thrown ''config.insertBefore or config.insertAfter (string) required'')
      else if dot cfg ''commentSyntax'' \<noteq> JStr ''html'' \<and> dot cfg ''commentSyntax'' \<noteq> JStr ''jsx''
        then Inl (Thrown (''config.commentSyntax must be '' @ [CHR 0x27] @ ''html'' @ [CHR 0x27] @ '' or '' @ [CHR 0x27] @ ''jsx'' @ [CHR 0x27]))
      else (case dot cfg ''cspChecked'' of JUndef \<Rightarrow> Inr () | JBool _ \<Rightarrow> Inr ()
        | _ \<Rightarrow> Inl (Thrown ''config.cspChecked, if present, must be a boolean'')))"

fun anchor_of :: "jsval \<Rightarrow> string option" where
  "anchor_of (JStr s) = Some s"
| "anchor_of _ = None"

definition tag_config_of :: "jsval \<Rightarrow> tag_config" where
  "tag_config_of cfg = \<lparr>tc_insertBefore = anchor_of (dot cfg ''insertBefore''), tc_insertAfter = anchor_of (dot cfg ''insertAfter''),
     tc_commentSyntax = js_text (dot cfg ''commentSyntax'')\<rparr>"

end
