(* ===== verification/Variant_Wrap.thy ===== *)
theory Variant_Wrap
  imports Source_Search Tag_Injection Manual_Edits
begin

text \<open>
  Wrapping the picked element (\<^verbatim>\<open>scripts/live-wrap.mjs\<close>): the element is found in a source file,
  staged copy edits are applied to the copy that the wrapper embeds, and the element is replaced by
  the wrapper, or the text of the wrapper is only computed.

  A file is a list of lines. The search for the file and the preparation of a Svelte component
  are parameters of the command; \<open>Source_Search\<close> has the search.
\<close>

section \<open>Arguments\<close>

fun following :: "string list \<Rightarrow> string \<Rightarrow> string option" where
  "following [] flag = None"
| "following [a] flag = None"
| "following (a # b # rest) flag = (if a = flag then Some b else following (b # rest) flag)"

definition wrap_argVal :: "string list \<Rightarrow> string \<Rightarrow> string option" where
  "wrap_argVal args flag = (case find (\<lambda>arg. starts_with arg (flag @ ''='')) args of
      Some arg \<Rightarrow> Some (drop (length flag + 1) arg)
    | None \<Rightarrow> following args flag)"

section \<open>Queries\<close>

definition splitClassList :: "string \<Rightarrow> string list" where
  "splitClassList classes = filter (\<lambda>c. c \<noteq> []) (map trim (comma_parts classes))"

definition quoted :: "string \<Rightarrow> string" where "quoted s = ''\"'' @ s @ ''\"''"

text \<open>\<open>None\<close> and the empty text are both absent. Without a class the code writes \<^verbatim>\<open>undefined\<close>.\<close>

definition present :: "string option \<Rightarrow> bool" where
  "present x = (case x of None \<Rightarrow> False | Some s \<Rightarrow> s \<noteq> [])"

definition class_queries :: "string list \<Rightarrow> string list" where
  "class_queries classList =
     (if 1 < length classList
      then [''class='' @ quoted (join_with '' '' classList), ''className='' @ quoted (join_with '' '' classList)] @
           sort_key (\<lambda>c. - int (length c)) classList
      else classList)"

definition buildSearchQueries :: "string option \<Rightarrow> string option \<Rightarrow> string option \<Rightarrow> string option \<Rightarrow> string list" where
  "buildSearchQueries elementId classes tag query =
     (if present elementId then [''id='' @ quoted (the elementId)] else []) @
     (if present classes then class_queries (splitClassList (the classes)) else []) @
     (if present tag \<and> present classes
      then (let firstClass = (case splitClassList (the classes) of [] \<Rightarrow> ''undefined'' | c # _ \<Rightarrow> c)
            in [''<'' @ the tag @ '' class=\"'' @ firstClass, ''<'' @ the tag @ '' className=\"'' @ firstClass]) else []) @
     (if present query then [the query] else [])"

section \<open>Finding the element\<close>

definition is_letter :: "char \<Rightarrow> bool" where
  "is_letter c = (let n = (of_char c :: nat) in (65 \<le> n \<and> n \<le> 90) \<or> (97 \<le> n \<and> n \<le> 122))"

definition is_alnum :: "char \<Rightarrow> bool" where "is_alnum c = (is_letter c \<or> is_digit c)"

definition tag_end :: "char \<Rightarrow> bool" where "tag_end c = (is_ws c \<or> c = CHR ''/'' \<or> c = CHR ''>'')"

definition OPENER_RE :: re where
  "OPENER_RE = seq [lit ''<'', Grp 1 (Cat (Cls is_letter) (Many is_alnum)), Peek tag_end]"

definition opener_tag :: "string \<Rightarrow> string option" where
  "opener_tag line = (case re_exec OPENER_RE line of None \<Rightarrow> None | Some m \<Rightarrow> group m 1)"

definition leading_ws :: "string \<Rightarrow> string" where "leading_ws l = takeWhile is_ws l"

definition is_blank_line :: "string \<Rightarrow> bool" where "is_blank_line l = (trim l = [])"

definition minLeadingSpaces :: "string list \<Rightarrow> nat" where
  "minLeadingSpaces lines = (case map (length \<circ> leading_ws) (filter (\<lambda>l. \<not> is_blank_line l) lines) of
     [] \<Rightarrow> 0 | n # ns \<Rightarrow> foldl min n ns)"

definition MAX_BACKWALK :: nat where "MAX_BACKWALK = 10"

text \<open>The lines above the match, nearest first, with their indices.\<close>

fun back_opener :: "string option \<Rightarrow> (nat \<times> string) list \<Rightarrow> nat option" where
  "back_opener tag [] = None"
| "back_opener tag ((i, line) # prior) = (case opener_tag line of
     None \<Rightarrow> back_opener tag prior
   | Some t \<Rightarrow> if \<not> present tag \<or> tag = Some t then Some i else None)"

definition findOpenerLine :: "string list \<Rightarrow> nat \<Rightarrow> string option \<Rightarrow> nat option" where
  "findOpenerLine lines matchLine tag = (case opener_tag (lines ! matchLine) of
      Some t \<Rightarrow> if \<not> present tag \<or> tag = Some t then Some matchLine else None
    | None \<Rightarrow> back_opener tag (take MAX_BACKWALK (rev (zip [0..<matchLine] (take matchLine lines)))))"

definition count_matches :: "re \<Rightarrow> string \<Rightarrow> int" where
  "count_matches r line = int (length (match_all r line))"

definition line_depth :: "string \<Rightarrow> string \<Rightarrow> int" where
  "line_depth tagName line =
     count_matches (Cat (lit (CHR ''<'' # tagName)) (Peek tag_end)) line
     - count_matches (seq [lit (CHR ''<'' # tagName), Many (\<lambda>c. c \<noteq> CHR ''>''), lit ''/>'']) line
     - count_matches (seq [lit (''</'' @ tagName), Many is_ws, lit ''>'']) line"

fun close_from :: "string \<Rightarrow> int \<Rightarrow> nat \<Rightarrow> string list \<Rightarrow> nat option" where
  "close_from tagName depth i [] = None"
| "close_from tagName depth i (line # lines) =
     (let depth' = depth + line_depth tagName line
      in if depth' \<le> 0 then Some i else close_from tagName depth' (Suc i) lines)"

definition findClosingLine :: "string list \<Rightarrow> nat \<Rightarrow> nat" where
  "findClosingLine lines start = (case opener_tag (lines ! start) of
      None \<Rightarrow> start
    | Some tagName \<Rightarrow> (case close_from tagName 0 start (drop start lines) of
        Some i \<Rightarrow> i
      | None \<Rightarrow> min (start + 50) (length lines - 1)))"

definition considered :: "string \<Rightarrow> string \<Rightarrow> bool" where
  "considered query line =
     (str_includes line query \<and>
      \<not> (let s = trim line in starts_with s ''<!--'' \<or> starts_with s ''{/*'' \<or> starts_with s ''//'') \<and>
      \<not> str_includes line ''data-impeccable-variant'')"

text \<open>The openers that the matching lines resolve to, in the order of the lines.\<close>

definition openers :: "string list \<Rightarrow> string \<Rightarrow> string option \<Rightarrow> nat list" where
  "openers lines query tag =
     concat (map (\<lambda>i. if considered query (lines ! i)
        then (case findOpenerLine lines i tag of None \<Rightarrow> [] | Some o' \<Rightarrow> [o']) else []) [0..<length lines])"

type_synonym range = "nat \<times> nat"

definition findElement :: "string list \<Rightarrow> string \<Rightarrow> string option \<Rightarrow> range option" where
  "findElement lines query tag = (case openers lines query tag of
     [] \<Rightarrow> None | o' # _ \<Rightarrow> Some (o', findClosingLine lines o'))"

definition findAllElements :: "string list \<Rightarrow> string \<Rightarrow> string option \<Rightarrow> range list" where
  "findAllElements lines query tag =
     map (\<lambda>o'. (o', findClosingLine lines o')) (unique_from [] (openers lines query tag))"

section \<open>Disambiguation by text\<close>

definition single_spaced :: "string \<Rightarrow> string" where
  "single_spaced s = replace_all (many1 is_ws) (\<lambda>_. '' '') s"

definition drop_ws :: "string \<Rightarrow> string" where
  "drop_ws s = replace_all (many1 is_ws) (\<lambda>_. []) s"

definition TAGS_RE :: re where
  "TAGS_RE = seq [lit ''<'', Many (\<lambda>c. c \<noteq> CHR ''>''), lit ''>'']"

definition BRACES_RE :: re where
  "BRACES_RE = seq [lit ''{'', Many (\<lambda>c. c \<noteq> CHR ''}''), lit ''}'']"

definition slice_lines :: "range \<Rightarrow> string list \<Rightarrow> string list" where
  "slice_lines r lines = drop (fst r) (take (Suc (snd r)) lines)"

definition body_matches :: "string \<Rightarrow> string list \<Rightarrow> range \<Rightarrow> bool" where
  "body_matches target lines c =
     (let inner = toLowerCase (replace_all BRACES_RE (\<lambda>_. '' '') (replace_all TAGS_RE (\<lambda>_. '' '') (join_with '' '' (slice_lines c lines))))
      in str_includes (trim (single_spaced inner)) target \<or> str_includes (drop_ws inner) (drop_ws target))"

definition filterByText :: "range list \<Rightarrow> string list \<Rightarrow> string \<Rightarrow> range list" where
  "filterByText candidates lines text =
     (let trimmed = take 80 (toLowerCase (trim (single_spaced text)))
      in if length trimmed < 8 then [] else filter (body_matches trimmed lines) candidates)"

section \<open>Staged copy edits\<close>

fun js_filter :: "('a \<Rightarrow> bool js) \<Rightarrow> 'a list \<Rightarrow> 'a list js" where
  "js_filter p [] = Inr []"
| "js_filter p (x # xs) = (case p x of Inl e \<Rightarrow> Inl e
     | Inr b \<Rightarrow> (case js_filter p xs of Inl e \<Rightarrow> Inl e | Inr ys \<Rightarrow> Inr (if b then x # ys else ys)))"

fun js_some :: "('a \<Rightarrow> bool js) \<Rightarrow> 'a list \<Rightarrow> bool js" where
  "js_some p [] = Inr False"
| "js_some p (x # xs) = (case p x of Inl e \<Rightarrow> Inl e | Inr True \<Rightarrow> Inr True | Inr False \<Rightarrow> js_some p xs)"

text \<open>The index that the hint of an operation gives; it may be a fraction or out of range.\<close>

definition hinted_index :: "jsval \<Rightarrow> nat \<Rightarrow> rat option" where
  "hinted_index oper start = (case to_number (dot (dot oper ''sourceHint'') ''line'') of
     Fin q \<Rightarrow> Some (q - 1 - of_nat start) | _ \<Rightarrow> None)"

text \<open>\<^verbatim>\<open>lines[i].includes(text)\<close> inside of the bounds: there is no line at a fraction.\<close>

definition line_at_includes :: "string list \<Rightarrow> rat \<Rightarrow> string \<Rightarrow> bool js" where
  "line_at_includes lines i text =
     (if 0 \<le> i \<and> i < of_nat (length lines)
      then (if is_integral i then Inr (str_includes (lines ! nat \<lfloor>i\<rfloor>) text) else Inl TypeError)
      else Inr False)"

definition lineMatchesManualEditLocator :: "string \<Rightarrow> jsval \<Rightarrow> bool" where
  "lineMatchesManualEditLocator line oper =
     ((truthy (dot oper ''tag'') \<longrightarrow>
         re_test (seq [lit ''<'', Many is_ws, lit_i (js_text (dot oper ''tag'')), Peek tag_end]) line) \<and>
      (truthy (dot oper ''elementId'') \<longrightarrow>
         re_test (seq [Boundary, lit ''id'', Many is_ws, lit ''='', Many is_ws, Cls is_quote,
            lit (js_text (dot oper ''elementId'')), Cls is_quote]) line) \<and>
      list_all (\<lambda>c. str_includes line (js_text c)) (filter truthy (arr_elems (dot oper ''classes''))))"

definition manualEditHintFallsInsideSelection :: "jsval \<Rightarrow> string list \<Rightarrow> string list \<Rightarrow> nat \<Rightarrow> string \<Rightarrow> bool js" where
  "manualEditHintFallsInsideSelection oper targetAbs originalLines start cwd =
     (let hintFile = dot (dot oper ''sourceHint'') ''file'' in
      case hinted_index oper start of
        None \<Rightarrow> Inr False
      | Some i \<Rightarrow>
         if \<not> truthy hintFile then Inr False
         else (case hintFile of
             JStr f \<Rightarrow>
               if resolve_segments cwd f \<noteq> targetAbs then Inr False
               else (case dot oper ''originalText'' of JStr t \<Rightarrow> line_at_includes originalLines i t | _ \<Rightarrow> Inr False)
           | _ \<Rightarrow> Inl TypeError))"

definition manualEditLocatorMatchesSelection :: "jsval \<Rightarrow> string list \<Rightarrow> bool" where
  "manualEditLocatorMatchesSelection oper originalLines = (case dot oper ''originalText'' of
      JStr t \<Rightarrow> t \<noteq> [] \<and> list_ex (\<lambda>line. str_includes line t \<and> lineMatchesManualEditLocator line oper) originalLines
    | _ \<Rightarrow> False)"

definition manualEditMayAffectWrap :: "jsval \<Rightarrow> string \<Rightarrow> string list \<Rightarrow> nat \<Rightarrow> string \<Rightarrow> bool js" where
  "manualEditMayAffectWrap oper targetFile originalLines start cwd =
     (case manualEditHintFallsInsideSelection oper (resolve_segments cwd targetFile) originalLines start cwd of
        Inl e \<Rightarrow> Inl e
      | Inr True \<Rightarrow> Inr True
      | Inr False \<Rightarrow> Inr (manualEditLocatorMatchesSelection oper originalLines \<or>
          (case dot oper ''originalText'' of
             JStr t \<Rightarrow> t \<noteq> [] \<and> str_includes (join_with [NL] originalLines) t | _ \<Rightarrow> False)))"

definition pendingEntriesThatMayAffectWrap :: "bentry list \<Rightarrow> string \<Rightarrow> string list \<Rightarrow> nat \<Rightarrow> string \<Rightarrow> bentry list js" where
  "pendingEntriesThatMayAffectWrap entries targetFile originalLines start cwd =
     js_filter (\<lambda>e. js_some (\<lambda>oper. manualEditMayAffectWrap oper targetFile originalLines start cwd) (be_ops e)) entries"

definition replaceOnce :: "string \<Rightarrow> string \<Rightarrow> string \<Rightarrow> string" where
  "replaceOnce v needle replacement = (case index_of v needle of
      None \<Rightarrow> v
    | Some i \<Rightarrow> take i v @ replacement @ drop (i + length needle) v)"

lemma index_of_bound: "index_of s p = Some i \<Longrightarrow> i + length p \<le> length s"
proof (induction s p arbitrary: i rule: index_of.induct)
  case (2 c cs p)
  show ?case
  proof (cases "starts_with (c # cs) p")
    case True
    then obtain t where "c # cs = p @ t" by (auto simp: starts_with_ex)
    then have "length p \<le> length (c # cs)" by simp
    moreover have "i = 0" using "2.prems" True by simp
    ultimately show ?thesis by simp
  next
    case False
    then show ?thesis using 2 by auto
  qed
qed (auto split: if_splits)

function countOccurrences :: "string \<Rightarrow> string \<Rightarrow> nat" where
  "countOccurrences v needle =
     (if needle = [] then 0
      else (case index_of v needle of None \<Rightarrow> 0 | Some i \<Rightarrow> Suc (countOccurrences (drop (i + length needle) v) needle)))"
  by pat_completeness auto

termination
proof (relation "measure (\<lambda>(v, _). length v)")
  fix v needle i
  assume "needle \<noteq> []" "index_of v needle = Some i"
  then show "((drop (i + length needle) v, needle), v, needle) \<in> measure (\<lambda>(v, _). length v)"
    using index_of_bound [of v needle i] by (cases needle) auto
qed simp

declare countOccurrences.simps [simp del]

definition replace_line :: "string list \<Rightarrow> nat \<Rightarrow> string \<Rightarrow> string \<Rightarrow> string list" where
  "replace_line lines i old new = (if i < length lines then lines[i := replaceOnce (lines ! i) old new] else lines)"

definition applyBufferedManualEditToLines :: "string list \<Rightarrow> nat \<Rightarrow> jsval \<Rightarrow> (string list \<times> bool) js" where
  "applyBufferedManualEditToLines originalLines start oper =
     (case (dot oper ''originalText'', dot oper ''newText'') of
        (JStr old, JStr new) \<Rightarrow>
          if old = [] then Inr (originalLines, False)
          else
           (case (case hinted_index oper start of None \<Rightarrow> Inr False | Some i \<Rightarrow> line_at_includes originalLines i old) of
              Inl e \<Rightarrow> Inl e
            | Inr True \<Rightarrow> Inr (replace_line originalLines (nat \<lfloor>the (hinted_index oper start)\<rfloor>) old new, True)
            | Inr False \<Rightarrow>
               (case filter (\<lambda>i. str_includes (originalLines ! i) old \<and> lineMatchesManualEditLocator (originalLines ! i) oper)
                       [0..<length originalLines] of
                  [i] \<Rightarrow> Inr (replace_line originalLines i old new, True)
                | _ \<Rightarrow>
                   (let originalBlock = join_with [NL] originalLines in
                    if countOccurrences originalBlock old = 1
                    then Inr (split_on NL (replaceOnce originalBlock old new), True)
                    else Inr (originalLines, False))))
      | _ \<Rightarrow> Inr (originalLines, False))"

text \<open>The loop over the operations of the page: the lines so far and the operations that failed.\<close>

definition buffered_op :: "string \<Rightarrow> nat \<Rightarrow> string \<Rightarrow> jsval \<times> jsval \<Rightarrow> (string list \<times> (jsval \<times> jsval) list) js \<Rightarrow>
    (string list \<times> (jsval \<times> jsval) list) js" where
  "buffered_op targetFile start cwd eo acc = (case acc of
      Inl e \<Rightarrow> Inl e
    | Inr (lines, failed) \<Rightarrow>
       (case manualEditMayAffectWrap (snd eo) targetFile lines start cwd of
          Inl e \<Rightarrow> Inl e
        | Inr may \<Rightarrow> (case applyBufferedManualEditToLines lines start (snd eo) of
            Inl e \<Rightarrow> Inl e
          | Inr (lines', changed) \<Rightarrow>
              if changed then Inr (lines', failed)
              else Inr (lines, if may then failed @ [eo] else failed))))"

definition apply_buffer :: "string \<Rightarrow> nat \<Rightarrow> string \<Rightarrow> string \<Rightarrow> bentry list \<Rightarrow> string list \<Rightarrow> (string list \<times> (jsval \<times> jsval) list) js" where
  "apply_buffer targetFile start cwd pageUrl entries lines =
     fold (buffered_op targetFile start cwd)
       (concat (map (\<lambda>e. map (Pair (be_id e)) (be_ops e)) (filter (\<lambda>e. be_pageUrl e = JStr pageUrl) entries))) (Inr (lines, []))"

section \<open>The wrapper\<close>

definition comment :: "bool \<Rightarrow> string \<Rightarrow> string" where
  "comment isJsx body = (if isJsx then ''{/*'' else ''<!--'') @ '' '' @ body @ '' '' @ (if isJsx then ''*/}'' else ''-->'')"

definition reindentOriginal :: "string \<Rightarrow> string \<Rightarrow> string list \<Rightarrow> string list" where
  "reindentOriginal indent extra originalLines =
     map (\<lambda>l. if is_blank_line l then [] else indent @ extra @ drop (minLeadingSpaces originalLines) l) originalLines"

definition wrapper_div :: "bool \<Rightarrow> string \<Rightarrow> string \<Rightarrow> string" where
  "wrapper_div isJsx sid cnt =
     ''<div data-impeccable-variants='' @ quoted sid @ '' data-impeccable-variant-count='' @ quoted cnt @ '' '' @
     (if isJsx then ''style={{ display: \"contents\" }}'' else ''style=\"display: contents\"'') @ ''>''"

definition ORIGINAL_DIV :: string where "ORIGINAL_DIV = ''<div data-impeccable-variant=\"original\">''"

definition wrapper_lines :: "bool \<Rightarrow> string \<Rightarrow> string \<Rightarrow> string \<Rightarrow> string list \<Rightarrow> string list" where
  "wrapper_lines isJsx sid cnt indent originalLines =
     (let original = join_with [NL] (reindentOriginal indent ''    '' originalLines) in
      if isJsx then
        [indent @ wrapper_div isJsx sid cnt,
         indent @ ''  '' @ comment isJsx (''impeccable-variants-start '' @ sid),
         indent @ ''  '' @ comment isJsx ''Original'',
         indent @ ''  '' @ ORIGINAL_DIV,
         original,
         indent @ ''  </div>'',
         indent @ ''  '' @ comment isJsx ''Variants: insert below this line'',
         indent @ ''  '' @ comment isJsx (''impeccable-variants-end '' @ sid),
         indent @ ''</div>'']
      else
        [indent @ comment isJsx (''impeccable-variants-start '' @ sid),
         indent @ wrapper_div isJsx sid cnt,
         indent @ ''  '' @ comment isJsx ''Original'',
         indent @ ''  '' @ ORIGINAL_DIV,
         original,
         indent @ ''  </div>'',
         indent @ ''  '' @ comment isJsx ''Variants: insert below this line'',
         indent @ ''</div>'',
         indent @ comment isJsx (''impeccable-variants-end '' @ sid)])"

definition wrap_isJsx :: "string \<Rightarrow> bool" where
  "wrap_isJsx filePath = (tr_commentSyntax (resolveSourceTraits filePath) = ''jsx'')"

text \<open>The content of the file after the wrapper took the place of the lines of the element.\<close>

definition wrap_content :: "bool \<Rightarrow> string \<Rightarrow> string \<Rightarrow> range \<Rightarrow> string list \<Rightarrow> string list \<Rightarrow> string" where
  "wrap_content isJsx sid cnt r originalLines lines =
     join_with [NL] (take (fst r) lines @ wrapper_lines isJsx sid cnt (leading_ws (lines ! fst r)) originalLines @ drop (Suc (snd r)) lines)"

section \<open>The command\<close>

record wrap_request =
  wr_id :: "string option"
  wr_count :: jsnum
  wr_elementId :: "string option"
  wr_classes :: "string option"
  wr_tag :: "string option"
  wr_query :: "string option"
  wr_file :: "string option"
  wr_text :: "string option"
  wr_pageUrl :: "string option"
  wr_defer :: bool

text \<open>
  What surrounds the command: the directory, the search with and without generated files, the test
  for generated files, the staged edits, the variable that turns component previews off, and the
  preparation of a component, which returns the reason of a refusal or the file of its manifest.
\<close>

record wrap_env =
  we_cwd :: string
  we_find :: "bool \<Rightarrow> string \<Rightarrow> string option"
  we_generated :: "string \<Rightarrow> bool"
  we_buffer :: buffer_file
  we_svelteFlag :: string
  we_scaffold :: "string \<Rightarrow> range \<Rightarrow> string list \<Rightarrow> string + string"

datatype wrap_error =
    Missing_Id
  | Missing_Selector
  | Element_Not_In_Source string
  | Element_Not_Found
  | File_Is_Generated
  | File_Unreadable
  | Not_Located "string list"
  | Rendered_Text_Not_In_Source "range list"
  | Element_Ambiguous "range list"
  | Missing_Page_Url nat
  | Buffer_Apply_Failed "(jsval \<times> jsval) list"
  | Crashed js_error

record wrap_output =
  wo_file :: string
  wo_startLine :: nat
  wo_endLine :: nat
  wo_insertLine :: nat
  wo_wrapperBlock :: "string option"
  wo_replace :: "range option"
  wo_previewFallback :: "string option"
  wo_originalLineCount :: nat

type_synonym file_map = "string \<Rightarrow> string option"

definition wrap_target :: "wrap_env \<Rightarrow> wrap_request \<Rightarrow> string list \<Rightarrow> wrap_error + string" where
  "wrap_target env rq queries = (case wr_file rq of
      Some (c # cs) \<Rightarrow> if we_generated env (c # cs) then Inl File_Is_Generated else Inr (c # cs)
    | _ \<Rightarrow>
       (case filter (\<lambda>q. we_find env False q \<noteq> None) queries of
          q # _ \<Rightarrow> Inr (the (we_find env False q))
        | [] \<Rightarrow> (case filter (\<lambda>q. we_find env True q \<noteq> None) queries of
            q # _ \<Rightarrow> Inl (Element_Not_In_Source (the (we_find env True q)))
          | [] \<Rightarrow> Inl Element_Not_Found)))"

text \<open>The candidates of the queries, until exactly one is known.\<close>

fun candidates_of :: "string list \<Rightarrow> string option \<Rightarrow> string list \<Rightarrow> range list \<Rightarrow> range list" where
  "candidates_of lines tag [] cands = cands"
| "candidates_of lines tag (q # qs) cands =
     (let cands' = cands @ filter (\<lambda>c. fst c \<notin> fst ` set cands) (findAllElements lines q tag)
      in if length cands' = 1 then cands' else candidates_of lines tag qs cands')"

definition wrap_match :: "wrap_request \<Rightarrow> string list \<Rightarrow> string list \<Rightarrow> wrap_error + range" where
  "wrap_match rq queries lines =
     (if present (wr_text rq) then
       (let text = the (wr_text rq); cands = candidates_of lines (wr_tag rq) queries [] in
        case cands of
          [] \<Rightarrow> Inl (Not_Located queries)
        | [c] \<Rightarrow> Inr c
        | c # _ \<Rightarrow>
           (case filterByText cands lines text of
              [m] \<Rightarrow> Inr m
            | [] \<Rightarrow> if length (trim (single_spaced text)) < 8 then Inr c else Inl (Rendered_Text_Not_In_Source cands)
            | m # ms \<Rightarrow> Inl (Element_Ambiguous (m # ms))))
      else (case concat (map (\<lambda>q. case findElement lines q (wr_tag rq) of None \<Rightarrow> [] | Some m \<Rightarrow> [m]) queries) of
          [] \<Rightarrow> Inl (Not_Located queries)
        | m # _ \<Rightarrow> Inr m))"

definition wrap_original :: "wrap_env \<Rightarrow> wrap_request \<Rightarrow> string \<Rightarrow> range \<Rightarrow> string list \<Rightarrow> wrap_error + string list" where
  "wrap_original env rq targetFile r original =
     (let entries = readBuffer (we_buffer env) in
      if present (wr_pageUrl rq) then
        (case apply_buffer targetFile (fst r) (we_cwd env) (the (wr_pageUrl rq)) entries original of
           Inl e \<Rightarrow> Inl (Crashed e)
         | Inr (lines, failed) \<Rightarrow> if failed \<noteq> [] then Inl (Buffer_Apply_Failed failed) else Inr lines)
      else
        (case pendingEntriesThatMayAffectWrap entries targetFile original (fst r) (we_cwd env) of
           Inl e \<Rightarrow> Inl (Crashed e)
         | Inr pending \<Rightarrow> if pending \<noteq> [] then Inl (Missing_Page_Url (length pending)) else Inr original))"

definition SVELTE_OFF :: re where
  "SVELTE_OFF = seq [Bol, alts [lit_i ''0'', lit_i ''false'', lit_i ''no''], Eol]"

definition useSvelteComponent :: "wrap_env \<Rightarrow> string \<Rightarrow> bool" where
  "useSvelteComponent env targetFile =
     (tr_preview (resolveSourceTraits targetFile) = ''component'' \<and>
      \<not> re_test SVELTE_OFF (we_svelteFlag env) \<and> file_ext targetFile = ''.svelte'')"

definition wrap_source :: "wrap_request \<Rightarrow> string \<Rightarrow> range \<Rightarrow> string list \<Rightarrow> string list \<Rightarrow> string option \<Rightarrow> file_map \<Rightarrow> file_map \<times> wrap_output" where
  "wrap_source rq targetFile r original lines fallback fs =
     (let isJsx = wrap_isJsx targetFile; sid = the (wr_id rq); cnt = js_text (JNum (wr_count rq));
          wrapper = wrapper_lines isJsx sid cnt (leading_ws (lines ! fst r)) original;
          out = \<lparr>wo_file = targetFile, wo_startLine = fst r + 1, wo_endLine = fst r + length wrapper + (length original - 1),
            wo_insertLine = fst r + 6 + (length original - 1) + 1, wo_wrapperBlock = None, wo_replace = None,
            wo_previewFallback = fallback, wo_originalLineCount = length original\<rparr>
      in if wr_defer rq
         then (fs, out\<lparr>wo_wrapperBlock := Some (join_with [NL] wrapper), wo_replace := Some (fst r + 1, snd r + 1)\<rparr>)
         else (fs(targetFile \<mapsto> wrap_content isJsx sid cnt r original lines), out))"

definition wrapCli :: "wrap_env \<Rightarrow> wrap_request \<Rightarrow> file_map \<Rightarrow> file_map \<times> (wrap_error + wrap_output)" where
  "wrapCli env rq fs =
     (if \<not> present (wr_id rq) then (fs, Inl Missing_Id)
      else if \<not> present (wr_elementId rq) \<and> \<not> present (wr_classes rq) \<and> \<not> present (wr_query rq) then (fs, Inl Missing_Selector)
      else
       (let queries = buildSearchQueries (wr_elementId rq) (wr_classes rq) (wr_tag rq) (wr_query rq) in
        case wrap_target env rq queries of
          Inl e \<Rightarrow> (fs, Inl e)
        | Inr targetFile \<Rightarrow> (case fs targetFile of
            None \<Rightarrow> (fs, Inl File_Unreadable)
          | Some content \<Rightarrow>
             (let lines = split_on NL content in
              case wrap_match rq queries lines of
                Inl e \<Rightarrow> (fs, Inl e)
              | Inr r \<Rightarrow> (case wrap_original env rq targetFile r (slice_lines r lines) of
                  Inl e \<Rightarrow> (fs, Inl e)
                | Inr original \<Rightarrow>
                   if useSvelteComponent env targetFile then
                     (case we_scaffold env targetFile r original of
                        Inl reason \<Rightarrow> map_prod id Inr (wrap_source rq targetFile r original lines (Some reason) fs)
                      | Inr manifestFile \<Rightarrow> (fs, Inr \<lparr>wo_file = manifestFile, wo_startLine = 1, wo_endLine = 1, wo_insertLine = 1,
                          wo_wrapperBlock = None, wo_replace = None, wo_previewFallback = None, wo_originalLineCount = length original\<rparr>))
                   else map_prod id Inr (wrap_source rq targetFile r original lines None fs))))))"

end
