(* ===== verification/Edit_Verify.thy ===== *)
theory Edit_Verify
  imports Apply_Properties Variant_Wrap
begin

text \<open>
  What the commit of staged copy edits checks (\<^verbatim>\<open>scripts/live-commit-manual-edits.mjs\<close>, first part): the lists
  of a batch, the paths of a project, and whether the sources show the operations of an entry.

  The objects of a batch are of the shape that the evidence gives them. Files are a map from absolute
  paths to contents: a path that exists is a readable file. The answer of git on ignored files is a parameter.
\<close>

section \<open>Lists of a batch\<close>

text \<open>\<^verbatim>\<open>ids.includes(entry.id)\<close>: the lists of ids hold strings.\<close>

definition includes_id :: "string list \<Rightarrow> jsval \<Rightarrow> bool" where
  "includes_id ids x = (case x of JStr i \<Rightarrow> i \<in> set ids | _ \<Rightarrow> False)"

definition commit_countOps :: "jsval list \<Rightarrow> nat" where
  "commit_countOps entries = sum_list (map (\<lambda>e. length (entry_ops e)) entries)"

definition summarizeAppliedEntries :: "jsval list \<Rightarrow> string list \<Rightarrow> jsval list" where
  "summarizeAppliedEntries entries appliedEntryIds = concat (map (\<lambda>e.
     if includes_id appliedEntryIds (dot e ''id'')
     then map (\<lambda>oper. JObj [(''id'', dot e ''id''), (''ref'', dot oper ''ref''), (''originalText'', dot oper ''originalText''), (''newText'', dot oper ''newText'')]) (entry_ops e)
     else []) entries)"

definition batch_candidates :: "jsval \<Rightarrow> jsval list" where
  "batch_candidates batch = arr_elems (dot batch ''candidates'')"

definition candidatesForEntry :: "jsval \<Rightarrow> jsval \<Rightarrow> jsval list" where
  "candidatesForEntry batch entryId = take 12 (concat (map (\<lambda>c.
     (if truthy (dot c ''sourceHint'') then [dot c ''sourceHint''] else []) @
     concat (map (\<lambda>k. arr_elems (dot c k)) [''textMatches'', ''objectKeyMatches'', ''locatorMatches'', ''contextTextMatches'']))
     (filter (\<lambda>c. strict_eq (dot c ''entryId'') entryId) (batch_candidates batch))))"

definition failed_key :: "jsval \<Rightarrow> jsval" where
  "failed_key item = js_or (dot item ''entryId'') (js_or (dot item ''id'') JNull)"

text \<open>A later item of the same entry takes the place of an earlier one.\<close>

definition normalizeFailedEntries :: "jsval \<Rightarrow> jsval list \<Rightarrow> jsval \<Rightarrow> jsval list" where
  "normalizeFailedEntries batch items fallbackReason = List.map_filter (\<lambda>e.
     map_option (\<lambda>item. JObj [(''id'', dot e ''id''),
         (''reason'', js_or (dot item ''reason'') (js_or (dot item ''message'') (js_or fallbackReason (JStr ''failed'')))),
         (''candidates'', if arr_elems (dot item ''candidates'') \<noteq> [] then dot item ''candidates'' else JArr (candidatesForEntry batch (dot e ''id'')))])
       (find (\<lambda>item. truthy (failed_key item) \<and> strict_eq (failed_key item) (dot e ''id'')) (rev items))) (batch_entries batch)"

fun merge_failed_into :: "string \<Rightarrow> jsval \<Rightarrow> jsval list \<Rightarrow> jsval list" where
  "merge_failed_into i item [] = [item]"
| "merge_failed_into i item (old # out) =
     (if dot old ''id'' = JStr i
      then JObj (obj_set (obj_set (obj_merge (own_props old) (own_props item))
             ''candidates'' (js_or (dot item ''candidates'') (dot old ''candidates'')))
             ''checks'' (js_or (dot item ''checks'') (dot old ''checks''))) # out
      else old # merge_failed_into i item out)"

definition merge_failed :: "jsval \<Rightarrow> jsval list \<Rightarrow> jsval list" where
  "merge_failed item out =
     (if \<not> truthy item \<or> \<not> typeof_object item then out
      else (case dot item ''id'' of
          JStr i \<Rightarrow> if i = [] then out @ [item] else merge_failed_into i item out
        | _ \<Rightarrow> out @ [item]))"

definition mergeFailedEntries :: "jsval list \<Rightarrow> jsval list" where
  "mergeFailedEntries items = fold merge_failed items []"

definition nonblank :: "string list \<Rightarrow> string list" where
  "nonblank values = js_set (filter (\<lambda>v. trim v \<noteq> []) values)"

definition str_elems :: "jsval list \<Rightarrow> string list" where
  "str_elems vs = List.map_filter (\<lambda>v. case v of JStr s \<Rightarrow> Some s | _ \<Rightarrow> None) vs"

definition allEntryIds :: "jsval \<Rightarrow> jsval list" where
  "allEntryIds batch = filter truthy (map (\<lambda>e. dot e ''id'') (batch_entries batch))"

definition DEFAULT_REPAIR_ATTEMPTS :: int where "DEFAULT_REPAIR_ATTEMPTS = 3"

definition repairAttemptLimit :: "jsval \<Rightarrow> nat" where
  "repairAttemptLimit setting = nat (case to_number (js_or setting (jint DEFAULT_REPAIR_ATTEMPTS)) of
      Fin q \<Rightarrow> max 1 (min 10 (math_trunc q)) | _ \<Rightarrow> DEFAULT_REPAIR_ATTEMPTS)"

definition verificationFailuresForEntries :: "jsval \<Rightarrow> jsval list \<Rightarrow> jsval \<Rightarrow> props \<Rightarrow> jsval list" where
  "verificationFailuresForEntries batch entries reason extra = map (\<lambda>e.
     JObj (obj_merge [(''id'', dot e ''id''), (''reason'', reason), (''candidates'', JArr (candidatesForEntry batch (dot e ''id'')))] extra)) entries"

section \<open>What the agent is told of a repair\<close>

definition given_field :: "string \<Rightarrow> jsval \<Rightarrow> props" where
  "given_field k v = (if truthy v then [(k, v)] else [])"

definition candidate_summary :: "jsval \<Rightarrow> jsval" where
  "candidate_summary c = JObj (map (\<lambda>k. (k, dot c k)) [''file'', ''line'', ''kind'', ''reason''])"

definition failure_summary :: "jsval \<Rightarrow> jsval" where
  "failure_summary item = JObj [(''ref'', dot item ''ref''), (''reason'', js_or (dot item ''reason'') (dot item ''detail'')), (''detail'', dot item ''detail''),
     (''candidates'', if is_arr (dot item ''candidates'') then JArr (map candidate_summary (take 6 (arr_elems (dot item ''candidates'')))) else JUndef)]"

definition summarizeRepairFailures :: "jsval list \<Rightarrow> jsval list" where
  "summarizeRepairFailures failures = take 20 (map (\<lambda>f. JObj (
     [(''reason'', js_or (dot f ''reason'') (js_or (dot f ''detail'') (JStr ''validation_failed'')))] @
     given_field ''entryId'' (js_or (dot f ''id'') (dot f ''entryId'')) @
     concat (map (\<lambda>k. given_field k (dot f k)) [''ref'', ''detail'', ''file'', ''message'', ''marker'']) @
     (if is_arr (dot f ''files'') then [(''files'', JArr (take 8 (arr_elems (dot f ''files''))))] else []) @
     (if is_arr (dot f ''candidates'') then [(''candidates'', JArr (map candidate_summary (take 8 (arr_elems (dot f ''candidates'')))))] else []) @
     (if is_arr (dot f ''failures'') then [(''failures'', JArr (map failure_summary (take 8 (arr_elems (dot f ''failures'')))))] else []) @
     given_field ''checks'' (dot f ''checks''))) failures)"

definition buildRepairBatch :: "jsval \<Rightarrow> jsval \<Rightarrow> jsval" where
  "buildRepairBatch batch repair = JObj (obj_set (own_props batch) ''repair'' repair)"

section \<open>Paths and lines\<close>

record source_project =
  pj_cwd :: string
  pj_ignored :: "string list \<Rightarrow> bool"

definition normalizeProjectSourcePath :: "'p source_project_scheme \<Rightarrow> bool \<Rightarrow> files \<Rightarrow> jsval \<Rightarrow> string option" where
  "normalizeProjectSourcePath pj requireExists fs f = (case normalizeProjectFile (pj_cwd pj) f of
      None \<Rightarrow> None
    | Some rel \<Rightarrow>
       (let a = path_resolve (pj_cwd pj) rel in
        if requireExists \<and> fs a = None then None
        else if isGeneratedFile (pj_ignored pj) (path_segments a) (fs a) then None
        else Some rel))"

definition normalizeRelativeFile :: "'p source_project_scheme \<Rightarrow> files \<Rightarrow> jsval \<Rightarrow> string option" where
  "normalizeRelativeFile pj fs f = normalizeProjectSourcePath pj True fs f"

definition normalizeRollbackPath :: "'p source_project_scheme \<Rightarrow> files \<Rightarrow> jsval \<Rightarrow> string option" where
  "normalizeRollbackPath pj fs f = normalizeProjectSourcePath pj False fs f"

definition file_lines :: "'p source_project_scheme \<Rightarrow> files \<Rightarrow> string \<Rightarrow> string list option" where
  "file_lines pj fs rel = map_option (split_on NL) (fs (path_resolve (pj_cwd pj) rel))"

text \<open>Line numbers come as numbers of any kind; \<^verbatim>\<open>lines[n - 1] || ''\<close> is empty where there is no such line.\<close>

definition line_text :: "string list \<Rightarrow> rat \<Rightarrow> string" where
  "line_text lines q = (if is_integral q \<and> 1 \<le> q \<and> q \<le> of_nat (length lines) then lines ! (nat \<lfloor>q\<rfloor> - 1) else [])"

definition line_window :: "string list \<Rightarrow> rat \<Rightarrow> rat \<Rightarrow> string list" where
  "line_window lines low high = drop (nat \<lfloor>max 0 low\<rfloor>) (take (nat \<lfloor>high\<rfloor>) lines)"

definition text_field :: "jsval \<Rightarrow> string \<Rightarrow> string" where
  "text_field oper k = (case dot oper k of JStr t \<Rightarrow> t | _ \<Rightarrow> [])"

section \<open>Does the source show an operation\<close>

definition lineShowsAppliedOp :: "string \<Rightarrow> jsval \<Rightarrow> bool" where
  "lineShowsAppliedOp line oper =
     (let originalText = text_field oper ''originalText''; newText = text_field oper ''newText'' in
      if dot oper ''deleted'' = JBool True \<or> newText = [] then originalText \<noteq> [] \<and> \<not> str_includes line originalText
      else str_includes line newText \<and> \<not> (originalText \<noteq> [] \<and> \<not> str_includes newText originalText \<and> str_includes line originalText))"

definition normalizeVerificationText :: "string \<Rightarrow> string" where
  "normalizeVerificationText text = trim (single_spaced text)"

definition windowShowsAppliedOp :: "string list \<Rightarrow> jsval \<Rightarrow> bool" where
  "windowShowsAppliedOp lines oper =
     (let newText = text_field oper ''newText''; new = normalizeVerificationText newText;
          original = normalizeVerificationText (text_field oper ''originalText''); win = normalizeVerificationText (join_with [NL] lines) in
      newText \<noteq> [] \<and> new \<noteq> [] \<and> str_includes win new \<and>
      \<not> (original \<noteq> [] \<and> \<not> str_includes new original \<and> str_includes win original))"

record target =
  tg_file :: string
  tg_line :: rat
  tg_kind :: string
  tg_reported :: bool

definition verificationTargetPassesLines :: "string list \<Rightarrow> target \<Rightarrow> jsval \<Rightarrow> bool" where
  "verificationTargetPassesLines lines t oper =
     (let line = line_text lines (tg_line t); originalText = text_field oper ''originalText''; kind = tg_kind t;
          radius = (if str_includes kind ''context_text_match'' then 20 else 4);
          win = line_window lines (tg_line t - radius - 1) (tg_line t + radius) in
      if lineShowsAppliedOp line oper then True
      else if originalText \<noteq> [] \<and> str_includes line originalText then False
      else if \<not> (tg_reported t \<or> str_includes kind ''context_text_match'' \<or> str_includes kind ''object_key_match'' \<or> str_includes kind ''text_match'') then False
      else list_ex (\<lambda>l. lineShowsAppliedOp l oper) win \<or> windowShowsAppliedOp win oper)"

definition verificationTargetPasses :: "'p source_project_scheme \<Rightarrow> files \<Rightarrow> jsval \<Rightarrow> target \<Rightarrow> bool" where
  "verificationTargetPasses pj fs oper t = (case file_lines pj fs (tg_file t) of
      None \<Rightarrow> False | Some lines \<Rightarrow> verificationTargetPassesLines lines t oper)"

section \<open>Where an operation may show\<close>

definition opHasLocator :: "jsval \<Rightarrow> bool" where
  "opHasLocator oper = (truthy (dot oper ''tag'') \<or> truthy (dot oper ''elementId'') \<or> filter truthy (arr_elems (dot oper ''classes'')) \<noteq> [])"

definition locatorTargetsInFile :: "'p source_project_scheme \<Rightarrow> files \<Rightarrow> jsval \<Rightarrow> string \<Rightarrow> target list" where
  "locatorTargetsInFile pj fs oper relativeFile =
     (if \<not> opHasLocator oper then []
      else (case file_lines pj fs relativeFile of
          None \<Rightarrow> []
        | Some lines \<Rightarrow> take 20 (map (\<lambda>(i, _). \<lparr>tg_file = relativeFile, tg_line = of_nat i + 1, tg_kind = ''reported_locator_match'', tg_reported = False\<rparr>)
            (filter (\<lambda>(_, line). lineMatchesManualEditLocator line oper) (enumerate 0 lines)))))"

definition siblingCandidatesForEntry :: "jsval \<Rightarrow> jsval \<Rightarrow> jsval list" where
  "siblingCandidatesForEntry batch oper =
     (if \<not> truthy (dot oper ''entryId'') then []
      else filter (\<lambda>c. strict_eq (dot c ''entryId'') (dot oper ''entryId'') \<and> \<not> strict_eq (dot c ''ref'') (dot oper ''ref'')) (batch_candidates batch))"

definition add_check_target :: "'p source_project_scheme \<Rightarrow> files \<Rightarrow> string list \<Rightarrow> jsval \<times> jsval \<times> string \<Rightarrow> target list" where
  "add_check_target pj fs reportedFiles spec = (case spec of (f, line, kind) \<Rightarrow>
     (case (normalizeRelativeFile pj fs f, to_number line) of
        (Some rel, Fin q) \<Rightarrow> if q < 1 then [] else [\<lparr>tg_file = rel, tg_line = q, tg_kind = kind, tg_reported = rel \<in> set reportedFiles\<rparr>]
      | _ \<Rightarrow> []))"

definition hint_spec :: "jsval \<Rightarrow> string \<Rightarrow> jsval \<times> jsval \<times> string" where
  "hint_spec c kind = (js_or (dot (dot c ''sourceHint'') ''relativeFile'') (dot (dot c ''sourceHint'') ''file''), dot (dot c ''sourceHint'') ''line'', kind)"

definition match_specs :: "jsval \<Rightarrow> string \<Rightarrow> string \<Rightarrow> (jsval \<times> jsval \<times> string) list" where
  "match_specs c k kind = map (\<lambda>item. (dot item ''file'', dot item ''line'', kind)) (arr_elems (dot c k))"

fun unique_targets :: "string list \<Rightarrow> target list \<Rightarrow> target list" where
  "unique_targets seen [] = []"
| "unique_targets seen (t # ts) =
     (let key = tg_file t @ '':'' @ num_text (Fin (tg_line t)) @ '':'' @ tg_kind t
      in if key \<in> set seen then unique_targets seen ts else t # unique_targets (key # seen) ts)"

definition verificationTargetsForOp :: "'p source_project_scheme \<Rightarrow> jsval \<Rightarrow> jsval \<Rightarrow> string list \<Rightarrow> files \<Rightarrow> target list" where
  "verificationTargetsForOp pj batch oper reportedFiles fs =
     (let candidate = (case find (\<lambda>c. strict_eq (dot c ''entryId'') (dot oper ''entryId'') \<and> strict_eq (dot c ''ref'') (dot oper ''ref'')) (batch_candidates batch) of
            None \<Rightarrow> JUndef | Some c \<Rightarrow> c);
          specs = [(dot (dot oper ''sourceHint'') ''file'', dot (dot oper ''sourceHint'') ''line'', ''source_hint''), hint_spec candidate ''candidate_source_hint''] @
            match_specs candidate ''textMatches'' ''text_match'' @ match_specs candidate ''objectKeyMatches'' ''object_key_match'' @
            match_specs candidate ''locatorMatches'' ''locator_match'' @ match_specs candidate ''contextTextMatches'' ''context_text_match'' @
            concat (map (\<lambda>c. hint_spec c ''entry_source_hint'' # match_specs c ''textMatches'' ''entry_text_match'' @
              match_specs c ''objectKeyMatches'' ''entry_object_key_match'' @ match_specs c ''contextTextMatches'' ''entry_context_text_match'')
              (siblingCandidatesForEntry batch oper))
      in unique_targets [] (concat (map (add_check_target pj fs reportedFiles) specs) @ concat (map (locatorTargetsInFile pj fs oper) reportedFiles)))"

section \<open>Keys that depend on an edited text\<close>

definition key_lead :: "char \<Rightarrow> bool" where "key_lead c = (is_ws c \<or> c = CHR '','' \<or> c = CHR ''{'')"

definition identifier_safe :: "string \<Rightarrow> bool" where
  "identifier_safe text = (case text of [] \<Rightarrow> False
     | c # cs \<Rightarrow> (is_letter c \<or> c = CHR ''_'' \<or> c = CHR ''$'') \<and> list_all (\<lambda>x. is_word_char x \<or> x = CHR ''$'') cs)"

definition lineHasObjectKey :: "string \<Rightarrow> jsval \<Rightarrow> bool" where
  "lineHasObjectKey line text = (case text of
      JStr (c # cs) \<Rightarrow>
        list_ex (\<lambda>q. re_test (seq [Alt Bol (Cls key_lead), lit [q], lit (c # cs), lit [q], Many is_ws, lit '':'']) line) [CHR 0x27, CHR 0x22, CHR 0x60] \<or>
        (identifier_safe (c # cs) \<and> re_test (seq [Alt Bol (Cls key_lead), lit (c # cs), Many is_ws, lit '':'']) line)
    | _ \<Rightarrow> False)"

definition objectKeyMatchStillUsesOriginal :: "'p source_project_scheme \<Rightarrow> files \<Rightarrow> jsval \<Rightarrow> jsval \<Rightarrow> bool" where
  "objectKeyMatchStillUsesOriginal pj fs oper m = (case (normalizeRelativeFile pj fs (dot m ''file''), to_number (dot m ''line'')) of
      (Some rel, Fin q) \<Rightarrow>
        1 \<le> q \<and> (case file_lines pj fs rel of
           None \<Rightarrow> False
         | Some lines \<Rightarrow>
            (let win = line_window lines (q - 4) (q + 3)
             in \<not> list_ex (\<lambda>l. lineHasObjectKey l (dot oper ''newText'')) win \<and> list_ex (\<lambda>l. lineHasObjectKey l (dot oper ''originalText'')) win))
    | _ \<Rightarrow> False)"

definition objectKeyCandidatesForOp :: "jsval \<Rightarrow> jsval \<Rightarrow> jsval list" where
  "objectKeyCandidatesForOp batch oper = concat (map (\<lambda>c. arr_elems (dot c ''objectKeyMatches''))
     (filter (\<lambda>c. strict_eq (dot c ''entryId'') (dot oper ''entryId'') \<and> strict_eq (dot c ''ref'') (dot oper ''ref'')) (batch_candidates batch)))"

definition VERIFICATION_FAILED :: jsval where "VERIFICATION_FAILED = JStr ''source_verification_failed''"

definition coupledObjectKeyFailuresForOp :: "'p source_project_scheme \<Rightarrow> jsval \<Rightarrow> jsval \<Rightarrow> files \<Rightarrow> jsval list" where
  "coupledObjectKeyFailuresForOp pj batch oper fs =
     (if \<not> is_str (dot oper ''originalText'') \<or> \<not> is_str (dot oper ''newText'') \<or> strict_eq (dot oper ''originalText'') (dot oper ''newText'') then []
      else map (\<lambda>m. JObj [(''ref'', dot oper ''ref''), (''reason'', VERIFICATION_FAILED), (''detail'', JStr ''edited_text_source_key_dependency_not_updated''),
          (''candidates'', JArr [JObj [(''file'', case normalizeRelativeFile pj fs (dot m ''file'') of Some rel \<Rightarrow> JStr rel | None \<Rightarrow> dot m ''file''),
             (''line'', dot m ''line''), (''kind'', JStr ''object_key_match''),
             (''reason'', JStr ''edited text is also a source key; update the coupled key to newText or fail the entry'')]])])
        (filter (objectKeyMatchStillUsesOriginal pj fs oper) (objectKeyCandidatesForOp batch oper)))"

section \<open>Verification of an entry\<close>

definition hinted_line :: "jsval \<Rightarrow> rat option" where
  "hinted_line v = (case to_number v of Fin q \<Rightarrow> Some (if q = 0 then 1 else max 1 q) | PosInf \<Rightarrow> None | _ \<Rightarrow> Some 1)"

definition sourceHintWindowFailure :: "'p source_project_scheme \<Rightarrow> files \<Rightarrow> jsval \<Rightarrow> jsval option" where
  "sourceHintWindowFailure pj fs oper =
     (let hint = dot oper ''sourceHint'' in
      if \<not> truthy (dot hint ''file'') \<or> \<not> truthy (dot hint ''line'') then None
      else (case (normalizeRelativeFile pj fs (dot hint ''file''), hinted_line (dot hint ''line'')) of
          (Some rel, Some q) \<Rightarrow> (case file_lines pj fs rel of
              None \<Rightarrow> None
            | Some lines \<Rightarrow>
               (let lineText = line_text lines q; originalText = text_field oper ''originalText'' in
                if originalText \<noteq> [] \<and> str_includes lineText originalText \<and> \<not> lineShowsAppliedOp lineText oper
                then Some (JObj [(''file'', JStr rel), (''line'', JNum (Fin q)), (''reason'', JStr ''source_hint_still_contains_original_text'')]) else None))
        | _ \<Rightarrow> None))"

definition target_value :: "target \<Rightarrow> jsval" where
  "target_value t = JObj [(''file'', JStr (tg_file t)), (''line'', JNum (Fin (tg_line t))), (''kind'', JStr (tg_kind t))]"

definition op_failure :: "jsval \<Rightarrow> string \<Rightarrow> jsval list \<Rightarrow> jsval" where
  "op_failure oper detail candidates = JObj [(''ref'', dot oper ''ref''), (''reason'', VERIFICATION_FAILED), (''detail'', JStr detail), (''candidates'', JArr (take 12 candidates))]"

definition verify_op :: "'p source_project_scheme \<Rightarrow> jsval \<Rightarrow> jsval \<Rightarrow> string list \<Rightarrow> files \<Rightarrow> jsval \<Rightarrow> jsval list" where
  "verify_op pj batch entry reportedFiles fs rawOp =
     (let oper0 = JObj (obj_set (own_props rawOp) ''entryId'' (dot entry ''id''));
          oper = (if dot oper0 ''deleted'' = JBool True \<and> \<not> is_str (dot oper0 ''newText'') then JObj (obj_set (own_props oper0) ''newText'' (JStr [])) else oper0);
          known = candidatesForEntry batch (dot entry ''id'') in
      if \<not> is_str (dot oper ''newText'') then [op_failure oper ''missing_newText'' known]
      else
       (let targets = verificationTargetsForOp pj batch oper reportedFiles fs; coupled = coupledObjectKeyFailuresForOp pj batch oper fs in
        if coupled = [] \<and> list_ex (verificationTargetPasses pj fs oper) targets then []
        else if coupled \<noteq> [] then map (\<lambda>f. JObj (obj_set (own_props f) ''candidates''
            (JArr (take 12 (arr_elems (dot f ''candidates'') @ map target_value targets @ known))))) coupled
        else (case sourceHintWindowFailure pj fs oper of
            Some h \<Rightarrow> [op_failure oper (text_field h ''reason'') (h # map target_value targets @ known)]
          | None \<Rightarrow> [op_failure oper (if text_field oper ''newText'' = [] then ''originalText_still_present_in_plausible_source_location''
                else ''newText_not_found_in_plausible_source_location'') (map target_value targets @ known)])))"

definition verifyAppliedEntry :: "'p source_project_scheme \<Rightarrow> jsval \<Rightarrow> string list \<Rightarrow> files \<Rightarrow> jsval \<Rightarrow> jsval list" where
  "verifyAppliedEntry pj batch reportedFiles fs entry = concat (map (verify_op pj batch entry reportedFiles fs) (entry_ops entry))"

end
