(* ===== verification/Edit_Commit.thy ===== *)
theory Edit_Commit
  imports Edit_Verify
begin

text \<open>
  The commit of staged copy edits (\<^verbatim>\<open>scripts/live-commit-manual-edits.mjs\<close>): an agent applies a batch of
  operations to the sources; what it reports is checked against the sources, and is accepted, repaired or
  rolled back. Entries that were verified leave the buffer.

  The agent is a parameter. A run of it may change every file, and the buffer as well, because the browser can
  save while it works. Parameters are also the evidence a batch is built from (it is given by the caller), \<^verbatim>\<open>JSON.parse\<close>, the parser
  of \<^verbatim>\<open>@babel/parser\<close>, \<^verbatim>\<open>node --check\<close>, the validation script of the project and the directories on disk.
\<close>

section \<open>Surroundings\<close>

record commit_world =
  cw_files :: files
  cw_buffer :: buffer_file

datatype entry_kind = DirEntry | FileEntry | OtherEntry

record commit_env = source_project +
  ce_agent :: "nat \<Rightarrow> jsval \<Rightarrow> commit_world \<Rightarrow> commit_world \<times> (string + jsval)"
  ce_fails :: "string \<Rightarrow> string option"
  ce_readdir :: "files \<Rightarrow> string \<Rightarrow> (string \<times> entry_kind) list option"
  ce_realpath :: "string \<Rightarrow> string option"
  ce_json :: "string \<Rightarrow> string + jsval"
  ce_babel :: "(string list \<Rightarrow> string \<Rightarrow> string option) option"
  ce_node_check :: "files \<Rightarrow> string \<Rightarrow> string option"
  ce_script :: "files \<Rightarrow> string \<Rightarrow> string option"
  ce_attempts :: jsval

section \<open>The agent\<close>

record agent_result =
  ag_status :: string
  ag_message :: jsval
  ag_applied :: "string list"
  ag_failed :: "jsval list"
  ag_files :: "string list"
  ag_notes :: "jsval list"
  ag_warnings :: "jsval list"

definition normalizeBatchResult :: "jsval \<Rightarrow> agent_result" where
  "normalizeBatchResult r =
     \<lparr>ag_status = (if dot r ''status'' = JStr ''partial'' then ''partial'' else if dot r ''status'' = JStr ''error'' then ''error'' else ''done''),
      ag_message = js_or (dot r ''message'') JNull,
      ag_applied = str_elems (arr_elems (dot r ''appliedEntryIds'')),
      ag_failed = map (\<lambda>item. JObj [(''entryId'', js_or (dot item ''entryId'') (js_or (dot item ''id'') JNull)),
          (''reason'', js_or (dot item ''reason'') (js_or (dot item ''message'') (JStr ''failed''))),
          (''candidates'', JArr (arr_elems (dot item ''candidates'')))]) (filter truthy (arr_elems (dot r ''failed''))),
      ag_files = str_elems (arr_elems (dot r ''files'')),
      ag_notes = filter is_str (arr_elems (dot r ''notes'')),
      ag_warnings = filter (\<lambda>x. truthy x \<and> typeof_object x)
        (map (\<lambda>x. if is_str x then JObj [(''message'', x)] else x) (filter truthy (arr_elems (dot r ''warnings''))))\<rparr>"

text \<open>Call number \<open>n\<close> of the agent: its reply is an object, or the call throws.\<close>

definition runCopyEditBatchAgent :: "commit_env \<Rightarrow> nat \<Rightarrow> jsval \<Rightarrow> commit_world \<Rightarrow> commit_world \<times> (string + agent_result)" where
  "runCopyEditBatchAgent ce n batch w = (case ce_agent ce n batch w of
      (w', Inl m) \<Rightarrow> (w', Inl m)
    | (w', Inr raw) \<Rightarrow> (w', Inr (normalizeBatchResult (js_or raw (JObj [])))))"

section \<open>The check of touched files\<close>

definition comment_open :: re where
  "comment_open = Alt (lit ''<!--'') (lit ''{/*'')"

definition COMMENT_MARKER :: re where
  "COMMENT_MARKER = alts (map (\<lambda>name. seq [Bol, Many is_ws, comment_open, Many is_ws, lit name, Alt (lit ''start'') (lit ''end''), Boundary])
     [''impeccable-carbonize-'', ''impeccable-variants-''])"

text \<open>The flag \<^verbatim>\<open>m\<close>: the pattern is tried at the start of every line, that is, behind every line feed or carriage return.\<close>

fun line_starts :: "bool \<Rightarrow> string \<Rightarrow> string list" where
  "line_starts fresh [] = (if fresh then [[]] else [])"
| "line_starts fresh (c # cs) = (if fresh then [c # cs] else []) @ line_starts (c = NL \<or> c = CR) cs"

fun first_of :: "('a \<Rightarrow> 'b option) \<Rightarrow> 'a list \<Rightarrow> 'b option" where
  "first_of f [] = None"
| "first_of f (x # xs) = (case f x of Some y \<Rightarrow> Some y | None \<Rightarrow> first_of f xs)"

definition ATTR_PATTERN :: re where
  "ATTR_PATTERN = seq [Boundary, lit ''data-impeccable-'',
     alts [Cat (lit ''variant'') (Opt (lit ''s'')), lit ''original-text'', lit ''editable'', lit ''text-wrap''], Many is_ws, lit ''='']"

fun quote_state :: "char option \<Rightarrow> bool \<Rightarrow> string \<Rightarrow> char option" where
  "quote_state quote escaped [] = quote"
| "quote_state quote escaped (ch # rest) =
     (if escaped then quote_state quote False rest
      else if ch = CHR 0x5C then quote_state quote True rest
      else (case quote of
          Some q \<Rightarrow> quote_state (if ch = q then None else Some q) False rest
        | None \<Rightarrow> quote_state (if ch \<in> {CHR 0x22, CHR 0x27, CHR 0x60} then Some ch else None) False rest))"

definition isInsideQuotedLiteral :: "string \<Rightarrow> nat \<Rightarrow> bool" where
  "isInsideQuotedLiteral line index = (quote_state None False (take index line) \<noteq> None)"

definition split_crlf :: "string \<Rightarrow> string list" where
  "split_crlf content = (case rev (split_on NL content) of
      [] \<Rightarrow> [] | l # ls \<Rightarrow> rev (l # map (\<lambda>x. if ends_with x [CR] then butlast x else x) ls))"

definition findLeftoverImpeccableMarker :: "string \<Rightarrow> string option" where
  "findLeftoverImpeccableMarker content =
     (case first_of (\<lambda>s. map_option ex_text (re_exec COMMENT_MARKER s)) (line_starts True content) of
        Some m \<Rightarrow> Some m
      | None \<Rightarrow> first_of (\<lambda>line. map_option ex_text (find (\<lambda>m. \<not> isInsideQuotedLiteral line (ex_index m)) (match_all ATTR_PATTERN line)))
          (split_crlf content))"

record post_checks =
  pc_failures :: "jsval list"
  pc_warnings :: "jsval list"

definition check_item :: "string \<Rightarrow> string \<Rightarrow> props \<Rightarrow> jsval" where
  "check_item f reason extra = JObj ([(''file'', JStr f), (''reason'', JStr reason)] @ extra)"

definition checkFrameworkSourceSyntax :: "commit_env \<Rightarrow> string \<Rightarrow> string \<Rightarrow> jsval list \<times> jsval list" where
  "checkFrameworkSourceSyntax ce relativeFile content =
     (if \<not> list_ex (ends_with relativeFile) [''.jsx'', ''.tsx'', ''.ts''] then ([], [])
      else (case ce_babel ce of
          None \<Rightarrow> ([], [check_item relativeFile ''syntax_parser_unavailable'' []])
        | Some parse \<Rightarrow>
           (case parse ([''jsx''] @ (if list_ex (ends_with relativeFile) [''.ts'', ''.tsx''] then [''typescript''] else [])) content of
              None \<Rightarrow> ([], [])
            | Some m \<Rightarrow> ([check_item relativeFile ''invalid_source_syntax'' [(''message'', JStr m)]], []))))"

definition isPathInsideOrEqual :: "string \<Rightarrow> string \<Rightarrow> bool" where
  "isPathInsideOrEqual cwd f = (let rel = path_relative (path_resolve cwd []) (path_resolve cwd f)
     in rel = [] \<or> (\<not> starts_with rel ''..'' \<and> \<not> isAbsolute rel))"

definition check_file :: "commit_env \<Rightarrow> files \<Rightarrow> string \<Rightarrow> jsval list \<times> jsval list" where
  "check_file ce fs relativeFile =
     (let f = path_resolve (pj_cwd ce) relativeFile in
      if \<not> isPathInsideOrEqual (pj_cwd ce) f then ([], [check_item relativeFile ''file_missing_or_outside_cwd'' []])
      else (case fs f of
          None \<Rightarrow> ([], [check_item relativeFile ''file_missing_or_outside_cwd'' []])
        | Some content \<Rightarrow>
           (let marker = (case findLeftoverImpeccableMarker content of
                  Some m \<Rightarrow> [check_item relativeFile ''leftover_impeccable_marker'' [(''marker'', JStr m)]] | None \<Rightarrow> []);
                json = (if ends_with relativeFile ''.json''
                  then (case ce_json ce content of Inl m \<Rightarrow> [check_item relativeFile ''invalid_json'' [(''message'', JStr m)]] | Inr _ \<Rightarrow> []) else []);
                syntax = checkFrameworkSourceSyntax ce relativeFile content;
                js = (if list_ex (ends_with relativeFile) [''.mjs'', ''.cjs'', ''.js'']
                  then (case ce_node_check ce fs f of Some m \<Rightarrow> [check_item relativeFile ''invalid_js'' [(''message'', JStr (trim m))]] | None \<Rightarrow> []) else [])
            in (marker @ json @ fst syntax @ js, snd syntax))))"

definition readManualEditValidationScript :: "commit_env \<Rightarrow> files \<Rightarrow> string option" where
  "readManualEditValidationScript ce fs = (case fs (path_join (pj_cwd ce) ''package.json'') of
      None \<Rightarrow> None
    | Some content \<Rightarrow>
       (case ce_json ce content of
          Inl _ \<Rightarrow> None
        | Inr pkg \<Rightarrow> (case dot (dot pkg ''scripts'') ''impeccable:manual-edit-validate'' of
             JStr script \<Rightarrow> if trim script \<noteq> [] then Some script else None | _ \<Rightarrow> None)))"

text \<open>\<open>ce_script\<close> gives the message of an error or of an exit status other than 0.\<close>

definition runManualEditValidationScript :: "commit_env \<Rightarrow> files \<Rightarrow> jsval list" where
  "runManualEditValidationScript ce fs = (case readManualEditValidationScript ce fs of
      None \<Rightarrow> []
    | Some script \<Rightarrow> (case ce_script ce fs script of
         None \<Rightarrow> [] | Some m \<Rightarrow> [check_item ''package.json'' ''manual_edit_validation_failed'' [(''message'', JStr m)]]))"

definition runCopyEditPostApplyChecks :: "commit_env \<Rightarrow> files \<Rightarrow> string list \<Rightarrow> post_checks" where
  "runCopyEditPostApplyChecks ce fs fileList =
     (let found = map (check_file ce fs) (nonblank fileList)
      in \<lparr>pc_failures = concat (map fst found) @ runManualEditValidationScript ce fs, pc_warnings = concat (map snd found)\<rparr>)"

definition checks_ok :: "post_checks \<Rightarrow> bool" where
  "checks_ok pc = (pc_failures pc = [])"

section \<open>Snapshots and rollback\<close>

definition ROLLBACK_EXTENSIONS :: "string list" where
  "ROLLBACK_EXTENSIONS = [''.astro'', ''.cjs'', ''.css'', ''.eex'', ''.ex'', ''.heex'', ''.htm'', ''.html'', ''.js'', ''.json'', ''.jsx'', ''.md'',
     ''.mdx'', ''.mjs'', ''.scss'', ''.svelte'', ''.svg'', ''.ts'', ''.tsx'', ''.txt'', ''.vue'', ''.yaml'', ''.yml'']"

definition ROLLBACK_SKIP_DIRS :: "string list" where
  "ROLLBACK_SKIP_DIRS = [''.astro'', ''.git'', ''.impeccable'', ''.next'', ''.nuxt'', ''.svelte-kit'', ''build'', ''coverage'', ''dist'', ''node_modules'', ''out'']"

record rollback_scan =
  sc_out :: "string list"
  sc_dirs :: "string list"
  sc_seen :: "string list"

definition scan_rollback_file :: "commit_env \<Rightarrow> files \<Rightarrow> string \<Rightarrow> string \<Rightarrow> rollback_scan \<Rightarrow> rollback_scan" where
  "scan_rollback_file ce fs dir name st =
     (let absolute = path_join dir name in
      if toLowerCase (path_extname name) \<notin> set ROLLBACK_EXTENSIONS then st
      else if isGeneratedFile (pj_ignored ce) (path_segments absolute) (fs absolute) then st
      else (case ce_realpath ce absolute of
          None \<Rightarrow> st
        | Some realFile \<Rightarrow>
           if realFile \<in> set (sc_seen st) then st
           else (let st1 = st\<lparr>sc_seen := realFile # sc_seen st\<rparr>; relative = path_relative (pj_cwd ce) absolute
                 in if outside_root relative then st1 else st1\<lparr>sc_out := sc_out st1 @ [relative]\<rparr>)))"

text \<open>The first argument is how many levels may still be entered.\<close>

fun scanRollbackDir :: "nat \<Rightarrow> commit_env \<Rightarrow> files \<Rightarrow> string \<Rightarrow> rollback_scan \<Rightarrow> rollback_scan" where
  "scanRollbackDir 0 ce fs dir st = st"
| "scanRollbackDir (Suc levels) ce fs dir st = (case ce_realpath ce dir of
      None \<Rightarrow> st
    | Some realDir \<Rightarrow>
       if realDir \<in> set (sc_dirs st) then st
       else (case ce_readdir ce fs dir of
           None \<Rightarrow> st\<lparr>sc_dirs := realDir # sc_dirs st\<rparr>
         | Some entries \<Rightarrow> fold (\<lambda>(name, kind) acc. case kind of
               DirEntry \<Rightarrow> if name \<in> set ROLLBACK_SKIP_DIRS then acc else scanRollbackDir levels ce fs (path_join dir name) acc
             | FileEntry \<Rightarrow> scan_rollback_file ce fs dir name acc
             | OtherEntry \<Rightarrow> acc) entries (st\<lparr>sc_dirs := realDir # sc_dirs st\<rparr>)))"

definition collectRollbackFiles :: "commit_env \<Rightarrow> files \<Rightarrow> string list" where
  "collectRollbackFiles ce fs = sc_out (scanRollbackDir 11 ce fs (pj_cwd ce) \<lparr>sc_out = [], sc_dirs = [], sc_seen = []\<rparr>)"

text \<open>What was there: the contents, or nothing.\<close>

type_synonym edit_snapshot = "(string \<times> string option) list"

definition rollback_paths :: "commit_env \<Rightarrow> files \<Rightarrow> string list \<Rightarrow> string list" where
  "rollback_paths ce fs fileList = List.map_filter (\<lambda>f. normalizeRollbackPath ce fs (JStr f)) fileList"

definition snapshotRollbackFiles :: "commit_env \<Rightarrow> files \<Rightarrow> string list \<Rightarrow> edit_snapshot" where
  "snapshotRollbackFiles ce fs fileList =
     fold (\<lambda>rel snap. amap_set snap rel (fs (path_resolve (pj_cwd ce) rel)))
       (if fileList \<noteq> [] then rollback_paths ce fs (nonblank fileList) else collectRollbackFiles ce fs) []"

datatype change_kind = Added | Deleted | Modified | UnknownBefore | Reported

definition change_since :: "files \<Rightarrow> string \<Rightarrow> string option \<Rightarrow> change_kind option" where
  "change_since fs absolute before = (case (before, fs absolute) of
      (None, None) \<Rightarrow> None
    | (None, Some _) \<Rightarrow> Some Added
    | (Some _, None) \<Rightarrow> Some Deleted
    | (Some c, Some c') \<Rightarrow> if c' \<noteq> c then Some Modified else None)"

definition changedFilesSinceSnapshot :: "commit_env \<Rightarrow> files \<Rightarrow> edit_snapshot \<Rightarrow> string list \<Rightarrow> (string \<times> change_kind) list" where
  "changedFilesSinceSnapshot ce fs snap scopeFiles =
     (let scoped = scopeFiles \<noteq> [];
          current = js_set (if scoped then rollback_paths ce fs scopeFiles else collectRollbackFiles ce fs)
      in List.map_filter (\<lambda>(rel, before). if scoped \<and> rel \<notin> set current then None
             else map_option (Pair rel) (change_since fs (path_resolve (pj_cwd ce) rel) before)) snap @
         map (\<lambda>rel. (rel, UnknownBefore)) (filter (\<lambda>rel. rel \<notin> fst ` set snap) current))"

record rollback_report =
  rr_files :: "string list"
  rr_failures :: "jsval list"

definition rollback_change :: "commit_env \<Rightarrow> edit_snapshot \<Rightarrow> string list \<Rightarrow> string \<times> change_kind \<Rightarrow> rollback_report \<times> files \<Rightarrow> rollback_report \<times> files" where
  "rollback_change ce snap scope item acc =
     (let rel = fst item; absolute = path_resolve (pj_cwd ce) rel; r = fst acc; fs = snd acc;
          failed = (\<lambda>m. (r\<lparr>rr_failures := rr_failures r @ [JObj [(''file'', JStr rel), (''reason'', JStr ''restore_failed''), (''message'', JStr m)]]\<rparr>, fs));
          restored = r\<lparr>rr_files := rr_files r @ [rel]\<rparr> in
      if rel \<notin> set scope then acc
      else (case map_of snap rel of
          Some (Some content) \<Rightarrow> (case ce_fails ce absolute of Some m \<Rightarrow> failed m | None \<Rightarrow> (restored, fs(absolute \<mapsto> content)))
        | before \<Rightarrow>
           if before = Some None \<and> snd item = Added \<and> fs absolute \<noteq> None
           then (case ce_fails ce absolute of Some m \<Rightarrow> failed m | None \<Rightarrow> (restored, fs(absolute := None)))
           else (r\<lparr>rr_failures := rr_failures r @ [JObj [(''file'', JStr rel), (''reason'', JStr ''no_snapshot'')]]\<rparr>, fs)))"

definition rollback_items :: "commit_env \<Rightarrow> files \<Rightarrow> edit_snapshot \<Rightarrow> string list \<Rightarrow> string list \<Rightarrow> (string \<times> change_kind) list" where
  "rollback_items ce fs snap extraFiles scope =
     fold (\<lambda>rel items. if rel \<in> fst ` set items then items else items @ [(rel, if rel \<in> fst ` set snap then Reported else UnknownBefore)])
       (rollback_paths ce fs extraFiles) (changedFilesSinceSnapshot ce fs snap scope)"

definition rollbackChangedFiles :: "commit_env \<Rightarrow> edit_snapshot \<Rightarrow> string list \<Rightarrow> string list \<Rightarrow> files \<Rightarrow> rollback_report \<times> files" where
  "rollbackChangedFiles ce snap extraFiles scopeFiles fs =
     (let scope = js_set (rollback_paths ce fs (scopeFiles @ extraFiles))
      in fold (rollback_change ce snap scope) (rollback_items ce fs snap extraFiles scope) (\<lparr>rr_files = [], rr_failures = []\<rparr>, fs))"

definition collectApplyOwnedFiles :: "commit_env \<Rightarrow> files \<Rightarrow> jsval \<Rightarrow> string list \<Rightarrow> string list" where
  "collectApplyOwnedFiles ce fs batch extraFiles =
     rollback_paths ce fs (nonblank (str_elems
       (concat (map (\<lambda>e. map (\<lambda>oper. dot (dot oper ''sourceHint'') ''file'') (entry_ops e)) (batch_entries batch)) @
        concat (map candidate_files (batch_candidates batch))) @ extraFiles))"

definition unreportedChangedFiles :: "commit_env \<Rightarrow> files \<Rightarrow> edit_snapshot \<Rightarrow> string list \<Rightarrow> string list \<Rightarrow> string list" where
  "unreportedChangedFiles ce fs snap reportedFiles scopeFiles =
     (let reported = rollback_paths ce fs reportedFiles; scope = js_set (rollback_paths ce fs scopeFiles)
      in filter (\<lambda>f. f \<notin> set reported) (filter (\<lambda>f. f \<in> set scope) (map fst (changedFilesSinceSnapshot ce fs snap scope))))"

section \<open>Verdicts on entries\<close>

definition has_value :: "jsval list \<Rightarrow> jsval \<Rightarrow> bool" where
  "has_value xs v = list_ex (\<lambda>x. strict_eq x v) xs"

definition entries_among :: "string list \<Rightarrow> jsval \<Rightarrow> jsval list" where
  "entries_among ids batch = filter (\<lambda>e. includes_id ids (dot e ''id'')) (batch_entries batch)"

definition reported_paths :: "commit_env \<Rightarrow> files \<Rightarrow> string list \<Rightarrow> string list" where
  "reported_paths ce fs fileList = List.map_filter (\<lambda>f. normalizeRelativeFile ce fs (JStr f)) (nonblank fileList)"

text \<open>The loop that sorts entries into verified ids and failures; the ids are strings.\<close>

definition verified_ids :: "commit_env \<Rightarrow> jsval \<Rightarrow> string list \<Rightarrow> files \<Rightarrow> jsval list \<Rightarrow> string list" where
  "verified_ids ce batch reportedFiles fs entries =
     map (\<lambda>e. text_field e ''id'') (filter (\<lambda>e. verifyAppliedEntry ce batch reportedFiles fs e = []) entries)"

definition verification_failed :: "commit_env \<Rightarrow> jsval \<Rightarrow> string list \<Rightarrow> files \<Rightarrow> jsval list \<Rightarrow> jsval list" where
  "verification_failed ce batch reportedFiles fs entries =
     map (\<lambda>e. JObj [(''id'', dot e ''id''), (''reason'', VERIFICATION_FAILED),
         (''failures'', JArr (verifyAppliedEntry ce batch reportedFiles fs e)), (''candidates'', JArr (candidatesForEntry batch (dot e ''id'')))])
       (filter (\<lambda>e. verifyAppliedEntry ce batch reportedFiles fs e \<noteq> []) entries)"

definition verifyEntriesAfterRepair :: "commit_env \<Rightarrow> jsval \<Rightarrow> string list \<Rightarrow> string list \<Rightarrow> files \<Rightarrow> string list \<times> jsval list" where
  "verifyEntriesAfterRepair ce batch appliedEntryIds fileList fs =
     (let reportedFiles = reported_paths ce fs fileList; entries = entries_among appliedEntryIds batch
      in (verified_ids ce batch reportedFiles fs entries, verification_failed ce batch reportedFiles fs entries))"

definition snapshotTargetPasses :: "edit_snapshot \<Rightarrow> jsval \<Rightarrow> target \<Rightarrow> bool" where
  "snapshotTargetPasses snap oper t = (case map_of snap (tg_file t) of
      Some (Some before) \<Rightarrow> verificationTargetPassesLines (split_on NL before) t oper | _ \<Rightarrow> False)"

definition leaked_op :: "commit_env \<Rightarrow> jsval \<Rightarrow> string list \<Rightarrow> files \<Rightarrow> edit_snapshot \<Rightarrow> jsval \<Rightarrow> jsval \<Rightarrow> jsval option" where
  "leaked_op ce batch reportedFiles fs snap entry rawOp =
     (let oper = JObj (obj_set (own_props rawOp) ''entryId'' (dot entry ''id'')) in
      if text_field oper ''newText'' = [] then None
      else (let leaked = filter (\<lambda>t. verificationTargetPasses ce fs oper t \<and> \<not> snapshotTargetPasses snap oper t)
                  (verificationTargetsForOp ce batch oper reportedFiles fs)
            in if leaked = [] then None
               else Some (JObj [(''id'', dot entry ''id''), (''reason'', JStr ''failed_entry_source_changed''), (''ref'', dot oper ''ref''),
                   (''newText'', dot oper ''newText''), (''candidates'', JArr (take 12 (map target_value leaked @ candidatesForEntry batch (dot entry ''id''))))])))"

definition findUnappliedEntrySourceChanges :: "commit_env \<Rightarrow> jsval \<Rightarrow> jsval list \<Rightarrow> string list \<Rightarrow> files \<Rightarrow> edit_snapshot \<Rightarrow> jsval list" where
  "findUnappliedEntrySourceChanges ce batch entries reportedFiles fs snap =
     List.map_filter (\<lambda>e. first_of (leaked_op ce batch reportedFiles fs snap e) (entry_ops e)) entries"

definition clearAppliedEntries :: "string list \<Rightarrow> buffer_file \<Rightarrow> nat \<times> buffer_file" where
  "clearAppliedEntries ids f =
     (if ids = [] then (0, f)
      else (let es = readBuffer f in
        (sum_list (map (length \<circ> be_ops) (filter (\<lambda>e. includes_id ids (be_id e)) es)),
         Buffer (filter (\<lambda>e. \<not> includes_id ids (be_id e)) es))))"

section \<open>Results\<close>

record commit_result =
  cr_applied :: "jsval list"
  cr_failed :: "jsval list"
  cr_files :: "string list"
  cr_cleared :: nat
  cr_count :: nat
  cr_pageUrl :: jsval
  cr_reason :: "string option"
  cr_message :: "string option"
  cr_notes :: "jsval list"
  cr_warnings :: "jsval list"
  cr_unreported :: "string list"
  cr_rolledBack :: "string list option"
  cr_rollbackFailures :: "jsval list"
  cr_needsManualDecision :: bool
  cr_repair :: jsval
  cr_counts :: "nat \<times> (string \<times> nat) list"

definition nothing_applied :: "jsval \<Rightarrow> nat \<Rightarrow> commit_world \<Rightarrow> commit_result" where
  "nothing_applied pageUrl opCount w = \<lparr>cr_applied = [], cr_failed = [], cr_files = [], cr_cleared = 0, cr_count = opCount, cr_pageUrl = pageUrl,
     cr_reason = None, cr_message = None, cr_notes = [], cr_warnings = [], cr_unreported = [], cr_rolledBack = None, cr_rollbackFailures = [],
     cr_needsManualDecision = False, cr_repair = JUndef, cr_counts = countByPage (cw_buffer w)\<rparr>"

text \<open>The sources are put back and the result says which files.\<close>

definition refuse :: "commit_env \<Rightarrow> edit_snapshot \<Rightarrow> string list \<Rightarrow> string list \<Rightarrow> commit_result \<Rightarrow> commit_world \<Rightarrow> commit_world \<times> commit_result" where
  "refuse ce snap extraFiles scopeFiles r w = (case rollbackChangedFiles ce snap extraFiles scopeFiles (cw_files w) of
      (report, fs) \<Rightarrow> (w\<lparr>cw_files := fs\<rparr>, r\<lparr>cr_rolledBack := Some (rr_files report), cr_rollbackFailures := rr_failures report\<rparr>))"

text \<open>The verified entries leave the buffer.\<close>

definition accept :: "string list \<Rightarrow> jsval \<Rightarrow> commit_result \<Rightarrow> commit_world \<Rightarrow> commit_world \<times> commit_result" where
  "accept ids batch r w = (case clearAppliedEntries ids (cw_buffer w) of
      (cleared, b) \<Rightarrow> (w\<lparr>cw_buffer := b\<rparr>, r\<lparr>cr_applied := summarizeAppliedEntries (batch_entries batch) ids, cr_cleared := cleared, cr_counts := countByPage b\<rparr>))"

section \<open>Repair\<close>

record repair_job =
  rj_batch :: jsval
  rj_pageUrl :: jsval
  rj_count :: nat
  rj_transactionId :: jsval
  rj_reason :: string

record repair_state =
  rs_files :: "string list"
  rs_applied :: "string list"
  rs_failed :: "jsval list"
  rs_notes :: "jsval list"
  rs_warnings :: "jsval list"
  rs_failures :: "jsval list"

definition repair_request :: "commit_env \<Rightarrow> repair_job \<Rightarrow> nat \<Rightarrow> repair_state \<Rightarrow> jsval" where
  "repair_request ce job attempt st = JObj [(''attempt'', jint (int attempt)), (''maxAttempts'', jint (int (repairAttemptLimit (ce_attempts ce)))),
     (''transactionId'', js_or (rj_transactionId job) JNull), (''reason'', JStr (rj_reason job)),
     (''failures'', JArr (summarizeRepairFailures (rs_failures st))), (''files'', JArr (map JStr (rs_files st))), (''pageUrl'', rj_pageUrl job)]"

definition repair_reply :: "jsval \<Rightarrow> agent_result \<Rightarrow> repair_state \<Rightarrow> repair_state" where
  "repair_reply batch r st = st\<lparr>rs_files := nonblank (rs_files st @ ag_files r), rs_notes := rs_notes st @ ag_notes r,
     rs_warnings := rs_warnings st @ ag_warnings r, rs_applied := nonblank (rs_applied st @ ag_applied r),
     rs_failed := mergeFailedEntries (rs_failed st @ normalizeFailedEntries batch (ag_failed r) (JStr ''repair_failed''))\<rparr>"

definition repair_result :: "repair_job \<Rightarrow> repair_state \<Rightarrow> commit_world \<Rightarrow> commit_result" where
  "repair_result job st w = (nothing_applied (rj_pageUrl job) (rj_count job) w)\<lparr>cr_files := rs_files st, cr_warnings := rs_warnings st, cr_notes := rs_notes st\<rparr>"

definition repaired :: "commit_env \<Rightarrow> repair_job \<Rightarrow> nat \<Rightarrow> string list \<Rightarrow> repair_state \<Rightarrow> commit_world \<Rightarrow> commit_world \<times> commit_result" where
  "repaired ce job attempt ids st w = accept ids (rj_batch job) ((repair_result job st w)\<lparr>
     cr_failed := filter (\<lambda>item. \<not> includes_id ids (dot item ''id'')) (mergeFailedEntries (rs_failed st)),
     cr_repair := JObj [(''status'', JStr ''repaired''), (''attempts'', jint (int attempt)), (''maxAttempts'', jint (int (repairAttemptLimit (ce_attempts ce)))),
       (''transactionId'', js_or (rj_transactionId job) JNull)]\<rparr>) w"

definition needs_decision :: "commit_env \<Rightarrow> repair_job \<Rightarrow> repair_state \<Rightarrow> commit_world \<Rightarrow> commit_result" where
  "needs_decision ce job st w =
     (let batch = rj_batch job; maxAttempts = jint (int (repairAttemptLimit (ce_attempts ce)));
          open_entries = (if rs_applied st \<noteq> []
            then map (\<lambda>e. JObj [(''id'', dot e ''id''), (''reason'', JStr (rj_reason job)), (''checks'', JArr (rs_failures st)),
                (''candidates'', JArr (candidatesForEntry batch (dot e ''id'')))]) (entries_among (rs_applied st) batch)
            else verificationFailuresForEntries batch (batch_entries batch) (JStr (rj_reason job)) [(''checks'', JArr (rs_failures st))])
      in (repair_result job st w)\<lparr>cr_failed := mergeFailedEntries (open_entries @ rs_failed st),
           cr_reason := Some ''manual_edit_repair_needs_decision'', cr_needsManualDecision := True,
           cr_repair := JObj [(''status'', JStr ''needs_decision''), (''attempts'', maxAttempts), (''maxAttempts'', maxAttempts),
             (''transactionId'', js_or (rj_transactionId job) JNull), (''failures'', JArr (summarizeRepairFailures (rs_failures st))),
             (''files'', JArr (map JStr (rs_files st)))]\<rparr>)"

text \<open>The first argument is how many attempts are left.\<close>

fun repair_loop :: "nat \<Rightarrow> commit_env \<Rightarrow> repair_job \<Rightarrow> repair_state \<Rightarrow> commit_world \<Rightarrow> commit_world \<times> commit_result" where
  "repair_loop 0 ce job st w = (w, needs_decision ce job st w)"
| "repair_loop (Suc left) ce job st w =
     (let attempt = repairAttemptLimit (ce_attempts ce) - left; batch = rj_batch job in
      case runCopyEditBatchAgent ce attempt (buildRepairBatch batch (repair_request ce job attempt st)) w of
        (w1, Inl m) \<Rightarrow>
          repair_loop left ce job (st\<lparr>rs_failures := [JObj [(''reason'', JStr ''repair_agent_failed''), (''message'', JStr m)]]\<rparr>) w1
      | (w1, Inr r) \<Rightarrow>
         (let st1 = repair_reply batch r st; verdict = verifyEntriesAfterRepair ce batch (rs_applied st1) (rs_files st1) (cw_files w1) in
          if snd verdict \<noteq> [] then repair_loop left ce job (st1\<lparr>rs_failures := snd verdict\<rparr>) w1
          else (let checks = runCopyEditPostApplyChecks ce (cw_files w1) (rs_files st1); st2 = st1\<lparr>rs_warnings := rs_warnings st1 @ pc_warnings checks\<rparr> in
            if \<not> checks_ok checks then repair_loop left ce job (st2\<lparr>rs_failures := pc_failures checks\<rparr>) w1
            else repaired ce job attempt (fst verdict) st2 w1)))"

definition repairPostApplyValidation :: "commit_env \<Rightarrow> repair_job \<Rightarrow> repair_state \<Rightarrow> commit_world \<Rightarrow> commit_world \<times> commit_result" where
  "repairPostApplyValidation ce job st w =
     repair_loop (repairAttemptLimit (ce_attempts ce)) ce job (st\<lparr>rs_files := nonblank (rs_files st), rs_applied := nonblank (rs_applied st)\<rparr>) w"

section \<open>The commit\<close>

record commit_request =
  rq_batch :: jsval
  rq_pageUrl :: jsval
  rq_repairOnly :: bool
  rq_transactionId :: jsval

definition commit_total :: "commit_request \<Rightarrow> nat" where
  "commit_total rq = commit_countOps (batch_entries (rq_batch rq))"

text \<open>The fields that the results after a reply share.\<close>

definition reply_result :: "commit_request \<Rightarrow> agent_result \<Rightarrow> jsval list \<Rightarrow> commit_world \<Rightarrow> commit_result" where
  "reply_result rq r failed w = (nothing_applied (rq_pageUrl rq) (commit_total rq) w)\<lparr>cr_failed := failed, cr_files := ag_files r, cr_notes := ag_notes r\<rparr>"

definition commit_job :: "commit_request \<Rightarrow> string \<Rightarrow> repair_job" where
  "commit_job rq reason = \<lparr>rj_batch = rq_batch rq, rj_pageUrl = rq_pageUrl rq, rj_count = commit_total rq, rj_transactionId = rq_transactionId rq, rj_reason = reason\<rparr>"

definition commit_repair_state :: "agent_result \<Rightarrow> string list \<Rightarrow> jsval list \<Rightarrow> jsval list \<Rightarrow> jsval list \<Rightarrow> repair_state" where
  "commit_repair_state r ids failed warnings failures =
     \<lparr>rs_files = ag_files r, rs_applied = ids, rs_failed = failed, rs_notes = ag_notes r, rs_warnings = warnings, rs_failures = failures\<rparr>"

text \<open>The last part: the sources have been compared, no entry leaked; the verdicts and the check of the files decide.\<close>

definition conclude :: "commit_env \<Rightarrow> commit_request \<Rightarrow> agent_result \<Rightarrow> string list \<Rightarrow> string list \<Rightarrow> jsval list \<Rightarrow> jsval list \<Rightarrow> commit_world \<Rightarrow> commit_world \<times> commit_result" where
  "conclude ce rq r reportedAppliedIds verified verificationFailed nonRepairFailed w =
     (let batch = rq_batch rq in
      if verificationFailed \<noteq> [] then repairPostApplyValidation ce (commit_job rq ''source_verification_failed'')
          (commit_repair_state r reportedAppliedIds nonRepairFailed (ag_warnings r) verificationFailed) w
      else
       (let checks = runCopyEditPostApplyChecks ce (cw_files w) (ag_files r) in
        if \<not> checks_ok checks then repairPostApplyValidation ce (commit_job rq ''post_apply_validation_failed'')
            (commit_repair_state r (if verified \<noteq> [] then verified else str_elems (allEntryIds batch))
              nonRepairFailed (ag_warnings r @ pc_warnings checks) (pc_failures checks)) w
        else accept verified batch ((reply_result rq r nonRepairFailed w)\<lparr>cr_warnings := ag_warnings r @ pc_warnings checks\<rparr>) w))"

text \<open>What is done with a reply that is no error, where it contradicts neither itself nor the changed files.\<close>

definition compare_sources :: "commit_env \<Rightarrow> commit_request \<Rightarrow> edit_snapshot \<Rightarrow> agent_result \<Rightarrow> commit_world \<Rightarrow> commit_world \<times> commit_result" where
  "compare_sources ce rq snap r w =
     (let batch = rq_batch rq; fs = cw_files w; reportedAppliedIds = nonblank (ag_applied r);
          reportedFiles = reported_paths ce fs (ag_files r);
          aiFailed = normalizeFailedEntries batch (ag_failed r) (JStr ''AI copy edit failed'');
          entries = entries_among reportedAppliedIds batch;
          unapplied = filter (\<lambda>e. \<not> includes_id reportedAppliedIds (dot e ''id'')) (batch_entries batch);
          verified = verified_ids ce batch reportedFiles fs entries;
          verificationFailed = verification_failed ce batch reportedFiles fs entries;
          nonRepairFailed = verificationFailuresForEntries batch
              (filter (\<lambda>e. \<not> list_ex (\<lambda>item. strict_eq (dot item ''id'') (dot e ''id'')) aiFailed) unapplied) (JStr ''not_reported_applied'') [] @ aiFailed;
          leaked = findUnappliedEntrySourceChanges ce batch unapplied reportedFiles fs snap in
      if reportedAppliedIds \<noteq> [] \<and> reportedFiles = [] then repairPostApplyValidation ce (commit_job rq ''missing_touched_files'')
          (commit_repair_state r reportedAppliedIds aiFailed (ag_warnings r)
            (verificationFailuresForEntries batch entries (JStr ''missing_touched_files'') [])) w
      else if leaked \<noteq> [] then refuse ce snap (ag_files r) (collectApplyOwnedFiles ce fs batch (ag_files r))
          (reply_result rq r (leaked @
             filter (\<lambda>item. \<not> has_value (filter truthy (map (\<lambda>l. dot l ''id'') leaked)) (dot item ''id'')) (verificationFailed @ nonRepairFailed) @
             verificationFailuresForEntries batch (filter (\<lambda>e. includes_id verified (dot e ''id'')) entries)
               (JStr ''rolled_back_due_to_failed_entry_source_changed'') []) w) w
      else conclude ce rq r reportedAppliedIds verified verificationFailed nonRepairFailed w)"

definition settle_reply :: "commit_env \<Rightarrow> commit_request \<Rightarrow> edit_snapshot \<Rightarrow> agent_result \<Rightarrow> commit_world \<Rightarrow> commit_world \<times> commit_result" where
  "settle_reply ce rq snap r w =
     (let batch = rq_batch rq; fs = cw_files w; scope = collectApplyOwnedFiles ce fs batch (ag_files r);
          reportedAppliedIds = nonblank (ag_applied r); message = js_or (ag_message r) (JStr ''AI copy edit failed'') in
      if ag_status r = ''error'' then
        (let failed = normalizeFailedEntries batch (ag_failed r) message
         in refuse ce snap (ag_files r) scope
              (reply_result rq r (if failed \<noteq> [] then failed else verificationFailuresForEntries batch (batch_entries batch) message []) w) w)
      else
       (let aiFailed = normalizeFailedEntries batch (ag_failed r) (JStr ''AI copy edit failed'');
            conflicting = filter (\<lambda>i. has_value (filter truthy (map (\<lambda>item. dot item ''id'') aiFailed)) (JStr i)) reportedAppliedIds;
            unreported = unreportedChangedFiles ce fs snap (ag_files r) scope in
        if conflicting \<noteq> [] then refuse ce snap (ag_files r) scope
            (reply_result rq r (verificationFailuresForEntries batch (entries_among conflicting batch) (JStr ''conflicting_apply_result'') [] @
               filter (\<lambda>item. \<not> includes_id conflicting (dot item ''id'')) aiFailed) w) w
        else if unreported \<noteq> [] then refuse ce snap (ag_files r) (scope @ unreported)
            ((reply_result rq r (verificationFailuresForEntries batch (batch_entries batch) (JStr ''unreported_source_changes'')
               [(''files'', JArr (map JStr unreported))]) w)\<lparr>cr_unreported := unreported\<rparr>) w
        else if ag_status r = ''done'' \<and> reportedAppliedIds = [] then refuse ce snap (ag_files r) scope
            (reply_result rq r (verificationFailuresForEntries batch (batch_entries batch) (JStr ''missing_applied_entry_ids'') []) w) w
        else compare_sources ce rq snap r w))"

text \<open>With \<open>rq_repairOnly\<close> the sources are taken as the agent left them and only checked.\<close>

definition first_reply :: "commit_env \<Rightarrow> commit_request \<Rightarrow> commit_world \<Rightarrow> commit_world \<times> (string + agent_result)" where
  "first_reply ce rq w =
     (if rq_repairOnly rq
      then (w, Inr \<lparr>ag_status = ''done'', ag_message = JUndef, ag_applied = str_elems (allEntryIds (rq_batch rq)), ag_failed = [],
             ag_files = collectApplyOwnedFiles ce (cw_files w) (rq_batch rq) [], ag_notes = [JStr ''repair-only validation pass''], ag_warnings = []\<rparr>)
      else runCopyEditBatchAgent ce 0 (rq_batch rq) w)"

definition commitManualEdits :: "commit_env \<Rightarrow> commit_request \<Rightarrow> commit_world \<Rightarrow> commit_world \<times> commit_result" where
  "commitManualEdits ce rq w = (case readBufferStrict (cw_buffer w) of
      Inl e \<Rightarrow> (w, (nothing_applied (rq_pageUrl rq) 0 w)\<lparr>cr_reason := Some ''manual_edit_buffer_invalid'',
          cr_message := Some (case e of Thrown m \<Rightarrow> m | _ \<Rightarrow> [])\<rparr>)
    | Inr _ \<Rightarrow>
       if commit_total rq = 0 then (w, (nothing_applied (rq_pageUrl rq) 0 w)\<lparr>cr_reason := Some ''no_pending_edits''\<rparr>)
       else
        (let scope = collectApplyOwnedFiles ce (cw_files w) (rq_batch rq) []; snap = snapshotRollbackFiles ce (cw_files w) scope in
         case first_reply ce rq w of
           (w1, Inl m) \<Rightarrow> refuse ce snap [] scope
              ((nothing_applied (rq_pageUrl rq) (commit_total rq) w1)\<lparr>cr_failed :=
                 verificationFailuresForEntries (rq_batch rq) (batch_entries (rq_batch rq)) (JStr m) []\<rparr>) w1
         | (w1, Inr r) \<Rightarrow> settle_reply ce rq snap r w1))"

end
