(* ===== verification/Edit_Properties.thy ===== *)
theory Edit_Properties
  imports Edit_Commit
begin

text \<open>
  What the commit of copy edits guarantees: only entries that the sources show are cleared, and a
  refused commit puts the sources back.
\<close>

section \<open>A commit to look at\<close>

text \<open>One heading, edited in the browser from Hello to Hi; the agent writes that and reports it with the given status.
  What is saved in the meantime is a parameter.\<close>

definition demo_env :: "(nat \<Rightarrow> jsval \<Rightarrow> commit_world \<Rightarrow> commit_world \<times> (string + jsval)) \<Rightarrow> commit_env" where
  "demo_env agent = \<lparr>pj_cwd = ''/p'', pj_ignored = (\<lambda>_. False), ce_agent = agent, ce_fails = (\<lambda>_. None), ce_readdir = (\<lambda>_ _. None),
     ce_realpath = Some, ce_json = (\<lambda>_. Inl ''no JSON''), ce_babel = None, ce_node_check = (\<lambda>_ _. None), ce_script = (\<lambda>_ _. None), ce_attempts = JUndef\<rparr>"

definition demo_op :: "string \<Rightarrow> jsval" where
  "demo_op t = JObj [(''ref'', JStr ''h1''), (''originalText'', JStr ''Hello''), (''newText'', JStr t), (''sourceHint'', JObj [(''file'', JStr ''a.html''), (''line'', jint 1)])]"

definition demo_request :: commit_request where
  "demo_request = \<lparr>rq_batch = JObj [(''entries'', JArr [JObj [(''id'', JStr ''e1''), (''ops'', JArr [demo_op ''Hi''])]]), (''candidates'', JArr [])],
     rq_pageUrl = JStr ''/'', rq_repairOnly = False, rq_transactionId = JNull\<rparr>"

definition demo_staged :: "string \<Rightarrow> bentry" where
  "demo_staged t = \<lparr>be_id = JStr ''e1'', be_pageUrl = JStr ''/'', be_element = JNull, be_ops = [demo_op t], be_stagedAt = JNull\<rparr>"

definition before_files :: files where "before_files = (\<lambda>p. if p = ''/p/a.html'' then Some ''<h1>Hello</h1>'' else None)"

definition after_files :: files where "after_files = (\<lambda>p. if p = ''/p/a.html'' then Some ''<h1>Hi</h1>'' else None)"

definition demo_commit_world :: commit_world where
  "demo_commit_world = \<lparr>cw_files = before_files, cw_buffer = Buffer [demo_staged ''Hi'']\<rparr>"

definition demo_agent :: "(buffer_file \<Rightarrow> buffer_file) \<Rightarrow> string \<Rightarrow> nat \<Rightarrow> jsval \<Rightarrow> commit_world \<Rightarrow> commit_world \<times> (string + jsval)" where
  "demo_agent saves status n batch w = (\<lparr>cw_files = after_files, cw_buffer = saves (cw_buffer w)\<rparr>,
     Inr (JObj [(''status'', JStr status), (''appliedEntryIds'', JArr [JStr ''e1'']), (''files'', JArr [JStr ''a.html''])]))"


definition demo_snap :: edit_snapshot where "demo_snap = [(''a.html'', Some ''<h1>Hello</h1>'')]"

lemma demo_headers: "hasGeneratedHeader (Some ''<h1>Hello</h1>'') = False" "hasGeneratedHeader (Some ''<h1>Hi</h1>'') = False" by code_simp+

lemma demo_edit_path: "normalizeProjectFile ''/p'' (JStr ''a.html'') = Some ''a.html''" "path_resolve ''/p'' ''a.html'' = ''/p/a.html''" by code_simp+

lemma demo_env_sel [simp]:
  "pj_cwd (demo_env ag) = ''/p''" "ce_agent (demo_env ag) = ag" "ce_fails (demo_env ag) = (\<lambda>_. None)" 
  by (simp_all add: demo_env_def)

lemma demo_normalize:
  assumes "fs = before_files \<or> fs = after_files"
  shows "normalizeRollbackPath (demo_env ag) fs (JStr ''a.html'') = Some ''a.html''" "normalizeRelativeFile (demo_env ag) fs (JStr ''a.html'') = Some ''a.html''"
  using assms by (auto simp: normalizeRollbackPath_def normalizeRelativeFile_def normalizeProjectSourcePath_def demo_edit_path demo_headers demo_env_def isGeneratedFile_def
    before_files_def after_files_def Let_def)

lemma demo_rollback_paths: "fs = before_files \<or> fs = after_files \<Longrightarrow> rollback_paths (demo_env ag) fs [''a.html''] = [''a.html'']"
  by (simp add: rollback_paths_def demo_normalize)

lemma demo_names: "nonblank (str_elems (concat (map (\<lambda>e. map (\<lambda>oper. dot (dot oper ''sourceHint'') ''file'') (entry_ops e)) (batch_entries (rq_batch demo_request))) @
        concat (map candidate_files (batch_candidates (rq_batch demo_request))))) = [''a.html'']"
   "nonblank (str_elems (concat (map (\<lambda>e. map (\<lambda>oper. dot (dot oper ''sourceHint'') ''file'') (entry_ops e)) (batch_entries (rq_batch demo_request))) @
        concat (map candidate_files (batch_candidates (rq_batch demo_request)))) @ [''a.html'']) = [''a.html'']"
   "nonblank [''a.html''] = [''a.html'']" "nonblank [''e1''] = [''e1'']" by code_simp+

lemma demo_scope: "collectApplyOwnedFiles (demo_env ag) before_files (rq_batch demo_request) [] = [''a.html'']"
   "collectApplyOwnedFiles (demo_env ag) after_files (rq_batch demo_request) [''a.html''] = [''a.html'']"
  using demo_names by (simp_all add: collectApplyOwnedFiles_def demo_rollback_paths del: concat_append map_append)

lemma demo_snapshot: "snapshotRollbackFiles (demo_env ag) before_files [''a.html''] = demo_snap"
  by (simp add: snapshotRollbackFiles_def demo_rollback_paths demo_names demo_edit_path demo_snap_def before_files_def [THEN fun_cong])

lemma demo_reported: "reported_paths (demo_env ag) after_files [''a.html''] = [''a.html'']"
  by (simp add: reported_paths_def demo_names demo_normalize)

lemma demo_changed: "changedFilesSinceSnapshot (demo_env ag) after_files demo_snap [''a.html''] = [(''a.html'', Modified)]"
  by (simp add: changedFilesSinceSnapshot_def demo_rollback_paths demo_snap_def js_set_def demo_edit_path change_since_def after_files_def [THEN fun_cong])

lemma demo_unreported: "unreportedChangedFiles (demo_env ag) after_files demo_snap [''a.html''] [''a.html''] = []"
  by (simp add: unreportedChangedFiles_def demo_rollback_paths demo_changed js_set_def)

lemma demo_checks: "checks_ok (runCopyEditPostApplyChecks (demo_env ag) after_files [''a.html''])" by code_simp

definition demo_entry :: jsval where "demo_entry = JObj [(''id'', JStr ''e1''), (''ops'', JArr [demo_op ''Hi''])]"

lemma demo_entries: "batch_entries (rq_batch demo_request) = [demo_entry]" "dot demo_entry ''id'' = JStr ''e1''" "commit_total demo_request = 1"
  by (simp_all add: batch_entries_def demo_request_def demo_entry_def commit_total_def commit_countOps_def entry_ops_def)

lemma demo_verified: "verifyAppliedEntry (demo_env ag) (rq_batch demo_request) [''a.html''] after_files demo_entry = []" by code_simp

definition demo_agent_result :: "string \<Rightarrow> agent_result" where
  "demo_agent_result status = \<lparr>ag_status = status, ag_message = JNull, ag_applied = [''e1''], ag_failed = [], ag_files = [''a.html''], ag_notes = [], ag_warnings = []\<rparr>"

lemma demo_first_reply:
  assumes "status = ''done'' \<or> status = ''error''"
  shows "first_reply (demo_env (demo_agent saves status)) demo_request demo_commit_world =
    (\<lparr>cw_files = after_files, cw_buffer = saves (Buffer [demo_staged ''Hi''])\<rparr>, Inr (demo_agent_result status))"
  using assms by (auto simp: first_reply_def runCopyEditBatchAgent_def demo_request_def demo_agent_def normalizeBatchResult_def demo_agent_result_def demo_commit_world_def str_elems_def js_or_def)

lemma demo_commit_done: "fst (commitManualEdits (demo_env (demo_agent saves ''done'')) demo_request demo_commit_world) =
   \<lparr>cw_files = after_files, cw_buffer = snd (clearAppliedEntries [''e1''] (saves (Buffer [demo_staged ''Hi''])))\<rparr>"
proof -
  have s: "settle_reply (demo_env ag) demo_request demo_snap (demo_agent_result ''done'') w = compare_sources (demo_env ag) demo_request demo_snap (demo_agent_result ''done'') w"
    if "cw_files w = after_files" for ag w
    using that by (simp add: settle_reply_def demo_scope demo_unreported demo_names normalizeFailedEntries_def demo_agent_result_def List.map_filter_def has_value_def)
  have c: "fst (compare_sources (demo_env ag) demo_request demo_snap (demo_agent_result ''done'') w) = w\<lparr>cw_buffer := snd (clearAppliedEntries [''e1''] (cw_buffer w))\<rparr>"
    if "cw_files w = after_files" for ag w
    using that demo_checks by (simp add: compare_sources_def demo_reported demo_names demo_agent_result_def entries_among_def demo_entries includes_id_def
       verified_ids_def verification_failed_def demo_verified findUnappliedEntrySourceChanges_def List.map_filter_def conclude_def accept_def text_field_def Let_def split: prod.split)
  show ?thesis using demo_first_reply [of "''done''" saves]
    by (simp add: commitManualEdits_def demo_commit_world_def readBufferStrict_def demo_entries demo_scope demo_snapshot s c)
qed

lemma demo_rollback: "rr_files (fst (rollbackChangedFiles (demo_env ag) demo_snap [''a.html''] [''a.html''] after_files)) = [''a.html'']"
  by (simp add: rollbackChangedFiles_def rollback_items_def demo_rollback_paths demo_changed js_set_def rollback_change_def rollback_paths_def demo_normalize Let_def)
    (simp add: demo_snap_def)

lemma demo_commit_error: "cr_rolledBack (snd (commitManualEdits (demo_env (demo_agent saves ''error'')) demo_request demo_commit_world)) = Some [''a.html'']"
proof -
  have "cr_rolledBack (snd (refuse (demo_env ag) demo_snap [''a.html''] [''a.html''] r w)) = Some [''a.html'']" if "cw_files w = after_files" for ag r w
    using demo_rollback [of ag] that by (auto simp: refuse_def split: prod.split)
  then show ?thesis using demo_first_reply [of "''error''" saves]
    by (simp add: commitManualEdits_def demo_commit_world_def readBufferStrict_def demo_entries demo_scope demo_snapshot settle_reply_def Let_def demo_agent_result_def)
qed

section \<open>Laws of a settled reply\<close>

text \<open>
  What holds for every way in which a reply of the agent can be settled: a law that holds of a refusal that covers
  the files of the batch, of a repair, and of the conclusion on verified entries holds of every outcome.
\<close>

definition conclude_reply :: "commit_env \<Rightarrow> commit_request \<Rightarrow> agent_result \<Rightarrow> jsval list \<Rightarrow> commit_world \<Rightarrow> commit_world \<times> commit_result" where
  "conclude_reply ce rq r rest w =
     (let batch = rq_batch rq; fs = cw_files w; ids = nonblank (ag_applied r); reportedFiles = reported_paths ce fs (ag_files r)
      in conclude ce rq r ids (verified_ids ce batch reportedFiles fs (entries_among ids batch))
           (verification_failed ce batch reportedFiles fs (entries_among ids batch)) rest w)"

lemma owned_mono: "set (collectApplyOwnedFiles ce fs batch []) \<subseteq> set (collectApplyOwnedFiles ce fs batch extra)"
  by (auto simp: collectApplyOwnedFiles_def rollback_paths_def map_filter_set nonblank_def)

locale reply_law =
  fixes ce :: commit_env and rq :: commit_request and snap :: edit_snapshot and w :: commit_world
    and law :: "commit_world \<times> commit_result \<Rightarrow> bool"
  assumes refused: "cr_applied r = [] \<Longrightarrow> cr_cleared r = 0 \<Longrightarrow>
      set (collectApplyOwnedFiles ce (cw_files w) (rq_batch rq) []) \<subseteq> set scopeFiles \<Longrightarrow> law (refuse ce snap extra scopeFiles r w)"
    and repaired: "law (repairPostApplyValidation ce (commit_job rq reason) st w)"
    and concluded: "law (conclude_reply ce rq reply rest w)"
begin

lemma either: "law out1 \<Longrightarrow> law out2 \<Longrightarrow> law (if c then out1 else out2)"
  by simp

lemma compared: "law (compare_sources ce rq snap r w)"
  unfolding compare_sources_def Let_def
  by (intro either repaired refused owned_mono concluded [unfolded conclude_reply_def Let_def]) (simp_all add: reply_result_def nothing_applied_def)

lemma settle: "law (settle_reply ce rq snap r w)"
  unfolding settle_reply_def Let_def
  by (intro either refused compared) (auto simp: reply_result_def nothing_applied_def dest: subsetD [OF owned_mono [of ce "cw_files w" "rq_batch rq" "ag_files r"]])

end

section \<open>Entries that are cleared\<close>

lemma includes_id_text: "includes_id ids v \<Longrightarrow> \<exists>i. v = JStr i \<and> i \<in> set ids"
  by (auto simp: includes_id_def split: jsval.splits)

lemma includes_id_Nil [simp]: "\<not> includes_id [] v"
  by (simp add: includes_id_def split: jsval.split)

lemma verified_all:
  assumes "verification_failed ce batch rf fs es = []"
  shows "\<forall>e\<in>set es. verifyAppliedEntry ce batch rf fs e = []"
  using assms by (auto simp: verification_failed_def filter_empty_conv)

lemma verified_among:
  assumes "verification_failed ce batch rf fs (entries_among ids batch) = []"
    and "e \<in> set (batch_entries batch)" "includes_id (verified_ids ce batch rf fs (entries_among ids batch)) (dot e ''id'')"
  shows "verifyAppliedEntry ce batch rf fs e = []"
proof -
  obtain i where i: "dot e ''id'' = JStr i" "i \<in> set (verified_ids ce batch rf fs (entries_among ids batch))"
    using includes_id_text [OF assms(3)] by auto
  then obtain e' where e': "e' \<in> set (entries_among ids batch)" "i = text_field e' ''id''" by (auto simp: verified_ids_def)
  then obtain j where j: "dot e' ''id'' = JStr j" "j \<in> set ids" using includes_id_text by (fastforce simp: entries_among_def)
  then have "e \<in> set (entries_among ids batch)" using e' i(1) assms(2) by (simp add: entries_among_def includes_id_def text_field_def)
  then show ?thesis using verified_all [OF assms(1)] by blast
qed

text \<open>An outcome that clears what it has verified, and nothing else.\<close>

definition clears_verified :: "commit_env \<Rightarrow> jsval \<Rightarrow> buffer_file \<Rightarrow> commit_world \<times> commit_result \<Rightarrow> bool" where
  "clears_verified ce batch b out \<longleftrightarrow> (\<exists>ids.
     clearAppliedEntries ids b = (cr_cleared (snd out), cw_buffer (fst out)) \<and>
     cr_applied (snd out) = summarizeAppliedEntries (batch_entries batch) ids \<and>
     (\<forall>e\<in>set (batch_entries batch). includes_id ids (dot e ''id'') \<longrightarrow>
        verifyAppliedEntry ce batch (reported_paths ce (cw_files (fst out)) (cr_files (snd out))) (cw_files (fst out)) e = []) \<and>
     (ids \<noteq> [] \<longrightarrow> checks_ok (runCopyEditPostApplyChecks ce (cw_files (fst out)) (cr_files (snd out)))))"

lemma nothing_cleared:
  assumes "cr_cleared r = 0" "cr_applied r = []" "cw_buffer w = b"
  shows "clears_verified ce batch b (w, r)"
  using assms by (auto simp: clears_verified_def clearAppliedEntries_def summarizeAppliedEntries_def intro!: exI [of _ "[]"])

lemma refuse_clears_nothing:
  assumes "cr_cleared r = 0" "cr_applied r = []" "cw_buffer w = b"
  shows "clears_verified ce batch b (refuse ce snap ex sc r w)"
  using assms by (auto simp: refuse_def split: prod.splits intro!: nothing_cleared)

lemma nothing_applied_sel [simp]:
  "cr_cleared (nothing_applied u n w) = 0" "cr_applied (nothing_applied u n w) = []" "cr_rolledBack (nothing_applied u n w) = None"
  "cr_cleared (reply_result rq r f w) = 0" "cr_applied (reply_result rq r f w) = []"
  "cr_rolledBack (reply_result rq r f w) = None" "cr_files (reply_result rq r f w) = ag_files r"
  "cr_files (repair_result job st w) = rs_files st" "cr_rolledBack (repair_result job st w) = None"
  "cr_cleared (needs_decision ce job st w) = 0" "cr_applied (needs_decision ce job st w) = []" "cr_rolledBack (needs_decision ce job st w) = None"
  by (simp_all add: nothing_applied_def reply_result_def repair_result_def needs_decision_def Let_def)

lemma accept_clears_verified:
  assumes "cw_buffer w = b" "checks_ok (runCopyEditPostApplyChecks ce (cw_files w) (cr_files r))"
    and "verification_failed ce batch (reported_paths ce (cw_files w) (cr_files r)) (cw_files w) (entries_among given batch) = []"
    and "ids = verified_ids ce batch (reported_paths ce (cw_files w) (cr_files r)) (cw_files w) (entries_among given batch)"
  shows "clears_verified ce batch b (accept ids batch r w)"
proof -
  obtain n b' where c: "clearAppliedEntries ids b = (n, b')" by fastforce
  show ?thesis using assms(2) verified_among [OF assms(3)] unfolding clears_verified_def accept_def assms(1) c assms(4) [symmetric]
    by (auto intro!: exI [of _ ids] simp: c)
qed

text \<open>The agent does not touch the buffer, nor does a Save while it runs.\<close>

definition keeps_buffer :: "commit_env \<Rightarrow> bool" where
  "keeps_buffer ce \<longleftrightarrow> (\<forall>n batch w. cw_buffer (fst (ce_agent ce n batch w)) = cw_buffer w)"

lemma agent_buffer:
  assumes "keeps_buffer ce" "runCopyEditBatchAgent ce n batch w = (w', x)"
  shows "cw_buffer w' = cw_buffer w"
  using assms by (auto simp: keeps_buffer_def runCopyEditBatchAgent_def split: prod.splits sum.splits) (metis fst_conv)+

lemma repair_loop_clears_verified:
  assumes "keeps_buffer ce" "rj_batch job = batch"
  shows "clears_verified ce batch (cw_buffer w) (repair_loop left ce job st w)"
proof (induction left arbitrary: st w)
  case 0
  then show ?case by (simp add: nothing_cleared)
next
  case (Suc left)
  obtain w1 x where a: "runCopyEditBatchAgent ce (repairAttemptLimit (ce_attempts ce) - left)
      (buildRepairBatch batch (repair_request ce job (repairAttemptLimit (ce_attempts ce) - left) st)) w = (w1, x)" by fastforce
  note b = agent_buffer [OF assms(1) a]
  show ?case
  proof (cases x)
    case (Inl m)
    then show ?thesis using a Suc.IH [where w = w1] by (simp add: assms(2) b)
  next
    case (Inr r)
    show ?thesis using a Inr Suc.IH [where w = w1]
      by (auto simp: assms(2) b Let_def repaired_def verifyEntriesAfterRepair_def intro!: accept_clears_verified [where given = "rs_applied (repair_reply batch r st)"])
  qed
qed

lemma repair_clears_verified:
  assumes "keeps_buffer ce" "cw_buffer w = b"
  shows "clears_verified ce (rq_batch rq) b (repairPostApplyValidation ce (commit_job rq reason) st w)"
  unfolding repairPostApplyValidation_def using assms by (auto intro: repair_loop_clears_verified simp: commit_job_def)

lemma conclude_clears_verified:
  assumes "keeps_buffer ce" "cw_buffer w = b"
    and "verified = verified_ids ce (rq_batch rq) (reported_paths ce (cw_files w) (ag_files r)) (cw_files w) (entries_among given (rq_batch rq))"
    and "failed = verification_failed ce (rq_batch rq) (reported_paths ce (cw_files w) (ag_files r)) (cw_files w) (entries_among given (rq_batch rq))"
  shows "clears_verified ce (rq_batch rq) b (conclude ce rq r ids verified failed rest w)"
proof (cases "failed = [] \<and> checks_ok (runCopyEditPostApplyChecks ce (cw_files w) (ag_files r))")
  case True
  then show ?thesis using assms accept_clears_verified [OF assms(2), where given = given and ce = ce and batch = "rq_batch rq"
      and r = "(reply_result rq r rest w)\<lparr>cr_warnings := ag_warnings r @ pc_warnings (runCopyEditPostApplyChecks ce (cw_files w) (ag_files r))\<rparr>"]
    by (simp add: conclude_def Let_def)
next
  case False
  then show ?thesis using repair_clears_verified [OF assms(1,2)] by (simp add: conclude_def Let_def)
qed

interpretation clear: reply_law ce rq snap w "\<lambda>out. keeps_buffer ce \<longrightarrow> cw_buffer w = b \<longrightarrow> clears_verified ce (rq_batch rq) b out" for ce rq snap w b
proof unfold_locales
  fix r :: commit_result and extra scopeFiles assume r: "cr_applied r = []" "cr_cleared r = 0"
  show "keeps_buffer ce \<longrightarrow> cw_buffer w = b \<longrightarrow> clears_verified ce (rq_batch rq) b (refuse ce snap extra scopeFiles r w)"
    using refuse_clears_nothing [OF r(2,1)] by blast
next
  fix reason st
  show "keeps_buffer ce \<longrightarrow> cw_buffer w = b \<longrightarrow> clears_verified ce (rq_batch rq) b (repairPostApplyValidation ce (commit_job rq reason) st w)"
    using repair_clears_verified by blast
next
  fix r rest
  show "keeps_buffer ce \<longrightarrow> cw_buffer w = b \<longrightarrow> clears_verified ce (rq_batch rq) b (conclude_reply ce rq r rest w)"
    unfolding conclude_reply_def Let_def using conclude_clears_verified [OF _ _ refl refl] by blast
qed

lemma first_reply_buffer: "keeps_buffer ce \<Longrightarrow> first_reply ce rq w = (w1, x) \<Longrightarrow> cw_buffer w1 = cw_buffer w"
  by (auto simp: first_reply_def agent_buffer split: if_splits)

lemma commit_clears_verified:
  assumes "keeps_buffer ce"
  shows "clears_verified ce (rq_batch rq) (cw_buffer w) (commitManualEdits ce rq w)"
  using clear.settle [rule_format, OF assms first_reply_buffer [OF assms]]
  by (auto simp: commitManualEdits_def Let_def split: sum.split prod.split intro!: nothing_cleared refuse_clears_nothing first_reply_buffer [OF assms])

section \<open>What a verified entry means\<close>

text \<open>
  The text of an operation is in a source: in a line, or in some lines in sequence when runs of white
  space count as one space. An operation that removes text leaves a line without it.
\<close>

definition text_shown :: "string \<Rightarrow> jsval \<Rightarrow> bool" where
  "text_shown content oper \<longleftrightarrow>
     (let lines = split_on NL content; new = text_field oper ''newText'' in
      (\<exists>l\<in>set lines. str_includes l new) \<or>
      (\<exists>a b. str_includes (normalizeVerificationText (join_with [NL] (drop a (take b lines)))) (normalizeVerificationText new)))"

definition is_source :: "'p source_project_scheme \<Rightarrow> files \<Rightarrow> string \<Rightarrow> string \<Rightarrow> bool" where
  "is_source pj fs p content \<longleftrightarrow> below_root (pj_cwd pj) p \<and> fs p = Some content \<and> \<not> isGeneratedFile (pj_ignored pj) (path_segments p) (Some content)"

definition writes_text :: "jsval \<Rightarrow> bool" where
  "writes_text oper \<longleftrightarrow> dot oper ''deleted'' \<noteq> JBool True \<and> text_field oper ''newText'' \<noteq> []"

lemma line_shows_new:
  assumes "lineShowsAppliedOp l oper" "writes_text oper"
  shows "str_includes l (text_field oper ''newText'')"
  using assms by (simp add: lineShowsAppliedOp_def writes_text_def Let_def)

lemma line_text_cases: "line_text lines q = [] \<or> line_text lines q \<in> set lines"
proof -
  have "nat \<lfloor>q\<rfloor> - 1 < length lines" if "1 \<le> q" "q \<le> of_nat (length lines)"
    using that by (simp add: nat_less_iff) linarith
  then show ?thesis by (auto simp: line_text_def)
qed

lemma str_includes_Nil: "str_includes [] t \<longleftrightarrow> t = []"
  by (cases t) auto

lemma target_shows_new:
  assumes "verificationTargetPassesLines (split_on NL content) t oper" "writes_text oper"
  shows "text_shown content oper"
proof -
  let ?lines = "split_on NL content" and ?new = "text_field oper ''newText''"
  consider (line) "lineShowsAppliedOp (line_text ?lines (tg_line t)) oper"
    | (near) a b where "list_ex (\<lambda>l. lineShowsAppliedOp l oper) (drop a (take b ?lines))"
    | (win) a b where "windowShowsAppliedOp (drop a (take b ?lines)) oper"
    using assms(1) unfolding verificationTargetPassesLines_def Let_def line_window_def by (auto split: if_splits)
  then show ?thesis
  proof cases
    case line
    then have "str_includes (line_text ?lines (tg_line t)) ?new" using line_shows_new assms(2) by blast
    then show ?thesis using line_text_cases [of ?lines "tg_line t"] assms(2)
      by (auto simp: text_shown_def writes_text_def str_includes_Nil Let_def)
  next
    case near
    then show ?thesis using line_shows_new [OF _ assms(2)] by (auto simp: text_shown_def list_ex_iff Let_def dest!: in_set_dropD in_set_takeD)
  next
    case win
    then show ?thesis by (auto simp: text_shown_def windowShowsAppliedOp_def Let_def)
  qed
qed

lemma relative_is_source:
  assumes "isAbsolute (pj_cwd pj)" "normalizeRelativeFile pj fs f = Some rel"
  shows "\<exists>content. is_source pj fs (path_resolve (pj_cwd pj) rel) content"
proof -
  have "normalizeProjectFile (pj_cwd pj) f = Some rel" "fs (path_resolve (pj_cwd pj) rel) \<noteq> None"
    "\<not> isGeneratedFile (pj_ignored pj) (path_segments (path_resolve (pj_cwd pj) rel)) (fs (path_resolve (pj_cwd pj) rel))"
    using assms(2) by (auto simp: normalizeRelativeFile_def normalizeProjectSourcePath_def Let_def split: option.splits if_splits)
  then show ?thesis using normalized_below [OF assms(1)] by (auto simp: is_source_def)
qed

lemma unique_targets_subset: "set (unique_targets seen ts) \<subseteq> set ts"
  by (induction seen ts rule: unique_targets.induct) (auto simp: Let_def)

lemma targets_from:
  "\<exists>specs. set (verificationTargetsForOp pj batch oper reported fs) \<subseteq>
     set (concat (map (add_check_target pj fs reported) specs) @ concat (map (locatorTargetsInFile pj fs oper) reported))"
  unfolding verificationTargetsForOp_def Let_def by (rule exI, rule unique_targets_subset)

lemma targets_normalized:
  assumes "t \<in> set (verificationTargetsForOp pj batch oper reported fs)"
    and "\<forall>rel\<in>set reported. \<exists>f. normalizeRelativeFile pj fs f = Some rel"
  shows "\<exists>f. normalizeRelativeFile pj fs f = Some (tg_file t)"
proof -
  have "(\<exists>spec. t \<in> set (add_check_target pj fs reported spec)) \<or> (\<exists>rel\<in>set reported. t \<in> set (locatorTargetsInFile pj fs oper rel))"
    using assms(1) targets_from [of pj batch oper reported fs] by fastforce
  moreover have "\<exists>f. normalizeRelativeFile pj fs f = Some (tg_file t)" if "t \<in> set (add_check_target pj fs reported spec)" for spec
    using that by (cases spec) (auto simp: add_check_target_def split: option.splits jsnum.splits if_splits)
  moreover have "tg_file t = rel" if "t \<in> set (locatorTargetsInFile pj fs oper rel)" for rel
    using that by (auto simp: locatorTargetsInFile_def split: if_splits option.splits dest!: in_set_takeD)
  ultimately show ?thesis using assms(2) by blast
qed

definition staged_op :: "jsval \<Rightarrow> jsval \<Rightarrow> jsval" where
  "staged_op entry rawOp = JObj (obj_set (own_props rawOp) ''entryId'' (dot entry ''id''))"

lemma staged_op_text:
  assumes "writes_text rawOp"
  shows "writes_text (staged_op entry rawOp)" "text_field (staged_op entry rawOp) ''newText'' = text_field rawOp ''newText''"
    "is_str (dot (staged_op entry rawOp) ''newText'')" "dot (staged_op entry rawOp) ''deleted'' \<noteq> JBool True"
proof -
  obtain kvs where "rawOp = JObj kvs" using assms by (cases rawOp) (auto simp: writes_text_def text_field_def)
  then show "writes_text (staged_op entry rawOp)" "text_field (staged_op entry rawOp) ''newText'' = text_field rawOp ''newText''"
    "is_str (dot (staged_op entry rawOp) ''newText'')" "dot (staged_op entry rawOp) ''deleted'' \<noteq> JBool True"
    using assms by (auto simp: writes_text_def staged_op_def text_field_def map_of_obj_set split: jsval.splits)
qed

lemma verified_op_shown:
  assumes "verify_op pj batch entry reported fs rawOp = []" "writes_text rawOp" "isAbsolute (pj_cwd pj)"
    and "\<forall>rel\<in>set reported. \<exists>f. normalizeRelativeFile pj fs f = Some rel"
  shows "\<exists>p content. is_source pj fs p content \<and> text_shown content rawOp"
proof -
  note o = staged_op_text [OF assms(2), of entry]
  have "list_ex (verificationTargetPasses pj fs (staged_op entry rawOp)) (verificationTargetsForOp pj batch (staged_op entry rawOp) reported fs)"
    using assms(1) o(3,4) by (auto simp: verify_op_def staged_op_def [symmetric] Let_def split: if_splits option.splits)
  then obtain t where t: "t \<in> set (verificationTargetsForOp pj batch (staged_op entry rawOp) reported fs)"
      "verificationTargetPasses pj fs (staged_op entry rawOp) t" by (auto simp: list_ex_iff)
  obtain content where c: "is_source pj fs (path_resolve (pj_cwd pj) (tg_file t)) content"
    using targets_normalized [OF t(1) assms(4)] relative_is_source [OF assms(3)] by blast
  then have "verificationTargetPassesLines (split_on NL content) t (staged_op entry rawOp)"
    using t(2) by (simp add: verificationTargetPasses_def file_lines_def is_source_def)
  then have "text_shown content rawOp" using target_shows_new [OF _ o(1)] o(2) by (auto simp: text_shown_def)
  then show ?thesis using c by blast
qed


definition demo_done :: "commit_world \<times> commit_result" where
  "demo_done = commitManualEdits (demo_env (demo_agent (\<lambda>b. b) ''done'')) demo_request demo_commit_world"


section \<open>Refused commits\<close>

lemma normalized_again:
  assumes "isAbsolute cwd" "normalizeProjectFile cwd f = Some rel"
  shows "normalizeProjectFile cwd (JStr rel) = Some rel"
proof -
  obtain g where g: "f = JStr g" "rel = path_relative cwd (path_resolve cwd g)" "\<not> outside_root rel"
    using assms(2) by (auto simp: normalizeProjectFile_def Let_def split: jsval.splits if_splits)
  obtain rest where r: "rest \<noteq> []" "list_all plain_segment rest" "rel = join_with ''/'' rest" "resolve_segments cwd rel = path_segments cwd @ rest"
    using normalizeProjectFile_inside [OF assms] by blast
  have same: "common_prefix xs (xs @ ys) = length xs" for xs ys :: "string list" by (induction xs) auto
  have plain: "list_all plain_segment (path_segments cwd @ rest)" using path_segments_plain [OF assms(1)] r(2) by simp
  have "path_relative cwd (path_resolve cwd rel) = rel"
    using r(3,4) by (simp add: path_relative_def path_resolve_def path_segments_abs [OF plain] relative_segments_def same)
  moreover have "rel \<noteq> []" using g(3) by (simp add: outside_root_def)
  ultimately show ?thesis using g(3) by (simp add: normalizeProjectFile_def)
qed

lemma rollback_path_iff:
  "normalizeRollbackPath pj fs f = Some rel \<longleftrightarrow> normalizeProjectFile (pj_cwd pj) f = Some rel \<and>
     \<not> isGeneratedFile (pj_ignored pj) (path_segments (path_resolve (pj_cwd pj) rel)) (fs (path_resolve (pj_cwd pj) rel))"
  by (auto simp: normalizeRollbackPath_def normalizeProjectSourcePath_def Let_def split: option.splits)

lemma rollback_paths_set: "set (rollback_paths ce fs names) = {rel. \<exists>f\<in>set names. normalizeRollbackPath ce fs (JStr f) = Some rel}"
  by (auto simp: rollback_paths_def map_filter_set)

lemma rollback_path_again:
  assumes "isAbsolute (pj_cwd ce)" "rel \<in> set (rollback_paths ce fs names)"
  shows "normalizeRollbackPath ce fs (JStr rel) = Some rel"
  using assms normalized_again by (fastforce simp: rollback_paths_set rollback_path_iff)

text \<open>The paths that one pass over the changes puts back.\<close>

definition put_back :: "commit_env \<Rightarrow> edit_snapshot \<Rightarrow> string list \<Rightarrow> (string \<times> change_kind) list \<Rightarrow> string set" where
  "put_back ce snap scope items = (\<lambda>i. path_resolve (pj_cwd ce) (fst i)) `
     {i \<in> set items. fst i \<in> set scope \<and> (\<exists>b. map_of snap (fst i) = Some b \<and> (b \<noteq> None \<or> snd i = Added))}"

definition taken_before :: "commit_env \<Rightarrow> files \<Rightarrow> edit_snapshot \<Rightarrow> bool" where
  "taken_before ce before snap \<longleftrightarrow> (\<forall>rel b. map_of snap rel = Some b \<longrightarrow> b = before (path_resolve (pj_cwd ce) rel))"

lemma rollback_change_files:
  assumes "\<forall>p. ce_fails ce p = None" "taken_before ce before snap"
  shows "snd (rollback_change ce snap scope item (r, fs)) = (\<lambda>p. if p \<in> put_back ce snap scope [item] then before p else fs p)"
  using assms by (cases item) (auto simp: fun_eq_iff rollback_change_def put_back_def taken_before_def Let_def split: option.splits)

lemma rollback_fold_files:
  assumes "\<forall>p. ce_fails ce p = None" "taken_before ce before snap"
  shows "snd (fold (rollback_change ce snap scope) items (r, fs)) = (\<lambda>p. if p \<in> put_back ce snap scope items then before p else fs p)"
proof (induction items arbitrary: r fs)
  case Nil
  then show ?case by (simp add: put_back_def)
next
  case (Cons item items)
  obtain r1 fs1 where a: "rollback_change ce snap scope item (r, fs) = (r1, fs1)" by fastforce
  then have f: "fs1 = (\<lambda>p. if p \<in> put_back ce snap scope [item] then before p else fs p)"
    using rollback_change_files [OF assms, of scope item r fs] by simp
  have u: "put_back ce snap scope (item # items) = put_back ce snap scope [item] \<union> put_back ce snap scope items"
    by (auto simp: put_back_def)
  have "snd (fold (rollback_change ce snap scope) (item # items) (r, fs)) = (\<lambda>p. if p \<in> put_back ce snap scope items then before p else fs1 p)"
    using Cons.IH [of r1 fs1] a by simp
  then show ?case unfolding u f by (simp add: fun_eq_iff)
qed

lemma rollback_items_changed: "set (changedFilesSinceSnapshot ce fs snap scope) \<subseteq> set (rollback_items ce fs snap ex scope)"
proof -
  have "set items \<subseteq> set (fold (\<lambda>rel items. if rel \<in> fst ` set items then items else items @ [(rel, f rel)]) rels items)" for rels items and f :: "string \<Rightarrow> change_kind"
    by (induction rels arbitrary: items) (auto, fastforce)
  then show ?thesis by (simp add: rollback_items_def)
qed

lemma changed_in_scope:
  assumes "(rel, b) \<in> set snap" "rel \<in> set (rollback_paths ce fs scope)" "change_since fs (path_resolve (pj_cwd ce) rel) b = Some k"
  shows "(rel, k) \<in> set (changedFilesSinceSnapshot ce fs snap scope)"
proof -
  have "scope \<noteq> []" using assms(2) by (auto simp: rollback_paths_set)
  then show ?thesis unfolding changedFilesSinceSnapshot_def Let_def set_append map_filter_set
    by (intro UnI1 CollectI bexI [OF _ assms(1)]) (use assms(2,3) in simp)
qed

lemma rollback_restores_scope:
  assumes "\<forall>p. ce_fails ce p = None" "taken_before ce before snap" "isAbsolute (pj_cwd ce)"
    and "rel \<in> set (rollback_paths ce fs (scopeFiles @ extra))" "map_of snap rel = Some b"
  shows "snd (rollbackChangedFiles ce snap extra scopeFiles fs) (path_resolve (pj_cwd ce) rel) = before (path_resolve (pj_cwd ce) rel)"
proof -
  let ?p = "path_resolve (pj_cwd ce) rel" and ?scope = "js_set (rollback_paths ce fs (scopeFiles @ extra))"
  have b: "b = before ?p" using assms(2,5) by (simp add: taken_before_def)
  have "?p \<in> put_back ce snap ?scope (rollback_items ce fs snap extra ?scope) \<or> fs ?p = before ?p"
  proof (cases "change_since fs ?p b")
    case None
    then show ?thesis by (auto simp: change_since_def b split: option.splits if_splits)
  next
    case (Some k)
    have "rel \<in> set (rollback_paths ce fs ?scope)" using rollback_path_again [OF assms(3,4)] assms(4) by (subst rollback_paths_set) auto
    then have "(rel, k) \<in> set (changedFilesSinceSnapshot ce fs snap ?scope)"
      using changed_in_scope [OF map_of_SomeD [OF assms(5)]] Some by blast
    moreover have "b \<noteq> None \<or> k = Added" using Some by (auto simp: change_since_def split: option.splits)
    ultimately have "?p \<in> put_back ce snap ?scope (rollback_items ce fs snap extra ?scope)"
      using rollback_items_changed [of ce fs snap ?scope extra] assms(4,5) unfolding put_back_def by (intro image_eqI [of _ _ "(rel, k)"]) auto
    then show ?thesis ..
  qed
  then show ?thesis by (auto simp: rollbackChangedFiles_def Let_def rollback_fold_files [OF assms(1,2)])
qed

lemma rollback_only_back:
  assumes "\<forall>p. ce_fails ce p = None" "taken_before ce before snap"
  shows "snd (rollbackChangedFiles ce snap extra scopeFiles fs) p \<in> {fs p, before p}"
  by (auto simp: rollbackChangedFiles_def Let_def rollback_fold_files [OF assms])


lemma map_of_snapshot:
  "map_of (fold (\<lambda>rel snap. amap_set snap rel (g rel)) rels snap) rel = (if rel \<in> set rels then Some (g rel) else map_of snap rel)"
  by (induction rels arbitrary: snap) (auto simp: map_of_amap_set)

lemma snapshot_taken: "taken_before ce fs (snapshotRollbackFiles ce fs names)"
  by (auto simp: taken_before_def snapshotRollbackFiles_def map_of_snapshot split: if_splits)

lemma snapshot_dom:
  assumes "isAbsolute (pj_cwd ce)" "rel \<in> set (collectApplyOwnedFiles ce fs batch extra)" "trim rel \<noteq> []"
  shows "\<exists>b. map_of (snapshotRollbackFiles ce fs (collectApplyOwnedFiles ce fs batch extra)) rel = Some b"
proof -
  have "normalizeRollbackPath ce fs (JStr rel) = Some rel"
    using rollback_path_again [OF assms(1)] assms(2) unfolding collectApplyOwnedFiles_def by blast
  then have "rel \<in> set (rollback_paths ce fs (nonblank (collectApplyOwnedFiles ce fs batch extra)))"
    using assms(2,3) by (subst rollback_paths_set) (auto simp: nonblank_def)
  moreover have "collectApplyOwnedFiles ce fs batch extra \<noteq> []" using assms(2) by auto
  ultimately show ?thesis unfolding snapshotRollbackFiles_def map_of_snapshot by simp
qed

lemma owned_again:
  assumes "rel \<in> set (collectApplyOwnedFiles ce before batch [])"
    and "\<not> isGeneratedFile (pj_ignored ce) (path_segments (path_resolve (pj_cwd ce) rel)) (fs (path_resolve (pj_cwd ce) rel))"
  shows "rel \<in> set (collectApplyOwnedFiles ce fs batch extra)"
  using assms unfolding collectApplyOwnedFiles_def rollback_paths_set by (auto simp: rollback_path_iff nonblank_def)


text \<open>An outcome that has rolled back: the files of the batch are as before, and nothing else was done.\<close>

definition looks_generated :: "commit_env \<Rightarrow> files \<Rightarrow> string \<Rightarrow> bool" where
  "looks_generated ce fs p = isGeneratedFile (pj_ignored ce) (path_segments p) (fs p)"

definition restores_sources :: "commit_env \<Rightarrow> jsval \<Rightarrow> commit_world \<Rightarrow> commit_world \<Rightarrow> commit_world \<Rightarrow> bool" where
  "restores_sources ce batch w w1 w' \<longleftrightarrow> cw_buffer w' = cw_buffer w1 \<and>
     (\<forall>rel\<in>set (collectApplyOwnedFiles ce (cw_files w) batch []). trim rel \<noteq> [] \<and> \<not> looks_generated ce (cw_files w1) (path_resolve (pj_cwd ce) rel) \<longrightarrow>
        cw_files w' (path_resolve (pj_cwd ce) rel) = cw_files w (path_resolve (pj_cwd ce) rel)) \<and>
     (\<forall>p. cw_files w' p = cw_files w1 p \<or> cw_files w' p = cw_files w p)"

definition refusal_restores :: "commit_env \<Rightarrow> jsval \<Rightarrow> commit_world \<Rightarrow> commit_world \<Rightarrow> commit_world \<times> commit_result \<Rightarrow> bool" where
  "refusal_restores ce batch w w1 out \<longleftrightarrow> (cr_rolledBack (snd out) \<noteq> None \<longrightarrow> cr_applied (snd out) = [] \<and> restores_sources ce batch w w1 (fst out))"

lemma refuse_restores:
  assumes "\<forall>p. ce_fails ce p = None" "isAbsolute (pj_cwd ce)" "cr_applied r = []"
    and "snap = snapshotRollbackFiles ce (cw_files w) (collectApplyOwnedFiles ce (cw_files w) batch [])"
    and "set (collectApplyOwnedFiles ce (cw_files w1) batch []) \<subseteq> set scopeFiles \<or> set (collectApplyOwnedFiles ce (cw_files w) batch []) \<subseteq> set scopeFiles"
  shows "refusal_restores ce batch w w1 (refuse ce snap extra scopeFiles r w1)"
proof -
  obtain report fs where roll: "rollbackChangedFiles ce snap extra scopeFiles (cw_files w1) = (report, fs)" by fastforce
  have taken: "taken_before ce (cw_files w) snap" unfolding assms(4) by (rule snapshot_taken)
  have "fs (path_resolve (pj_cwd ce) rel) = cw_files w (path_resolve (pj_cwd ce) rel)"
    if rel: "rel \<in> set (collectApplyOwnedFiles ce (cw_files w) batch [])" "trim rel \<noteq> []" "\<not> looks_generated ce (cw_files w1) (path_resolve (pj_cwd ce) rel)" for rel
  proof -
    obtain b where b: "map_of snap rel = Some b" unfolding assms(4) using snapshot_dom [OF assms(2) rel(1,2)] by blast
    have now: "rel \<in> set (collectApplyOwnedFiles ce (cw_files w1) batch [])"
      using owned_again [OF rel(1)] rel(3) by (simp add: looks_generated_def)
    then have "normalizeRollbackPath ce (cw_files w1) (JStr rel) = Some rel"
      using rollback_path_again [OF assms(2)] unfolding collectApplyOwnedFiles_def by blast
    moreover have "rel \<in> set scopeFiles" using assms(5) rel(1) now by blast
    ultimately have "rel \<in> set (rollback_paths ce (cw_files w1) (scopeFiles @ extra))" by (subst rollback_paths_set) auto
    from rollback_restores_scope [OF assms(1) taken assms(2) this b] show ?thesis by (simp add: roll)
  qed
  moreover have "fs p = cw_files w1 p \<or> fs p = cw_files w p" for p
    using rollback_only_back [OF assms(1) taken, of extra scopeFiles "cw_files w1" p] by (simp add: roll)
  ultimately show ?thesis using assms(3) by (auto simp: refusal_restores_def restores_sources_def refuse_def roll)
qed

lemma accept_not_rolled_back: "cr_rolledBack (snd (accept ids batch r w)) = cr_rolledBack r"
  by (simp add: accept_def split: prod.split)

lemma repair_not_rolled_back: "cr_rolledBack (snd (repairPostApplyValidation ce job st w)) = None"
proof -
  have "cr_rolledBack (snd (repair_loop left ce job st w)) = None" for left st
    by (induction left arbitrary: st w) (auto simp: Let_def repaired_def accept_not_rolled_back split: prod.split sum.split)
  then show ?thesis by (simp add: repairPostApplyValidation_def)
qed

lemma conclude_not_rolled_back: "cr_rolledBack (snd (conclude ce rq r ids verified failed rest w)) = None"
  by (simp add: conclude_def Let_def repair_not_rolled_back accept_not_rolled_back)

lemma not_rolled_back: "cr_rolledBack (snd out) = None \<Longrightarrow> refusal_restores ce batch w w1 out"
  by (simp add: refusal_restores_def)

interpretation restore: reply_law ce rq "snapshotRollbackFiles ce (cw_files w) (collectApplyOwnedFiles ce (cw_files w) (rq_batch rq) [])" w1
  "\<lambda>out. (\<forall>p. ce_fails ce p = None) \<longrightarrow> isAbsolute (pj_cwd ce) \<longrightarrow> refusal_restores ce (rq_batch rq) w w1 out" for ce rq w w1
  by unfold_locales
    (auto simp: conclude_reply_def Let_def conclude_not_rolled_back repair_not_rolled_back intro: refuse_restores not_rolled_back)


definition demo_refused :: "commit_world \<times> commit_result" where
  "demo_refused = commitManualEdits (demo_env (demo_agent (\<lambda>b. b) ''error'')) demo_request demo_commit_world"


section \<open>Weak points\<close>


text \<open>
  The removal of a text counts as applied as soon as the hinted line is without it: here a line was put
  in front, and the text is still there.
\<close>

definition demo_removal :: jsval where
  "demo_removal = JObj [(''id'', JStr ''e1''), (''ops'', JArr [JObj [(''ref'', JStr ''h1''), (''originalText'', JStr ''Hello''), (''newText'', JStr []),
     (''deleted'', JBool True), (''sourceHint'', JObj [(''file'', JStr ''a.html''), (''line'', jint 1)])]])]"

lemma removal_not_checked:
  "verifyAppliedEntry (demo_env ag) (JObj [(''entries'', JArr [demo_removal])]) [''a.html'']
     (\<lambda>p. if p = ''/p/a.html'' then Some ([NL] @ ''<h1>Hello</h1>'') else None) demo_removal = []"
  by code_simp

end
