(* ===== verification/Live_Server.thy ===== *)
theory Live_Server
  imports Live_Queue
begin

text \<open>
  The request handlers of the live helper server (\<^verbatim>\<open>scripts/live-server.mjs\<close>) that change its
  state: browser events (\<^verbatim>\<open>POST /events\<close>), the event stream (\<^verbatim>\<open>GET /events\<close>) and the polls of the
  agent (\<^verbatim>\<open>GET /poll\<close>). A handler returns the response it writes and the new state; an exception
  that no \<^verbatim>\<open>catch\<close> of the server takes (the left summand) ends the process. A body is what
  \<^verbatim>\<open>JSON.parse\<close> makes of it, \<open>None\<close> where that throws.
\<close>

section \<open>Responses and parameters\<close>

datatype response = Response int jsval

definition error_response :: "int \<Rightarrow> string \<Rightarrow> response" where
  "error_response status err = Response status (JObj [(''error'', JStr err)])"

definition ok_response :: response where
  "ok_response = Response 200 (JObj [(''ok'', JBool True)])"

definition DEFAULT_POLL_TIMEOUT :: int where "DEFAULT_POLL_TIMEOUT = 600000"

definition SESSION_CREATING_EVENT_TYPES :: "string list" where
  "SESSION_CREATING_EVENT_TYPES = [''generate'', ''steer'']"

text \<open>\<^verbatim>\<open>parseInt(s, 10)\<close>: the digits at the front, \<open>None\<close> for \<^verbatim>\<open>NaN\<close>.\<close>

definition parse_int :: "string \<Rightarrow> int option" where
  "parse_int s0 =
     (let s = dropWhile is_ws s0; neg = starts_with s ''-'';
          u = (if neg \<or> starts_with s ''+'' then tl s else s); ds = takeWhile is_digit u
      in if ds = [] then None else Some (if neg then - int (digits_val ds) else int (digits_val ds)))"

definition parsePollTypes :: "jsval \<Rightarrow> string list option" where
  "parsePollTypes v =
     (if \<not> truthy v then None
      else (let types = filter (\<lambda>t. t \<noteq> []) (map trim (split_on (CHR '','') (js_text v)))
            in if types \<noteq> [] then Some types else None))"

section \<open>Missed completions\<close>

text \<open>\<^verbatim>\<open>Number(v) || 0\<close>.\<close>

definition num_or_zero :: "jsval \<Rightarrow> jsnum" where
  "num_or_zero v = (let n = to_number v in if truthy (JNum n) then n else Fin 0)"

definition variantCountLooksBehind :: "jsval \<Rightarrow> jsval \<Rightarrow> bool" where
  "variantCountLooksBehind arrivedValue expectedValue =
     (let arrived = num_or_zero arrivedValue; expected = num_or_zero expectedValue
      in num_le arrived (Fin 0) \<or> (num_lt (Fin 0) expected \<and> num_lt arrived expected))"

definition or_undefined :: "jsval \<Rightarrow> jsval" where
  "or_undefined v = js_or v JUndef"

definition missedCompletionFromSnapshot :: "snapshot option \<Rightarrow> jsval" where
  "missedCompletionFromSnapshot so = (case so of
      None \<Rightarrow> JNull
    | Some s \<Rightarrow>
       if sn_id s = [] \<or> \<not> truthy (sn_generationCompletedAt s) then JNull
       else if sn_generationCanceled s then JNull
       else if has_str GENERATION_FENCED_SESSION_PHASES (sn_phase s) then JNull
       else (let file = js_or (sn_sourceFile s) (sn_previewFile s) in
         if \<not> truthy file then JNull
         else JObj [(''type'', JStr ''done''), (''id'', JStr (sn_id s)), (''file'', file),
                    (''sourceFile'', or_undefined (sn_sourceFile s)),
                    (''previewFile'', or_undefined (sn_previewFile s)),
                    (''previewMode'', or_undefined (sn_previewMode s)), (''redelivered'', JBool True)]))"

text \<open>A read of the store whose exceptions are caught.\<close>

definition read_snapshot :: "host \<Rightarrow> jsval \<Rightarrow> bool \<Rightarrow> server \<Rightarrow> snapshot option \<times> server" where
  "read_snapshot h i includeCompleted sv = (case getSnapshot h i includeCompleted (sv_store sv) of
      Inl _ \<Rightarrow> (None, sv)
    | Inr (so, st) \<Rightarrow> (so, sv\<lparr>sv_store := st\<rparr>))"

definition detectMissedGenerationCompletion :: "host \<Rightarrow> jsval \<Rightarrow> server \<Rightarrow> jsval \<times> server" where
  "detectMissedGenerationCompletion h event sv =
     (if \<not> truthy (dot event ''id'') \<or> dot event ''type'' \<noteq> JStr ''checkpoint'' then (JNull, sv)
      else if dot event ''phase'' \<noteq> JStr ''generating'' then (JNull, sv)
      else if \<not> variantCountLooksBehind (dot event ''arrivedVariants'') (dot event ''expectedVariants'')
        then (JNull, sv)
      else (let (so, sv') = read_snapshot h (dot event ''id'') False sv
            in (missedCompletionFromSnapshot so, sv')))"

section \<open>Progress of a generation\<close>

definition generationIsFenced :: "host \<Rightarrow> jsval \<Rightarrow> server \<Rightarrow> bool \<times> server" where
  "generationIsFenced h i sv =
     (if \<not> truthy i then (False, sv)
      else (let (so, sv') = read_snapshot h i True sv
            in (case so of None \<Rightarrow> False | Some s \<Rightarrow> sn_generationCanceled s, sv')))"

definition generationPhaseAlreadyRecorded :: "host \<Rightarrow> jsval \<Rightarrow> string \<Rightarrow> server \<Rightarrow> bool \<times> server" where
  "generationPhaseAlreadyRecorded h i phase sv =
     (let (so, sv') = read_snapshot h i True sv
      in (case so of None \<Rightarrow> False | Some s \<Rightarrow> truthy (dot (JObj (sn_generationTimings s)) phase), sv'))"

text \<open>One of the three latches: the phase is recorded when its condition holds and it is not yet.\<close>

definition record_phase_once :: "store_host \<Rightarrow> bool \<Rightarrow> jsval \<Rightarrow> string \<Rightarrow> props \<Rightarrow> server \<Rightarrow> server js" where
  "record_phase_once hs cond i phase details sv =
     (if \<not> cond then Inr sv
      else (let (done, sv') = generationPhaseAlreadyRecorded (host.truncate hs) i phase sv
            in if done then Inr sv' else recordAgentPhase hs i phase details sv'))"

definition variant_progress :: "jsval \<Rightarrow> jsnum \<Rightarrow> jsnum \<Rightarrow> jsval" where
  "variant_progress event arrived expected =
     (let previewMode = js_or (dot event ''previewMode'') (JStr ''source'');
          previewFile = js_or (dot event ''previewFile'') (dot event ''file'')
      in JObj [(''type'', JStr ''variant_progress''), (''id'', dot event ''id''), (''file'', previewFile),
               (''sourceFile'', js_or (dot event ''sourceFile'')
                   (if previewMode = JStr ''source'' then previewFile else JUndef)),
               (''previewFile'', previewFile), (''previewMode'', previewMode),
               (''arrivedVariants'', JNum arrived), (''expectedVariants'', JNum expected),
               (''publicationKind'', js_or (dot event ''publicationKind'') (JStr ''variants''))])"

definition record_progress_phases :: "store_host \<Rightarrow> jsval \<Rightarrow> jsnum \<Rightarrow> jsnum \<Rightarrow> server \<Rightarrow> server js" where
  "record_progress_phases hs event arrived expected sv =
     (let i = dot event ''id'';
          details = [(''arrivedVariants'', JNum arrived), (''expectedVariants'', JNum expected),
                     (''checkpointReason'', js_or (dot event ''reason'') JNull), (''at'', jint (h_now hs))]
      in case record_phase_once hs True i ''first_reviewable'' details sv of
           Inl e \<Rightarrow> Inl e
         | Inr sv1 \<Rightarrow>
            (case record_phase_once hs (num_le (Fin 2) arrived \<and> num_le (Fin 3) expected) i
                    ''second_reviewable'' details sv1 of
               Inl e \<Rightarrow> Inl e
             | Inr sv2 \<Rightarrow>
                record_phase_once hs (num_le expected arrived) i ''all_variants_ready'' details sv2))"

definition recordGenerationCheckpoint :: "store_host \<Rightarrow> jsval \<Rightarrow> server \<Rightarrow> server js" where
  "recordGenerationCheckpoint hs event sv =
     (if \<not> truthy (dot event ''id'') \<or> dot event ''type'' \<noteq> JStr ''checkpoint'' then Inr sv
      else (let (fenced, sv1) = generationIsFenced (host.truncate hs) (dot event ''id'') sv in
        if fenced then Inr sv1
        else if \<not> has_str VARIANT_PROGRESS_CHECKPOINT_REASONS (dot event ''reason'') then Inr sv1
        else (let arrived = num_or_zero (dot event ''arrivedVariants'');
                  expected = num_or_zero (dot event ''expectedVariants'') in
          if num_le arrived (Fin 0) \<or> num_le expected (Fin 0) then Inr sv1
          else record_progress_phases hs event arrived expected
                 (if truthy (js_or (dot event ''previewFile'') (dot event ''file''))
                  then broadcast (variant_progress event arrived expected) sv1 else sv1))))"

section \<open>\<^verbatim>\<open>POST /events\<close>\<close>

definition agent_phase_details :: "jsval \<Rightarrow> props" where
  "agent_phase_details msg =
     (if num_is_finite (dot msg ''durationMs'') then [(''durationMs'', dot msg ''durationMs'')] else [])
     @ [(''owner'', if is_str (dot msg ''owner'') then dot msg ''owner'' else JUndef)]"

definition orphaned_discard :: "jsval \<Rightarrow> bool" where
  "orphaned_discard msg = (dot msg ''type'' = JStr ''discard'' \<and> dot msg ''orphaned'' = JBool True)"

text \<open>What follows once the message is journaled.\<close>

definition events_post_tail :: "store_host \<Rightarrow> jsval \<Rightarrow> jsval \<Rightarrow> server \<Rightarrow> (response \<times> server) js" where
  "events_post_tail hs msg missed sv =
     (let sv1 = (if has_str [''accept'', ''discard''] (dot msg ''type'')
                 then retirePendingGeneration hs (dot msg ''id'') sv else sv)
      in case recordGenerationCheckpoint hs msg sv1 of
           Inl e \<Rightarrow> Inl e
         | Inr sv2 \<Rightarrow>
            (let sv3 = (if truthy missed then broadcast missed sv2 else sv2);
                 sv4 = (if orphaned_discard msg \<and> truthy (dot msg ''id'')
                        then (case store_event hs (JObj [(''type'', JStr ''discarded''), (''id'', dot msg ''id''),
                                                         (''orphaned'', JBool True)]) sv3 of
                                Inl _ \<Rightarrow> sv3 | Inr sv' \<Rightarrow> sv')
                        else sv3);
                 sv5 = (if \<not> has_str [''checkpoint'', ''variant_mounted''] (dot msg ''type'') \<and> \<not> orphaned_discard msg
                        then enqueueEvent hs msg sv4 else sv4)
             in Inr (ok_response, sv5)))"

text \<open>What follows the gate for unknown sessions.\<close>

definition error_message :: "js_error \<Rightarrow> jsval" where
  "error_message e = (case e of Thrown m \<Rightarrow> JStr m | TypeError \<Rightarrow> JStr ''TypeError'')"

definition events_post_known :: "store_host \<Rightarrow> jsval \<Rightarrow> server \<Rightarrow> (response \<times> server) js" where
  "events_post_known hs msg sv =
     (let (missed, sv1) = detectMissedGenerationCompletion (host.truncate hs) msg sv
      in if truthy (dot msg ''id'')
         then (case store_event hs msg sv1 of
                 Inl e \<Rightarrow> Inr (Response 500 (JObj [(''error'', JStr ''session_store_append_failed''),
                                                  (''message'', error_message e)]), sv1)
               | Inr sv2 \<Rightarrow> events_post_tail hs msg missed sv2)
         else events_post_tail hs msg missed sv1)"

definition handleEventsPost :: "store_host \<Rightarrow> jsval option \<Rightarrow> server \<Rightarrow> (response \<times> server) js" where
  "handleEventsPost hs body sv = (case body of
      None \<Rightarrow> Inr (error_response 400 ''Invalid JSON'', sv)
    | Some msg \<Rightarrow>
       if nullish msg then Inl TypeError
       else if dot msg ''token'' \<noteq> JStr (sv_token sv) then Inr (error_response 401 ''Unauthorized'', sv)
       else if dot msg ''type'' = JStr ''manual_edits''
         then Inr (error_response 400 ''manual_edits must POST to /manual-edit-stash, not /events'', sv)
       else if dot msg ''type'' = JStr ''manual_edit_apply''
         then Inr (error_response 400 ''manual_edit_apply is disabled; use /manual-edit-stash then /manual-edit-commit'', sv)
       else (case validateEvent msg of
           Inl e \<Rightarrow> Inl e
         | Inr (Some err) \<Rightarrow> Inr (error_response 400 err, sv)
         | Inr None \<Rightarrow>
            if dot msg ''type'' = JStr ''agent_phase''
            then (case recordAgentPhase hs (dot msg ''id'') (js_text (dot msg ''phase'')) (agent_phase_details msg) sv of
                    Inl e \<Rightarrow> Inl e
                  | Inr sv' \<Rightarrow> Inr (ok_response, sv'))
            else if truthy (dot msg ''id'') \<and> \<not> has_str SESSION_CREATING_EVENT_TYPES (dot msg ''type'')
            then (case store_has (dot msg ''id'') (sv_store sv) of
                    Inl e \<Rightarrow> Inl e
                  | Inr False \<Rightarrow> Inr (Response 404 (JObj [(''error'', JStr ''unknown_session''), (''id'', dot msg ''id'')]), sv)
                  | Inr True \<Rightarrow> events_post_known hs msg sv)
            else events_post_known hs msg sv))"

section \<open>\<^verbatim>\<open>GET /events\<close>: the event stream\<close>

definition summarizeActiveSessionForClient :: "snapshot \<Rightarrow> jsval" where
  "summarizeActiveSessionForClient s = JObj [
     (''id'', JStr (sn_id s)), (''phase'', sn_phase s),
     (''pageUrl'', coalesce (sn_pageUrl s) JNull), (''sourceFile'', coalesce (sn_sourceFile s) JNull),
     (''previewFile'', coalesce (sn_previewFile s) JNull), (''previewMode'', coalesce (sn_previewMode s) JNull),
     (''expectedVariants'', coalesce (sn_expectedVariants s) (jint 0)),
     (''arrivedVariants'', coalesce (sn_arrivedVariants s) (jint 0)),
     (''visibleVariant'', coalesce (sn_visibleVariant s) JNull),
     (''checkpointRevision'', coalesce (sn_checkpointRevision s) (jint 0)),
     (''browserCheckpointRevision'',
        coalesce (coalesce (sn_browserCheckpointRevision s) (sn_checkpointRevision s)) (jint 0)),
     (''publicationCheckpointRevision'', coalesce (sn_publicationCheckpointRevision s) (jint 0)),
     (''paramValues'', JObj (sn_paramValues s)),
     (''generationPhase'', coalesce (sn_generationPhase s) JNull),
     (''generationCompletedAt'', coalesce (sn_generationCompletedAt s) JNull),
     (''generationCanceled'', JBool (sn_generationCanceled s)),
     (''cancelReason'', coalesce (sn_cancelReason s) JNull),
     (''mountedVariants'', JArr (map jint (sn_mountedVariants s))),
     (''mountFailures'', JArr (sn_mountFailures s)),
     (''renderState'', coalesce (sn_renderState s) JNull)]"

definition activeSessionSummaries :: "host \<Rightarrow> string list \<Rightarrow> string list \<Rightarrow> server \<Rightarrow> (jsval list \<times> server) js" where
  "activeSessionSummaries h legacyNames names sv =
     (case listActiveSessions h legacyNames names (sv_store sv) of
        Inl e \<Rightarrow> Inl e
      | Inr (ss, st) \<Rightarrow> Inr (map summarizeActiveSessionForClient ss, sv\<lparr>sv_store := st\<rparr>))"

text \<open>The client that connects is given its first message; \<^verbatim>\<open>hasProjectContext()\<close> is an argument.\<close>

definition handleEventsGet ::
    "store_host \<Rightarrow> string list \<Rightarrow> string list \<Rightarrow> bool \<Rightarrow> nat \<Rightarrow> jsval \<Rightarrow> server \<Rightarrow> (response \<times> server) js" where
  "handleEventsGet hs legacyNames names hasContext client token sv =
     (if token \<noteq> JStr (sv_token sv) then Inr (Response 401 (JStr ''Unauthorized''), sv)
      else (let sv1 = cancelQueuedAnonymousExitEvents hs (sv\<lparr>sv_exitTimer := False\<rparr>)
            in case activeSessionSummaries (host.truncate hs) legacyNames names sv1 of
                 Inl e \<Rightarrow> Inl e
               | Inr (summaries, sv2) \<Rightarrow>
                  Inr (Response 200 (JObj [(''type'', JStr ''connected''), (''hasProjectContext'', JBool hasContext),
                         (''agentPolling'', JBool (agentPollingConnected sv2)), (''activeSessions'', JArr summaries)]),
                       sv2\<lparr>sv_clients := sv_clients sv2 @ [client]\<rparr>)))"

definition client_closed :: "nat \<Rightarrow> server \<Rightarrow> server" where
  "client_closed client sv =
     (let sv1 = sv\<lparr>sv_clients := removeAll client (sv_clients sv)\<rparr>
      in if sv_clients sv1 = [] then sv1\<lparr>sv_exitTimer := True\<rparr> else sv1)"

definition exit_timer_fires :: "store_host \<Rightarrow> server \<Rightarrow> server" where
  "exit_timer_fires hs sv =
     (let sv1 = sv\<lparr>sv_exitTimer := False\<rparr>
      in if sv_clients sv1 = [] then enqueueEvent hs (JObj [(''type'', JStr ''exit'')]) sv1 else sv1)"

section \<open>\<^verbatim>\<open>GET /poll\<close>\<close>

text \<open>The query parameters are strings, or \<^verbatim>\<open>null\<close> where they are missing.\<close>

definition poll_lease_ms :: "jsval \<Rightarrow> int option" where
  "poll_lease_ms p = (if truthy p then parse_int (js_text p) else Some 30000)"

definition handlePollGet :: "store_host \<Rightarrow> jsval \<Rightarrow> jsval \<Rightarrow> jsval \<Rightarrow> nat \<Rightarrow> server \<Rightarrow> response option \<times> server" where
  "handlePollGet hs token leaseMsParam typesParam pid sv =
     (if token \<noteq> JStr (sv_token sv) then (Some (error_response 401 ''Unauthorized''), sv)
      else (let sv1 = sv\<lparr>sv_lastPollAt := h_now hs\<rparr>; leaseMs = poll_lease_ms leaseMsParam;
                types = parsePollTypes typesParam
            in case findAvailablePendingEvent (h_now hs) types sv1 of
                 Some entry \<Rightarrow> (None, lease_start hs entry leaseMs pid False sv1)
               | None \<Rightarrow>
                  (None, scheduleLeaseFlush (h_now hs) (broadcastAgentPollingIfChanged
                     (sv1\<lparr>sv_polls := sv_polls sv1 @ [\<lparr>po_id = pid, po_leaseMs = leaseMs, po_types = types\<rparr>],
                          sv_pollTimers := pid # sv_pollTimers sv1\<rparr>)))))"

definition unpark :: "nat \<Rightarrow> server \<Rightarrow> server" where
  "unpark pid sv = broadcastAgentPollingIfChanged
     (sv\<lparr>sv_pollTimers := removeAll pid (sv_pollTimers sv), sv_polls := filter (\<lambda>po. po_id po \<noteq> pid) (sv_polls sv)\<rparr>)"

text \<open>The timer of a poll fires: the poll leaves the queue if it is still there, and is answered.\<close>

definition poll_timer_fires :: "nat \<Rightarrow> server \<Rightarrow> server" where
  "poll_timer_fires pid sv = (let sv1 = unpark pid sv in sv1\<lparr>sv_answers := sv_answers sv1 @ [(pid, timeout_reply)]\<rparr>)"

definition poll_closed :: "nat \<Rightarrow> server \<Rightarrow> server" where
  "poll_closed pid sv = unpark pid sv"

definition lease_timer_fires :: "store_host \<Rightarrow> server \<Rightarrow> server" where
  "lease_timer_fires hs sv =
     broadcastAgentPollingIfChanged (flushPendingPolls hs (sv\<lparr>sv_leaseTimer := None\<rparr>))"

end
