(* ===== verification/Queue_Invariants.thy ===== *)
theory Queue_Invariants
  imports Live_Server "HOL-Library.Sublist"
begin

text \<open>
  The invariant of the live server's event queue and its preservation by every operation on the
  queue: entries ordered by number, no duplicates, and leases under way that agree with the queue.
\<close>

section \<open>What an operation leaves alone\<close>

text \<open>The part of the state that concerns the queue.\<close>

definition queue_part ::
    "server \<Rightarrow> pentry list \<times> poll list \<times> lease list \<times> int \<times> nat list \<times> (nat \<times> jsval) list \<times> string" where
  "queue_part sv = (sv_pending sv, sv_polls sv, sv_leases sv, sv_nextSeq sv, sv_pollTimers sv, sv_answers sv, sv_token sv)"

lemma queue_part_eqD:
  assumes "queue_part sv' = queue_part sv"
  shows "sv_pending sv' = sv_pending sv" "sv_polls sv' = sv_polls sv" "sv_leases sv' = sv_leases sv"
    "sv_nextSeq sv' = sv_nextSeq sv" "sv_pollTimers sv' = sv_pollTimers sv" "sv_answers sv' = sv_answers sv"
    "sv_token sv' = sv_token sv"
  using assms by (simp_all add: queue_part_def)

lemma queue_part_upd [simp]:
  "queue_part (sv\<lparr>sv_store := a\<rparr>) = queue_part sv" "queue_part (sv\<lparr>sv_sent := b\<rparr>) = queue_part sv"
  "queue_part (sv\<lparr>sv_lastPolling := c\<rparr>) = queue_part sv" "queue_part (sv\<lparr>sv_leaseTimer := d\<rparr>) = queue_part sv"
  "queue_part (sv\<lparr>sv_activity := e\<rparr>) = queue_part sv" "queue_part (sv\<lparr>sv_nextManualSeq := f\<rparr>) = queue_part sv"
  "queue_part (sv\<lparr>sv_exitTimer := g\<rparr>) = queue_part sv" "queue_part (sv\<lparr>sv_clients := k\<rparr>) = queue_part sv"
  "queue_part (sv\<lparr>sv_lastPollAt := l\<rparr>) = queue_part sv"
  by (simp_all add: queue_part_def)

lemma queue_part_broadcast [simp]:
  "queue_part (broadcast m sv) = queue_part sv"
  "queue_part (broadcastAgentPollingIfChanged sv) = queue_part sv"
  by (simp_all add: broadcast_def broadcastAgentPollingIfChanged_def Let_def)

lemma queue_part_schedule [simp]: "queue_part (scheduleLeaseFlush now sv) = queue_part sv"
  by (simp add: scheduleLeaseFlush_def split: list.split)

lemma queue_part_settle [simp]: "queue_part (settle_queue hs sv) = queue_part sv"
  by (simp add: settle_queue_def)

lemma store_event_frame: "store_event hs ev sv = Inr sv' \<Longrightarrow> queue_part sv' = queue_part sv"
  by (auto simp: store_event_def split: sum.splits)

lemma recordAgentPhase_frame: "recordAgentPhase hs i ph ds sv = Inr sv' \<Longrightarrow> queue_part sv' = queue_part sv"
  by (auto simp: recordAgentPhase_def Let_def dest: store_event_frame split: if_splits sum.splits)

lemma claim_phases_frame: "claim_phases hs ev sv = (stg, sv') \<Longrightarrow> queue_part sv' = queue_part sv"
  by (auto simp: claim_phases_def dest!: recordAgentPhase_frame split: if_splits sum.splits)

lemma read_snapshot_frame: "read_snapshot h i inc sv = (so, sv') \<Longrightarrow> queue_part sv' = queue_part sv"
  by (auto simp: read_snapshot_def split: sum.splits)

lemma detectMissed_frame: "detectMissedGenerationCompletion h ev sv = (m, sv') \<Longrightarrow> queue_part sv' = queue_part sv"
  by (auto simp: detectMissedGenerationCompletion_def dest: read_snapshot_frame split: if_splits prod.splits)

lemma generationIsFenced_frame: "generationIsFenced h i sv = (b, sv') \<Longrightarrow> queue_part sv' = queue_part sv"
  by (auto simp: generationIsFenced_def dest: read_snapshot_frame split: if_splits prod.splits)

lemma record_phase_once_frame: "record_phase_once hs c i ph ds sv = Inr sv' \<Longrightarrow> queue_part sv' = queue_part sv"
  by (auto simp: record_phase_once_def generationPhaseAlreadyRecorded_def Let_def
      dest!: read_snapshot_frame recordAgentPhase_frame split: if_splits prod.splits)

lemma record_progress_phases_frame:
  "record_progress_phases hs ev a x sv = Inr sv' \<Longrightarrow> queue_part sv' = queue_part sv"
  by (auto simp: record_progress_phases_def Let_def dest!: record_phase_once_frame split: sum.splits)

lemma recordGenerationCheckpoint_frame:
  "recordGenerationCheckpoint hs ev sv = Inr sv' \<Longrightarrow> queue_part sv' = queue_part sv"
  by (auto simp: recordGenerationCheckpoint_def Let_def
      dest!: generationIsFenced_frame record_progress_phases_frame split: if_splits prod.splits)

lemma lease_start_parts:
  "sv_pending (lease_start hs e ms pid pk sv) = sv_pending (set_lease (pe_seq e) (lease_until (h_now hs) ms) sv)"
  "sv_polls (lease_start hs e ms pid pk sv) = sv_polls sv"
  "sv_nextSeq (lease_start hs e ms pid pk sv) = sv_nextSeq sv"
  "sv_pollTimers (lease_start hs e ms pid pk sv) = sv_pollTimers sv"
  "sv_answers (lease_start hs e ms pid pk sv) = sv_answers sv"
  "sv_token (lease_start hs e ms pid pk sv) = sv_token sv"
  "\<exists>stg. sv_leases (lease_start hs e ms pid pk sv) = sv_leases sv @
     [\<lparr>ls_seq = pe_seq e, ls_event = pe_event e, ls_leaseMs = ms, ls_poll = pid, ls_parked = pk, ls_stage = stg\<rparr>]"
proof -
  let ?sv0 = "set_lease (pe_seq e) (lease_until (h_now hs) ms) sv"
  obtain stg sv1 where c: "claim_phases hs (pe_event e) ?sv0 = (stg, sv1)" by fastforce
  note p = queue_part_eqD [OF claim_phases_frame [OF c]]
  have s: "lease_start hs e ms pid pk sv = sv1\<lparr>sv_leases := sv_leases sv1 @
     [\<lparr>ls_seq = pe_seq e, ls_event = pe_event e, ls_leaseMs = ms, ls_poll = pid, ls_parked = pk, ls_stage = stg\<rparr>]\<rparr>"
    using c by (simp add: lease_start_def)
  show "sv_pending (lease_start hs e ms pid pk sv) = sv_pending ?sv0"
    "sv_polls (lease_start hs e ms pid pk sv) = sv_polls sv"
    "sv_nextSeq (lease_start hs e ms pid pk sv) = sv_nextSeq sv"
    "sv_pollTimers (lease_start hs e ms pid pk sv) = sv_pollTimers sv"
    "sv_answers (lease_start hs e ms pid pk sv) = sv_answers sv"
    "sv_token (lease_start hs e ms pid pk sv) = sv_token sv"
    "\<exists>stg. sv_leases (lease_start hs e ms pid pk sv) = sv_leases sv @
     [\<lparr>ls_seq = pe_seq e, ls_event = pe_event e, ls_leaseMs = ms, ls_poll = pid, ls_parked = pk, ls_stage = stg\<rparr>]"
    unfolding s using p by (simp_all add: set_lease_def)
qed

section \<open>The invariant of the queue\<close>

text \<open>
  The entries are in the order of their numbers, which are below the next one; no two entries are
  duplicates of each other; and a lease under way still speaks of the event its entry holds.
\<close>

definition event_key :: "jsval \<Rightarrow> jsval \<times> jsval \<times> jsval" where
  "event_key ev = (dot ev ''id'', dot ev ''type'', dot ev ''variant'')"

definition key_clash :: "jsval \<times> jsval \<times> jsval \<Rightarrow> jsval \<times> jsval \<times> jsval \<Rightarrow> bool" where
  "key_clash k k' = (case (k, k') of ((i, t, v), (i', t', v')) \<Rightarrow>
     truthy i' \<and> strict_eq i i' \<and> strict_eq t t' \<and> (t' \<noteq> JStr ''variant_mount_failed'' \<or> strict_eq v v'))"

definition qkeys :: "server \<Rightarrow> (int \<times> jsval \<times> jsval \<times> jsval) list" where
  "qkeys sv = map (\<lambda>e. (pe_seq e, event_key (pe_event e))) (sv_pending sv)"

definition keys_ok :: "int \<Rightarrow> (int \<times> jsval \<times> jsval \<times> jsval) list \<Rightarrow> bool" where
  "keys_ok n ks \<longleftrightarrow> sorted_wrt (\<lambda>a b. fst a < fst b \<and> \<not> key_clash (snd a) (snd b)) ks \<and> (\<forall>k\<in>set ks. fst k < n)"

definition lease_ok :: "int \<Rightarrow> (int \<times> jsval \<times> jsval \<times> jsval) list \<Rightarrow> lease \<Rightarrow> bool" where
  "lease_ok n ks ls \<longleftrightarrow> ls_seq ls < n \<and> (\<forall>k\<in>set ks. fst k = ls_seq ls \<longrightarrow> snd k = event_key (ls_event ls))"

definition queue_ok :: "server \<Rightarrow> bool" where
  "queue_ok sv \<longleftrightarrow> keys_ok (sv_nextSeq sv) (qkeys sv) \<and>
     (\<forall>ls\<in>set (sv_leases sv). lease_ok (sv_nextSeq sv) (qkeys sv) ls)"

lemma duplicate_of_key:
  "truthy (dot ev ''id'') \<and> duplicate_of ev e \<longleftrightarrow> key_clash (event_key (pe_event e)) (event_key ev)"
  by (auto simp: duplicate_of_def key_clash_def event_key_def)

lemma subseq_sorted_wrt: "subseq xs ys \<Longrightarrow> sorted_wrt R ys \<Longrightarrow> sorted_wrt R xs"
  by (induction rule: list_emb.induct) (auto dest: list_emb_set)

lemma subseq_set: "subseq xs ys \<Longrightarrow> set xs \<subseteq> set ys"
  by (auto dest: list_emb_set)

lemma keys_ok_subseq: "keys_ok n ys \<Longrightarrow> subseq xs ys \<Longrightarrow> keys_ok n xs"
  unfolding keys_ok_def using subseq_sorted_wrt subseq_set by blast

lemma queue_ok_shrink:
  assumes "queue_ok sv" "subseq (qkeys sv') (qkeys sv)" "sv_nextSeq sv' = sv_nextSeq sv"
    "set (sv_leases sv') \<subseteq> set (sv_leases sv)"
  shows "queue_ok sv'"
proof -
  have "lease_ok (sv_nextSeq sv) (qkeys sv') ls" if "lease_ok (sv_nextSeq sv) (qkeys sv) ls" for ls
    using that subseq_set [OF assms(2)] by (auto simp: lease_ok_def)
  then show ?thesis using assms keys_ok_subseq by (auto simp: queue_ok_def)
qed

lemma queue_ok_part:
  assumes "queue_part sv' = queue_part sv"
  shows "queue_ok sv' = queue_ok sv" "qkeys sv' = qkeys sv"
  using queue_part_eqD [OF assms] by (simp_all add: queue_ok_def qkeys_def)

lemma queue_ok_ops [simp]:
  "queue_ok (broadcast m sv) = queue_ok sv" "queue_ok (broadcastAgentPollingIfChanged sv) = queue_ok sv"
  "queue_ok (scheduleLeaseFlush now sv) = queue_ok sv" "queue_ok (settle_queue hs sv) = queue_ok sv"
  "queue_ok (sv\<lparr>sv_store := a\<rparr>) = queue_ok sv" "queue_ok (sv\<lparr>sv_exitTimer := b\<rparr>) = queue_ok sv"
  "queue_ok (sv\<lparr>sv_leaseTimer := c\<rparr>) = queue_ok sv" "queue_ok (sv\<lparr>sv_lastPollAt := d\<rparr>) = queue_ok sv"
  "queue_ok (sv\<lparr>sv_clients := k\<rparr>) = queue_ok sv"
  by (rule queue_ok_part(1), simp)+

lemma stored_ok:
  "store_event hs ev sv = Inr sv' \<Longrightarrow> queue_ok sv' = queue_ok sv \<and> qkeys sv' = qkeys sv"
  using queue_ok_part [OF store_event_frame] by blast

lemma phase_ok:
  "recordAgentPhase hs i ph ds sv = Inr sv' \<Longrightarrow> queue_ok sv' = queue_ok sv \<and> qkeys sv' = qkeys sv"
  using queue_ok_part [OF recordAgentPhase_frame] by blast

lemma subseq_remove_first: "subseq (remove_first P xs) xs"
  by (induction xs) auto

lemma subseq_map: "subseq xs ys \<Longrightarrow> subseq (map f xs) (map f ys)"
  by (induction rule: list_emb.induct) auto

lemma qkeys_set_lease [simp]: "qkeys (set_lease sq t sv) = qkeys sv"
  by (simp add: qkeys_def set_lease_def)

lemma set_lease_sel [simp]:
  "sv_nextSeq (set_lease sq t sv) = sv_nextSeq sv" "sv_leases (set_lease sq t sv) = sv_leases sv"
  "sv_polls (set_lease sq t sv) = sv_polls sv" "sv_answers (set_lease sq t sv) = sv_answers sv"
  "sv_pollTimers (set_lease sq t sv) = sv_pollTimers sv" "sv_token (set_lease sq t sv) = sv_token sv"
  by (simp_all add: set_lease_def)

lemma set_event_sel [simp]:
  "sv_nextSeq (set_event sq t sv) = sv_nextSeq sv" "sv_leases (set_event sq t sv) = sv_leases sv"
  "sv_polls (set_event sq t sv) = sv_polls sv" "sv_answers (set_event sq t sv) = sv_answers sv"
  "sv_pollTimers (set_event sq t sv) = sv_pollTimers sv" "sv_token (set_event sq t sv) = sv_token sv"
  by (simp_all add: set_event_def)

text \<open>The names under which an event is filed are not touched by what a lease adds to it.\<close>

lemma map_of_obj_merge_other:
  "k \<notin> fst ` set new \<Longrightarrow> map_of (obj_merge kvs new) k = map_of kvs k"
  unfolding obj_merge_def
  by (induction new arbitrary: kvs) (auto simp: map_of_obj_set)

lemma dot_type_object: "dot ev ''type'' = JStr t \<Longrightarrow> \<exists>kvs. ev = JObj kvs"
  by (cases ev) auto

lemma scaffolded_event_key:
  assumes "dot ev ''type'' = JStr t"
  shows "event_key (scaffolded_event ev result) = event_key ev"
  using dot_type_object [OF assms] by (auto simp: event_key_def scaffolded_event_def map_of_obj_merge_other)

lemma set_event_keys:
  assumes "\<And>k. k \<in> set (qkeys sv) \<Longrightarrow> fst k = sq \<Longrightarrow> snd k = event_key ev"
  shows "qkeys (set_event sq ev sv) = qkeys sv"
proof -
  have "event_key (pe_event e) = event_key ev" if "e \<in> set (sv_pending sv)" "pe_seq e = sq" for e
    using assms [of "(pe_seq e, event_key (pe_event e))"] that by (auto simp: qkeys_def)
  then show ?thesis by (simp add: qkeys_def set_event_def)
qed

lemma queue_ok_enqueue:
  assumes "queue_ok sv" "\<not> (truthy (dot ev ''id'') \<and> list_ex (duplicate_of ev) (sv_pending sv))"
  shows "queue_ok (sv\<lparr>sv_pending := sv_pending sv @ [\<lparr>pe_event = ev, pe_leaseUntil = 0, pe_seq = sv_nextSeq sv\<rparr>],
                      sv_nextSeq := sv_nextSeq sv + 1\<rparr>)"
proof -
  have "\<not> key_clash (snd k) (event_key ev)" if k: "k \<in> set (qkeys sv)" for k
  proof -
    obtain e where e: "e \<in> set (sv_pending sv)" "k = (pe_seq e, event_key (pe_event e))"
      using k by (auto simp: qkeys_def)
    then show ?thesis using assms(2) duplicate_of_key [of ev e] by (auto simp: list_ex_iff)
  qed
  moreover have "qkeys (sv\<lparr>sv_pending := sv_pending sv @ [\<lparr>pe_event = ev, pe_leaseUntil = 0, pe_seq = sv_nextSeq sv\<rparr>],
                      sv_nextSeq := sv_nextSeq sv + 1\<rparr>) = qkeys sv @ [(sv_nextSeq sv, event_key ev)]"
    by (simp add: qkeys_def)
  ultimately show ?thesis
    using assms(1) by (fastforce simp: queue_ok_def keys_ok_def lease_ok_def sorted_wrt_append)
qed

section \<open>Every operation keeps the invariant\<close>

lemma in_set_remove1D: "x \<in> set (remove1 y xs) \<Longrightarrow> x \<in> set xs"
  using set_remove1_subset by fast

lemma queue_ok_set_lease [simp]: "queue_ok (set_lease sq t sv) = queue_ok sv"
  by (simp add: queue_ok_def)

lemma lease_start_ok:
  assumes "queue_ok sv" "e \<in> set (sv_pending sv)"
  shows "queue_ok (lease_start hs e ms pid pk sv)"
proof -
  note p = lease_start_parts [of hs e ms pid pk sv]
  obtain stg where ls: "sv_leases (lease_start hs e ms pid pk sv) = sv_leases sv @
     [\<lparr>ls_seq = pe_seq e, ls_event = pe_event e, ls_leaseMs = ms, ls_poll = pid, ls_parked = pk, ls_stage = stg\<rparr>]"
    using p(7) by blast
  have keys: "qkeys (lease_start hs e ms pid pk sv) = qkeys sv"
    using p(1) qkeys_set_lease [of "pe_seq e" _ sv] by (simp add: qkeys_def)
  have e: "(pe_seq e, event_key (pe_event e)) \<in> set (qkeys sv)" using assms(2) by (auto simp: qkeys_def)
  have strict: "sorted_wrt (\<lambda>a b. fst a < fst b) (qkeys sv)"
    by (rule sorted_wrt_mono_rel [where P = "\<lambda>a b. fst a < fst b \<and> \<not> key_clash (snd a) (snd b)"])
       (use assms(1) in \<open>simp_all add: queue_ok_def keys_ok_def\<close>)
  then have inj: "inj_on fst (set (qkeys sv))"
    using strict_sorted_iff [of "map fst (qkeys sv)"] by (simp add: sorted_wrt_map distinct_map)
  have "snd k = event_key (pe_event e)" if "k \<in> set (qkeys sv)" "fst k = pe_seq e" for k
    using inj_onD [OF inj _ that(1) e] that(2) by simp
  moreover have "pe_seq e < sv_nextSeq sv" using assms(1) e by (force simp: queue_ok_def keys_ok_def)
  ultimately have "lease_ok (sv_nextSeq sv) (qkeys sv)
     \<lparr>ls_seq = pe_seq e, ls_event = pe_event e, ls_leaseMs = ms, ls_poll = pid, ls_parked = pk, ls_stage = stg\<rparr>"
    by (simp add: lease_ok_def)
  then show ?thesis using assms(1) keys ls p(3) by (auto simp: queue_ok_def)
qed

lemma first_served_Some:
  "first_served now es pos = Some (po, e) \<Longrightarrow> po \<in> set pos \<and> available es now (po_types po) e"
  by (induction now es pos rule: first_served.induct) (auto split: option.splits dest: select_Some(1))

lemma first_served_None:
  "first_served now es pos = None \<longleftrightarrow> (\<forall>po\<in>set pos. \<forall>e. \<not> available es now (po_types po) e)"
  by (induction now es pos rule: first_served.induct) (auto split: option.splits simp: select_None dest: select_Some(1))

lemma flush_loop_ok: "queue_ok sv \<Longrightarrow> queue_ok (flush_loop n hs sv)"
proof (induction n hs sv rule: flush_loop.induct)
  case (2 n hs sv)
  show ?case
  proof (cases "first_served (h_now hs) (sv_pending sv) (sv_polls sv)")
    case (Some r)
    obtain po e where r: "r = (po, e)" by fastforce
    let ?sv = "sv\<lparr>sv_polls := remove1 po (sv_polls sv)\<rparr>"
    have "queue_ok ?sv" using 2(2) by (simp add: queue_ok_def qkeys_def)
    moreover have "e \<in> set (sv_pending ?sv)"
      using first_served_Some Some r by (fastforce simp: available_def)
    ultimately have "queue_ok (lease_start hs e (po_leaseMs po) (po_id po) True ?sv)" by (rule lease_start_ok)
    then show ?thesis using 2(1) Some r by simp
  qed (use 2(2) in simp)
qed simp

lemma flushPendingPolls_ok: "queue_ok sv \<Longrightarrow> queue_ok (flushPendingPolls hs sv)"
  by (simp add: flushPendingPolls_def Let_def flush_loop_ok)

lemma enqueueEvent_ok: "queue_ok sv \<Longrightarrow> queue_ok (enqueueEvent hs ev sv)"
  unfolding enqueueEvent_def using queue_ok_enqueue flushPendingPolls_ok by simp

lemma queue_ok_sub:
  "queue_ok sv \<Longrightarrow> subseq es (sv_pending sv) \<Longrightarrow> queue_ok (sv\<lparr>sv_pending := es\<rparr>)"
  by (erule queue_ok_shrink) (auto simp: qkeys_def intro: subseq_map)

lemma acknowledge_ok: "queue_ok sv \<Longrightarrow> acknowledgePendingEvent hs i t sv = (r, sv') \<Longrightarrow> queue_ok sv'"
  by (auto simp: acknowledgePendingEvent_def intro!: queue_ok_sub subseq_remove_first
      split: if_splits option.splits)

lemma release_ok: "queue_ok sv \<Longrightarrow> releasePendingEvent hs i t sv = (r, sv') \<Longrightarrow> queue_ok sv'"
  by (auto simp: releasePendingEvent_def split: option.splits)

lemma retire_ok: "queue_ok sv \<Longrightarrow> queue_ok (retirePendingGeneration hs i sv)"
  by (simp add: retirePendingGeneration_def queue_ok_sub)

lemma cancel_exit_ok: "queue_ok sv \<Longrightarrow> queue_ok (cancelQueuedAnonymousExitEvents hs sv)"
  by (simp add: cancelQueuedAnonymousExitEvents_def queue_ok_sub)

lemma set_event_ok:
  assumes "queue_ok sv" "\<And>k. k \<in> set (qkeys sv) \<Longrightarrow> fst k = sq \<Longrightarrow> snd k = event_key ev"
  shows "queue_ok (set_event sq ev sv)"
  using assms(1) set_event_keys [OF assms(2)] by (simp add: queue_ok_def)

lemma recordGenerateDelivery_ok:
  assumes "queue_ok sv" "\<And>k. k \<in> set (qkeys sv) \<Longrightarrow> fst k = sq \<Longrightarrow> snd k = event_key ev"
    and "recordGenerateDelivery hs sq ev sv = (ev', err, sv')"
  shows "queue_ok sv'"
proof (cases "truthy ev \<and> dot ev ''type'' = JStr ''generate'' \<and> \<not> truthy (dot ev ''generationReadyAt'')")
  case True
  let ?ev = "JObj (obj_set (own_props ev) ''generationReadyAt'' (jint (h_now hs)))"
  obtain kvs where "ev = JObj kvs" using dot_type_object True by blast
  then have "event_key ?ev = event_key ev" by (simp add: event_key_def map_of_obj_set)
  then have "queue_ok (set_event sq ?ev sv)" using assms(1,2) by (intro set_event_ok) simp_all
  then show ?thesis using assms(3) True
    by (auto simp: recordGenerateDelivery_def Let_def dest!: stored_ok phase_ok split: sum.splits)
next
  case False
  then show ?thesis using assms by (auto simp: recordGenerateDelivery_def)
qed

lemma scaffold_done_ok:
  assumes "queue_ok sv" "\<And>k. k \<in> set (qkeys sv) \<Longrightarrow> fst k = sq \<Longrightarrow> snd k = event_key ev"
    and "dot ev ''type'' = JStr t" and "scaffold_done hs result sq ev sv = (ev', err, sv')"
  shows "queue_ok sv'" "ev' = scaffolded_event ev result" "qkeys sv' = qkeys sv"
proof -
  note k = scaffolded_event_key [OF assms(3), of result]
  have k': "snd q = event_key (scaffolded_event ev result)" if "q \<in> set (qkeys sv)" "fst q = sq" for q
    using assms(2) that k by simp
  note ok = set_event_ok [OF assms(1) k'] set_event_keys [OF k']
  show "queue_ok sv'" "ev' = scaffolded_event ev result" "qkeys sv' = qkeys sv" using assms(4) ok
    by (auto simp: scaffold_done_def Let_def dest!: stored_ok phase_ok split: sum.splits)
qed

lemma lease_deliver_ok:
  assumes "queue_ok sv" "\<And>k. k \<in> set (qkeys sv) \<Longrightarrow> fst k = ls_seq ls \<Longrightarrow> snd k = event_key ev"
    and "lease_deliver hs ls ev sv = (ev', err, sv')"
  shows "queue_ok sv'"
proof (cases "truthy (dot ev ''id'')")
  case True
  let ?sv = "set_lease (ls_seq ls) (lease_until (h_now hs) (ls_leaseMs ls)) sv"
  obtain ev1 err1 sv1 where r: "recordGenerateDelivery hs (ls_seq ls) ev ?sv = (ev1, err1, sv1)"
    by (cases "recordGenerateDelivery hs (ls_seq ls) ev ?sv") auto
  have "queue_ok ?sv" using assms(1) by simp
  then have "queue_ok sv1" by (rule recordGenerateDelivery_ok [OF _ _ r]) (use assms(2) in simp)
  then show ?thesis using assms(3) True r by (auto simp: lease_deliver_def split: option.splits)
next
  case False
  then show ?thesis using assms(1,3) by (auto simp: lease_deliver_def intro!: queue_ok_sub)
qed

text \<open>A lease that waits for a scaffold is one of a generate.\<close>

definition stages_ok :: "server \<Rightarrow> bool" where
  "stages_ok sv \<longleftrightarrow> (\<forall>ls\<in>set (sv_leases sv). ls_stage ls = Scaffolding \<longrightarrow> dot (ls_event ls) ''type'' = JStr ''generate'')"

lemma lease_finish_ok:
  assumes "queue_ok sv" "stages_ok sv" "ls \<in> set (sv_leases sv)" "lease_finish hs result ls sv = Inr sv'"
  shows "queue_ok sv'"
proof -
  let ?sv = "sv\<lparr>sv_leases := remove1 ls (sv_leases sv)\<rparr>"
  have ok: "queue_ok ?sv"
    using assms(1) by (rule queue_ok_shrink) (auto simp: qkeys_def dest: in_set_remove1D)
  have k: "snd k = event_key (ls_event ls)" if "k \<in> set (qkeys ?sv)" "fst k = ls_seq ls" for k
    using assms(1,3) that by (auto simp: queue_ok_def lease_ok_def qkeys_def)
  obtain ev err sv1 where r: "(case ls_stage ls of
              Rejected \<Rightarrow> (ls_event ls, Some TypeError, ?sv)
            | Claimed \<Rightarrow> lease_deliver hs ls (ls_event ls) ?sv
            | Scaffolding \<Rightarrow>
               (case scaffold_done hs result (ls_seq ls) (ls_event ls) ?sv of
                  (event', Some e, sv') \<Rightarrow> (event', Some e, sv')
                | (event', None, sv') \<Rightarrow> lease_deliver hs ls event' sv')) = (ev, err, sv1)"
    using prod_cases3 by blast
  have "queue_ok sv1"
  proof (cases "ls_stage ls")
    case Claimed
    then show ?thesis using r lease_deliver_ok [OF ok k] by simp
  next
    case Rejected
    then show ?thesis using r ok by simp
  next
    case Scaffolding
    then have g: "dot (ls_event ls) ''type'' = JStr ''generate''" using assms(2,3) by (simp add: stages_ok_def)
    obtain ev2 err2 sv2 where s: "scaffold_done hs result (ls_seq ls) (ls_event ls) ?sv = (ev2, err2, sv2)"
      using prod_cases3 by blast
    note sd = scaffold_done_ok [OF ok k g s]
    have "snd k = event_key ev2" if "k \<in> set (qkeys sv2)" "fst k = ls_seq ls" for k
      using k that sd(2,3) scaffolded_event_key [OF g] by simp
    note d = lease_deliver_ok [OF sd(1) this]
    show ?thesis
    proof (cases err2)
      case None
      then show ?thesis using r s Scaffolding d by simp
    next
      case (Some e)
      then show ?thesis using r s Scaffolding sd(1) by simp
    qed
  qed
  moreover have "queue_ok sv' = queue_ok sv1"
    using assms(4) r by (auto simp: lease_finish_def Let_def resolve_poll_def queue_ok_def qkeys_def split: if_splits)
  ultimately show ?thesis by simp
qed

end
