(* ===== verification/Live_Replies.thy ===== *)
theory Live_Replies
  imports Live_Server Manual_Apply
begin

text \<open>
  The agent's replies (\<^verbatim>\<open>POST /poll\<close> in \<^verbatim>\<open>scripts/live-server.mjs\<close>) and the part of the Apply controller
  (\<^verbatim>\<open>createManualApplyController\<close> in \<^verbatim>\<open>scripts/live/manual-apply.mjs\<close>) that keeps state: the Applies that
  wait for a reply and the ones that timed out. Reading a preview manifest and the compile check of
  variants are arguments (\<open>None\<close> where they throw).
\<close>

section \<open>Pending Applies\<close>

definition tombstoneTimedOutApplyId :: "string \<Rightarrow> deferred \<Rightarrow> server \<Rightarrow> server" where
  "tombstoneTimedOutApplyId eventId d sv =
     (if eventId = [] then sv
      else (let m = amap_set (sv_timedOut sv) eventId d
            in sv\<lparr>sv_timedOut := (if length m \<le> 200 then m else tl m)\<rparr>))"

definition remove_deferred :: "string \<Rightarrow> server \<Rightarrow> server" where
  "remove_deferred eventId sv = sv\<lparr>sv_deferreds := filter (\<lambda>kv. fst kv \<noteq> eventId) (sv_deferreds sv)\<rparr>"

definition or_null_count :: "jsval \<Rightarrow> jsval" where
  "or_null_count batch = jint (if is_arr (dot batch ''entries'') then int (length (batch_entries batch)) else 0)"

text \<open>
  \<^verbatim>\<open>pushApplyEventAndWait\<close> up to the promise it returns: the event is built, the files are
  remembered, and the event is queued.
\<close>

definition apply_event :: "string \<Rightarrow> string \<Rightarrow> string \<Rightarrow> jsval \<Rightarrow> jsval \<Rightarrow> jsval \<Rightarrow> jsval \<Rightarrow> int \<Rightarrow> jsval" where
  "apply_event cwd eventId evidencePath batch pageUrl chunk repair softDeadline =
     JObj ([(''type'', JStr ''manual_edit_apply''), (''id'', JStr eventId), (''pageUrl'', pageUrl),
            (''batch'', compactManualApplyBatch cwd batch), (''evidencePath'', JStr evidencePath),
            (''agentAction'', buildManualApplyAgentAction (JStr eventId)), (''schemaVersion'', jint 1),
            (''deadlineMs'', jint softDeadline)]
           @ (if truthy chunk then [(''chunk'', chunk)] else [])
           @ (if truthy repair then [(''repair'', repair)] else []))"

definition pushApplyEventAndWait ::
    "store_host \<Rightarrow> string \<Rightarrow> string \<Rightarrow> string \<Rightarrow> int \<Rightarrow> jsval \<Rightarrow> jsval \<Rightarrow> jsval \<Rightarrow> jsval \<Rightarrow> server \<Rightarrow> server" where
  "pushApplyEventAndWait hs cwd eventId evidencePath softDeadline batch pageUrl chunk repair sv =
     (let event = apply_event cwd eventId evidencePath batch pageUrl chunk repair softDeadline;
          snap = snapshotApplyEventFiles cwd (sv_files sv) batch;
          sv1 = recordManualEditActivity hs ''manual_edit_apply_dispatched''
                  [(''id'', JStr eventId), (''pageUrl'', pageUrl), (''chunk'', chunk), (''repair'', repair),
                   (''entryCount'', or_null_count batch), (''opCount'', jint (int (countManualApplyOps batch))),
                   (''fileCount'', jint (int (length (collectManualApplyFiles cwd batch []))))] sv
      in enqueueEvent hs event (sv1\<lparr>sv_deferreds := amap_set (sv_deferreds sv1) eventId
           \<lparr>df_event = event, df_batch = batch, df_pageUrl = pageUrl, df_rollback = snap\<rparr>\<rparr>))"

text \<open>The hard timeout of an Apply.\<close>

definition apply_timer_fires :: "store_host \<Rightarrow> string \<Rightarrow> server \<Rightarrow> server" where
  "apply_timer_fires hs eventId sv = (case map_of (sv_deferreds sv) eventId of
      None \<Rightarrow> sv
    | Some d \<Rightarrow>
       (let sv1 = tombstoneTimedOutApplyId eventId d (remove_deferred eventId sv);
            sv2 = snd (acknowledgePendingEvent hs (JStr eventId) JUndef sv1)
        in recordManualEditActivity hs ''manual_edit_apply_timeout''
             [(''id'', JStr eventId), (''pageUrl'', df_pageUrl d), (''chunk'', js_or (dot (df_event d) ''chunk'') JNull),
              (''entryCount'', or_null_count (df_batch d)),
              (''opCount'', jint (int (countManualApplyOps (df_batch d))))] sv2))"

definition getDeferred :: "jsval \<Rightarrow> server \<Rightarrow> deferred option" where
  "getDeferred eventId sv = (case eventId of JStr i \<Rightarrow> map_of (sv_deferreds sv) i | _ \<Rightarrow> None)"

definition hasTimedOutId :: "jsval \<Rightarrow> server \<Rightarrow> bool" where
  "hasTimedOutId eventId sv = (case eventId of JStr i \<Rightarrow> map_of (sv_timedOut sv) i \<noteq> None | _ \<Rightarrow> False)"

definition resolveDeferred :: "string \<Rightarrow> server \<Rightarrow> bool \<times> server" where
  "resolveDeferred eventId sv =
     (if map_of (sv_deferreds sv) eventId = None then (False, sv) else (True, remove_deferred eventId sv))"

text \<open>\<^verbatim>\<open>files.push(...(v || []))\<close>: an array, the characters of a string, or an error.\<close>

definition spread_elems :: "jsval \<Rightarrow> jsval list js" where
  "spread_elems v =
     (if \<not> truthy v then Inr []
      else (case v of JArr xs \<Rightarrow> Inr xs | JStr s \<Rightarrow> Inr (map (\<lambda>c. JStr [c]) s) | _ \<Rightarrow> Inl TypeError))"

definition rollbackTimedOutReply ::
    "(string \<Rightarrow> string option) \<Rightarrow> string \<Rightarrow> jsval \<Rightarrow> jsval list \<Rightarrow> server \<Rightarrow> rollback_result \<times> server" where
  "rollbackTimedOutReply fails cwd msg files sv = (case dot msg ''id'' of
      JStr i \<Rightarrow>
       (case map_of (sv_timedOut sv) i of
          None \<Rightarrow> (\<lparr>rb_files = [], rb_failures = []\<rparr>, sv)
        | Some d \<Rightarrow>
           (let (r, fs) = rollbackApplySnapshot fails cwd (df_batch d) (df_rollback d)
                            files (sv_files sv)
            in (r, sv\<lparr>sv_timedOut := filter (\<lambda>kv. fst kv \<noteq> i) (sv_timedOut sv), sv_files := fs\<rparr>)))
    | _ \<Rightarrow> (\<lparr>rb_files = [], rb_failures = []\<rparr>, sv))"

text \<open>\<^verbatim>\<open>cancelPendingEvents\<close>: the queued events first, then the Applies that wait, each rolled back.\<close>

definition should_cancel :: "jsval \<Rightarrow> jsval \<Rightarrow> bool" where
  "should_cancel pageUrl event =
     (dot event ''type'' = JStr ''manual_edit_apply'' \<and> (\<not> truthy pageUrl \<or> strict_eq (dot event ''pageUrl'') pageUrl))"

definition cancel_deferred ::
    "(string \<Rightarrow> string option) \<Rightarrow> string \<Rightarrow> string \<times> deferred \<Rightarrow> server \<Rightarrow> server" where
  "cancel_deferred fails cwd kd sv =
     (let d = snd kd;
          fs = snd (rollbackApplySnapshot fails cwd (df_batch d) (df_rollback d) [] (sv_files sv))
      in tombstoneTimedOutApplyId (fst kd) d ((remove_deferred (fst kd) sv)\<lparr>sv_files := fs\<rparr>))"

definition cancelPendingEvents ::
    "store_host \<Rightarrow> (string \<Rightarrow> string option) \<Rightarrow> string \<Rightarrow> jsval \<Rightarrow> server \<Rightarrow> server" where
  "cancelPendingEvents hs fails cwd pageUrl sv =
     (let kept = filter (\<lambda>e. \<not> should_cancel pageUrl (pe_event e)) (sv_pending sv);
          canceled = filter (\<lambda>kd. should_cancel pageUrl (df_event (snd kd))) (sv_deferreds sv);
          sv1 = fold (cancel_deferred fails cwd) canceled (sv\<lparr>sv_pending := kept\<rparr>)
      in if kept = sv_pending sv \<and> canceled = [] then sv1 else flushPendingPolls hs sv1)"

section \<open>Helpers of \<^verbatim>\<open>POST /poll\<close>\<close>

definition preview_dirs :: "string list" where
  "preview_dirs = [''.impeccable/live/previews/'', ''node_modules/.impeccable-live/'', ''src/lib/impeccable/'',
     ''/.impeccable-live/'']"

definition sessionFileMetadataFromPollReply :: "string \<Rightarrow> (string \<Rightarrow> jsval option) \<Rightarrow> jsval \<Rightarrow> props" where
  "sessionFileMetadataFromPollReply cwd readManifest file = (case file of
      JStr f \<Rightarrow>
        if f = [] then [(''file'', file)]
        else if \<not> ends_with f ''/manifest.json'' \<and> f \<noteq> ''manifest.json'' then [(''file'', file)]
        else if \<not> list_ex (str_includes f) preview_dirs then [(''file'', file)]
        else if outside_root (path_relative cwd (path_resolve cwd f)) then [(''file'', file)]
        else (case readManifest (path_resolve cwd f) of
            None \<Rightarrow> [(''file'', file)]
          | Some manifest \<Rightarrow>
             if dot manifest ''previewMode'' \<noteq> JStr ''svelte-component'' \<or> \<not> truthy (dot manifest ''sourceFile'')
             then [(''file'', file)]
             else [(''file'', JStr (js_text (dot manifest ''sourceFile''))),
                   (''sourceFile'', JStr (js_text (dot manifest ''sourceFile''))),
                   (''previewFile'', file), (''previewMode'', dot manifest ''previewMode'')])
    | _ \<Rightarrow> [(''file'', file)])"

definition inferSourceEventType :: "int \<Rightarrow> jsval \<Rightarrow> pentry list \<Rightarrow> jsval" where
  "inferSourceEventType now msg pendingEvents =
     (let entriesForId = filter (\<lambda>e. strict_eq (dot (pe_event e) ''id'') (dot msg ''id'')) pendingEvents;
          has = (\<lambda>t. list_ex (\<lambda>e. dot (pe_event e) ''type'' = JStr t) entriesForId);
          t = dot msg ''type''
      in if has_str [''discarded'', ''discard''] t then JStr ''discard''
         else if t = JStr ''complete'' then
           (if has ''carbonize_cleanup'' then JStr ''carbonize_cleanup''
            else if has ''accept'' then JStr ''accept'' else if has ''generate'' then JStr ''generate'' else JUndef)
         else if t = JStr ''steer_done'' then JStr ''steer''
         else if has_str [''agent_done'', ''done''] t then
           (if \<not> has ''generate'' \<and> has ''variant_mount_failed'' then JStr ''variant_mount_failed'' else JStr ''generate'')
         else if t = JStr ''error'' then
           js_or (case find (isLeased now) entriesForId of None \<Rightarrow> JUndef | Some e \<Rightarrow> dot (pe_event e) ''type'')
                 (JStr ''generate'')
         else JUndef)"

definition id_error :: "jsval \<Rightarrow> string \<Rightarrow> string \<Rightarrow> response" where
  "id_error i unknown missing =
     Response (if truthy i then 404 else 400)
       (JObj [(''error'', JStr (if truthy i then unknown else missing)), (''id'', i)])"

text \<open>The reply to an Apply that still waits.\<close>

definition apply_reply :: "store_host \<Rightarrow> string \<Rightarrow> jsval \<Rightarrow> deferred \<Rightarrow> server \<Rightarrow> response \<times> server" where
  "apply_reply hs cwd msg d sv =
     (let i = dot msg ''id'';
          common = [(''id'', i), (''pageUrl'', df_pageUrl d), (''chunk'', js_or (dot (df_event d) ''chunk'') JNull),
                    (''repair'', js_or (dot (df_event d) ''repair'') JNull)]
      in case validateManualApplyResultMessage msg d of
           Inl body \<Rightarrow>
             (Response 400 body,
              recordManualEditActivity hs ''manual_edit_apply_reply_invalid''
                (common @ [(''reason'', js_or (js_or (dot body ''reason'') (dot body ''error'')) (JStr ''invalid_manual_apply_result'')),
                           (''status'', js_or (dot (dot msg ''data'') ''status'') JNull)]) sv)
         | Inr r \<Rightarrow>
             (let sv1 = recordManualEditActivity hs ''manual_edit_apply_reply_received''
                    (common @ [(''status'', dot r ''status''),
                               (''appliedCount'', jint (int (length (arr_elems (dot r ''appliedEntryIds''))))),
                               (''failed'', summarizeManualApplyFailures cwd (dot r ''failed'')),
                               (''fileCount'', jint (int (length (arr_elems (dot r ''files''))))),
                               (''noteCount'', jint (int (length (arr_elems (dot r ''notes'')))))]) sv;
                  sv2 = snd (resolveDeferred (js_text i) sv1);
                  sv3 = snd (acknowledgePendingEvent hs i JUndef sv2)
              in (ok_response, flushPendingPolls hs sv3)))"

definition stale_apply_reply ::
    "store_host \<Rightarrow> (string \<Rightarrow> string option) \<Rightarrow> string \<Rightarrow> jsval \<Rightarrow> jsval list \<Rightarrow> server \<Rightarrow> response \<times> server" where
  "stale_apply_reply hs fails cwd msg files sv =
     (let (r, sv1) = rollbackTimedOutReply fails cwd msg files sv;
          sv2 = recordManualEditActivity hs ''manual_edit_apply_stale_reply_rejected''
                  [(''id'', dot msg ''id''), (''rolledBackFileCount'', jint (int (length (rb_files r)))),
                   (''rollbackFailureCount'', jint (int (length (rb_failures r))))] sv1
      in (Response 409 (JObj [(''error'', JStr ''stale_manual_edit_apply_reply''),
            (''rolledBackFiles'', JArr (map JStr (rb_files r))),
            (''rollbackFailures'', JArr (map (\<lambda>(f, m). JObj [(''file'', JStr f), (''reason'', JStr ''restore_failed''),
                                                          (''message'', JStr m)]) (rb_failures r)))]), sv2))"

definition retry_reply :: "store_host \<Rightarrow> jsval \<Rightarrow> jsval \<Rightarrow> server \<Rightarrow> response \<times> server" where
  "retry_reply hs msg sourceEventType sv =
     (case releasePendingEvent hs (dot msg ''id'') sourceEventType sv of
        (None, sv1) \<Rightarrow> (id_error (dot msg ''id'') ''unknown_poll_retry_id'' ''missing_poll_retry_id'', sv1)
      | (Some _, sv1) \<Rightarrow> (Response 200 (JObj [(''ok'', JBool True), (''released'', JBool True)]), flushPendingPolls hs sv1))"

definition reply_event_type :: "jsval \<Rightarrow> string" where
  "reply_event_type t =
     (if t = JStr ''steer_done'' then ''steer_done''
      else if has_str [''discard'', ''discarded''] t then ''discarded''
      else if t = JStr ''complete'' then ''complete''
      else if t = JStr ''error'' then ''agent_error'' else ''agent_done'')"

definition journal_reply :: "store_host \<Rightarrow> jsval \<Rightarrow> props \<Rightarrow> jsval option \<Rightarrow> server \<Rightarrow> server" where
  "journal_reply hs msg meta acked sv =
     (let m = (\<lambda>k. dot (JObj meta) k)
      in case store_event hs (JObj [(''type'', JStr (reply_event_type (dot msg ''type''))), (''id'', dot msg ''id''),
             (''file'', m ''file''), (''sourceFile'', m ''sourceFile''), (''previewFile'', m ''previewFile''),
             (''previewMode'', m ''previewMode''), (''message'', dot msg ''message''),
             (''sourceEventType'', case acked of None \<Rightarrow> JUndef | Some e \<Rightarrow> dot e ''type''),
             (''carbonize'', JBool (dot (dot msg ''data'') ''carbonize'' = JBool True))]) sv of
           Inl _ \<Rightarrow> sv | Inr sv' \<Rightarrow> sv')"

definition compile_instructions :: string where
  "compile_instructions = ''The publish was NOT delivered: the listed variant file(s) do not compile, so the browser never saw them. Fix each failure at the given file and line (the most common cause is a second top-level <style> element; Svelte allows exactly one, so merge all rules into the existing block), then send the same --reply done again.''"

text \<open>What follows once the reply is known to belong to an event or a session.\<close>

definition deliver_reply ::
    "store_host \<Rightarrow> string \<Rightarrow> (string \<Rightarrow> jsval option) \<Rightarrow> jsval option \<Rightarrow> jsval \<Rightarrow> jsval option \<Rightarrow> bool \<Rightarrow> server \<Rightarrow> response \<times> server" where
  "deliver_reply hs cwd readManifest compileCheck msg acked skipJournal sv =
     (let i = dot msg ''id''; meta = sessionFileMetadataFromPollReply cwd readManifest (dot msg ''file'');
          m = (\<lambda>k. dot (JObj meta) k);
          check = (case compileCheck of None \<Rightarrow> JObj [(''ok'', JBool True)] | Some c \<Rightarrow> c)
      in if m ''previewMode'' = JStr ''svelte-component'' \<and> truthy i
            \<and> (dot msg ''type'' = JStr ''done'' \<or> \<not> truthy (dot msg ''type'')) \<and> \<not> truthy (dot check ''ok'')
         then (Response 422 (JObj [(''error'', JStr ''variant_compile_failed''), (''id'', i),
                                   (''failures'', dot check ''failures''), (''_instructions'', JStr compile_instructions)]), sv)
         else
          (let sv1 = (if truthy i \<and> \<not> skipJournal then journal_reply hs msg meta acked sv else sv);
               sv2 = broadcast (JObj [(''type'', js_or (dot msg ''type'') (JStr ''done'')), (''id'', i),
                       (''message'', dot msg ''message''), (''file'', dot msg ''file''),
                       (''sourceFile'', m ''sourceFile''), (''previewFile'', m ''previewFile''),
                       (''previewMode'', m ''previewMode''), (''data'', dot msg ''data'')]) (flushPendingPolls hs sv1)
           in (ok_response, sv2)))"

text \<open>The session a reply without a queued event belongs to, where one exists.\<close>

definition existing_session :: "store_host \<Rightarrow> jsval \<Rightarrow> server \<Rightarrow> snapshot option \<times> server" where
  "existing_session hs i sv =
     (if \<not> truthy i then (None, sv)
      else (let (so, sv') = read_snapshot (host.truncate hs) i True sv
            in (case so of None \<Rightarrow> None | Some s \<Rightarrow> if truthy (sn_updatedAt s) then Some s else None, sv')))"

definition ordinary_reply ::
    "store_host \<Rightarrow> string \<Rightarrow> (string \<Rightarrow> jsval option) \<Rightarrow> jsval option \<Rightarrow> jsval \<Rightarrow> jsval \<Rightarrow> server \<Rightarrow> response \<times> server" where
  "ordinary_reply hs cwd readManifest compileCheck msg sourceEventType sv =
     (case acknowledgePendingEvent hs (dot msg ''id'') sourceEventType sv of
        (Some ev, sv1) \<Rightarrow> deliver_reply hs cwd readManifest compileCheck msg (Some ev) False sv1
      | (None, sv1) \<Rightarrow>
         (case existing_session hs (dot msg ''id'') sv1 of
            (None, sv2) \<Rightarrow>
              (id_error (dot msg ''id'') ''unknown_poll_reply_id'' ''missing_poll_reply_id'',
               recordManualEditActivity hs ''manual_edit_poll_reply_unknown''
                 [(''id'', js_or (dot msg ''id'') JNull), (''type'', js_or (dot msg ''type'') JNull)] sv2)
          | (Some s, sv2) \<Rightarrow>
              deliver_reply hs cwd readManifest compileCheck msg None
                (has_str [''completed'', ''discarded''] (sn_phase s)) sv2))"

definition handlePollPost ::
    "store_host \<Rightarrow> (string \<Rightarrow> string option) \<Rightarrow> string \<Rightarrow> (string \<Rightarrow> jsval option) \<Rightarrow> jsval option \<Rightarrow> jsval option \<Rightarrow> server \<Rightarrow>
     (response \<times> server) js" where
  "handlePollPost hs fails cwd readManifest compileCheck body sv = (case body of
      None \<Rightarrow> Inr (error_response 400 ''Invalid JSON'', sv)
    | Some msg \<Rightarrow>
       if nullish msg then Inl TypeError
       else if dot msg ''token'' \<noteq> JStr (sv_token sv) then Inr (error_response 401 ''Unauthorized'', sv)
       else (case getDeferred (dot msg ''id'') sv of
           Some d \<Rightarrow> Inr (apply_reply hs cwd msg d sv)
         | None \<Rightarrow>
            if hasTimedOutId (dot msg ''id'') sv
            then (case spread_elems (dot (dot msg ''data'') ''files'') of
                    Inl e \<Rightarrow> Inl e
                  | Inr files \<Rightarrow> Inr (stale_apply_reply hs fails cwd msg files sv))
            else
             (let sourceEventType = js_or (dot msg ''sourceEventType'') (inferSourceEventType (h_now hs) msg (sv_pending sv))
              in if dot msg ''type'' = JStr ''retry'' then Inr (retry_reply hs msg sourceEventType sv)
                 else if dot (findPendingEventById (dot msg ''id'') sourceEventType sv) ''type'' = JStr ''steer''
                     \<and> dot msg ''type'' = JStr ''steer_done'' \<and> \<not> truthy (dot msg ''file'')
                     \<and> blank_str (dot msg ''message'')
                 then Inr (Response 400 (JObj [(''error'', JStr ''steer_done_requires_file_or_message''),
                        (''hint'', JStr ''Reply with --file after writing source, or include a message explaining an intentional no-op.'')]), sv)
                 else Inr (ordinary_reply hs cwd readManifest compileCheck msg sourceEventType sv))))"

definition shutdown :: "server \<Rightarrow> server" where
  "shutdown sv = sv\<lparr>sv_leaseTimer := None, sv_clients := [],
     sv_answers := sv_answers sv @ map (\<lambda>po. (po_id po, JObj [(''type'', JStr ''exit'')])) (sv_polls sv), sv_polls := []\<rparr>"

end
