(* ===== verification/Server_Invariants.thy ===== *)
theory Server_Invariants
  imports Queue_Invariants Live_Replies Session_Properties
begin

text \<open>
  The live server as a transition system: every request, timer and continuation of a lease is a step.
  The invariant of the queue and of the answers to polls holds in every reachable state; the
  handlers are judged branch by branch.
\<close>

section \<open>The invariant of the server\<close>

text \<open>
  No poll is answered twice, the timer of an answered poll is off, a poll that was served at once
  never had one, and a poll that is being served is no longer parked.
\<close>

definition answers_ok :: "server \<Rightarrow> bool" where
  "answers_ok sv \<longleftrightarrow> distinct (map fst (sv_answers sv)) \<and> set (sv_pollTimers sv) \<inter> fst ` set (sv_answers sv) = {} \<and>
     (\<forall>ls\<in>set (sv_leases sv). \<not> ls_parked ls \<longrightarrow> ls_poll ls \<notin> set (sv_pollTimers sv)) \<and>
     (\<forall>po\<in>set (sv_polls sv). po_id po \<in> set (sv_pollTimers sv)) \<and> distinct (map po_id (sv_polls sv)) \<and>
     (\<forall>ls\<in>set (sv_leases sv). ls_poll ls \<notin> po_id ` set (sv_polls sv))"

definition server_inv :: "server \<Rightarrow> bool" where
  "server_inv sv \<longleftrightarrow> queue_ok sv \<and> stages_ok sv \<and> answers_ok sv"

lemma server_inv_part:
  assumes "queue_part sv' = queue_part sv"
  shows "server_inv sv' = server_inv sv"
  using queue_part_eqD [OF assms] queue_ok_part(1) [OF assms]
  by (simp add: server_inv_def stages_ok_def answers_ok_def)

lemma server_inv_upd [simp]:
  "server_inv (sv\<lparr>sv_store := a\<rparr>) = server_inv sv" "server_inv (sv\<lparr>sv_exitTimer := b\<rparr>) = server_inv sv"
  "server_inv (sv\<lparr>sv_leaseTimer := c\<rparr>) = server_inv sv" "server_inv (sv\<lparr>sv_lastPollAt := d\<rparr>) = server_inv sv"
  "server_inv (sv\<lparr>sv_clients := k\<rparr>) = server_inv sv" "server_inv (broadcast m sv) = server_inv sv"
  "server_inv (broadcastAgentPollingIfChanged sv) = server_inv sv" "server_inv (scheduleLeaseFlush now sv) = server_inv sv"
  "server_inv (settle_queue hs sv) = server_inv sv"
  by (rule server_inv_part, simp)+

lemma server_inv_manual [simp]:
  "server_inv (sv\<lparr>sv_deferreds := a\<rparr>) = server_inv sv" "server_inv (sv\<lparr>sv_timedOut := b\<rparr>) = server_inv sv"
  "server_inv (sv\<lparr>sv_files := c\<rparr>) = server_inv sv" "server_inv (recordManualEditActivity hs t ds sv) = server_inv sv"
  by (rule server_inv_part, simp add: queue_part_def recordManualEditActivity_def broadcast_def Let_def)+

lemma server_inv_frames:
  "store_event hs ev sv = Inr sv' \<Longrightarrow> server_inv sv' = server_inv sv"
  "recordAgentPhase hs i ph ds sv = Inr sv' \<Longrightarrow> server_inv sv' = server_inv sv"
  "read_snapshot h i inc sv = (so, sv') \<Longrightarrow> server_inv sv' = server_inv sv"
  "detectMissedGenerationCompletion h ev sv = (m, sv') \<Longrightarrow> server_inv sv' = server_inv sv"
  "recordGenerationCheckpoint hs ev sv = Inr sv' \<Longrightarrow> server_inv sv' = server_inv sv"
  using server_inv_part store_event_frame recordAgentPhase_frame read_snapshot_frame detectMissed_frame
    recordGenerationCheckpoint_frame by metis+

lemma server_inv_pending:
  assumes "server_inv sv" "subseq es (sv_pending sv)"
  shows "server_inv (sv\<lparr>sv_pending := es\<rparr>)"
  using assms queue_ok_sub [of sv es] by (simp add: server_inv_def stages_ok_def answers_ok_def)

lemma server_inv_set_lease: "server_inv (set_lease sq t sv) = server_inv sv"
  by (simp add: server_inv_def stages_ok_def answers_ok_def)

lemma claim_stage:
  "claim_phases hs ev sv = (Scaffolding, sv') \<Longrightarrow> dot ev ''type'' = JStr ''generate''"
  by (auto simp: claim_phases_def needs_scaffold_def split: if_splits sum.splits)

lemma lease_start_lease:
  "\<exists>stg. sv_leases (lease_start hs e ms pid pk sv) = sv_leases sv @
     [\<lparr>ls_seq = pe_seq e, ls_event = pe_event e, ls_leaseMs = ms, ls_poll = pid, ls_parked = pk, ls_stage = stg\<rparr>] \<and>
   (stg = Scaffolding \<longrightarrow> dot (pe_event e) ''type'' = JStr ''generate'')"
proof -
  let ?sv0 = "set_lease (pe_seq e) (lease_until (h_now hs) ms) sv"
  obtain stg sv1 where c: "claim_phases hs (pe_event e) ?sv0 = (stg, sv1)" by fastforce
  have "sv_leases sv1 = sv_leases sv" using queue_part_eqD(3) [OF claim_phases_frame [OF c]] by simp
  then show ?thesis using c claim_stage by (auto simp: lease_start_def)
qed

lemma lease_start_inv:
  assumes "server_inv sv" "e \<in> set (sv_pending sv)" "pk \<or> pid \<notin> set (sv_pollTimers sv)"
    and "pid \<notin> po_id ` set (sv_polls sv)"
  shows "server_inv (lease_start hs e ms pid pk sv)"
proof -
  obtain stg where ls: "sv_leases (lease_start hs e ms pid pk sv) = sv_leases sv @
     [\<lparr>ls_seq = pe_seq e, ls_event = pe_event e, ls_leaseMs = ms, ls_poll = pid, ls_parked = pk, ls_stage = stg\<rparr>]"
     "stg = Scaffolding \<longrightarrow> dot (pe_event e) ''type'' = JStr ''generate''"
    using lease_start_lease by blast
  note p = lease_start_parts [of hs e ms pid pk sv]
  have "queue_ok (lease_start hs e ms pid pk sv)" using assms(1,2) lease_start_ok by (simp add: server_inv_def)
  then show ?thesis using assms ls p(2,4,5) by (auto simp: server_inv_def stages_ok_def answers_ok_def)
qed

lemma distinct_map_remove1: "distinct (map f xs) \<Longrightarrow> x \<in> set xs \<Longrightarrow> f x \<notin> f ` set (remove1 x xs) \<and> distinct (map f (remove1 x xs))"
  by (auto simp: distinct_map intro: inj_on_diff dest: inj_onD)

lemma answers_ok_sub:
  assumes "answers_ok sv" "set lss \<subseteq> set (sv_leases sv)" "set pos \<subseteq> set (sv_polls sv)" "distinct (map po_id pos)"
  shows "answers_ok (sv\<lparr>sv_leases := lss, sv_polls := pos\<rparr>)"
proof -
  have "po_id ` set pos \<subseteq> po_id ` set (sv_polls sv)" using assms(3) by (rule image_mono)
  then show ?thesis using assms unfolding answers_ok_def by simp blast
qed

lemma drop_poll_inv:
  assumes "server_inv sv" "po \<in> set (sv_polls sv)"
  shows "server_inv (sv\<lparr>sv_polls := remove1 po (sv_polls sv)\<rparr>)" "po_id po \<notin> po_id ` set (remove1 po (sv_polls sv))"
proof -
  have a: "answers_ok sv" using assms(1) by (simp add: server_inv_def)
  then have d: "po_id po \<notin> po_id ` set (remove1 po (sv_polls sv))" "distinct (map po_id (remove1 po (sv_polls sv)))"
    using distinct_map_remove1 [OF _ assms(2), of po_id] by (simp_all add: answers_ok_def)
  moreover have "set (remove1 po (sv_polls sv)) \<subseteq> set (sv_polls sv)" by (rule set_remove1_subset)
  ultimately have "answers_ok (sv\<lparr>sv_polls := remove1 po (sv_polls sv)\<rparr>)"
    using a answers_ok_sub [of sv "sv_leases sv"] by simp
  then show "server_inv (sv\<lparr>sv_polls := remove1 po (sv_polls sv)\<rparr>)"
    using assms(1) by (simp add: server_inv_def stages_ok_def queue_ok_def qkeys_def)
  show "po_id po \<notin> po_id ` set (remove1 po (sv_polls sv))" by (rule d)
qed

lemma flush_loop_inv: "server_inv sv \<Longrightarrow> server_inv (flush_loop n hs sv)"
proof (induction n hs sv rule: flush_loop.induct)
  case (2 n hs sv)
  show ?case
  proof (cases "first_served (h_now hs) (sv_pending sv) (sv_polls sv)")
    case (Some r)
    obtain po e where r: "r = (po, e)" by fastforce
    have e: "e \<in> set (sv_pending sv)" "po \<in> set (sv_polls sv)"
      using first_served_Some Some r by (fastforce simp: available_def)+
    note d = drop_poll_inv [OF 2(2) e(2)]
    have "server_inv (lease_start hs e (po_leaseMs po) (po_id po) True (sv\<lparr>sv_polls := remove1 po (sv_polls sv)\<rparr>))"
      by (rule lease_start_inv [OF d(1)]) (use e d(2) in simp_all)
    then show ?thesis using 2(1) Some r by simp
  qed (use 2(2) in simp)
qed simp

lemma flushPendingPolls_inv: "server_inv sv \<Longrightarrow> server_inv (flushPendingPolls hs sv)"
  by (simp add: flushPendingPolls_def Let_def flush_loop_inv)

lemma enqueueEvent_inv:
  assumes "server_inv sv"
  shows "server_inv (enqueueEvent hs ev sv)"
proof (cases "truthy ev \<and> \<not> (truthy (dot ev ''id'') \<and> list_ex (duplicate_of ev) (sv_pending sv))")
  case True
  let ?sv = "sv\<lparr>sv_pending := sv_pending sv @ [\<lparr>pe_event = ev, pe_leaseUntil = 0, pe_seq = sv_nextSeq sv\<rparr>],
                 sv_nextSeq := sv_nextSeq sv + 1\<rparr>"
  have "queue_ok ?sv" using assms True by (intro queue_ok_enqueue) (auto simp: server_inv_def)
  then have "server_inv ?sv" using assms by (simp add: server_inv_def stages_ok_def answers_ok_def)
  then show ?thesis using True by (auto simp: enqueueEvent_def flushPendingPolls_inv)
next
  case False
  then show ?thesis using assms by (auto simp: enqueueEvent_def)
qed

lemma acknowledge_inv: "server_inv sv \<Longrightarrow> acknowledgePendingEvent hs i t sv = (r, sv') \<Longrightarrow> server_inv sv'"
  by (auto simp: acknowledgePendingEvent_def intro!: server_inv_pending subseq_remove_first
      split: if_splits option.splits)

lemma release_inv: "server_inv sv \<Longrightarrow> releasePendingEvent hs i t sv = (r, sv') \<Longrightarrow> server_inv sv'"
  by (auto simp: releasePendingEvent_def server_inv_set_lease split: option.splits)

lemma retire_inv: "server_inv sv \<Longrightarrow> server_inv (retirePendingGeneration hs i sv)"
  by (simp add: retirePendingGeneration_def server_inv_pending)

lemma cancel_exit_inv: "server_inv sv \<Longrightarrow> server_inv (cancelQueuedAnonymousExitEvents hs sv)"
  by (simp add: cancelQueuedAnonymousExitEvents_def server_inv_pending)

section \<open>The continuation of a lease\<close>

text \<open>The part of the queue that delivering an event leaves alone.\<close>

definition rest_part :: "server \<Rightarrow> poll list \<times> lease list \<times> nat list \<times> (nat \<times> jsval) list" where
  "rest_part sv = (sv_polls sv, sv_leases sv, sv_pollTimers sv, sv_answers sv)"

lemma rest_part_of_queue: "queue_part sv' = queue_part sv \<Longrightarrow> rest_part sv' = rest_part sv"
  by (simp add: rest_part_def queue_part_def)

lemma rest_part_set [simp]:
  "rest_part (set_event sq ev sv) = rest_part sv" "rest_part (set_lease sq t sv) = rest_part sv"
  "rest_part (sv\<lparr>sv_pending := es\<rparr>) = rest_part sv" "rest_part (settle_queue hs sv) = rest_part sv"
  by (simp_all add: rest_part_def rest_part_of_queue [unfolded rest_part_def, OF queue_part_settle])

lemma rest_part_stored:
  "store_event hs ev sv = Inr sv' \<Longrightarrow> rest_part sv' = rest_part sv"
  "recordAgentPhase hs i ph ds sv = Inr sv' \<Longrightarrow> rest_part sv' = rest_part sv"
  using rest_part_of_queue store_event_frame recordAgentPhase_frame by metis+

lemma recordGenerateDelivery_rest:
  "recordGenerateDelivery hs sq ev sv = (ev', err, sv') \<Longrightarrow> rest_part sv' = rest_part sv"
  by (auto simp: recordGenerateDelivery_def Let_def dest!: rest_part_stored split: if_splits sum.splits)

lemma scaffold_done_rest: "scaffold_done hs r sq ev sv = (ev', err, sv') \<Longrightarrow> rest_part sv' = rest_part sv"
  by (auto simp: scaffold_done_def Let_def dest!: rest_part_stored split: sum.splits)

lemma lease_deliver_rest: "lease_deliver hs ls ev sv = (ev', err, sv') \<Longrightarrow> rest_part sv' = rest_part sv"
  by (auto simp: lease_deliver_def dest!: recordGenerateDelivery_rest split: if_splits prod.splits option.splits)

lemma resolve_poll_answers:
  assumes "resolve_poll hs ls v sv = Inr sv'" "ls_poll ls \<notin> po_id ` set (sv_polls sv)"
    "\<not> ls_parked ls \<Longrightarrow> ls_poll ls \<notin> set (sv_pollTimers sv)" "answers_ok sv"
  shows "answers_ok sv'"
proof (cases "ls_parked ls")
  case True
  then have sv': "sv' = sv\<lparr>sv_pollTimers := removeAll (ls_poll ls) (sv_pollTimers sv), sv_lastPollAt := h_now hs,
                         sv_answers := sv_answers sv @ [(ls_poll ls, v)]\<rparr>" and fresh: "ls_poll ls \<notin> fst ` set (sv_answers sv)"
    using assms(1) by (auto simp: resolve_poll_def answered_def split: if_splits)
  have "\<forall>po\<in>set (sv_polls sv). po_id po \<in> set (sv_pollTimers sv)" using assms(4) by (simp add: answers_ok_def)
  then have "\<forall>po\<in>set (sv_polls sv). po_id po \<in> set (sv_pollTimers sv) - {ls_poll ls}"
    using assms(2) by (metis Diff_iff imageI singletonD)
  moreover have "set (sv_pollTimers sv) \<inter> fst ` set (sv_answers sv) = {}" using assms(4) by (simp add: answers_ok_def)
  then have "(set (sv_pollTimers sv) - {ls_poll ls}) \<inter> insert (ls_poll ls) (fst ` set (sv_answers sv)) = {}" by blast
  ultimately show ?thesis using assms(4) fresh unfolding sv' by (simp add: answers_ok_def)
next
  case False
  then have "sv' = sv \<or> sv' = sv\<lparr>sv_answers := sv_answers sv @ [(ls_poll ls, v)]\<rparr> \<and> \<not> answered (ls_poll ls) sv"
    using assms(1) by (auto simp: resolve_poll_def split: if_splits)
  then show ?thesis using assms(3,4) False by (elim disjE) (simp_all add: answers_ok_def answered_def)
qed

lemma lease_finish_inv:
  assumes "server_inv sv" "ls \<in> set (sv_leases sv)" "lease_finish hs result ls sv = Inr sv'"
  shows "server_inv sv'"
proof -
  let ?sv = "sv\<lparr>sv_leases := remove1 ls (sv_leases sv)\<rparr>"
  obtain ev err sv1 where r: "(case ls_stage ls of
              Rejected \<Rightarrow> (ls_event ls, Some TypeError, ?sv)
            | Claimed \<Rightarrow> lease_deliver hs ls (ls_event ls) ?sv
            | Scaffolding \<Rightarrow>
               (case scaffold_done hs result (ls_seq ls) (ls_event ls) ?sv of
                  (event', Some e, sv') \<Rightarrow> (event', Some e, sv')
                | (event', None, sv') \<Rightarrow> lease_deliver hs ls event' sv')) = (ev, err, sv1)"
    using prod_cases3 by blast
  have "rest_part sv1 = rest_part ?sv"
    using r by (cases "ls_stage ls")
      (auto dest!: lease_deliver_rest scaffold_done_rest split: prod.splits option.splits)
  then have rest: "sv_polls sv1 = sv_polls sv" "sv_leases sv1 = remove1 ls (sv_leases sv)"
    "sv_pollTimers sv1 = sv_pollTimers sv" "sv_answers sv1 = sv_answers sv"
    by (simp_all add: rest_part_def)
  have res: "resolve_poll hs ls (if err = None then ev else timeout_reply) sv1 = Inr sv'"
    using assms(3) r by (simp add: lease_finish_def Let_def)
  have "queue_ok sv'" using assms(1) by (intro lease_finish_ok [OF _ _ assms(2,3)]) (simp_all add: server_inv_def)
  moreover have "stages_ok sv'"
    using assms(1) res rest by (auto simp: server_inv_def stages_ok_def resolve_poll_def dest: in_set_remove1D split: if_splits)
  moreover have "answers_ok sv'"
  proof -
    have a: "answers_ok sv" using assms(1) by (simp add: server_inv_def)
    have "ls_poll ls \<notin> po_id ` set (sv_polls sv1)" "\<not> ls_parked ls \<Longrightarrow> ls_poll ls \<notin> set (sv_pollTimers sv1)"
      using a assms(2) rest by (simp_all add: answers_ok_def)
    moreover have "answers_ok (sv\<lparr>sv_leases := remove1 ls (sv_leases sv), sv_polls := sv_polls sv\<rparr>)"
      using a by (intro answers_ok_sub set_remove1_subset) (simp_all add: answers_ok_def)
    then have "answers_ok sv1" using rest by (simp add: answers_ok_def)
    ultimately show ?thesis by (rule resolve_poll_answers [OF res])
  qed
  ultimately show ?thesis by (simp add: server_inv_def)
qed

section \<open>The handlers keep the invariant\<close>

definition fresh_poll :: "nat \<Rightarrow> server \<Rightarrow> bool" where
  "fresh_poll pid sv \<longleftrightarrow> pid \<notin> set (sv_pollTimers sv) \<and> pid \<notin> fst ` set (sv_answers sv) \<and>
     pid \<notin> po_id ` set (sv_polls sv) \<and> pid \<notin> ls_poll ` set (sv_leases sv)"

lemma queue_ok_polls [simp]:
  "queue_ok (sv\<lparr>sv_polls := ps, sv_pollTimers := ts\<rparr>) = queue_ok sv" "queue_ok (sv\<lparr>sv_pollTimers := ts, sv_polls := ps\<rparr>) = queue_ok sv"
  "queue_ok (sv\<lparr>sv_answers := as\<rparr>) = queue_ok sv"
  by (simp_all add: queue_ok_def qkeys_def)

lemma park_inv:
  assumes "server_inv sv" "fresh_poll pid sv"
  shows "server_inv (sv\<lparr>sv_polls := sv_polls sv @ [\<lparr>po_id = pid, po_leaseMs = ms, po_types = ts\<rparr>],
                        sv_pollTimers := pid # sv_pollTimers sv\<rparr>)" (is "server_inv ?sv")
proof -
  have a: "answers_ok sv" using assms(1) by (simp add: server_inv_def)
  have l: "ls_poll ls \<noteq> pid" if "ls \<in> set (sv_leases sv)" for ls
    using that assms(2) by (auto simp: fresh_poll_def)
  have "answers_ok ?sv" using a assms(2) l by (simp add: answers_ok_def fresh_poll_def)
  then show ?thesis using assms(1) by (simp add: server_inv_def stages_ok_def)
qed

lemma handlePollGet_inv:
  assumes "server_inv sv" "fresh_poll pid sv" "handlePollGet hs tok ms ty pid sv = (r, sv')"
  shows "server_inv sv'"
proof (cases "tok = JStr (sv_token sv)")
  case True
  let ?sv = "sv\<lparr>sv_lastPollAt := h_now hs\<rparr>"
  have sv: "server_inv ?sv" "fresh_poll pid ?sv" using assms(1,2) by (simp_all add: fresh_poll_def)
  show ?thesis
  proof (cases "findAvailablePendingEvent (h_now hs) (parsePollTypes ty) ?sv")
    case None
    then have s: "sv' = scheduleLeaseFlush (h_now hs) (broadcastAgentPollingIfChanged
       (?sv\<lparr>sv_polls := sv_polls ?sv @ [\<lparr>po_id = pid, po_leaseMs = poll_lease_ms ms, po_types = parsePollTypes ty\<rparr>],
            sv_pollTimers := pid # sv_pollTimers ?sv\<rparr>))"
      using assms(3) True by (simp add: handlePollGet_def)
    show ?thesis unfolding s server_inv_upd by (rule park_inv [OF sv])
  next
    case (Some e)
    then have "available (sv_pending ?sv) (h_now hs) (parsePollTypes ty) e"
      by (simp add: findAvailablePendingEvent_def select_Some(1))
    then have "server_inv (lease_start hs e (poll_lease_ms ms) pid False ?sv)"
      using sv(2) by (intro lease_start_inv [OF sv(1)]) (simp_all add: available_def fresh_poll_def)
    then show ?thesis using assms(3) True Some by (simp add: handlePollGet_def)
  qed
qed (use assms in \<open>simp add: handlePollGet_def\<close>)

lemma unpark_inv:
  assumes "server_inv sv"
  shows "server_inv (unpark pid sv)"
proof -
  let ?sv = "sv\<lparr>sv_pollTimers := removeAll pid (sv_pollTimers sv), sv_polls := filter (\<lambda>po. po_id po \<noteq> pid) (sv_polls sv)\<rparr>"
  have a: "answers_ok sv" using assms by (simp add: server_inv_def)
  then have "distinct (map po_id (filter (\<lambda>po. po_id po \<noteq> pid) (sv_polls sv)))"
    unfolding answers_ok_def by (simp add: distinct_map_filter)
  then have "answers_ok (sv\<lparr>sv_leases := sv_leases sv, sv_polls := filter (\<lambda>po. po_id po \<noteq> pid) (sv_polls sv)\<rparr>)"
    by (intro answers_ok_sub [OF a]) auto
  then have "answers_ok ?sv" unfolding answers_ok_def by simp blast
  then have "server_inv ?sv" using assms by (simp add: server_inv_def stages_ok_def)
  then show ?thesis by (simp add: unpark_def)
qed

lemma unpark_sel [simp]:
  "sv_answers (unpark pid sv) = sv_answers sv" "sv_pollTimers (unpark pid sv) = removeAll pid (sv_pollTimers sv)"
  by (simp_all add: unpark_def broadcastAgentPollingIfChanged_def broadcast_def Let_def)

lemma poll_timer_inv:
  assumes "server_inv sv" "pid \<in> set (sv_pollTimers sv)"
  shows "server_inv (poll_timer_fires pid sv)"
proof -
  have "pid \<notin> fst ` set (sv_answers sv)" using assms by (auto simp: server_inv_def answers_ok_def)
  then have "answers_ok (unpark pid sv) \<Longrightarrow> answers_ok (poll_timer_fires pid sv)"
    by (simp add: poll_timer_fires_def answers_ok_def Let_def)
  then show ?thesis using unpark_inv [OF assms(1), of pid]
    by (simp add: server_inv_def stages_ok_def poll_timer_fires_def Let_def)
qed

lemma small_steps_inv:
  "server_inv sv \<Longrightarrow> server_inv (poll_closed pid sv)" "server_inv sv \<Longrightarrow> server_inv (client_closed c sv)"
  "server_inv sv \<Longrightarrow> server_inv (exit_timer_fires hs sv)" "server_inv sv \<Longrightarrow> server_inv (lease_timer_fires hs sv)"
  by (simp_all add: poll_closed_def unpark_inv client_closed_def exit_timer_fires_def lease_timer_fires_def
      enqueueEvent_inv flushPendingPolls_inv Let_def)

lemma events_post_tail_inv:
  assumes "server_inv sv" "events_post_tail hs msg missed sv = Inr (r, sv')"
  shows "server_inv sv'"
  using assms unfolding events_post_tail_def Let_def
  by (auto simp: server_inv_frames retire_inv intro!: enqueueEvent_inv split: sum.splits if_splits)

lemma events_post_known_inv:
  assumes "server_inv sv" "events_post_known hs msg sv = Inr (r, sv')"
  shows "server_inv sv'"
proof -
  obtain m sv1 where d: "detectMissedGenerationCompletion (host.truncate hs) msg sv = (m, sv1)" by fastforce
  then have "server_inv sv1" using assms(1) server_inv_frames(4) by blast
  then show ?thesis using assms(2) d
    by (auto simp: events_post_known_def dest: server_inv_frames(1) events_post_tail_inv split: if_splits sum.splits)
qed

lemma handleEventsPost_inv:
  "server_inv sv \<Longrightarrow> handleEventsPost hs body sv = Inr (r, sv') \<Longrightarrow> server_inv sv'"
  by (auto simp: handleEventsPost_def dest: events_post_known_inv server_inv_frames(2)
      split: option.splits if_splits sum.splits bool.splits)

lemma handleEventsGet_inv:
  "server_inv sv \<Longrightarrow> handleEventsGet hs ls ns b c tok sv = Inr (r, sv') \<Longrightarrow> server_inv sv'"
  by (auto simp: handleEventsGet_def activeSessionSummaries_def Let_def intro!: cancel_exit_inv split: if_splits sum.splits)

lemma manual_parts_inv [simp]:
  "server_inv (tombstoneTimedOutApplyId i d sv) = server_inv sv" "server_inv (remove_deferred i sv) = server_inv sv"
  "server_inv (snd (resolveDeferred i sv)) = server_inv sv"
  by (simp_all add: tombstoneTimedOutApplyId_def remove_deferred_def resolveDeferred_def Let_def)

lemma acknowledge_snd_inv: "server_inv sv \<Longrightarrow> server_inv (snd (acknowledgePendingEvent hs i t sv))"
  using acknowledge_inv by (metis prod.collapse)

lemma apply_steps_inv:
  "server_inv sv \<Longrightarrow> server_inv (pushApplyEventAndWait hs cwd i p dl b u c r sv)"
  "server_inv sv \<Longrightarrow> server_inv (apply_timer_fires hs i sv)"
  by (auto simp: pushApplyEventAndWait_def apply_timer_fires_def Let_def acknowledge_snd_inv
      intro!: enqueueEvent_inv split: option.splits)

lemma fold_cancel_inv: "server_inv (fold (cancel_deferred fails cwd) ds sv) = server_inv sv"
  by (induction ds arbitrary: sv) (simp_all add: cancel_deferred_def Let_def)

lemma cancelPendingEvents_inv: "server_inv sv \<Longrightarrow> server_inv (cancelPendingEvents hs fails cwd u sv)"
  by (auto simp: cancelPendingEvents_def Let_def fold_cancel_inv server_inv_pending intro!: flushPendingPolls_inv)

lemma deliver_reply_inv:
  "server_inv sv \<Longrightarrow> deliver_reply hs cwd rm cc msg a sk sv = (r, sv') \<Longrightarrow> server_inv sv'"
  by (auto simp: deliver_reply_def journal_reply_def Let_def server_inv_frames(1)
      intro!: flushPendingPolls_inv split: if_splits sum.splits)

lemma existing_session_inv: "server_inv sv \<Longrightarrow> existing_session hs i sv = (so, sv') \<Longrightarrow> server_inv sv'"
  by (auto simp: existing_session_def dest: server_inv_frames(3) split: if_splits prod.splits)

lemma ordinary_reply_inv:
  assumes "server_inv sv" "ordinary_reply hs cwd rm cc msg t sv = (r, sv')"
  shows "server_inv sv'"
proof -
  obtain a sv1 where a: "acknowledgePendingEvent hs (dot msg ''id'') t sv = (a, sv1)" by fastforce
  obtain so sv2 where so: "existing_session hs (dot msg ''id'') sv1 = (so, sv2)" by fastforce
  have i1: "server_inv sv1" by (rule acknowledge_inv [OF assms(1) a])
  have i2: "server_inv sv2" by (rule existing_session_inv [OF i1 so])
  show ?thesis using assms(2) a so deliver_reply_inv [OF i1] deliver_reply_inv [OF i2] i2
    by (cases a; cases so) (auto simp: ordinary_reply_def)
qed

lemma apply_reply_inv:
  assumes "server_inv sv" "apply_reply hs cwd msg d sv = (r, sv')"
  shows "server_inv sv'"
proof (cases "validateManualApplyResultMessage msg d")
  case (Inl body)
  then obtain t ds where "sv' = recordManualEditActivity hs t ds sv" using assms(2) by (auto simp: apply_reply_def Let_def)
  then show ?thesis using assms(1) by simp
next
  case (Inr res)
  then obtain t ds i where "sv' = flushPendingPolls hs (snd (acknowledgePendingEvent hs (dot msg ''id'') JUndef
      (snd (resolveDeferred i (recordManualEditActivity hs t ds sv)))))"
    using assms(2) by (auto simp: apply_reply_def Let_def)
  then show ?thesis using assms(1) by (simp add: flushPendingPolls_inv acknowledge_snd_inv)
qed

lemma rollbackTimedOut_inv: "rollbackTimedOutReply fails cwd msg files sv = (r, sv') \<Longrightarrow> server_inv sv' = server_inv sv"
  unfolding rollbackTimedOutReply_def
  by (cases "dot msg ''id''") (auto split: option.splits prod.splits)

lemma stale_apply_reply_inv:
  "server_inv sv \<Longrightarrow> stale_apply_reply hs fails cwd msg files sv = (r, sv') \<Longrightarrow> server_inv sv'"
  by (auto simp: stale_apply_reply_def Let_def rollbackTimedOut_inv split: prod.splits)

lemma retry_reply_inv: "server_inv sv \<Longrightarrow> retry_reply hs msg t sv = (r, sv') \<Longrightarrow> server_inv sv'"
  by (auto simp: retry_reply_def dest: release_inv intro!: flushPendingPolls_inv split: prod.splits option.splits)

lemmas replies_inv = apply_reply_inv stale_apply_reply_inv retry_reply_inv ordinary_reply_inv

lemma handlePollPost_inv:
  "server_inv sv \<Longrightarrow> handlePollPost hs fails cwd rm cc body sv = Inr (r, sv') \<Longrightarrow> server_inv sv'"
  by (auto simp: handlePollPost_def Let_def dest: replies_inv
      split: option.splits if_splits sum.splits)

section \<open>The server as a transition system\<close>

text \<open>
  One step is one turn of the event loop: a request, a timer that fires, a client that goes away, or
  the continuation of a lease. The clock, the files and the reply of the preflight are whatever
  they are at that moment. A request whose handler throws ends the process, so it has no step.
\<close>

inductive server_step :: "server \<Rightarrow> server \<Rightarrow> bool" where
  events_post: "handleEventsPost hs body sv = Inr (r, sv') \<Longrightarrow> server_step sv sv'"
| events_get: "handleEventsGet hs legacyNames names ctx c tok sv = Inr (r, sv') \<Longrightarrow> server_step sv sv'"
| client_closes: "server_step sv (client_closed c sv)"
| exit_timer: "sv_exitTimer sv \<Longrightarrow> server_step sv (exit_timer_fires hs sv)"
| poll_get: "fresh_poll pid sv \<Longrightarrow> handlePollGet hs tok ms ty pid sv = (r, sv') \<Longrightarrow> server_step sv sv'"
| poll_post: "handlePollPost hs fails cwd rm cc body sv = Inr (r, sv') \<Longrightarrow> server_step sv sv'"
| poll_timer: "pid \<in> set (sv_pollTimers sv) \<Longrightarrow> server_step sv (poll_timer_fires pid sv)"
| poll_closes: "server_step sv (poll_closed pid sv)"
| lease_timer: "sv_leaseTimer sv \<noteq> None \<Longrightarrow> server_step sv (lease_timer_fires hs sv)"
| lease_done: "ls \<in> set (sv_leases sv) \<Longrightarrow> lease_finish hs preflight ls sv = Inr sv' \<Longrightarrow> server_step sv sv'"
| apply_push: "server_step sv (pushApplyEventAndWait hs cwd i path deadline batch url chunk repair sv)"
| apply_timer: "server_step sv (apply_timer_fires hs i sv)"
| apply_cancel: "server_step sv (cancelPendingEvents hs fails cwd url sv)"

inductive_cases server_stepE: "server_step sv sv'"

text \<open>The state at start-up, before the events of the sessions on disk are queued again.\<close>

definition initial_server :: "string \<Rightarrow> store \<Rightarrow> (string \<Rightarrow> string option) \<Rightarrow> server" where
  "initial_server token st fs = \<lparr>sv_token = token, sv_clients = [], sv_pending = [], sv_polls = [], sv_leases = [],
     sv_nextSeq = 1, sv_lastPolling = None, sv_exitTimer = False, sv_leaseTimer = None, sv_lastPollAt = 0,
     sv_pollTimers = [], sv_store = st, sv_sent = [], sv_answers = [], sv_activity = JNull, sv_nextManualSeq = 1,
     sv_deferreds = [], sv_timedOut = [], sv_files = fs\<rparr>"

inductive reachable :: "server \<Rightarrow> bool" where
  start: "restorePendingEventsFromStore hs legacyNames names (initial_server token st fs) = Inr sv \<Longrightarrow> reachable sv"
| step: "reachable sv \<Longrightarrow> server_step sv sv' \<Longrightarrow> reachable sv'"

lemma initial_inv: "server_inv (initial_server token st fs)"
  by (simp add: server_inv_def initial_server_def queue_ok_def stages_ok_def answers_ok_def qkeys_def keys_ok_def)

lemma fold_enqueue_inv:
  "server_inv sv \<Longrightarrow>
   server_inv (fold (\<lambda>s v. if truthy (sn_pendingEvent s) then enqueueEvent hs (sn_pendingEvent s) v else v) ss sv)"
  by (induction ss arbitrary: sv) (simp_all add: enqueueEvent_inv)

lemma restore_inv:
  "server_inv sv \<Longrightarrow> restorePendingEventsFromStore hs l n sv = Inr sv' \<Longrightarrow> server_inv sv'"
  by (auto simp: restorePendingEventsFromStore_def fold_enqueue_inv split: sum.splits)

lemma server_step_inv: "server_step sv sv' \<Longrightarrow> server_inv sv \<Longrightarrow> server_inv sv'"
  by (erule server_stepE)
     (blast intro: handleEventsPost_inv handleEventsGet_inv handlePollGet_inv handlePollPost_inv poll_timer_inv
       small_steps_inv lease_finish_inv apply_steps_inv cancelPendingEvents_inv)+

lemma reachable_inv: "reachable sv \<Longrightarrow> server_inv sv"
  by (induction rule: reachable.induct) (use initial_inv restore_inv server_step_inv in blast)+

end
