(* ===== verification/Server_Properties.thy ===== *)
theory Server_Properties
  imports Server_Invariants
begin

text \<open>
  What the live server guarantees to the browser and to the agent: the soundness of the queue in
  every reachable state, the order of delivery, leases, the gate for unknown sessions, and the
  requests that end the process.
\<close>

section \<open>The queue\<close>

text \<open>
  C5: in every state the server can reach, whatever the requests, timers and continuations were and
  in whatever order they came, the queue holds its entries in the order of their numbers, no two of
  them are the same event of the same session, and no poll is answered twice.
\<close>

theorem reachable_queue_sound:
  assumes "reachable sv"
  shows "sorted_wrt (\<lambda>a b. pe_seq a < pe_seq b \<and> \<not> (truthy (dot (pe_event b) ''id'') \<and> duplicate_of (pe_event b) a)) (sv_pending sv)
    \<and> distinct (map fst (sv_answers sv)) \<and> set (map po_id (sv_polls sv)) \<inter> set (map fst (sv_answers sv)) = {}"
proof -
  have inv: "queue_ok sv" "answers_ok sv" using reachable_inv [OF assms] by (simp_all add: server_inv_def)
  have "sorted_wrt (\<lambda>a b. pe_seq a < pe_seq b \<and> \<not> key_clash (event_key (pe_event a)) (event_key (pe_event b))) (sv_pending sv)"
    using inv(1) by (simp add: queue_ok_def keys_ok_def qkeys_def sorted_wrt_map)
  moreover have "po_id ` set (sv_polls sv) \<inter> fst ` set (sv_answers sv) = {}"
    using inv(2) unfolding answers_ok_def by blast
  ultimately show ?thesis using inv(2) by (simp add: duplicate_of_key answers_ok_def)
qed

definition demo_server :: server where
  "demo_server = initial_server ''t0k3n'' empty_store (\<lambda>_. None)"

lemma demo_server_reachable: "reachable demo_server"
  by (rule reachable.start [of demo_host "[]" "[]" "''t0k3n''" empty_store "\<lambda>_. None"])
     (simp add: demo_server_def restorePendingEventsFromStore_def listActiveSessions_def journal_ids_def str_sort_def
        initial_server_def)

lemma reachable_queue_sound_witness:
  "let sv = exit_timer_fires demo_host (client_closed 0 demo_server) in
   length (sv_pending sv) = 1 \<and> sorted_wrt (\<lambda>a b. pe_seq a < pe_seq b \<and>
     \<not> (truthy (dot (pe_event b) ''id'') \<and> duplicate_of (pe_event b) a)) (sv_pending sv)
    \<and> distinct (map fst (sv_answers sv)) \<and> set (map po_id (sv_polls sv)) \<inter> set (map fst (sv_answers sv)) = {}"
proof -
  have "reachable (client_closed 0 demo_server)" by (rule reachable.step [OF demo_server_reachable client_closes])
  moreover have "sv_exitTimer (client_closed 0 demo_server)" by code_simp
  ultimately have "reachable (exit_timer_fires demo_host (client_closed 0 demo_server))"
    by (blast intro: reachable.step exit_timer)
  moreover have "length (sv_pending (exit_timer_fires demo_host (client_closed 0 demo_server))) = 1" by code_simp
  ultimately show ?thesis using reachable_queue_sound by (simp add: Let_def)
qed

section \<open>Delivery\<close>

lemma flush_loop_served:
  assumes "length (sv_polls sv) \<le> n"
  shows "first_served (h_now hs) (sv_pending (flush_loop n hs sv)) (sv_polls (flush_loop n hs sv)) = None"
  using assms
proof (induction n hs sv rule: flush_loop.induct)
  case (2 n hs sv)
  show ?case
  proof (cases "first_served (h_now hs) (sv_pending sv) (sv_polls sv)")
    case (Some r)
    obtain po e where r: "r = (po, e)" by fastforce
    then have "po \<in> set (sv_polls sv)" using first_served_Some Some by fast
    then have "length (remove1 po (sv_polls sv)) \<le> n" using 2(2) by (simp add: length_remove1)
    then show ?thesis using 2(1) Some r by (simp add: lease_start_parts)
  qed simp
qed simp

lemma flushPendingPolls_parts [simp]:
  "sv_pending (flushPendingPolls hs sv) = sv_pending (flush_loop (length (sv_polls sv)) hs sv)"
  "sv_polls (flushPendingPolls hs sv) = sv_polls (flush_loop (length (sv_polls sv)) hs sv)"
  using queue_part_eqD [OF queue_part_schedule] queue_part_eqD [OF queue_part_broadcast(2)]
  by (simp_all add: flushPendingPolls_def Let_def)

text \<open>
  C6: no poll is left waiting next to work it could do. After the queue is flushed, no parked poll
  accepts an event that is not leased.
\<close>

theorem flush_serves_all:
  assumes "po \<in> set (sv_polls (flushPendingPolls hs sv))" "e \<in> set (sv_pending (flushPendingPolls hs sv))"
  shows "isLeased (h_now hs) e \<or> \<not> type_allowed (po_types po) e"
proof -
  have "first_served (h_now hs) (sv_pending (flushPendingPolls hs sv)) (sv_polls (flushPendingPolls hs sv)) = None"
    using flush_loop_served [of sv "length (sv_polls sv)" hs] by simp
  then show ?thesis using assms by (auto simp: first_served_None available_def)
qed

definition demo_poll :: "nat \<Rightarrow> string list option \<Rightarrow> poll" where
  "demo_poll i ts = \<lparr>po_id = i, po_leaseMs = Some 30000, po_types = ts\<rparr>"

definition demo_waiting :: server where
  "demo_waiting = demo_server\<lparr>sv_polls := [demo_poll 1 None, demo_poll 2 (Some [''discard''])],
     sv_pending := [\<lparr>pe_event = demo_discard, pe_leaseUntil = 0, pe_seq = 1\<rparr>], sv_nextSeq := 2\<rparr>"

lemma flush_serves_all_witness:
  "sv_polls (flushPendingPolls demo_host demo_waiting) = [demo_poll 2 (Some [''discard''])] \<and>
   isLeased (h_now demo_host) (hd (sv_pending (flushPendingPolls demo_host demo_waiting)))"
proof -
  have "sv_polls (flushPendingPolls demo_host demo_waiting) = [demo_poll 2 (Some [''discard''])]"
    "sv_pending (flushPendingPolls demo_host demo_waiting) \<noteq> []"
    "type_allowed (Some [''discard'']) (hd (sv_pending (flushPendingPolls demo_host demo_waiting)))" by code_simp+
  then show ?thesis
    using flush_serves_all [of "demo_poll 2 (Some [''discard''])" demo_host demo_waiting
      "hd (sv_pending (flushPendingPolls demo_host demo_waiting))"]
    by (simp add: demo_poll_def)
qed

text \<open>
  C7: what a poll is handed, it alone holds. A poll that is served claims the most urgent and, among
  those, oldest event it accepts; until the lease ends no other poll is served that event.
\<close>

theorem served_event_is_claimed:
  assumes "findAvailablePendingEvent now types sv = Some e" "h_now hs = now" "0 \<le> now" "0 < ms"
  shows "(\<forall>e'. available (sv_pending sv) now types e' \<longrightarrow>
            (eventPriority (pe_event e), pe_seq e) \<le> (eventPriority (pe_event e'), pe_seq e')) \<and>
         (\<forall>now' types' e'. now' < now + ms \<longrightarrow>
            findAvailablePendingEvent now' types' (lease_start hs e (Some ms) pid parked sv) = Some e' \<longrightarrow>
            pe_seq e' \<noteq> pe_seq e)"
proof -
  have sel: "selectAvailablePendingEvent (sv_pending sv) now types = Some e"
    using assms(1) by (simp add: findAvailablePendingEvent_def)
  have "pe_seq e' \<noteq> pe_seq e"
    if n: "now' < now + ms"
      and f: "findAvailablePendingEvent now' types' (lease_start hs e (Some ms) pid parked sv) = Some e'"
    for now' types' e'
  proof
    assume eq: "pe_seq e' = pe_seq e"
    have "available (sv_pending (set_lease (pe_seq e) (now + ms) sv)) now' types' e'"
      using f assms(2) select_Some(1) by (simp add: findAvailablePendingEvent_def lease_start_parts(1) lease_until_def)
    then have "pe_leaseUntil e' = now + ms" "\<not> isLeased now' e'"
      using eq by (auto simp: available_def set_lease_def split: if_splits)
    then show False using n assms(3,4) by (simp add: isLeased_def)
  qed
  then show ?thesis using select_Some(2) [OF sel] by blast
qed

lemma served_event_is_claimed_witness:
  "findAvailablePendingEvent 1700000029999 None
     (lease_start demo_host (hd (sv_pending demo_waiting)) (Some 30000) 7 True demo_waiting)
   \<noteq> Some (hd (sv_pending demo_waiting))"
proof -
  have e: "findAvailablePendingEvent 1700000000000 None demo_waiting = Some (hd (sv_pending demo_waiting))" by code_simp
  have "h_now demo_host = 1700000000000" by (simp add: demo_host_def)
  note c = conjunct2 [OF served_event_is_claimed [OF e this, of 30000 7 True], rule_format, of 1700000029999]
  have "pe_seq e' \<noteq> pe_seq (hd (sv_pending demo_waiting))"
    if "findAvailablePendingEvent 1700000029999 None
      (lease_start demo_host (hd (sv_pending demo_waiting)) (Some 30000) 7 True demo_waiting) = Some e'" for e'
    using c [OF _ _ _ that] by simp
  then show ?thesis by blast
qed

text \<open>
  an event whose agent went silent is offered again. While some event is leased the timer is set,
  not before now, and once it has fired the lease that ends first is over.
\<close>

theorem lease_timer_covers_leases:
  assumes "0 \<le> now" "e \<in> set (sv_pending sv)" "isLeased now e"
  shows "\<exists>t. sv_leaseTimer (scheduleLeaseFlush now sv) = Some t \<and> now \<le> t \<and>
    (\<exists>e'\<in>set (sv_pending sv). isLeased now e' \<and> pe_leaseUntil e' \<le> pe_leaseUntil e \<and> (\<forall>now'\<ge>t. \<not> isLeased now' e'))"
proof -
  let ?ts = "filter (\<lambda>t. t > now) (map pe_leaseUntil (sv_pending sv))"
  have e: "pe_leaseUntil e \<in> set (sort ?ts)" using assms by (auto simp: isLeased_def)
  then obtain t ts where s: "sort ?ts = t # ts" by (cases "sort ?ts") auto
  have "t \<in> set ?ts" using arg_cong [OF s, of set] by auto
  then obtain e' where e': "e' \<in> set (sv_pending sv)" "pe_leaseUntil e' = t" "now < t" by auto
  have "t \<le> pe_leaseUntil e" using e sorted_sort [of ?ts] unfolding s by auto
  moreover have "sv_leaseTimer (scheduleLeaseFlush now sv) = Some (t + 2)"
    using e' assms(1) by (simp add: scheduleLeaseFlush_def s POLL_LEASE_EXPIRY_TIMER_GRACE_MS_def)
  ultimately show ?thesis using e' assms(1) by (intro exI [of _ "t + 2"]) (auto simp: isLeased_def intro!: bexI [of _ e'])
qed

lemma lease_timer_covers_leases_witness:
  "let sv = flushPendingPolls demo_host demo_waiting in
   \<exists>t. sv_leaseTimer (scheduleLeaseFlush 1700000000000 sv) = Some t \<and> 1700000000000 \<le> t \<and>
     (\<exists>e'\<in>set (sv_pending sv). \<not> isLeased t e')"
proof -
  let ?sv = "flushPendingPolls demo_host demo_waiting"
  have "hd (sv_pending ?sv) \<in> set (sv_pending ?sv)" "isLeased 1700000000000 (hd (sv_pending ?sv))" by code_simp+
  from lease_timer_covers_leases [OF _ this] show ?thesis unfolding Let_def by auto
qed

section \<open>The agent's replies\<close>

lemma flush_loop_events: "map pe_event (sv_pending (flush_loop n hs sv)) = map pe_event (sv_pending sv)"
  by (induction n hs sv rule: flush_loop.induct)
     (auto simp: lease_start_parts set_lease_def split: option.split prod.split)

lemma flush_events: "map pe_event (sv_pending (flushPendingPolls hs sv)) = map pe_event (sv_pending sv)"
  by (simp add: flush_loop_events)

lemma enqueue_events: "pe_event ` set (sv_pending (enqueueEvent hs ev sv)) \<subseteq> insert ev (pe_event ` set (sv_pending sv))"
proof -
  have "pe_event ` set (sv_pending (flushPendingPolls hs v)) = pe_event ` set (sv_pending v)" for v
    using arg_cong [OF flush_events, of set] by simp
  then show ?thesis by (auto simp: enqueueEvent_def simp del: flushPendingPolls_parts)
qed

lemma strict_eqD: "strict_eq a b \<Longrightarrow> a = b"
  by (cases "(a, b)" rule: strict_eq.cases) auto

lemma strict_eq_trans': "strict_eq a c \<Longrightarrow> strict_eq b c \<Longrightarrow> strict_eq a b"
  by (cases a; cases b; cases c) auto

lemma mem_remove_first: "x \<in> set xs \<Longrightarrow> \<not> P x \<Longrightarrow> x \<in> set (remove_first P xs)"
  by (induction xs) auto

lemma sorted_wrt_related: "sorted_wrt R xs \<Longrightarrow> a \<in> set xs \<Longrightarrow> b \<in> set xs \<Longrightarrow> a \<noteq> b \<Longrightarrow> R a b \<or> R b a"
  by (induction xs) auto

lemma queue_unique:
  assumes "queue_ok sv" "a \<in> set (sv_pending sv)" "b \<in> set (sv_pending sv)" "dot (pe_event a) ''type'' = JStr t"
    "dot (pe_event b) ''type'' = JStr t" "t \<noteq> ''variant_mount_failed''" "truthy (dot (pe_event a) ''id'')"
    "strict_eq (dot (pe_event a) ''id'') (dot (pe_event b) ''id'')"
  shows "a = b"
proof (rule ccontr)
  assume ne: "a \<noteq> b"
  let ?R = "\<lambda>x y. \<not> key_clash (event_key (pe_event x)) (event_key (pe_event y))"
  have "sorted_wrt (\<lambda>x y. pe_seq x < pe_seq y \<and> ?R x y) (sv_pending sv)"
    using assms(1) by (simp add: queue_ok_def keys_ok_def qkeys_def sorted_wrt_map)
  then have "?R a b \<or> ?R b a" using sorted_wrt_related [OF _ assms(2,3) ne] by blast
  moreover have "dot (pe_event b) ''id'' = dot (pe_event a) ''id''" using assms(8) strict_eqD by metis
  ultimately show False using assms(4-8) by (elim disjE) (simp_all add: key_clash_def event_key_def)
qed

lemma find_SomeD: "find P xs = Some x \<Longrightarrow> x \<in> set xs \<and> P x"
  by (induction xs) (auto split: if_splits)

lemma error_reply_type:
  assumes "dot msg ''type'' = JStr ''error''"
  shows "truthy (inferSourceEventType now msg es)"
    and "inferSourceEventType now msg es \<noteq> JStr ''generate'' \<Longrightarrow>
      \<exists>l\<in>set es. isLeased now l \<and> strict_eq (dot (pe_event l) ''id'') (dot msg ''id'') \<and>
        inferSourceEventType now msg es = dot (pe_event l) ''type''"
  using assms
  by (auto simp: inferSourceEventType_def js_or_def Let_def split: option.splits if_splits dest!: find_SomeD)

lemma deliver_reply_events:
  "deliver_reply hs cwd rm cc msg a sk sv = (r, sv') \<Longrightarrow> map pe_event (sv_pending sv') = map pe_event (sv_pending sv)"
proof -
  have j: "sv_pending (journal_reply hs msg meta a sv) = sv_pending sv" for meta
    by (auto simp: journal_reply_def Let_def dest!: store_event_frame queue_part_eqD(1) split: sum.splits)
  show "deliver_reply hs cwd rm cc msg a sk sv = (r, sv') \<Longrightarrow> map pe_event (sv_pending sv') = map pe_event (sv_pending sv)"
    by (auto simp: deliver_reply_def Let_def j broadcast_def flush_loop_events split: if_splits)
qed

lemma settle_pending [simp]: "sv_pending (settle_queue hs sv) = sv_pending sv"
  by (rule queue_part_eqD(1)) simp

text \<open>
  an agent that reports an error cannot swallow a decision of the user. An error reply that does
  not name the type of its event never takes an Accept, a Discard or any other event out of the
  queue that no agent holds, the generation it may have been about apart.
\<close>

theorem error_reply_keeps_unclaimed:
  assumes "reachable sv" "dot msg ''type'' = JStr ''error''" "e \<in> set (sv_pending sv)" "\<not> isLeased now e"
    and "dot (pe_event e) ''type'' = JStr t" "t \<noteq> ''generate''" "t \<noteq> ''variant_mount_failed''"
    and "ordinary_reply hs cwd rm cc msg (inferSourceEventType now msg (sv_pending sv)) sv = (r, sv')"
  shows "pe_event e \<in> pe_event ` set (sv_pending sv')"
proof -
  let ?i = "dot msg ''id''" and ?t = "inferSourceEventType now msg (sv_pending sv)"
  have q: "queue_ok sv" using reachable_inv [OF assms(1)] by (simp add: server_inv_def)
  have no: "\<not> matches_event ?i ?t e" if i: "truthy ?i"
  proof
    assume m: "matches_event ?i ?t e"
    then have e: "strict_eq (dot (pe_event e) ''id'') ?i" "?t = JStr t"
      using error_reply_type(1) [OF assms(2)] strict_eqD assms(5) by (auto simp: matches_event_def)
    then obtain l where l: "l \<in> set (sv_pending sv)" "isLeased now l" "strict_eq (dot (pe_event l) ''id'') ?i"
      "dot (pe_event l) ''type'' = JStr t"
      using error_reply_type(2) [OF assms(2), of now "sv_pending sv"] assms(6) by auto
    have "e = l"
      by (rule queue_unique [OF q assms(3) l(1) assms(5) l(4) assms(7)])
         (use i strict_eqD [OF e(1)] strict_eq_trans' [OF e(1) l(3)] in simp_all)
    then show False using l(2) assms(4) by simp
  qed
  obtain a sv1 where a: "acknowledgePendingEvent hs ?i ?t sv = (a, sv1)" by fastforce
  have e1: "e \<in> set (sv_pending sv1)"
    using a assms(3) no mem_remove_first [OF assms(3)]
    by (auto simp: acknowledgePendingEvent_def split: if_splits option.splits)
  obtain so sv2 where so: "existing_session hs ?i sv1 = (so, sv2)" by fastforce
  then have "sv_pending sv2 = sv_pending sv1"
    by (auto simp: existing_session_def dest: queue_part_eqD(1) [OF read_snapshot_frame] split: if_splits prod.splits)
  then have "pe_event ` set (sv_pending sv') = pe_event ` set (sv_pending sv1)"
    using assms(8) a so deliver_reply_events [THEN arg_cong [of _ _ set]]
    by (cases a; cases so) (fastforce simp: ordinary_reply_def recordManualEditActivity_def broadcast_def Let_def)+
  then show ?thesis using e1 by simp
qed

definition post :: "jsval \<Rightarrow> server \<Rightarrow> server" where
  "post msg sv = snd (projr (handleEventsPost demo_host (Some msg) sv))"

lemma post_reachable: "reachable sv \<Longrightarrow> \<not> isl (handleEventsPost demo_host (Some msg) sv) \<Longrightarrow> reachable (post msg sv)"
  unfolding post_def
  by (cases "handleEventsPost demo_host (Some msg) sv") (auto dest: events_post reachable.step)

definition demo_steer_msg :: jsval where
  "demo_steer_msg = JObj [(''token'', JStr ''t0k3n''), (''type'', JStr ''steer''), (''id'', JStr ''abcd1234''),
     (''message'', JStr ''bolder''), (''pageUrl'', JStr ''/'')]"

definition demo_error_reply :: jsval where
  "demo_error_reply = JObj [(''type'', JStr ''error''), (''id'', JStr ''abcd1234'')]"

definition demo_steered :: server where "demo_steered = post demo_steer_msg demo_server"

lemma demo_steered_reachable: "reachable demo_steered"
  unfolding demo_steered_def by (rule post_reachable [OF demo_server_reachable]) code_simp

lemma error_reply_keeps_unclaimed_witness:
  "let e = hd (sv_pending demo_steered);
       res = ordinary_reply demo_host ''/p'' (\<lambda>_. None) None demo_error_reply
               (inferSourceEventType 1700000000000 demo_error_reply (sv_pending demo_steered)) demo_steered
   in pe_event e \<in> pe_event ` set (sv_pending (snd res))"
proof -
  have q: "sv_pending demo_steered \<noteq> []" "\<not> isLeased 1700000000000 (hd (sv_pending demo_steered))"
    "dot (pe_event (hd (sv_pending demo_steered))) ''type'' = JStr ''steer''" by code_simp+
  show ?thesis unfolding Let_def
    by (rule error_reply_keeps_unclaimed [OF demo_steered_reachable _ _ q(2,3) _ _ prod.collapse [symmetric]])
       (use q(1) in \<open>simp_all add: demo_error_reply_def\<close>)
qed

section \<open>Events of the browser\<close>

lemma generate_of_event: "generate_of i e \<longleftrightarrow> strict_eq (dot (pe_event e) ''id'') i \<and> dot (pe_event e) ''type'' = JStr ''generate''"
  by (simp add: generate_of_def)

lemma retire_none: "truthy i \<Longrightarrow> \<forall>e\<in>set (sv_pending (retirePendingGeneration hs i sv)). \<not> generate_of i e"
  by (auto simp: retirePendingGeneration_def list_ex_iff)

definition journals :: "store \<Rightarrow> string set" where
  "journals st = {i. sf_primary (st_files st i) \<noteq> None \<or> sf_legacy (st_files st i) \<noteq> None}"

lemma readState_files: "st_files (snd (readState h b i st)) = st_files st"
  by (simp add: readState_def Let_def split: option.split)

lemma append_known_journals: "journals (snd (append_known hs i ev st)) \<subseteq> insert i (journals st)"
proof -
  obtain d st2 where r: "readState (host.truncate hs) True i (adopt_legacy (host.truncate hs) i st) = (d, st2)" by fastforce
  have "st_files st2 = st_files (adopt_legacy (host.truncate hs) i st)"
    using readState_files [of "host.truncate hs" True i "adopt_legacy (host.truncate hs) i st"] r by simp
  then have "st_files st2 x = st_files st x" if "x \<noteq> i" for x using that by (simp add: adopt_legacy_def Let_def)
  then have "st_files (snd (append_known hs i ev st)) x = st_files st x" if "x \<noteq> i" for x
    using that by (simp add: append_known_def r Let_def persist_def)
  then show ?thesis by (auto simp: journals_def)
qed

lemma store_event_journals:
  assumes "store_event hs ev sv = Inr sv'" "dot ev ''id'' = i" "truthy i"
  shows "journals (sv_store sv') \<subseteq> journals (sv_store sv) \<union> {s. s \<noteq> [] \<and> i = JStr s}"
proof -
  obtain n s r st where n: "normalizeEvent ev (st_sessionId (sv_store sv)) = Inr n" "safeSessionId (dot n ''id'') = Inr s"
    "append_known hs s n (sv_store sv) = (r, st)" "sv' = sv\<lparr>sv_store := st\<rparr>"
    using assms(1) by (auto simp: store_event_def appendEvent_def split: sum.splits)
  have "dot n ''id'' = i" using n(1) assms(2,3) by (auto simp: normalizeEvent_def js_or_def Let_def map_of_obj_set split: if_splits)
  then have "i = JStr s" using n(2) by (auto simp: safeSessionId_def split: jsval.splits if_splits)
  then show ?thesis using append_known_journals [of hs s n "sv_store sv"] n(3,4) assms(3) by auto
qed

lemma sv_store_ops [simp]:
  "sv_store (broadcast m sv) = sv_store sv" "sv_store (broadcastAgentPollingIfChanged sv) = sv_store sv"
  "sv_store (scheduleLeaseFlush now sv) = sv_store sv" "sv_store (settle_queue hs sv) = sv_store sv"
  "sv_store (set_lease sq t sv) = sv_store sv" "sv_store (retirePendingGeneration hs i sv) = sv_store sv"
  by (simp_all add: broadcast_def broadcastAgentPollingIfChanged_def scheduleLeaseFlush_def settle_queue_def set_lease_def
      retirePendingGeneration_def Let_def split: list.split)

text \<open>What \<^verbatim>\<open>POST /events\<close> does behind the journal, in three stages.\<close>

lemma events_post_tail_parts:
  assumes "events_post_tail hs msg missed sv = Inr (r, sv')"
  obtains sv2 sv4 where
    "recordGenerationCheckpoint hs msg (if has_str [''accept'', ''discard''] (dot msg ''type'')
       then retirePendingGeneration hs (dot msg ''id'') sv else sv) = Inr sv2"
    "sv_pending sv4 = sv_pending sv2" "journals (sv_store sv4) \<subseteq> journals (sv_store sv2) \<union> {s. s \<noteq> [] \<and> dot msg ''id'' = JStr s}"
    "sv' = enqueueEvent hs msg sv4 \<or> sv' = sv4"
proof -
  let ?sv1 = "if has_str [''accept'', ''discard''] (dot msg ''type'') then retirePendingGeneration hs (dot msg ''id'') sv else sv"
  let ?ev = "JObj [(''type'', JStr ''discarded''), (''id'', dot msg ''id''), (''orphaned'', JBool True)]"
  obtain sv2 where sv2: "recordGenerationCheckpoint hs msg ?sv1 = Inr sv2"
    using assms by (auto simp: events_post_tail_def Let_def split: sum.splits)
  define sv3 where "sv3 = (if truthy missed then broadcast missed sv2 else sv2)"
  define sv4 where "sv4 = (if orphaned_discard msg \<and> truthy (dot msg ''id'')
      then (case store_event hs ?ev sv3 of Inl _ \<Rightarrow> sv3 | Inr sv' \<Rightarrow> sv') else sv3)"
  have sv3: "sv_pending sv3 = sv_pending sv2" "sv_store sv3 = sv_store sv2" by (simp_all add: sv3_def broadcast_def)
  have "sv_pending sv4 = sv_pending sv2 \<and> journals (sv_store sv4) \<subseteq> journals (sv_store sv2) \<union> {s. s \<noteq> [] \<and> dot msg ''id'' = JStr s}"
  proof (cases "orphaned_discard msg \<and> truthy (dot msg ''id'') \<and> store_event hs ?ev sv3 = Inr sv4")
    case True
    then show ?thesis using store_event_journals [of hs ?ev sv3 sv4] queue_part_eqD(1) [OF store_event_frame, of hs ?ev sv3 sv4] sv3 by simp
  next
    case False
    then have "sv4 = sv3" by (auto simp: sv4_def split: sum.splits)
    then show ?thesis using sv3 by simp
  qed
  moreover have "events_post_tail hs msg missed sv = Inr (ok_response,
      if \<not> has_str [''checkpoint'', ''variant_mounted''] (dot msg ''type'') \<and> \<not> orphaned_discard msg
      then enqueueEvent hs msg sv4 else sv4)"
    unfolding events_post_tail_def Let_def by (simp only: sv2 sum.case sv4_def sv3_def)
  then have "sv' = enqueueEvent hs msg sv4 \<or> sv' = sv4" using assms by (auto split: if_splits)
  ultimately show ?thesis using that sv2 by blast
qed

lemma events_post_tail_retires:
  assumes "events_post_tail hs msg missed sv = Inr (r, sv')" "has_str [''accept'', ''discard''] (dot msg ''type'')"
    "truthy (dot msg ''id'')" "e \<in> set (sv_pending sv')"
  shows "\<not> generate_of (dot msg ''id'') e"
proof -
  let ?sv1 = "retirePendingGeneration hs (dot msg ''id'') sv"
  obtain sv2 sv4 where p: "recordGenerationCheckpoint hs msg ?sv1 = Inr sv2" "sv_pending sv4 = sv_pending sv2"
    "sv' = enqueueEvent hs msg sv4 \<or> sv' = sv4"
    using events_post_tail_parts [OF assms(1)] unfolding if_P [OF assms(2)] by metis
  have "sv_pending sv2 = sv_pending ?sv1" by (rule queue_part_eqD(1) [OF recordGenerationCheckpoint_frame [OF p(1)]])
  then have "pe_event e \<in> insert msg (pe_event ` set (sv_pending ?sv1))"
    using p enqueue_events [of hs msg sv4] assms(4) by auto
  then show ?thesis using retire_none [OF assms(3), of hs sv] assms(2) by (auto simp: generate_of_event has_str_iff)
qed

text \<open>
  a decision ends the generation. Once an Accept or a Discard of a session was taken, no request to
  generate for that session is left in the queue.
\<close>

theorem decision_retires_generation:
  assumes "handleEventsPost hs (Some msg) sv = Inr (Response 200 body, sv')"
    and "has_str [''accept'', ''discard''] (dot msg ''type'')" "e \<in> set (sv_pending sv')"
  shows "\<not> generate_of (dot msg ''id'') e"
proof -
  have t: "dot msg ''type'' \<noteq> JStr ''agent_phase''" using assms(2) by (auto simp: has_str_iff)
  have v: "validateEvent msg = Inr None" and k: "events_post_known hs msg sv = Inr (Response 200 body, sv')"
    using assms(1) t by (auto simp: handleEventsPost_def error_response_def split: if_splits sum.splits option.splits bool.splits)
  have "isValidId (dot msg ''id'')" using accepted_id [OF v] assms(2) by (auto simp: has_str_iff)
  then have i: "truthy (dot msg ''id'')" using isValidId_safe by (force simp: safe_id_pattern_def)
  then obtain m sv1 where "events_post_tail hs msg m sv1 = Inr (Response 200 body, sv')"
    using k by (auto simp: events_post_known_def split: prod.splits sum.splits)
  then show ?thesis by (rule events_post_tail_retires [OF _ assms(2) i assms(3)])
qed

definition demo_generate_msg :: jsval where
  "demo_generate_msg = JObj [(''token'', JStr ''t0k3n''), (''type'', JStr ''generate''), (''id'', JStr ''abcd1234''),
     (''action'', JStr ''bolder''), (''count'', jint 3), (''pageUrl'', JStr ''/''), (''element'', JObj [(''outerHTML'', JStr ''<p>'')])]"

definition demo_discard_msg :: jsval where
  "demo_discard_msg = JObj [(''token'', JStr ''t0k3n''), (''type'', JStr ''discard''), (''id'', JStr ''abcd1234'')]"

definition demo_generating :: server where
  "demo_generating = demo_server\<lparr>sv_pending := [\<lparr>pe_event = demo_generate_msg, pe_leaseUntil = 0, pe_seq = 1\<rparr>], sv_nextSeq := 2,
     sv_store := empty_store\<lparr>st_files := \<lambda>_. no_files\<lparr>sf_primary := Some empty_jfile\<rparr>\<rparr>\<rparr>"

lemma decision_retires_generation_witness:
  "let sv' = post demo_discard_msg demo_generating in
   sv_pending sv' \<noteq> [] \<and> \<not> generate_of (JStr ''abcd1234'') (hd (sv_pending sv'))"
proof -
  have r: "\<not> isl (handleEventsPost demo_host (Some demo_discard_msg) demo_generating)"
    "fst (projr (handleEventsPost demo_host (Some demo_discard_msg) demo_generating)) = ok_response"
    "sv_pending (post demo_discard_msg demo_generating) \<noteq> []" by code_simp+
  then have "handleEventsPost demo_host (Some demo_discard_msg) demo_generating =
      Inr (Response 200 (JObj [(''ok'', JBool True)]), post demo_discard_msg demo_generating)"
    by (cases "handleEventsPost demo_host (Some demo_discard_msg) demo_generating") (auto simp: post_def ok_response_def)
  from decision_retires_generation [OF this] r(3) show ?thesis
    by (simp add: Let_def demo_discard_msg_def)
qed

text \<open>
  without the token nothing happens. A request that does not carry the server's token is answered
  with 401 on every route that changes state, and the state is as it was.
\<close>

theorem wrong_token_no_effect:
  assumes "tok \<noteq> JStr (sv_token sv)"
  shows "handlePollGet hs tok ms ty pid sv = (Some (error_response 401 ''Unauthorized''), sv)
    \<and> handleEventsGet hs ls ns ctx c tok sv = Inr (Response 401 (JStr ''Unauthorized''), sv)
    \<and> (\<not> nullish msg \<longrightarrow> dot msg ''token'' = tok \<longrightarrow>
         handleEventsPost hs (Some msg) sv = Inr (error_response 401 ''Unauthorized'', sv) \<and>
         handlePollPost hs fails cwd rm cc (Some msg) sv = Inr (error_response 401 ''Unauthorized'', sv))"
  using assms by (simp add: handlePollGet_def handleEventsGet_def handleEventsPost_def handlePollPost_def)

lemma wrong_token_no_effect_witness:
  "handleEventsPost demo_host (Some demo_steer_msg) (demo_server\<lparr>sv_token := ''other''\<rparr>)
     = Inr (error_response 401 ''Unauthorized'', demo_server\<lparr>sv_token := ''other''\<rparr>)"
  using wrong_token_no_effect [of "JStr ''t0k3n''" "demo_server\<lparr>sv_token := ''other''\<rparr>" demo_host _ _ _ _ _ _ _ demo_steer_msg]
  by (simp add: demo_steer_msg_def)

section \<open>The gate for unknown sessions\<close>

lemma recordAgentPhase_journals:
  assumes "recordAgentPhase hs i ph ds sv = Inr sv'" "''id'' \<notin> fst ` set ds"
  shows "journals (sv_store sv') \<subseteq> journals (sv_store sv) \<union> {s. s \<noteq> [] \<and> i = JStr s}"
proof (cases "truthy i")
  case True
  then obtain ev sv1 where ev: "store_event hs ev sv = Inr sv1" "sv' = broadcast ev sv1" "dot ev ''id'' = i"
    using assms by (auto simp: recordAgentPhase_def Let_def map_of_obj_merge_other split: sum.splits)
  show ?thesis using store_event_journals [OF ev(1,3) True] ev(2) by (simp add: broadcast_def)
qed (use assms in \<open>simp add: recordAgentPhase_def\<close>)

lemma read_snapshot_journals: "read_snapshot h i inc sv = (so, sv') \<Longrightarrow> journals (sv_store sv') = journals (sv_store sv)"
proof -
  assume "read_snapshot h i inc sv = (so, sv')"
  then have "st_files (sv_store sv') = st_files (sv_store sv)"
    by (auto simp: read_snapshot_def getSnapshot_def Let_def readState_files split: sum.splits if_splits prod.splits
        dest!: arg_cong [of _ _ snd])
  then show "journals (sv_store sv') = journals (sv_store sv)" by (simp add: journals_def)
qed

lemma record_phase_once_journals:
  assumes "record_phase_once hs c i ph ds sv = Inr sv'" "''id'' \<notin> fst ` set ds"
  shows "journals (sv_store sv') \<subseteq> journals (sv_store sv) \<union> {s. s \<noteq> [] \<and> i = JStr s}"
proof (cases c)
  case True
  obtain so sv1 where r: "read_snapshot (host.truncate hs) i True sv = (so, sv1)" by fastforce
  then have "sv' = sv1 \<or> recordAgentPhase hs i ph ds sv1 = Inr sv'"
    using assms(1) True by (auto simp: record_phase_once_def generationPhaseAlreadyRecorded_def Let_def split: if_splits)
  then show ?thesis
    using recordAgentPhase_journals [OF _ assms(2), of hs i ph sv1 sv'] read_snapshot_journals [OF r] by auto
qed (use assms in \<open>simp add: record_phase_once_def\<close>)

lemma record_progress_journals:
  assumes "record_progress_phases hs msg a x sv = Inr sv'"
  shows "journals (sv_store sv') \<subseteq> journals (sv_store sv) \<union> {s. s \<noteq> [] \<and> dot msg ''id'' = JStr s}"
proof -
  let ?ds = "[(''arrivedVariants'', JNum a), (''expectedVariants'', JNum x),
     (''checkpointReason'', js_or (dot msg ''reason'') JNull), (''at'', jint (h_now hs))]"
  have id: "''id'' \<notin> fst ` set ?ds" by simp
  obtain c1 c2 sv1 sv2 where r: "record_phase_once hs True (dot msg ''id'') ''first_reviewable'' ?ds sv = Inr sv1"
    "record_phase_once hs c1 (dot msg ''id'') ''second_reviewable'' ?ds sv1 = Inr sv2"
    "record_phase_once hs c2 (dot msg ''id'') ''all_variants_ready'' ?ds sv2 = Inr sv'"
    using assms by (auto simp: record_progress_phases_def Let_def split: sum.splits)
  show ?thesis using r [THEN record_phase_once_journals, OF id] by blast
qed

lemma recordGenerationCheckpoint_journals:
  assumes "recordGenerationCheckpoint hs msg sv = Inr sv'"
  shows "journals (sv_store sv') \<subseteq> journals (sv_store sv) \<union> {s. s \<noteq> [] \<and> dot msg ''id'' = JStr s}"
proof (cases "truthy (dot msg ''id'') \<and> dot msg ''type'' = JStr ''checkpoint''")
  case True
  obtain so sv1 where r: "read_snapshot (host.truncate hs) (dot msg ''id'') True sv = (so, sv1)" by fastforce
  then have "sv' = sv1 \<or> (\<exists>a x sv2. record_progress_phases hs msg a x sv2 = Inr sv' \<and> sv_store sv2 = sv_store sv1)"
    using assms True sv_store_ops(1) [of _ sv1]
    unfolding recordGenerationCheckpoint_def generationIsFenced_def Let_def
    by (auto split: if_splits simp del: sv_store_ops)
  then show ?thesis
  proof
    assume "\<exists>a x sv2. record_progress_phases hs msg a x sv2 = Inr sv' \<and> sv_store sv2 = sv_store sv1"
    then obtain a x sv2 where "record_progress_phases hs msg a x sv2 = Inr sv'" "sv_store sv2 = sv_store sv1" by blast
    then show ?thesis using record_progress_journals [of hs msg a x sv2 sv'] read_snapshot_journals [OF r] by simp
  qed (use read_snapshot_journals [OF r] in simp)
qed (use assms in \<open>auto simp: recordGenerationCheckpoint_def\<close>)

definition generate_ids :: "server \<Rightarrow> string set" where
  "generate_ids sv = {s. s \<noteq> [] \<and> (\<exists>e\<in>set (sv_pending sv). generate_of (JStr s) e)}"

lemma lease_start_journals:
  assumes "e \<in> set (sv_pending sv)"
  shows "journals (sv_store (lease_start hs e ms pid pk sv)) \<subseteq> journals (sv_store sv) \<union> generate_ids sv"
proof -
  let ?sv0 = "set_lease (pe_seq e) (lease_until (h_now hs) ms) sv" and ?i = "dot (pe_event e) ''id''"
  obtain stg sv1 where c: "claim_phases hs (pe_event e) ?sv0 = (stg, sv1)" by fastforce
  have st: "sv_store (lease_start hs e ms pid pk sv) = sv_store sv1" using c by (simp add: lease_start_def)
  have rec: "recordAgentPhase hs ?i ph [] a = Inr b \<Longrightarrow> journals (sv_store b) \<subseteq> journals (sv_store a) \<union> {s. s \<noteq> [] \<and> ?i = JStr s}" for ph a b
    using recordAgentPhase_journals [of hs ?i ph "[]" a b] by simp
  have "journals (sv_store sv1) \<subseteq> journals (sv_store ?sv0) \<union> {s. s \<noteq> [] \<and> ?i = JStr s}" if "needs_scaffold (pe_event e)"
    using c that by (auto simp: claim_phases_def split: sum.splits dest!: rec)
  moreover have "{s. s \<noteq> [] \<and> ?i = JStr s} \<subseteq> generate_ids sv" if "needs_scaffold (pe_event e)"
    using that assms by (auto simp: generate_ids_def generate_of_event needs_scaffold_def)
  moreover have "sv1 = ?sv0" if "\<not> needs_scaffold (pe_event e)" using c that by (simp add: claim_phases_def)
  ultimately show ?thesis unfolding st by (cases "needs_scaffold (pe_event e)") auto
qed

lemma generate_ids_events: "generate_ids sv =
    {s. s \<noteq> [] \<and> (\<exists>ev\<in>set (map pe_event (sv_pending sv)). strict_eq (dot ev ''id'') (JStr s) \<and> dot ev ''type'' = JStr ''generate'')}"
  by (auto simp: generate_ids_def generate_of_event)

lemma flush_loop_journals: "journals (sv_store (flush_loop n hs sv)) \<subseteq> journals (sv_store sv) \<union> generate_ids sv"
proof (induction n hs sv rule: flush_loop.induct)
  case (2 n hs sv)
  show ?case
  proof (cases "first_served (h_now hs) (sv_pending sv) (sv_polls sv)")
    case (Some r)
    obtain po e where r: "r = (po, e)" by fastforce
    let ?sv = "sv\<lparr>sv_polls := remove1 po (sv_polls sv)\<rparr>"
    let ?next = "lease_start hs e (po_leaseMs po) (po_id po) True ?sv"
    have "e \<in> set (sv_pending ?sv)" using first_served_Some Some r by (fastforce simp: available_def)
    then have "journals (sv_store ?next) \<subseteq> journals (sv_store ?sv) \<union> generate_ids ?sv" by (rule lease_start_journals)
    moreover have "map pe_event (sv_pending ?next) = map pe_event (sv_pending sv)"
      by (simp add: lease_start_parts set_lease_def)
    then have "generate_ids ?next = generate_ids sv" "generate_ids ?sv = generate_ids sv"
      by (simp_all only: generate_ids_events) simp
    moreover have "journals (sv_store (flush_loop n hs ?next)) \<subseteq> journals (sv_store ?next) \<union> generate_ids ?next"
      using 2 [OF Some] r by simp
    ultimately show ?thesis using Some r by auto
  qed simp
qed simp

lemma enqueue_journals:
  "journals (sv_store (enqueueEvent hs ev sv)) \<subseteq> journals (sv_store sv) \<union> generate_ids sv
     \<union> {s. s \<noteq> [] \<and> dot ev ''id'' = JStr s \<and> dot ev ''type'' = JStr ''generate''}"
proof -
  let ?sv = "sv\<lparr>sv_pending := sv_pending sv @ [\<lparr>pe_event = ev, pe_leaseUntil = 0, pe_seq = sv_nextSeq sv\<rparr>],
                 sv_nextSeq := sv_nextSeq sv + 1\<rparr>"
  have "generate_ids ?sv \<subseteq> generate_ids sv \<union> {s. s \<noteq> [] \<and> dot ev ''id'' = JStr s \<and> dot ev ''type'' = JStr ''generate''}"
    by (auto simp: generate_ids_events)
  then show ?thesis using flush_loop_journals [of "length (sv_polls ?sv)" hs ?sv]
    by (auto simp: enqueueEvent_def flushPendingPolls_def Let_def)
qed

lemma generate_ids_pending: "set (sv_pending a) \<subseteq> set (sv_pending b) \<Longrightarrow> generate_ids a \<subseteq> generate_ids b"
  by (auto simp: generate_ids_def)

lemma events_post_tail_journals:
  assumes "events_post_tail hs msg missed sv = Inr (r, sv')"
  shows "journals (sv_store sv') \<subseteq> journals (sv_store sv) \<union> generate_ids sv \<union> {s. s \<noteq> [] \<and> dot msg ''id'' = JStr s}"
proof -
  let ?sv1 = "if has_str [''accept'', ''discard''] (dot msg ''type'') then retirePendingGeneration hs (dot msg ''id'') sv else sv"
  obtain sv2 sv4 where p: "recordGenerationCheckpoint hs msg ?sv1 = Inr sv2" "sv_pending sv4 = sv_pending sv2"
    "journals (sv_store sv4) \<subseteq> journals (sv_store sv2) \<union> {s. s \<noteq> [] \<and> dot msg ''id'' = JStr s}"
    "sv' = enqueueEvent hs msg sv4 \<or> sv' = sv4"
    by (rule events_post_tail_parts [OF assms]; rule that)
  have "sv_pending sv2 = sv_pending ?sv1" by (rule queue_part_eqD(1) [OF recordGenerationCheckpoint_frame [OF p(1)]])
  then have "set (sv_pending sv4) \<subseteq> set (sv_pending sv)" using p(2) by (auto simp: retirePendingGeneration_def split: if_splits)
  then have "generate_ids sv4 \<subseteq> generate_ids sv" by (rule generate_ids_pending)
  moreover have "journals (sv_store sv2) \<subseteq> journals (sv_store sv) \<union> {s. s \<noteq> [] \<and> dot msg ''id'' = JStr s}"
    using recordGenerationCheckpoint_journals [OF p(1)] by (simp split: if_splits)
  ultimately show ?thesis using enqueue_journals [of hs msg sv4] p(3,4) by auto
qed

lemma events_post_known_journals:
  assumes "events_post_known hs msg sv = Inr (r, sv')"
  shows "journals (sv_store sv') \<subseteq> journals (sv_store sv) \<union> generate_ids sv \<union> {s. s \<noteq> [] \<and> dot msg ''id'' = JStr s}"
proof -
  obtain m sv1 where d: "detectMissedGenerationCompletion (host.truncate hs) msg sv = (m, sv1)" by fastforce
  have j1: "journals (sv_store sv1) = journals (sv_store sv)"
    using d by (auto simp: detectMissedGenerationCompletion_def dest: read_snapshot_journals split: if_splits prod.splits)
  have p1: "sv_pending sv1 = sv_pending sv" by (rule queue_part_eqD(1) [OF detectMissed_frame [OF d]])
  show ?thesis
  proof (cases "events_post_tail hs msg m sv1 = Inr (r, sv')")
    case True
    then show ?thesis using events_post_tail_journals [OF True] j1 p1 by (simp add: generate_ids_def)
  next
    case False
    then consider "sv' = sv1" | sv2 where "store_event hs msg sv1 = Inr sv2" "truthy (dot msg ''id'')" "events_post_tail hs msg m sv2 = Inr (r, sv')"
      using assms d by (auto simp: events_post_known_def split: if_splits sum.splits)
    then show ?thesis
    proof cases
      case 2
      have "sv_pending sv2 = sv_pending sv" using queue_part_eqD(1) [OF store_event_frame [OF 2(1)]] p1 by simp
      then show ?thesis using events_post_tail_journals [OF 2(3)] store_event_journals [OF 2(1) refl 2(2)] j1
        by (auto simp: generate_ids_def)
    qed (use j1 in auto)
  qed
qed

text \<open>
  C20: no message of the browser makes up a session. A journal that did not exist before \<^verbatim>\<open>POST /events\<close>
  exists afterwards only for the id of a \<^verbatim>\<open>generate\<close>, \<^verbatim>\<open>steer\<close> or \<^verbatim>\<open>agent_phase\<close> message, or for a queued
  request to generate that the message caused to be handed out.
\<close>

theorem session_gate:
  assumes "handleEventsPost hs (Some msg) sv = Inr (r, sv')" "i \<in> journals (sv_store sv')" "i \<notin> journals (sv_store sv)"
  shows "(dot msg ''id'' = JStr i \<and> has_str [''generate'', ''steer'', ''agent_phase''] (dot msg ''type''))
    \<or> (\<exists>e\<in>set (sv_pending sv). generate_of (JStr i) e)"
proof -
  have ids: "''id'' \<notin> fst ` set (agent_phase_details msg)" by (auto simp: agent_phase_details_def)
  consider "sv' = sv" | ph where "dot msg ''type'' = JStr ''agent_phase''"
      "recordAgentPhase hs (dot msg ''id'') ph (agent_phase_details msg) sv = Inr sv'"
    | "events_post_known hs msg sv = Inr (r, sv')"
      "has_str SESSION_CREATING_EVENT_TYPES (dot msg ''type'') \<or> \<not> truthy (dot msg ''id'') \<or> store_has (dot msg ''id'') (sv_store sv) = Inr True"
    using assms(1) by (auto simp: handleEventsPost_def split: if_splits sum.splits option.splits bool.splits)
  then show ?thesis
  proof cases
    case 2
    then show ?thesis using recordAgentPhase_journals [OF 2(2) ids] assms(2,3) by auto
  next
    case 3
    then have "i \<in> generate_ids sv \<or> i \<noteq> [] \<and> dot msg ''id'' = JStr i" using events_post_known_journals [OF 3(1)] assms(2,3) by auto
    moreover have "has_str SESSION_CREATING_EVENT_TYPES (dot msg ''type'')" if "i \<noteq> []" "dot msg ''id'' = JStr i"
      using 3(2) that assms(3)
      by (auto simp: store_has_def safeSessionId_def journals_def safe_id_pattern_def split: if_splits sum.splits)
    ultimately show ?thesis by (auto simp: generate_ids_def has_str_iff SESSION_CREATING_EVENT_TYPES_def)
  qed (use assms in simp)
qed

lemma session_gate_witness:
  "let sv' = post demo_steer_msg demo_server in ''abcd1234'' \<in> journals (sv_store sv') \<and>
   ((dot demo_steer_msg ''id'' = JStr ''abcd1234'' \<and> has_str [''generate'', ''steer'', ''agent_phase''] (dot demo_steer_msg ''type''))
    \<or> (\<exists>e\<in>set (sv_pending demo_server). generate_of (JStr ''abcd1234'') e))"
proof -
  have r: "\<not> isl (handleEventsPost demo_host (Some demo_steer_msg) demo_server)"
    "sf_primary (st_files (sv_store (post demo_steer_msg demo_server)) ''abcd1234'') \<noteq> None" by code_simp+
  then have h: "handleEventsPost demo_host (Some demo_steer_msg) demo_server =
      Inr (fst (projr (handleEventsPost demo_host (Some demo_steer_msg) demo_server)), post demo_steer_msg demo_server)"
    by (cases "handleEventsPost demo_host (Some demo_steer_msg) demo_server") (auto simp: post_def)
  have j: "''abcd1234'' \<in> journals (sv_store (post demo_steer_msg demo_server))" "''abcd1234'' \<notin> journals (sv_store demo_server)"
    using r(2) by (simp_all add: journals_def demo_server_def initial_server_def empty_store_def no_files_def)
  show ?thesis unfolding Let_def using session_gate [OF h j] j(1) by blast
qed

section \<open>Requests that end the process\<close>

lemma appendEvent_safe:
  assumes "dot ev ''id'' = JStr s" "safe_id_pattern s" "dot ev ''type'' = JStr t" "t \<noteq> []"
  shows "\<exists>sv'. store_event hs ev sv = Inr sv'"
proof -
  obtain kvs where ev: "ev = JObj kvs" using dot_type_object [OF assms(3)] by blast
  have "s \<noteq> []" using assms(2) by (auto simp: safe_id_pattern_def)
  then show ?thesis using assms ev
    by (auto simp: store_event_def appendEvent_def normalizeEvent_def js_or_def Let_def map_of_obj_set safeSessionId_def
        split: option.splits prod.split)
qed

lemma recordAgentPhase_safe:
  assumes "safe_id_pattern s" "fst ` set ds \<inter> {''id'', ''type''} = {}"
  shows "\<exists>sv'. recordAgentPhase hs (JStr s) ph ds sv = Inr sv'"
proof -
  let ?ev = "JObj (obj_merge [(''type'', JStr ''agent_phase''), (''id'', JStr s), (''phase'', JStr ph), (''at'', jint (h_now hs))] ds)"
  have "dot ?ev ''id'' = JStr s" "dot ?ev ''type'' = JStr ''agent_phase''" using assms(2) by (simp_all add: map_of_obj_merge_other)
  then obtain sv1 where "store_event hs ?ev sv = Inr sv1" using appendEvent_safe assms(1) by blast
  then show ?thesis by (simp add: recordAgentPhase_def Let_def)
qed

lemma record_phase_once_safe:
  assumes "safe_id_pattern s" "fst ` set ds \<inter> {''id'', ''type''} = {}"
  shows "\<exists>sv'. record_phase_once hs c (JStr s) ph ds sv = Inr sv'"
  using recordAgentPhase_safe [OF assms] by (auto simp: record_phase_once_def split: prod.split)

lemma recordGenerationCheckpoint_safe:
  assumes "dot msg ''id'' = JStr s" "safe_id_pattern s"
  shows "\<exists>sv'. recordGenerationCheckpoint hs msg sv = Inr sv'"
proof -
  have "\<exists>v'. record_progress_phases hs msg a x v = Inr v'" for a x v
  proof -
    let ?ds = "[(''arrivedVariants'', JNum a), (''expectedVariants'', JNum x),
       (''checkpointReason'', js_or (dot msg ''reason'') JNull), (''at'', jint (h_now hs))]"
    have ds: "fst ` set ?ds \<inter> {''id'', ''type''} = {}" by simp
    show ?thesis using record_phase_once_safe [OF assms(2) ds] unfolding record_progress_phases_def Let_def assms(1)
      by (metis (no_types, lifting) old.sum.simps(6))
  qed
  then show ?thesis by (auto simp: recordGenerationCheckpoint_def Let_def split: prod.split)
qed

lemma events_post_known_total:
  assumes "\<not> truthy (dot msg ''id'') \<or> (\<exists>s. dot msg ''id'' = JStr s \<and> safe_id_pattern s)"
  shows "\<exists>r. events_post_known hs msg sv = Inr r"
proof -
  have g: "\<exists>sv'. recordGenerationCheckpoint hs msg v = Inr sv'" for v
  proof (cases "truthy (dot msg ''id'')")
    case True
    then show ?thesis using assms recordGenerationCheckpoint_safe by blast
  qed (simp add: recordGenerationCheckpoint_def)
  have "\<exists>r. events_post_tail hs msg m v = Inr r" for m v
    using g [of "if has_str [''accept'', ''discard''] (dot msg ''type'') then retirePendingGeneration hs (dot msg ''id'') v else v"]
    unfolding events_post_tail_def Let_def by auto
  then show ?thesis by (auto simp: events_post_known_def split: prod.split sum.split)
qed

lemma validateEvent_throws: "validateEvent msg = Inl e \<Longrightarrow> dot msg ''type'' = JStr ''manual_edits''"
  by (simp add: validateEvent_def split: if_splits jsval.splits)

text \<open>The handler behind the checks on the message.\<close>

lemma valid_events_post_crashes:
  assumes "validateEvent msg = Inr None"
  shows "(\<exists>e. (if dot msg ''type'' = JStr ''agent_phase''
            then (case recordAgentPhase hs (dot msg ''id'') (js_text (dot msg ''phase'')) (agent_phase_details msg) sv of
                    Inl e \<Rightarrow> Inl e
                  | Inr sv' \<Rightarrow> Inr (ok_response, sv'))
            else if truthy (dot msg ''id'') \<and> \<not> has_str SESSION_CREATING_EVENT_TYPES (dot msg ''type'')
            then (case store_has (dot msg ''id'') (sv_store sv) of
                    Inl e \<Rightarrow> Inl e
                  | Inr False \<Rightarrow> Inr (Response 404 (JObj [(''error'', JStr ''unknown_session''), (''id'', dot msg ''id'')]), sv)
                  | Inr True \<Rightarrow> events_post_known hs msg sv)
            else events_post_known hs msg sv) = Inl e) \<longleftrightarrow>
     has_str [''exit'', ''prefetch''] (dot msg ''type'') \<and> (\<exists>s. dot msg ''id'' = JStr s \<and> s \<noteq> [] \<and> \<not> safe_id_pattern s)"
    (is "(\<exists>e. ?h = Inl e) \<longleftrightarrow> _" is "(\<exists>e. (if _ then _ else if _ then ?gate else _) = Inl e) \<longleftrightarrow> _")
proof (cases "has_str [''exit'', ''prefetch''] (dot msg ''type'')")
  case True
  then have "dot msg ''type'' \<noteq> JStr ''agent_phase''" "\<not> has_str SESSION_CREATING_EVENT_TYPES (dot msg ''type'')"
    by (auto simp: has_str_iff SESSION_CREATING_EVENT_TYPES_def)
  then have eq: "?h = (if truthy (dot msg ''id'') then ?gate else events_post_known hs msg sv)" by simp
  show ?thesis
  proof (cases "\<exists>s. dot msg ''id'' = JStr s \<and> s \<noteq> []")
    case str: True
    then obtain s where s: "dot msg ''id'' = JStr s" "s \<noteq> []" by blast
    show ?thesis
    proof (cases "safe_id_pattern s")
      case True
      then obtain r where "events_post_known hs msg sv = Inr r" using events_post_known_total [of msg hs sv] s by blast
      then show ?thesis unfolding eq using s True by (simp add: store_has_def safeSessionId_def split: bool.split)
    next
      case unsafe: False
      then show ?thesis unfolding eq using s True by (simp add: store_has_def safeSessionId_def)
    qed
  next
    case False
    then have g: "truthy (dot msg ''id'') \<Longrightarrow> store_has (dot msg ''id'') (sv_store sv) = Inr False"
      by (cases "dot msg ''id''") (auto simp: store_has_def)
    have "\<exists>r. events_post_known hs msg sv = Inr r" if "\<not> truthy (dot msg ''id'')" using events_post_known_total that by blast
    then show ?thesis unfolding eq using g False by (cases "truthy (dot msg ''id'')") auto
  qed
next
  case False
  then obtain s where s: "dot msg ''id'' = JStr s" "safe_id_pattern s" using accepted_id [OF assms] isValidId_safe by blast
  then obtain r where r: "events_post_known hs msg sv = Inr r" using events_post_known_total by blast
  have ds: "fst ` set (agent_phase_details msg) \<inter> {''id'', ''type''} = {}" by (auto simp: agent_phase_details_def)
  obtain v where "recordAgentPhase hs (dot msg ''id'') (js_text (dot msg ''phase'')) (agent_phase_details msg) sv = Inr v"
    using recordAgentPhase_safe [OF s(2) ds, of hs "js_text (dot msg ''phase'')" sv] unfolding s(1) by blast
  then show ?thesis using False s r by (auto simp: store_has_def safeSessionId_def split: bool.split)
qed


lemma lease_finish_answers:
  assumes "ls_parked ls" "answered (ls_poll ls) sv"
  shows "\<exists>e. lease_finish hs result ls sv = Inl e"
proof -
  let ?sv = "sv\<lparr>sv_leases := remove1 ls (sv_leases sv)\<rparr>"
  obtain ev err sv1 where r: "(case ls_stage ls of
              Rejected \<Rightarrow> (ls_event ls, Some TypeError, ?sv)
            | Claimed \<Rightarrow> lease_deliver hs ls (ls_event ls) ?sv
            | Scaffolding \<Rightarrow>
               (case scaffold_done hs result (ls_seq ls) (ls_event ls) ?sv of
                  (event', Some e, sv') \<Rightarrow> (event', Some e, sv')
                | (event', None, sv') \<Rightarrow> lease_deliver hs ls event' sv')) = (ev, err, sv1)"
    using prod_cases3 by blast
  have "rest_part sv1 = rest_part ?sv"
    using r by (cases "ls_stage ls") (auto dest!: lease_deliver_rest scaffold_done_rest split: prod.splits option.splits)
  then have "sv_answers sv1 = sv_answers sv" by (simp add: rest_part_def)
  then have "answered (ls_poll ls) sv1" using assms(2) by (simp add: answered_def)
  then show ?thesis using r assms(1) by (simp add: lease_finish_def Let_def resolve_poll_def)
qed

text \<open>
  C23: a scaffold that takes longer than its poll waits ends the process. While the lease of a parked
  poll waits for its scaffold the timer of that poll still runs; it fires and answers the poll, and
  when the scaffold is ready the second answer throws where nobody catches it, whatever the result was.
\<close>

theorem scaffold_outlives_poll:
  assumes "ls \<in> set (sv_leases sv)" "ls_stage ls = Scaffolding" "ls_parked ls" "ls_poll ls \<in> set (sv_pollTimers sv)"
  shows "server_step sv (poll_timer_fires (ls_poll ls) sv) \<and> ls \<in> set (sv_leases (poll_timer_fires (ls_poll ls) sv))
    \<and> (\<exists>e. lease_finish hs result ls (poll_timer_fires (ls_poll ls) sv) = Inl e)"
proof -
  have "sv_leases (unpark pid sv) = sv_leases sv" for pid
    by (simp add: unpark_def broadcastAgentPollingIfChanged_def broadcast_def Let_def)
  moreover have "answered (ls_poll ls) (poll_timer_fires (ls_poll ls) sv)"
    by (simp add: answered_def poll_timer_fires_def Let_def)
  ultimately show ?thesis
    using assms lease_finish_answers poll_timer by (simp add: poll_timer_fires_def Let_def)
qed

definition demo_lease :: lease where
  "demo_lease = \<lparr>ls_seq = 1, ls_event = demo_generate_msg, ls_leaseMs = Some 30000, ls_poll = 1, ls_parked = True, ls_stage = Scaffolding\<rparr>"

lemma scaffold_outlives_poll_witness:
  "let sv = demo_server\<lparr>sv_leases := [demo_lease], sv_pollTimers := [1]\<rparr> in
   \<exists>e. lease_finish demo_host (JObj [(''ok'', JBool True)]) demo_lease (poll_timer_fires 1 sv) = Inl e"
  using scaffold_outlives_poll [of demo_lease "demo_server\<lparr>sv_leases := [demo_lease], sv_pollTimers := [1]\<rparr>" demo_host]
  by (simp add: demo_lease_def Let_def)

text \<open>
  What the continuation of a scaffold journals undoes a decision that came in the meantime: a
  \<^verbatim>\<open>generate\<close> entry makes the session wait for a generation again, whatever its state was.
\<close>

lemma generate_entry_reopens:
  "dot (entry_event entry) ''type'' = JStr ''generate'' \<Longrightarrow>
   sn_phase (applyEvent h s entry) = JStr ''generate_requested'' \<and>
   sn_pendingEvent (applyEvent h s entry) = toPendingEvent (entry_event entry)"
  by (simp add: applyEvent_def apply_by_type_def apply_generate_def set_pending_def Let_def)

end
