(* ===== verification/Source_Lock.thy ===== *)
theory Source_Lock
  imports Main
begin

text \<open>
  The lock that keeps two writers out of one source file (\<^verbatim>\<open>scripts/live/source-lock.mjs\<close>).

  Writers are processes that share one lock file. \<^verbatim>\<open>withSourceLockSync\<close> is a program counter per
  writer, and one turn of a writer is one operation on the file system or one probe of a process, so
  that the turns of several writers interleave freely. A file that was created is told apart from one
  that replaced it (\<open>lf_inode\<close>): a write goes to the file that was opened, not to the path. Of the
  JSON in the lock only the token and the pid are read. The random token of an acquisition is a
  number that was not used before; a pid is not used again after its process died.
\<close>

section \<open>State\<close>

datatype lock_content = Unreadable | Held nat nat

record lockfile =
  lf_inode :: nat
  lf_content :: lock_content
  lf_mtime :: int

datatype lock_pc =
    Idle
  | Sweep_Read
  | Sweep_Check nat
  | Sweep_Stat
  | Sweep_Unlink
  | Opening
  | Writing
  | Critical
  | Release_Read
  | Release_Unlink
  | Source_Locked

record writer =
  w_pc :: lock_pc
  w_token :: nat
  w_deadline :: int
  w_alive :: bool

record locks =
  lk_file :: "lockfile option"
  lk_writers :: "nat \<Rightarrow> writer"
  lk_nextToken :: nat

definition UNREADABLE_LOCK_STALE_MS :: int where "UNREADABLE_LOCK_STALE_MS = 60000"

section \<open>Operations\<close>

definition readLock :: "lockfile option \<Rightarrow> (nat \<times> nat) option" where
  "readLock f = (case f of None \<Rightarrow> None | Some l \<Rightarrow> (case lf_content l of Unreadable \<Rightarrow> None | Held t pid \<Rightarrow> Some (t, pid)))"

text \<open>\<^verbatim>\<open>clearStaleLock\<close>: read, then probe the owner or look at the age, then perhaps unlink.\<close>

fun clear_turn :: "int \<Rightarrow> (nat \<Rightarrow> bool) \<Rightarrow> lock_pc \<Rightarrow> lockfile option \<Rightarrow> lock_pc \<times> lockfile option" where
  "clear_turn now reachable Sweep_Read f =
     (case readLock f of None \<Rightarrow> (Sweep_Stat, f) | Some (_, pid) \<Rightarrow> (Sweep_Check pid, f))"
| "clear_turn now reachable (Sweep_Check pid) f = (if reachable pid then Opening else Sweep_Unlink, f)"
| "clear_turn now reachable Sweep_Stat f = (case f of
      None \<Rightarrow> (Opening, f)
    | Some l \<Rightarrow> (if now - lf_mtime l > UNREADABLE_LOCK_STALE_MS then Sweep_Unlink else Opening, f))"
| "clear_turn now reachable Sweep_Unlink f = (Opening, None)"
| "clear_turn now reachable pc f = (pc, f)"

text \<open>The loop that acquires the lock: \<^verbatim>\<open>openSync(path, 'wx')\<close>, the write, and the deadline.\<close>

fun acquire_turn :: "int \<Rightarrow> nat \<Rightarrow> writer \<Rightarrow> lockfile option \<Rightarrow> lock_pc \<times> lockfile option" where
  "acquire_turn now pid w f = (case w_pc w of
      Opening \<Rightarrow>
       (case f of
          None \<Rightarrow> (Writing, Some \<lparr>lf_inode = w_token w, lf_content = Unreadable, lf_mtime = now\<rparr>)
        | Some _ \<Rightarrow> (if w_deadline w \<le> now then Source_Locked else Sweep_Read, f))
    | Writing \<Rightarrow>
       (Critical, map_option (\<lambda>l. if lf_inode l = w_token w
                                  then l\<lparr>lf_content := Held (w_token w) pid, lf_mtime := now\<rparr> else l) f)
    | pc \<Rightarrow> (pc, f))"

text \<open>\<^verbatim>\<open>releaseOwnLock\<close>: a readable lock of another acquisition is left alone.\<close>

fun release_turn :: "nat \<Rightarrow> lock_pc \<Rightarrow> lockfile option \<Rightarrow> lock_pc \<times> lockfile option" where
  "release_turn tok Critical f = (Release_Read, f)"
| "release_turn tok Release_Read f = (case readLock f of
      Some (t, _) \<Rightarrow> (if t \<noteq> tok then Idle else Release_Unlink, f)
    | None \<Rightarrow> (Release_Unlink, f))"
| "release_turn tok Release_Unlink f = (Idle, None)"
| "release_turn tok pc f = (pc, f)"

definition withSourceLockSync :: "int \<Rightarrow> (nat \<Rightarrow> bool) \<Rightarrow> nat \<Rightarrow> writer \<Rightarrow> lockfile option \<Rightarrow> lock_pc \<times> lockfile option" where
  "withSourceLockSync now reachable pid w f =
     (if w_pc w \<in> {Opening, Writing} then acquire_turn now pid w f
      else if w_pc w \<in> {Critical, Release_Read, Release_Unlink} then release_turn (w_token w) (w_pc w) f
      else clear_turn now reachable (w_pc w) f)"

definition lock_turn :: "int \<Rightarrow> nat \<Rightarrow> locks \<Rightarrow> locks" where
  "lock_turn now p st =
     (let w = lk_writers st p;
          (pc, f) = withSourceLockSync now (\<lambda>pid. w_alive (lk_writers st pid)) p w (lk_file st)
      in st\<lparr>lk_file := f, lk_writers := (lk_writers st)(p := w\<lparr>w_pc := pc\<rparr>)\<rparr>)"

text \<open>A call: the deadline is set and a fresh token drawn.\<close>

definition lock_call :: "int \<Rightarrow> int \<Rightarrow> nat \<Rightarrow> locks \<Rightarrow> locks" where
  "lock_call now waitMs p st =
     st\<lparr>lk_writers := (lk_writers st)(p := (lk_writers st p)\<lparr>w_pc := Sweep_Read, w_token := lk_nextToken st,
                                            w_deadline := now + max 0 waitMs\<rparr>),
        lk_nextToken := lk_nextToken st + 1\<rparr>"

definition lock_die :: "nat \<Rightarrow> locks \<Rightarrow> locks" where
  "lock_die p st = st\<lparr>lk_writers := (lk_writers st)(p := (lk_writers st p)\<lparr>w_alive := False\<rparr>)\<rparr>"

definition no_locks :: locks where
  "no_locks = \<lparr>lk_file = None, lk_writers = \<lambda>_. \<lparr>w_pc = Idle, w_token = 0, w_deadline = 0, w_alive = True\<rparr>, lk_nextToken = 1\<rparr>"

section \<open>Runs\<close>

definition may_call :: "nat \<Rightarrow> locks \<Rightarrow> bool" where
  "may_call p st \<longleftrightarrow> w_alive (lk_writers st p) \<and> w_pc (lk_writers st p) \<in> {Idle, Source_Locked}"

inductive lock_run :: "locks \<Rightarrow> bool" where
  start: "lock_run no_locks"
| call: "lock_run st \<Longrightarrow> may_call p st \<Longrightarrow> lock_run (lock_call now ms p st)"
| turn: "lock_run st \<Longrightarrow> w_alive (lk_writers st p) \<Longrightarrow> lock_run (lock_turn now p st)"
| die: "lock_run st \<Longrightarrow> lock_run (lock_die p st)"

text \<open>
  A calm run: nobody dies, and a writer that found the lock unreadable looks at its age before
  the lock is a minute old.
\<close>

definition prompt :: "int \<Rightarrow> nat \<Rightarrow> locks \<Rightarrow> bool" where
  "prompt now p st \<longleftrightarrow> w_pc (lk_writers st p) \<noteq> Sweep_Stat \<or>
     (case lk_file st of None \<Rightarrow> True | Some l \<Rightarrow> now - lf_mtime l \<le> UNREADABLE_LOCK_STALE_MS)"

inductive calm_run :: "locks \<Rightarrow> bool" where
  start: "calm_run no_locks"
| call: "calm_run st \<Longrightarrow> may_call p st \<Longrightarrow> calm_run (lock_call now ms p st)"
| turn: "calm_run st \<Longrightarrow> prompt now p st \<Longrightarrow> calm_run (lock_turn now p st)"

section \<open>Mutual exclusion\<close>

definition owns :: "writer \<Rightarrow> bool" where
  "owns w \<longleftrightarrow> w_pc w \<in> {Writing, Critical, Release_Read, Release_Unlink}"

definition owned_content :: "nat \<Rightarrow> writer \<Rightarrow> lock_content" where
  "owned_content p w = (if w_pc w = Writing then Unreadable else Held (w_token w) p)"

definition lock_inv :: "locks \<Rightarrow> bool" where
  "lock_inv st \<longleftrightarrow> (\<forall>p. w_alive (lk_writers st p) \<and> w_pc (lk_writers st p) \<noteq> Sweep_Unlink) \<and>
     (\<forall>p q. owns (lk_writers st p) \<and> owns (lk_writers st q) \<longrightarrow> p = q) \<and>
     (case lk_file st of
        None \<Rightarrow> \<forall>p. \<not> owns (lk_writers st p)
      | Some l \<Rightarrow> \<exists>p. owns (lk_writers st p) \<and> lf_inode l = w_token (lk_writers st p) \<and>
                      lf_content l = owned_content p (lk_writers st p))"

lemma lock_inv_start: "lock_inv no_locks"
  by (simp add: lock_inv_def no_locks_def owns_def)

lemmas lock_eval = lock_turn_def lock_call_def lock_die_def no_locks_def withSourceLockSync_def readLock_def
  prompt_def may_call_def UNREADABLE_LOCK_STALE_MS_def Let_def

lemmas lock_turn_defs = lock_turn_def withSourceLockSync_def Let_def readLock_def owns_def owned_content_def prompt_def

lemma lock_turn_others: "q \<noteq> p \<Longrightarrow> lk_writers (lock_turn now p st) q = lk_writers st q"
  by (simp add: lock_turn_def Let_def split: prod.splits)

lemma lock_turn_fields:
  "w_token (lk_writers (lock_turn now p st) q) = w_token (lk_writers st q)"
  "w_alive (lk_writers (lock_turn now p st) q) = w_alive (lk_writers st q)"
  by (simp_all add: lock_turn_def Let_def split: prod.splits)

text \<open>A turn either leaves the file and the set of owners alone, or is one of the four owner turns.\<close>

lemma lock_turn_quiet:
  assumes "lock_inv st" "prompt now p st" "\<not> owns (lk_writers st p)"
    "w_pc (lk_writers st p) \<noteq> Opening \<or> lk_file st \<noteq> None"
  shows "lk_file (lock_turn now p st) = lk_file st"
    and "\<not> owns (lk_writers (lock_turn now p st) p)"
    and "w_pc (lk_writers (lock_turn now p st) p) \<noteq> Sweep_Unlink"
  using assms
  by (cases "w_pc (lk_writers st p)"; auto simp: lock_inv_def lock_turn_defs split: option.splits lock_content.splits)+

lemma lock_inv_quiet:
  assumes "lock_inv st" "lk_file st' = lk_file st" "\<not> owns (lk_writers st p)" "\<not> owns (lk_writers st' p)"
    and "w_alive (lk_writers st' p)" "w_pc (lk_writers st' p) \<noteq> Sweep_Unlink"
    and other: "\<And>q. q \<noteq> p \<Longrightarrow> lk_writers st' q = lk_writers st q"
  shows "lock_inv st'"
proof -
  have same: "owns (lk_writers st' q) \<longleftrightarrow> owns (lk_writers st q)" for q
    using assms(3,4) other[of q] by (cases "q = p") auto
  have "lk_writers st' q = lk_writers st q" if "owns (lk_writers st q)" for q
    using that assms(3) other[of q] by auto
  moreover have "w_alive (lk_writers st' q) \<and> w_pc (lk_writers st' q) \<noteq> Sweep_Unlink" for q
    using assms(1,5,6) other[of q] by (cases "q = p") (auto simp: lock_inv_def)
  ultimately show ?thesis
    using assms(1,2) same unfolding lock_inv_def by (auto split: option.splits; metis)
qed

lemma lock_inv_call: "lock_inv st \<Longrightarrow> may_call p st \<Longrightarrow> lock_inv (lock_call now ms p st)"
  by (rule lock_inv_quiet [of st _ p]) (auto simp: lock_call_def may_call_def owns_def)

lemma lock_inv_create:
  assumes "lock_inv st" "w_pc (lk_writers st p) = Opening" "lk_file st = None"
  shows "lock_inv (lock_turn now p st)"
  using assms by (auto simp: lock_inv_def lock_turn_defs)

lemma lock_inv_file:
  assumes "lock_inv st" "owns (lk_writers st p)"
  shows "\<exists>l. lk_file st = Some l \<and> lf_inode l = w_token (lk_writers st p) \<and>
             lf_content l = owned_content p (lk_writers st p)"
  using assms unfolding lock_inv_def by (auto split: option.splits; metis)

lemma lock_inv_owner:
  assumes "lock_inv st" "owns (lk_writers st p)"
  shows "lock_inv (lock_turn now p st)"
proof -
  obtain l where f: "lk_file st = Some l" "lf_inode l = w_token (lk_writers st p)"
      "lf_content l = owned_content p (lk_writers st p)"
    using lock_inv_file [OF assms] by blast
  have only: "\<not> owns (lk_writers st q)" if "q \<noteq> p" for q
    using assms that unfolding lock_inv_def by metis
  have calm: "w_alive (lk_writers st q)" "w_pc (lk_writers st q) \<noteq> Sweep_Unlink" for q
    using assms(1) by (simp_all add: lock_inv_def)
  show ?thesis
    using assms(2) f only calm
    by (cases "w_pc (lk_writers st p)"; auto simp: lock_inv_def lock_turn_defs)
qed

lemma lock_inv_turn:
  assumes "lock_inv st" "prompt now p st"
  shows "lock_inv (lock_turn now p st)"
proof (cases "owns (lk_writers st p) \<or> w_pc (lk_writers st p) = Opening \<and> lk_file st = None")
  case True
  then show ?thesis using assms lock_inv_owner lock_inv_create by blast
next
  case False
  have alive: "w_alive (lk_writers (lock_turn now p st) p)"
    using assms(1) by (simp add: lock_turn_fields lock_inv_def)
  show ?thesis
    by (rule lock_inv_quiet [OF assms(1), of _ p])
       (use False assms alive in \<open>auto simp: lock_turn_quiet lock_turn_others\<close>)
qed

lemma calm_inv: "calm_run st \<Longrightarrow> lock_inv st"
  by (induction rule: calm_run.induct) (simp_all add: lock_inv_start lock_inv_call lock_inv_turn)

text \<open>
  C27: In a calm run two writers are never inside the critical section of the same file at once, and
  while one of them is there the lock file names it.
\<close>
theorem source_lock_exclusion:
  assumes "calm_run st" "w_pc (lk_writers st p) = Critical"
  shows "(\<forall>q. w_pc (lk_writers st q) = Critical \<longrightarrow> q = p) \<and>
         readLock (lk_file st) = Some (w_token (lk_writers st p), p)"
proof -
  have inv: "lock_inv st" using assms(1) by (rule calm_inv)
  have own: "owns (lk_writers st p)" using assms(2) by (simp add: owns_def)
  have unique: "q = p" if "owns (lk_writers st q)" for q
    using inv own that unfolding lock_inv_def by metis
  obtain l where "lk_file st = Some l" "lf_content l = owned_content p (lk_writers st p)"
    using lock_inv_file [OF inv own] by blast
  then have "readLock (lk_file st) = Some (w_token (lk_writers st p), p)"
    using assms(2) by (simp add: readLock_def owned_content_def)
  moreover have "q = p" if "w_pc (lk_writers st q) = Critical" for q
    using unique that by (simp add: owns_def)
  ultimately show ?thesis by simp
qed

text \<open>Turns of one writer in a row, at the time each of them happens.\<close>

primrec lock_turns :: "int list \<Rightarrow> nat \<Rightarrow> locks \<Rightarrow> locks" where
  "lock_turns [] p st = st"
| "lock_turns (now # nows) p st = lock_turns nows p (lock_turn now p st)"

lemma calm_turn_code:
  "calm_run st \<Longrightarrow> prompt now p st = True \<Longrightarrow> calm_run (lock_turn now p st)"
  "calm_run st \<Longrightarrow> may_call p st = True \<Longrightarrow> calm_run (lock_call now ms p st)"
  by (simp_all add: calm_run.turn calm_run.call)

definition demo_dead :: locks where
  "demo_dead = lock_call 5 0 2 (lock_die 1 (lock_turns [1, 1, 1, 1] 1 (lock_call 0 0 1 no_locks)))"

definition race_locks :: locks where
  "race_locks = lock_turns [8, 8, 8] 3 (lock_turns [7, 7, 7] 2 (lock_turns [6, 6] 3 (lock_turns [6, 6] 2
     (lock_call 5 0 3 demo_dead))))"

definition demo_locked :: locks where
  "demo_locked = lock_turns [2, 3, 4, 5] 2 (lock_call 1 0 2 (lock_turns [1, 1, 1, 1] 1 (lock_call 0 0 1 no_locks)))"

lemmas demo_locks = demo_dead_def demo_locked_def race_locks_def

lemma demo_locked_calm: "calm_run demo_locked"
  unfolding demo_locked_def lock_turns.simps
  by (intro calm_turn_code calm_run.start; simp add: lock_eval)

theorem source_lock_exclusion_witness:
  "w_pc (lk_writers demo_locked 1) = Critical \<and> w_pc (lk_writers demo_locked 2) = Source_Locked \<and>
   readLock (lk_file demo_locked) = Some (1, 1)"
proof -
  have "w_pc (lk_writers demo_locked 1) = Critical" by (simp add: demo_locks lock_eval)
  moreover have "w_pc (lk_writers demo_locked 2) = Source_Locked" by (simp add: demo_locks lock_eval)
  moreover have "w_token (lk_writers demo_locked 1) = 1" by (simp add: demo_locks lock_eval)
  moreover from calculation(1) have "readLock (lk_file demo_locked) = Some (w_token (lk_writers demo_locked 1), 1)"
    by (rule conjunct2 [OF source_lock_exclusion [OF demo_locked_calm]])
  ultimately show ?thesis by simp
qed

section \<open>Stale locks\<close>



lemma run_turn_code:
  "lock_run st \<Longrightarrow> w_alive (lk_writers st p) = True \<Longrightarrow> lock_run (lock_turn now p st)"
  "lock_run st \<Longrightarrow> may_call p st = True \<Longrightarrow> lock_run (lock_call now ms p st)"
  by (simp_all add: lock_run.turn lock_run.call)

text \<open>
  C29: With a dead owner the sweep is not exclusive: two writers may both read the dead pid, and the
  second one then unlinks the lock that the first one has just created. Both are in the critical
  section of the same file, alive, with different tokens.
\<close>
theorem stale_takeover_race:
  "\<exists>st p q. lock_run st \<and> p \<noteq> q \<and> w_alive (lk_writers st p) \<and> w_alive (lk_writers st q) \<and>
     w_pc (lk_writers st p) = Critical \<and> w_pc (lk_writers st q) = Critical"
proof (intro exI conjI)
  show "lock_run race_locks"
    unfolding race_locks_def demo_dead_def lock_turns.simps
    by (intro run_turn_code lock_run.die lock_run.start; simp add: lock_eval)
  show "(2::nat) \<noteq> 3" by simp
  show "w_alive (lk_writers race_locks 2)" "w_alive (lk_writers race_locks 3)" by (simp_all add: demo_locks lock_eval)
  show "w_pc (lk_writers race_locks 2) = Critical" "w_pc (lk_writers race_locks 3) = Critical" by (simp_all add: demo_locks lock_eval)
qed

end
