(* ===== verification/Roll_Selection.thy ===== *)
theory Roll_Selection
  imports Js_Values
begin

text \<open>
  The world roll: which approved concepts and compositions a seed deals
  (\<^verbatim>\<open>scripts/lib/roll-selection.mjs\<close>).

  A selection generator is a \<open>sel\<close>: it is done, or it asks for the digests of a batch of strings and
  goes on with them. The two drivers answer the questions. The digest is a parameter (SHA-256 in
  both runtimes), as is \<^verbatim>\<open>localeCompare\<close>, whose order depends on the locale of the host;
  \<^verbatim>\<open>sort\<close> is stable. Catalog entries have the fields the catalog readers give them; a missing
  or \<^verbatim>\<open>null\<close> field is \<open>None\<close>. \<^verbatim>\<open>reroll\<close> and \<^verbatim>\<open>count\<close> are the natural numbers the callers
  pass.
\<close>

section \<open>Data\<close>

datatype 'a sel = Done 'a | Ask "string list" "string list \<Rightarrow> 'a sel"

record review =
  rv_rating :: "int option"
  rv_breadth :: "string option"
  rv_allowedModes :: "string list option"

record concept =
  co_id :: string
  co_status :: string
  co_wellTier :: "string option"
  co_strength :: "string option"
  co_familyId :: "string option"
  co_review :: "review option"

record composition =
  cp_id :: string
  cp_status :: string
  cp_surface :: "string option"
  cp_familyId :: "string option"
  cp_grain :: "string option"
  cp_platforms :: "string list option"
  cp_review :: "review option"

record roll_match =
  ma_grain :: "string option"
  ma_atGrain :: "nat option"
  ma_grainAvailable :: "nat option"
  ma_platform :: "string option"
  ma_platformExcluded :: nat

type_synonym collation = "string \<Rightarrow> string \<Rightarrow> int"

definition WELL_TIERS :: "string list" where
  "WELL_TIERS = [''graphic'', ''interaction'', ''atmosphere'']"

text \<open>\<^verbatim>\<open>if (option)\<close> for an option that is a string or \<^verbatim>\<open>null\<close>.\<close>

definition given :: "string option \<Rightarrow> bool" where
  "given v = (v \<noteq> None \<and> v \<noteq> Some [])"

definition review_rating :: "review option \<Rightarrow> int option" where
  "review_rating r = (case r of None \<Rightarrow> None | Some v \<Rightarrow> rv_rating v)"

definition review_breadth :: "review option \<Rightarrow> string option" where
  "review_breadth r = (case r of None \<Rightarrow> None | Some v \<Rightarrow> rv_breadth v)"

section \<open>Drivers\<close>

text \<open>\<^verbatim>\<open>yield*\<close>: a generator inside another one.\<close>

primrec sel_bind :: "'a sel \<Rightarrow> ('a \<Rightarrow> 'b sel) \<Rightarrow> 'b sel" where
  "sel_bind (Done a) f = f a"
| "sel_bind (Ask qs k) f = Ask qs (\<lambda>ds. sel_bind (k ds) f)"

primrec runSyncSelection :: "'a sel \<Rightarrow> (string \<Rightarrow> string) \<Rightarrow> 'a" where
  "runSyncSelection (Done a) hash = a"
| "runSyncSelection (Ask qs k) hash = runSyncSelection (k (map hash qs)) hash"

text \<open>\<^verbatim>\<open>await Promise.all(...)\<close>: the digests in order, or the rejection of one of them.\<close>

primrec promise_all :: "'a js list \<Rightarrow> 'a list js" where
  "promise_all [] = Inr []"
| "promise_all (p # ps) = (case p of Inl e \<Rightarrow> Inl e | Inr v \<Rightarrow>
     (case promise_all ps of Inl e \<Rightarrow> Inl e | Inr vs \<Rightarrow> Inr (v # vs)))"

primrec runAsyncSelection :: "'a sel \<Rightarrow> (string \<Rightarrow> string js) \<Rightarrow> 'a js" where
  "runAsyncSelection (Done a) hash = Inr a"
| "runAsyncSelection (Ask qs k) hash =
     (case map_sum id (\<lambda>ds. runAsyncSelection (k ds) hash) (promise_all (map hash qs)) of
        Inl e \<Rightarrow> Inl e | Inr r \<Rightarrow> r)"

section \<open>Ranking\<close>

text \<open>The stable sort of \<^verbatim>\<open>Array.prototype.sort\<close> with a comparison function.\<close>

fun sort_insert :: "('a \<Rightarrow> 'a \<Rightarrow> int) \<Rightarrow> 'a \<Rightarrow> 'a list \<Rightarrow> 'a list" where
  "sort_insert cmp x [] = [x]"
| "sort_insert cmp x (y # ys) = (if cmp x y \<le> 0 then x # y # ys else y # sort_insert cmp x ys)"

definition sort_by_cmp :: "('a \<Rightarrow> 'a \<Rightarrow> int) \<Rightarrow> 'a list \<Rightarrow> 'a list" where
  "sort_by_cmp cmp xs = foldr (sort_insert cmp) xs []"

definition rank_order :: "collation \<Rightarrow> 'a \<times> string \<times> string \<Rightarrow> 'a \<times> string \<times> string \<Rightarrow> int" where
  "rank_order localeCompare a b =
     (case (a, b) of ((_, ida, sa), (_, idb, sb)) \<Rightarrow>
        if localeCompare sb sa \<noteq> 0 then localeCompare sb sa else localeCompare ida idb)"

definition rank :: "collation \<Rightarrow> 'a list \<Rightarrow> string \<Rightarrow> ('a \<Rightarrow> string) \<Rightarrow> 'a list sel" where
  "rank localeCompare items input idFor =
     (let ids = map idFor items
      in Ask (map (\<lambda>i. input @ '':'' @ i) ids)
             (\<lambda>digests. Done (map fst (sort_by_cmp (rank_order localeCompare) (zip items (zip ids digests))))))"

section \<open>Challengers\<close>

definition challengerTickets :: "concept list \<Rightarrow> (concept \<times> nat) list" where
  "challengerTickets pool = concat (map (\<lambda>c.
     let rating = review_rating (co_review c)
     in if rating = Some 1 \<or> review_breadth (co_review c) = Some ''niche'' then []
        else if rating = Some 3 then [(c, 0), (c, 1)] else [(c, 0)]) pool)"

definition modeAllows :: "string \<Rightarrow> concept \<Rightarrow> bool" where
  "modeAllows mode c = (case co_review c of None \<Rightarrow> True | Some r \<Rightarrow>
     (case rv_allowedModes r of None \<Rightarrow> True | Some allowed \<Rightarrow> allowed = [] \<or> mode \<in> set allowed))"

text \<open>The \<^verbatim>\<open>Map\<close> from tier to pool, in insertion order.\<close>

type_synonym tiers = "(string option \<times> concept list) list"

fun push_tier :: "concept \<Rightarrow> tiers \<Rightarrow> tiers" where
  "push_tier c [] = [(co_wellTier c, [c])]"
| "push_tier c ((t, pool) # rest) =
     (if t = co_wellTier c then (t, pool @ [c]) # rest else (t, pool) # push_tier c rest)"

definition approvedByTier :: "concept list \<Rightarrow> tiers" where
  "approvedByTier approved = foldl (\<lambda>m c. push_tier c m) [] approved"

definition tier_pool :: "tiers \<Rightarrow> string \<Rightarrow> concept list" where
  "tier_pool m t = (case map_of m (Some t) of None \<Rightarrow> [] | Some pool \<Rightarrow> pool)"

text \<open>A gate that is skipped for every tier it would empty.\<close>

definition narrow :: "('a \<Rightarrow> bool) \<Rightarrow> 'a list \<Rightarrow> 'a list" where
  "narrow keep pool = (if filter keep pool = [] then pool else filter keep pool)"

definition narrow_tiers :: "(concept \<Rightarrow> bool) \<Rightarrow> tiers \<Rightarrow> tiers" where
  "narrow_tiers keep m = map (\<lambda>(t, pool). (t, narrow keep pool)) m"

definition rating_at_least :: "int \<Rightarrow> concept \<Rightarrow> bool" where
  "rating_at_least minRating c = (case review_rating (co_review c) of None \<Rightarrow> 0 \<ge> minRating | Some r \<Rightarrow> r \<ge> minRating)"

definition wanted_strength :: "string \<Rightarrow> concept \<Rightarrow> bool" where
  "wanted_strength scope c =
     (co_strength c \<in> (if scope = ''direction'' then {Some ''world'', Some ''dual''} else {Some ''composition'', Some ''dual''}))"

definition eligible_tiers :: "string \<Rightarrow> int option \<Rightarrow> string option \<Rightarrow> tiers \<Rightarrow> tiers" where
  "eligible_tiers scope minRating mode m0 =
     (let m1 = (case minRating of None \<Rightarrow> m0 | Some r \<Rightarrow> if r = 0 then m0 else narrow_tiers (rating_at_least r) m0);
          m2 = (if given mode then narrow_tiers (modeAllows (the mode)) m1 else m1)
      in narrow_tiers (wanted_strength scope) m2)"

text \<open>The ranked tickets, each entry once, at its best ticket.\<close>

fun dedup_ranked :: "string list \<Rightarrow> (concept \<times> nat) list \<Rightarrow> concept list" where
  "dedup_ranked seen [] = []"
| "dedup_ranked seen ((c, _) # rest) =
     (if co_id c \<in> set seen then dedup_ranked seen rest else c # dedup_ranked (co_id c # seen) rest)"

text \<open>An empty order does not happen: the pool of a tier is never empty.\<close>

definition first_two :: "concept list \<Rightarrow> concept list" where
  "first_two order = (case order of [] \<Rightarrow> [] | first # _ \<Rightarrow>
     (case find (\<lambda>c. co_familyId c \<noteq> co_familyId first) order of
        Some second \<Rightarrow> [first, second]
      | None \<Rightarrow> (case find (\<lambda>c. co_id c \<noteq> co_id first) order of
           Some second \<Rightarrow> [first, second]
         | None \<Rightarrow> [first])))"

definition tier_tickets :: "string list \<Rightarrow> concept list \<Rightarrow> (concept \<times> nat) list" where
  "tier_tickets excluded all =
     (let fresh = filter (\<lambda>c. co_id c \<notin> set excluded) all;
          pool = (if fresh = [] then all else fresh);
          tickets = challengerTickets pool
      in if tickets = [] then map (\<lambda>c. (c, 0)) pool else tickets)"

definition round_salt :: "nat \<Rightarrow> string" where
  "round_salt rnd = (if rnd = 0 then [] else '':reroll-'' @ nat_str rnd)"

primrec pick_tiers :: "collation \<Rightarrow> string \<Rightarrow> string \<Rightarrow> tiers \<Rightarrow> string list \<Rightarrow> nat \<Rightarrow> string list \<Rightarrow> concept list sel" where
  "pick_tiers lc input salt m excluded index [] = Done []"
| "pick_tiers lc input salt m excluded index (tier # tierOrder) =
     sel_bind (rank lc (tier_tickets excluded (tier_pool m tier))
                 (input @ '':challenger-'' @ nat_str index @ salt)
                 (\<lambda>(c, ticket). co_id c @ ''#'' @ nat_str ticket))
       (\<lambda>ranked. sel_bind (pick_tiers lc input salt m excluded (Suc index) tierOrder)
          (\<lambda>picks. Done (first_two (dedup_ranked [] ranked) @ picks)))"

definition pickRound :: "collation \<Rightarrow> string \<Rightarrow> tiers \<Rightarrow> nat \<Rightarrow> string list \<Rightarrow> concept list sel" where
  "pickRound lc input m rnd excluded =
     sel_bind (rank lc WELL_TIERS (input @ '':tiers'' @ round_salt rnd) id)
       (\<lambda>tierOrder. pick_tiers lc input (round_salt rnd) m excluded 0 tierOrder)"

text \<open>The re-roll chain: every rnd excludes what the earlier ones drew.\<close>

primrec reroll_chain :: "(nat \<Rightarrow> string list \<Rightarrow> 'a list sel) \<Rightarrow> ('a \<Rightarrow> string) \<Rightarrow> nat \<Rightarrow> nat \<Rightarrow> string list \<Rightarrow> 'a list sel" where
  "reroll_chain draw idOf 0 rnd excluded = draw rnd excluded"
| "reroll_chain draw idOf (Suc n) rnd excluded =
     sel_bind (draw rnd excluded) (\<lambda>picks. reroll_chain draw idOf n (Suc rnd) (excluded @ map idOf picks))"

definition missing_tier :: js_error where
  "missing_tier = Thrown ''concept-seed: every challenger tier needs at least one approved concept''"

definition selectApprovedChallengers ::
  "collation \<Rightarrow> string \<Rightarrow> string \<Rightarrow> nat \<Rightarrow> int option \<Rightarrow> string option \<Rightarrow> concept list \<Rightarrow> (concept list \<times> concept list) js sel" where
  "selectApprovedChallengers lc scope key reroll minRating mode concepts =
     (let approved = filter (\<lambda>c. co_status c = ''approved'') concepts;
          m = approvedByTier approved
      in if list_ex (\<lambda>t. tier_pool m t = []) WELL_TIERS then Done (Inl missing_tier)
         else sel_bind
           (reroll_chain (pickRound lc (scope @ '':'' @ key) (eligible_tiers scope minRating mode m)) co_id reroll 0 [])
           (\<lambda>picks. Done (Inr (approved, picks))))"

section \<open>Compositions\<close>

definition emptyMatch :: "string option \<Rightarrow> string option \<Rightarrow> nat \<Rightarrow> roll_match" where
  "emptyMatch grain platform platformExcluded =
     \<lparr>ma_grain = grain, ma_atGrain = (if given grain then Some 0 else None),
      ma_grainAvailable = (if given grain then Some 0 else None), ma_platform = platform,
      ma_platformExcluded = platformExcluded\<rparr>"

definition compositionTickets :: "composition list \<Rightarrow> (composition \<times> nat) list" where
  "compositionTickets pool = concat (map (\<lambda>c.
     let rating = review_rating (cp_review c)
     in if rating = Some 1 then [] else if rating = Some 3 then [(c, 0), (c, 1)] else [(c, 0)]) pool)"

definition survives :: "string \<Rightarrow> composition \<Rightarrow> bool" where
  "survives platform c = (case cp_platforms c of None \<Rightarrow> True | Some only \<Rightarrow> only = [] \<or> platform \<in> set only)"

definition base_tickets :: "composition list \<Rightarrow> (composition \<times> nat) list" where
  "base_tickets base =
     (let tickets = compositionTickets base in if tickets = [] then map (\<lambda>c. (c, 0)) base else tickets)"

definition family_of :: "composition \<Rightarrow> string" where
  "family_of c = (case cp_familyId c of None \<Rightarrow> cp_id c | Some f \<Rightarrow> f)"

definition grain_first :: "string option \<Rightarrow> composition list \<Rightarrow> composition list" where
  "grain_first grain ranked =
     (if given grain then filter (\<lambda>c. cp_grain c = grain) ranked @ filter (\<lambda>c. cp_grain c \<noteq> grain) ranked else ranked)"

text \<open>The two loops of the deal: one entry per family first, then any entry that is not dealt yet.\<close>

fun deal_families :: "nat \<Rightarrow> string list \<Rightarrow> composition list \<Rightarrow> composition list \<Rightarrow> composition list" where
  "deal_families count families picks [] = picks"
| "deal_families count families picks (c # cs) =
     (if family_of c \<in> set families then deal_families count families picks cs
      else if length (picks @ [c]) \<ge> count then picks @ [c]
      else deal_families count (family_of c # families) (picks @ [c]) cs)"

fun top_up :: "nat \<Rightarrow> composition list \<Rightarrow> composition list \<Rightarrow> composition list" where
  "top_up count picks [] = picks"
| "top_up count picks (c # cs) =
     (if length picks \<ge> count then picks
      else top_up count (if cp_id c \<in> cp_id ` set picks then picks else picks @ [c]) cs)"

definition deal_base :: "nat \<Rightarrow> composition list \<Rightarrow> string list \<Rightarrow> composition list" where
  "deal_base count approved prior =
     (let available = filter (\<lambda>c. cp_id c \<notin> set prior) approved
      in if length available \<ge> min count (length approved) then available else approved)"

definition deal_round :: "collation \<Rightarrow> string \<Rightarrow> string option \<Rightarrow> nat \<Rightarrow> composition list \<Rightarrow> nat \<Rightarrow> string list \<Rightarrow> composition list sel" where
  "deal_round lc input grain count approved rnd prior =
     sel_bind (rank lc (base_tickets (deal_base count approved prior)) (input @ '':staging'' @ round_salt rnd)
                 (\<lambda>(c, ticket). cp_id c @ ''#'' @ nat_str ticket))
       (\<lambda>ranked. let ordered = grain_first grain (map fst ranked)
                  in Done (top_up count (deal_families count [] [] ordered) ordered))"

definition broad_compositions :: "composition list \<Rightarrow> composition list" where
  "broad_compositions compositions =
     narrow (\<lambda>c. review_breadth (cp_review c) \<noteq> Some ''niche'') (filter (\<lambda>c. cp_status c = ''approved'') compositions)"

definition selectApprovedCompositions ::
  "collation \<Rightarrow> string \<Rightarrow> string \<Rightarrow> nat \<Rightarrow> string option \<Rightarrow> string option \<Rightarrow> string option \<Rightarrow> composition list \<Rightarrow> nat
    \<Rightarrow> (composition list \<times> roll_match) sel" where
  "selectApprovedCompositions lc scope key reroll mode grain platform compositions count =
     (let approved0 = broad_compositions compositions;
          approved1 = (if given mode then filter (\<lambda>c. cp_surface c = mode) approved0 else approved0);
          approved = (if given platform then filter (survives (the platform)) approved1 else approved1);
          platformExcluded = length approved1 - length approved
      in if approved0 = [] \<or> approved1 = [] then Done ([], emptyMatch grain platform 0)
         else if approved = [] then Done ([], emptyMatch grain platform platformExcluded)
         else sel_bind (reroll_chain (deal_round lc (scope @ '':'' @ key) grain count approved) cp_id reroll 0 [])
           (\<lambda>picks. Done (picks,
              \<lparr>ma_grain = grain,
               ma_atGrain = (if given grain then Some (length (filter (\<lambda>c. cp_grain c = grain) picks)) else None),
               ma_grainAvailable = (if given grain then Some (length (filter (\<lambda>c. cp_grain c = grain) approved)) else None),
               ma_platform = platform, ma_platformExcluded = platformExcluded\<rparr>)))"

end
