(* ===== verification/Roll_Properties.thy ===== *)
theory Roll_Properties
  imports Roll_Selection
begin

text \<open>
  What a roll deals: both drivers give the same roll, challengers come from every tier, and
  compositions survive the platform they are dealt for.
\<close>

section \<open>Drivers\<close>

lemma run_bind [simp]:
  "runSyncSelection (sel_bind g f) hash = runSyncSelection (f (runSyncSelection g hash)) hash"
  by (induction g) simp_all

lemma promise_all_resolved: "promise_all (map (\<lambda>s. Inr (hash s)) qs) = Inr (map hash qs)"
  by (induction qs) simp_all

lemma async_sync: "runAsyncSelection g (\<lambda>s. Inr (hash s)) = Inr (runSyncSelection g hash)"
  by (induction g) (simp_all add: promise_all_resolved)

text \<open>
  Driven with an asynchronous digest that resolves to the synchronous one, a selection gives the
  same roll, challengers and compositions alike.
\<close>
theorem roll_same_either_way:
  "runAsyncSelection (selectApprovedChallengers lc scope key reroll minRating mode concepts) (\<lambda>s. Inr (hash s)) =
     Inr (runSyncSelection (selectApprovedChallengers lc scope key reroll minRating mode concepts) hash) \<and>
   runAsyncSelection (selectApprovedCompositions lc scope key reroll mode grain platform compositions n) (\<lambda>s. Inr (hash s)) =
     Inr (runSyncSelection (selectApprovedCompositions lc scope key reroll mode grain platform compositions n) hash)"
  by (simp add: async_sync)

section \<open>Ranking\<close>

lemma set_sort_insert [simp]: "set (sort_insert cmp x ys) = insert x (set ys)"
  by (induction cmp x ys rule: sort_insert.induct) auto

lemma length_sort_insert [simp]: "length (sort_insert cmp x ys) = Suc (length ys)"
  by (induction cmp x ys rule: sort_insert.induct) auto

lemma sort_by_cmp [simp]: "set (sort_by_cmp cmp xs) = set xs" "length (sort_by_cmp cmp xs) = length xs"
  unfolding sort_by_cmp_def by (induction xs) simp_all

lemma run_rank [simp]:
  "set (runSyncSelection (rank lc items input idFor) hash) = set items"
  "length (runSyncSelection (rank lc items input idFor) hash) = length items"
proof -
  have firsts: "fst ` set (zip items (zip (map idFor items) ds)) = set items" if "length ds = length items" for ds
    using that by (metis list.set_map map_fst_zip length_map length_zip min.idem)
  show "set (runSyncSelection (rank lc items input idFor) hash) = set items"
    by (simp add: rank_def Let_def firsts)
  show "length (runSyncSelection (rank lc items input idFor) hash) = length items"
    by (simp add: rank_def Let_def)
qed

lemma distinct_rank: "distinct items \<Longrightarrow> distinct (runSyncSelection (rank lc items input idFor) hash)"
  by (metis card_distinct distinct_card run_rank)

section \<open>Tiers\<close>

lemma tier_pool_push: "tier_pool (push_tier c m) t = (if co_wellTier c = Some t then tier_pool m t @ [c] else tier_pool m t)"
  by (induction c m rule: push_tier.induct) (auto simp: tier_pool_def)

lemma tier_pool_approved: "tier_pool (approvedByTier cs) t = filter (\<lambda>c. co_wellTier c = Some t) cs"
proof (induction cs rule: rev_induct)
  case Nil
  show ?case by (simp add: approvedByTier_def tier_pool_def)
next
  case (snoc c cs)
  then show ?case by (simp add: approvedByTier_def tier_pool_push)
qed

lemma narrow_Nil [simp]: "narrow keep [] = []"
  by (simp add: narrow_def)

lemma narrow_eq_Nil [simp]: "narrow keep pool = [] \<longleftrightarrow> pool = []"
  by (auto simp: narrow_def)

lemma set_narrow: "set (narrow keep pool) \<subseteq> set pool"
  by (auto simp: narrow_def)

lemma narrow_keeps: "c \<in> set pool \<Longrightarrow> keep c \<Longrightarrow> x \<in> set (narrow keep pool) \<Longrightarrow> keep x"
  by (auto simp: narrow_def filter_empty_conv split: if_splits)

lemma tier_pool_narrow: "tier_pool (narrow_tiers keep m) t = narrow keep (tier_pool m t)"
proof -
  have "map_of (narrow_tiers keep m) k = map_option (narrow keep) (map_of m k)" for k
    by (induction m) (auto simp: narrow_tiers_def)
  then show ?thesis by (simp add: tier_pool_def split: option.splits)
qed

text \<open>The pool a tier draws from: each gate in turn, skipped where it would empty the tier.\<close>

definition rating_gate :: "int option \<Rightarrow> concept \<Rightarrow> bool" where
  "rating_gate minRating c = (case minRating of None \<Rightarrow> True | Some r \<Rightarrow> r = 0 \<or> rating_at_least r c)"

definition mode_gate :: "string option \<Rightarrow> concept \<Rightarrow> bool" where
  "mode_gate mode c = (given mode \<longrightarrow> modeAllows (the mode) c)"

lemma narrow_True: "narrow (\<lambda>_. True) pool = pool"
  by (simp add: narrow_def)

lemma eligible_pool:
  "tier_pool (eligible_tiers scope minRating mode m) t =
     narrow (wanted_strength scope) (narrow (mode_gate mode) (narrow (rating_gate minRating) (tier_pool m t)))"
  by (cases minRating; cases "given mode"; cases "minRating = Some 0")
     (auto simp: eligible_tiers_def Let_def tier_pool_narrow rating_gate_def [abs_def] mode_gate_def [abs_def] narrow_True)

lemma eligible_nonempty: "tier_pool (eligible_tiers scope minRating mode m) t = [] \<longleftrightarrow> tier_pool m t = []"
  by (simp add: eligible_pool)

lemma eligible_subset: "set (tier_pool (eligible_tiers scope minRating mode m) t) \<subseteq> set (tier_pool m t)"
  unfolding eligible_pool using set_narrow by (metis subset_trans)

section \<open>Challengers\<close>

text \<open>
  A good draw from candidates: one or two of them, two different ones when there are two, and of
  two families when the candidates have two.
\<close>

definition good_draw :: "concept list \<Rightarrow> concept list \<Rightarrow> bool" where
  "good_draw cands g \<longleftrightarrow> set g \<subseteq> set cands \<and> distinct g \<and>
     (\<exists>a b. g = [a, b] \<and> (co_familyId a = co_familyId b \<longrightarrow> (\<forall>c \<in> set cands. co_familyId c = co_familyId a)) \<or>
            g = [a] \<and> set cands = {a})"

lemma dedup_ranked_spec:
  "distinct (map co_id (dedup_ranked seen ranked)) \<and> co_id ` set (dedup_ranked seen ranked) = co_id ` fst ` set ranked - set seen \<and>
   set (dedup_ranked seen ranked) \<subseteq> fst ` set ranked"
  by (induction seen ranked rule: dedup_ranked.induct) auto

lemma set_dedup_ranked:
  assumes "inj_on co_id (fst ` set ranked)"
  shows "set (dedup_ranked [] ranked) = fst ` set ranked"
proof -
  have "co_id ` set (dedup_ranked [] ranked) = co_id ` fst ` set ranked" "set (dedup_ranked [] ranked) \<subseteq> fst ` set ranked"
    using dedup_ranked_spec [of "[]" ranked] by simp_all
  then show ?thesis using assms by (metis inj_on_image_eq_iff subset_refl)
qed

lemma find_Some_iff': "find P xs = Some x \<Longrightarrow> x \<in> set xs \<and> P x"
  by (induction xs) (auto split: if_splits)

lemma first_two_good:
  assumes "order \<noteq> []" "inj_on co_id (set order)"
  shows "good_draw order (first_two order)"
proof -
  obtain a rest where order: "order = a # rest" using assms(1) by (cases order) auto
  show ?thesis
  proof (cases "find (\<lambda>c. co_familyId c \<noteq> co_familyId a) order")
    case (Some b)
    then have "b \<in> set order" "co_familyId b \<noteq> co_familyId a" by (auto dest: find_Some_iff')
    then show ?thesis
      using Some by (auto simp: good_draw_def first_two_def order)
  next
    case None
    then have fam: "\<forall>c \<in> set order. co_familyId c = co_familyId a" by (simp add: find_None_iff)
    show ?thesis
    proof (cases "find (\<lambda>c. co_id c \<noteq> co_id a) order")
      case (Some b)
      then have "b \<in> set order" "co_id b \<noteq> co_id a" by (auto dest: find_Some_iff')
      then have "set [a, b] \<subseteq> set order" "distinct [a, b]" using order by auto
      moreover have "first_two order = [a, b]" using Some None by (simp add: first_two_def order)
      ultimately show ?thesis using fam unfolding good_draw_def by metis
    next
      case no: None
      then have "\<forall>c \<in> set order. co_id c = co_id a" by (simp add: find_None_iff)
      then have "set order = {a}" using assms(2) order by (auto simp: inj_on_def)
      then show ?thesis using None no by (simp add: good_draw_def first_two_def order)
    qed
  qed
qed

lemma good_draw_set: "set cands = set cands' \<Longrightarrow> good_draw cands g = good_draw cands' g"
  by (simp add: good_draw_def)

lemma challengerTickets_sub: "fst ` set (challengerTickets pool) \<subseteq> set pool"
  by (auto simp: challengerTickets_def Let_def split: if_splits)

lemma tier_tickets_sub: "fst ` set (tier_tickets excluded pool) \<subseteq> set pool"
  using challengerTickets_sub [of pool] challengerTickets_sub [of "filter (\<lambda>c. co_id c \<notin> set excluded) pool"]
  by (auto simp: tier_tickets_def Let_def)

lemma tier_tickets_ne: "pool \<noteq> [] \<Longrightarrow> tier_tickets excluded pool \<noteq> []"
  by (auto simp: tier_tickets_def Let_def)

definition candidates :: "tiers \<Rightarrow> string list \<Rightarrow> string \<Rightarrow> concept list" where
  "candidates m excluded t = map fst (tier_tickets excluded (tier_pool m t))"

lemma tier_draw_good:
  assumes "tier_pool m t \<noteq> []" "inj_on co_id (set (tier_pool m t))" "set ranked = set (tier_tickets excluded (tier_pool m t))"
  shows "good_draw (candidates m excluded t) (first_two (dedup_ranked [] ranked))"
proof -
  have inj: "inj_on co_id (fst ` set ranked)"
    using assms(2,3) tier_tickets_sub by (metis inj_on_subset)
  have set_eq: "set (dedup_ranked [] ranked) = set (candidates m excluded t)"
    using set_dedup_ranked [OF inj] assms(3) by (simp add: candidates_def)
  moreover have "dedup_ranked [] ranked \<noteq> []"
    using set_eq tier_tickets_ne [OF assms(1), of excluded] by (auto simp: candidates_def)
  moreover have "inj_on co_id (set (dedup_ranked [] ranked))"
    using inj assms(3) set_eq by (simp add: candidates_def)
  ultimately show ?thesis using first_two_good good_draw_set by metis
qed

lemma pick_tiers_spec:
  assumes "\<forall>t \<in> set tierOrder. tier_pool m t \<noteq> [] \<and> inj_on co_id (set (tier_pool m t))"
  shows "\<exists>gs. runSyncSelection (pick_tiers lc input salt m excluded index tierOrder) hash = concat gs \<and>
              list_all2 (\<lambda>t g. good_draw (candidates m excluded t) g) tierOrder gs"
  using assms
proof (induction tierOrder arbitrary: index)
  case Nil
  show ?case by simp
next
  case (Cons t ts)
  then obtain gs where gs: "runSyncSelection (pick_tiers lc input salt m excluded (Suc index) ts) hash = concat gs"
      "list_all2 (\<lambda>t g. good_draw (candidates m excluded t) g) ts gs"
    by (metis list.set_intros(2))
  define ranked where "ranked = runSyncSelection (rank lc (tier_tickets excluded (tier_pool m t))
     (input @ '':challenger-'' @ nat_str index @ salt) (\<lambda>(c, ticket). co_id c @ ''#'' @ nat_str ticket)) hash"
  have "good_draw (candidates m excluded t) (first_two (dedup_ranked [] ranked))"
    using Cons.prems by (intro tier_draw_good) (auto simp: ranked_def)
  then show ?case
    using gs by (intro exI [of _ "first_two (dedup_ranked [] ranked) # gs"]) (simp add: ranked_def)
qed

lemma chain_last:
  "\<exists>ex. runSyncSelection (reroll_chain draw idOf n r excluded) hash = runSyncSelection (draw (r + n) ex) hash \<and>
        (n = 0 \<longrightarrow> ex = excluded)"
proof (induction n arbitrary: r excluded)
  case (Suc n)
  from Suc.IH [of "Suc r" "excluded @ map idOf (runSyncSelection (draw r excluded) hash)"]
  show ?case by auto
qed simp

lemma group_of_tier:
  assumes "list_all2 P ts gs" "distinct ts" "t \<in> set ts" "\<And>t g c. P t g \<Longrightarrow> c \<in> set g \<Longrightarrow> tier c = t"
  shows "P t (filter (\<lambda>c. tier c = t) (concat gs))"
  using assms(1-3)
proof (induction ts gs rule: list_all2_induct)
  case (Cons u ts g gs)
  have here: "filter (\<lambda>c. tier c = u) g = g" using assms(4) Cons.hyps(1) by (simp add: filter_id_conv)
  have later: "\<exists>t \<in> set ts. tier c = t" if "c \<in> set (concat gs)" for c
  proof -
    obtain h where "h \<in> set gs" "c \<in> set h" using \<open>c \<in> set (concat gs)\<close> by auto
    moreover obtain t where "t \<in> set ts" "P t h"
      using Cons.hyps(2) \<open>h \<in> set gs\<close> by (metis list_all2_conv_all_nth in_set_conv_nth)
    ultimately show ?thesis using assms(4) by blast
  qed
  show ?case
  proof (cases "t = u")
    case True
    have "filter (\<lambda>c. tier c = u) (concat gs) = []"
      using later Cons.prems(1) by (auto simp: filter_empty_conv)
    then show ?thesis using True here Cons.hyps(1) by simp
  next
    case False
    then have "filter (\<lambda>c. tier c = t) g = []"
      using assms(4) [OF Cons.hyps(1)] by (auto simp: filter_empty_conv)
    then show ?thesis using False Cons by simp
  qed
qed simp

lemma candidates_sub: "set (candidates m excluded t) \<subseteq> set (tier_pool m t)"
  using tier_tickets_sub by (simp add: candidates_def)

lemma pickRound_spec:
  assumes tiers: "\<And>t. t \<in> set WELL_TIERS \<Longrightarrow> tier_pool m t \<noteq> []" and inj: "\<And>t. inj_on co_id (set (tier_pool m t))"
    and own: "\<And>t c. c \<in> set (tier_pool m t) \<Longrightarrow> co_wellTier c = Some t"
    and t: "t \<in> set WELL_TIERS"
    and picks_def: "picks = runSyncSelection (pickRound lc input m r excluded) hash"
  shows "good_draw (candidates m excluded t) (filter (\<lambda>c. co_wellTier c = Some t) picks)"
    and "c \<in> set picks \<Longrightarrow> \<exists>u \<in> set WELL_TIERS. c \<in> set (candidates m excluded u)"
proof -
  define tierOrder where "tierOrder = runSyncSelection (rank lc WELL_TIERS (input @ '':tiers'' @ round_salt r) id) hash"
  have order: "set tierOrder = set WELL_TIERS" "distinct tierOrder"
    by (simp_all add: tierOrder_def distinct_rank WELL_TIERS_def)
  obtain gs where gs: "picks = concat gs" "list_all2 (\<lambda>t g. good_draw (candidates m excluded t) g) tierOrder gs"
    using pick_tiers_spec [of tierOrder m lc input "round_salt r" excluded 0 hash] tiers inj order
    by (auto simp: picks_def pickRound_def tierOrder_def)
  then have all2: "list_all2 (\<lambda>u g. \<exists>t. u = Some t \<and> good_draw (candidates m excluded t) g) (map Some tierOrder) gs"
    by (simp add: list_all2_map1)
  have "co_wellTier c = u" if "\<exists>t. u = Some t \<and> good_draw (candidates m excluded t) g" "c \<in> set g" for u g c
    using that own candidates_sub by (fastforce simp: good_draw_def)
  from group_of_tier [OF all2 _ _ this, of "Some t"] order t gs(1)
  show "good_draw (candidates m excluded t) (filter (\<lambda>c. co_wellTier c = Some t) picks)"
    by (simp add: distinct_map)
  show "\<exists>u \<in> set WELL_TIERS. c \<in> set (candidates m excluded u)" if c: "c \<in> set picks"
  proof -
    obtain g where "g \<in> set gs" "c \<in> set g" using c gs(1) by auto
    moreover obtain u where "u \<in> set tierOrder" "good_draw (candidates m excluded u) g"
      using gs(2) \<open>g \<in> set gs\<close> by (metis list_all2_conv_all_nth in_set_conv_nth)
    ultimately show ?thesis using order(1) by (auto simp: good_draw_def)
  qed
qed

lemma mode_respected:
  assumes "given mode" "x \<in> set (tier_pool (eligible_tiers scope None mode m) t)"
    "c \<in> set (tier_pool m t)" "modeAllows (the mode) c"
  shows "modeAllows (the mode) x"
proof -
  have "narrow (rating_gate None) (tier_pool m t) = tier_pool m t"
    by (simp add: rating_gate_def [abs_def] narrow_True)
  then have "x \<in> set (narrow (mode_gate mode) (tier_pool m t))"
    using assms(2) set_narrow by (metis eligible_pool subsetD)
  then show ?thesis
    using narrow_keeps [of c "tier_pool m t" "mode_gate mode" x] assms(1,3,4) by (simp add: mode_gate_def)
qed

text \<open>
  C30: A roll of challengers fails exactly when a tier has no approved concept. Otherwise every
  challenger is an approved concept, and each of the three tiers deals one or two of its candidates:
  two different ones when there are two, and of different families unless all candidates are of one
  family. A challenger allows the requested mode whenever its tier has an approved concept that does.
\<close>
theorem challengers_roll:
  assumes "distinct (map co_id concepts)"
  shows "case runSyncSelection (selectApprovedChallengers lc scope key reroll minRating mode concepts) hash of
      Inl e \<Rightarrow> e = missing_tier \<and>
        (\<exists>t \<in> set WELL_TIERS. \<forall>c \<in> set concepts. co_status c = ''approved'' \<longrightarrow> co_wellTier c \<noteq> Some t)
    | Inr (approved, picks) \<Rightarrow> approved = filter (\<lambda>c. co_status c = ''approved'') concepts \<and> set picks \<subseteq> set approved \<and>
        (\<exists>excluded. (reroll = 0 \<longrightarrow> excluded = []) \<and> (\<forall>t \<in> set WELL_TIERS.
           good_draw (candidates (eligible_tiers scope minRating mode (approvedByTier approved)) excluded t)
                     (filter (\<lambda>c. co_wellTier c = Some t) picks))) \<and>
        (given mode \<and> minRating = None \<longrightarrow> (\<forall>p \<in> set picks. \<forall>c \<in> set approved.
           co_wellTier c = co_wellTier p \<and> modeAllows (the mode) c \<longrightarrow> modeAllows (the mode) p))"
proof -
  define approved where "approved = filter (\<lambda>c. co_status c = ''approved'') concepts"
  define m where "m = approvedByTier approved"
  define m' where "m' = eligible_tiers scope minRating mode m"
  have pool: "tier_pool m t = filter (\<lambda>c. co_wellTier c = Some t) approved" for t
    by (simp add: m_def tier_pool_approved)
  have sub: "set (tier_pool m' t) \<subseteq> set (tier_pool m t)" for t
    by (simp add: m'_def eligible_subset)
  show ?thesis
  proof (cases "list_ex (\<lambda>t. tier_pool m t = []) WELL_TIERS")
    case True
    then show ?thesis
      by (auto simp: selectApprovedChallengers_def Let_def list_ex_iff approved_def m_def tier_pool_approved filter_empty_conv)
  next
    case False
    obtain ex where ex: "reroll = 0 \<longrightarrow> ex = []"
        "runSyncSelection (selectApprovedChallengers lc scope key reroll minRating mode concepts) hash =
         Inr (approved, runSyncSelection (pickRound lc (scope @ '':'' @ key) m' reroll ex) hash)"
      using chain_last [of "pickRound lc (scope @ '':'' @ key) m'" co_id reroll 0 "[]" hash] False
      by (auto simp: selectApprovedChallengers_def Let_def approved_def m_def m'_def)
    define picks where "picks = runSyncSelection (pickRound lc (scope @ '':'' @ key) m' reroll ex) hash"
    have inj: "inj_on co_id (set (tier_pool m' t))" for t
      using assms sub [of t] by (auto simp: distinct_map pool approved_def intro: inj_on_subset)
    have own: "co_wellTier c = Some t" if "c \<in> set (tier_pool m' t)" for t c
      using that sub [of t] by (auto simp: pool)
    have ne: "tier_pool m' t \<noteq> []" if "t \<in> set WELL_TIERS" for t
      using that False by (simp add: m'_def eligible_nonempty list_ex_iff)
    note spec = pickRound_spec [where m = m', OF _ inj _ _ picks_def]
    have drawn: "\<exists>u. c \<in> set (tier_pool m' u)" if "c \<in> set picks" for c
    proof -
      have "''graphic'' \<in> set WELL_TIERS" by (simp add: WELL_TIERS_def)
      then show ?thesis using spec(2) [OF ne own _ that] candidates_sub by blast
    qed
    have "set picks \<subseteq> set approved"
      using drawn sub by (fastforce simp: pool)
    moreover have "modeAllows (the mode) p"
      if gate: "given mode" "minRating = None" "p \<in> set picks" "c \<in> set approved" "co_wellTier c = co_wellTier p"
        "modeAllows (the mode) c" for p c
    proof -
      obtain u where u: "p \<in> set (tier_pool m' u)" using drawn gate(3) by blast
      then have "c \<in> set (tier_pool m u)" using own [OF u] gate(4,5) by (simp add: pool)
      then show ?thesis using mode_respected u gate(1,2,6) by (simp add: m'_def)
    qed
    moreover have "\<forall>t \<in> set WELL_TIERS. good_draw (candidates m' ex t) (filter (\<lambda>c. co_wellTier c = Some t) picks)"
      using spec(1) [OF ne own] by blast
    moreover have "runSyncSelection (selectApprovedChallengers lc scope key reroll minRating mode concepts) hash = Inr (approved, picks)"
      using ex(2) by (simp only: picks_def)
    ultimately show ?thesis
      using ex(1) unfolding approved_def [symmetric] m'_def m_def by (simp only: sum.case prod.case) blast
  qed
qed

definition demo_concept :: "string \<Rightarrow> string \<Rightarrow> string \<Rightarrow> concept" where
  "demo_concept i tier fam = \<lparr>co_id = i, co_status = ''approved'', co_wellTier = Some tier, co_strength = Some ''dual'',
     co_familyId = Some fam, co_review = None\<rparr>"

definition demo_concepts :: "concept list" where
  "demo_concepts = [demo_concept ''a'' ''graphic'' ''f'', demo_concept ''b'' ''graphic'' ''f'', demo_concept ''c'' ''graphic'' ''g'',
     demo_concept ''d'' ''interaction'' ''f'', demo_concept ''e'' ''atmosphere'' ''f'']"

definition code_unit_order :: collation where
  "code_unit_order a b = (if a = b then 0 else if str_less a b then - 1 else 1)"

theorem challengers_roll_witness:
  "(case runSyncSelection (selectApprovedChallengers code_unit_order ''direction'' ''k'' 0 None None demo_concepts) (\<lambda>s. s) of
      Inl e \<Rightarrow> False
    | Inr (approved, picks) \<Rightarrow> set picks \<subseteq> set approved \<and> map co_id picks = [''d'', ''c'', ''b'', ''e''])"
proof -
  have "distinct (map co_id demo_concepts)" by code_simp
  note roll = challengers_roll [OF this, where lc = code_unit_order and scope = "''direction''" and key = "''k''"
      and reroll = 0 and minRating = None and mode = None and hash = "\<lambda>s. s"]
  have "case runSyncSelection (selectApprovedChallengers code_unit_order ''direction'' ''k'' 0 None None demo_concepts) (\<lambda>s. s) of
      Inl e \<Rightarrow> False | Inr (approved, picks) \<Rightarrow> map co_id picks = [''d'', ''c'', ''b'', ''e'']"
    by code_simp
  with roll show ?thesis by (auto split: sum.splits)
qed

section \<open>Compositions\<close>

lemma deal_families_spec:
  assumes "distinct (map family_of picks)" "set families = family_of ` set picks" "picks = [] \<or> length picks < n"
    and F_def: "F = deal_families n families picks os"
  shows "distinct (map family_of F) \<and> set F \<subseteq> set picks \<union> set os \<and> set picks \<subseteq> set F \<and> length F \<le> max 1 n \<and>
         (n \<le> length F \<or> family_of ` set os \<subseteq> family_of ` set F) \<and> (os \<noteq> [] \<longrightarrow> F \<noteq> [])"
  using assms(1-3) unfolding F_def
proof (induction n families picks os rule: deal_families.induct)
  case (2 n families picks c cs)
  show ?case
  proof (cases "family_of c \<in> set families")
    case True
    then have "picks \<noteq> []" using 2(4) by auto
    then show ?thesis using True 2(1) 2(3-5) by (auto simp: subset_iff)
  next
    case new: False
    show ?thesis
    proof (cases "length (picks @ [c]) \<ge> n")
      case True
      then show ?thesis using new 2(3-5) by auto
    next
      case False
      have "distinct (map family_of (picks @ [c]))" "set (family_of c # families) = family_of ` set (picks @ [c])"
          "picks @ [c] = [] \<or> length (picks @ [c]) < n"
        using new False 2(3-5) by auto
      from 2(2) [OF new False this] show ?thesis using new False by auto
    qed
  qed
qed auto

lemma top_up_spec:
  assumes "distinct (map cp_id picks)"
    and T_def: "T = top_up n picks os"
  shows "distinct (map cp_id T) \<and> set T \<subseteq> set picks \<union> set os \<and> set picks \<subseteq> set T \<and> length T \<le> max (length picks) n \<and>
         (n \<le> length T \<or> cp_id ` set os \<subseteq> cp_id ` set T) \<and> (n \<le> length picks \<longrightarrow> T = picks)"
  using assms(1) unfolding T_def
proof (induction n picks os rule: top_up.induct)
  case (2 n picks c cs)
  show ?case
  proof (cases "n \<le> length picks")
    case False
    define picks' where "picks' = (if cp_id c \<in> cp_id ` set picks then picks else picks @ [c])"
    have "distinct (map cp_id picks')" "cp_id c \<in> cp_id ` set picks'" "set picks \<subseteq> set picks'" "set picks' \<subseteq> insert c (set picks)"
        "length picks' \<le> n"
      using 2(2) False by (auto simp: picks'_def)
    moreover note 2(1) [OF False, folded picks'_def, OF calculation(1)]
    ultimately show ?thesis using False by (auto simp: picks'_def [symmetric])
  qed (use 2 in auto)
qed auto

text \<open>
  A full deal from candidates: as many different ones as asked for or as there are, and either of
  pairwise different families or of every family there is.
\<close>

definition full_deal :: "nat \<Rightarrow> composition set \<Rightarrow> composition list \<Rightarrow> bool" where
  "full_deal n cands picks \<longleftrightarrow> set picks \<subseteq> cands \<and> distinct picks \<and> length picks = min n (card cands) \<and>
     (distinct (map family_of picks) \<or> family_of ` cands \<subseteq> family_of ` set picks)"

lemma deal_full:
  assumes "os \<noteq> []" "inj_on cp_id (set os)" "0 < n"
  shows "full_deal n (set os) (top_up n (deal_families n [] [] os) os)"
proof -
  define F where "F = deal_families n [] [] os"
  define T where "T = top_up n F os"
  have F: "distinct (map family_of F)" "set F \<subseteq> set os" "length F \<le> max 1 n"
      "n \<le> length F \<or> family_of ` set os \<subseteq> family_of ` set F" "F \<noteq> []"
    using deal_families_spec [of "[]" "[]" n F os] assms(1) by (simp_all add: F_def)
  have "distinct (map cp_id F)"
    using F(1,2) assms(2) by (auto simp: distinct_map intro: inj_on_subset)
  then have T: "distinct (map cp_id T)" "set T \<subseteq> set os" "set F \<subseteq> set T" "length T \<le> max (length F) n"
      "n \<le> length T \<or> cp_id ` set os \<subseteq> cp_id ` set T" "n \<le> length F \<longrightarrow> T = F"
    using top_up_spec [of F T n os] F(2) by (auto simp: T_def)
  have dT: "distinct T" using T(1) by (simp add: distinct_map)
  have len: "length T = card (set T)" by (simp add: dT distinct_card)
  have le: "card (set T) \<le> card (set os)" using T(2) by (simp add: card_mono)
  have "T \<noteq> []" using F(5) T(3) by auto
  then have ge: "1 \<le> length T" by (simp add: Suc_le_eq)
  have "length T = min n (card (set os))"
  proof (cases "n \<le> length T")
    case True
    then show ?thesis using T(4) F(3) ge len le assms(3) by linarith
  next
    case False
    then have "set T = set os"
      using T(2,5) assms(2) by (metis inj_on_image_eq_iff image_mono subset_antisym subset_refl)
    then show ?thesis using False len ge by simp
  qed
  moreover have "distinct (map family_of T) \<or> family_of ` set os \<subseteq> family_of ` set T"
    using F(1,4) T(3,6) by (metis image_mono subset_trans)
  ultimately show ?thesis using T(2) dT by (simp add: full_deal_def T_def F_def)
qed

lemma base_tickets_sub: "fst ` set (base_tickets base) \<subseteq> set base"
  by (auto simp: base_tickets_def Let_def compositionTickets_def split: if_splits)

lemma base_tickets_ne: "base \<noteq> [] \<Longrightarrow> base_tickets base \<noteq> []"
  by (simp add: base_tickets_def Let_def)

lemma deal_base_sub: "set (deal_base n approved prior) \<subseteq> set approved"
  by (auto simp: deal_base_def Let_def)

lemma deal_base_ne: "approved \<noteq> [] \<Longrightarrow> 0 < n \<Longrightarrow> deal_base n approved prior \<noteq> []"
  by (auto simp: deal_base_def Let_def min_def split: if_splits)

definition deal_candidates :: "nat \<Rightarrow> composition list \<Rightarrow> string list \<Rightarrow> composition set" where
  "deal_candidates n approved prior = fst ` set (base_tickets (deal_base n approved prior))"

lemma deal_candidates_sub: "deal_candidates n approved prior \<subseteq> set approved"
  using base_tickets_sub deal_base_sub unfolding deal_candidates_def by (metis subset_trans)

lemma set_grain_first: "set (grain_first grain cs) = set cs"
  by (auto simp: grain_first_def)

lemma deal_round_full:
  assumes "approved \<noteq> []" "0 < n" "inj_on cp_id (set approved)"
  shows "full_deal n (deal_candidates n approved prior)
           (runSyncSelection (deal_round lc input grain n approved r prior) hash)"
proof -
  define ranked where "ranked = runSyncSelection (rank lc (base_tickets (deal_base n approved prior))
     (input @ '':staging'' @ round_salt r) (\<lambda>(c, ticket). cp_id c @ ''#'' @ nat_str ticket)) hash"
  define os where "os = grain_first grain (map fst ranked)"
  have os: "set os = deal_candidates n approved prior"
    by (simp add: os_def set_grain_first ranked_def deal_candidates_def)
  have "os \<noteq> []"
    using os base_tickets_ne [OF deal_base_ne [OF assms(1,2)], of prior]
    by (metis deal_candidates_def image_is_empty list.set(1) set_empty)
  moreover have "inj_on cp_id (set os)" using assms(3) deal_candidates_sub os by (metis inj_on_subset)
  ultimately have "full_deal n (deal_candidates n approved prior) (top_up n (deal_families n [] [] os) os)"
    using deal_full assms(2) os by metis
  then show ?thesis
    by (simp add: deal_round_def Let_def os_def ranked_def)
qed

definition eligible_composition :: "string option \<Rightarrow> string option \<Rightarrow> composition \<Rightarrow> bool" where
  "eligible_composition mode platform c \<longleftrightarrow> (given mode \<longrightarrow> cp_surface c = mode) \<and> (given platform \<longrightarrow> survives (the platform) c)"

definition composition_pool :: "string option \<Rightarrow> string option \<Rightarrow> composition list \<Rightarrow> composition list" where
  "composition_pool mode platform compositions = filter (eligible_composition mode platform) (broad_compositions compositions)"

lemma compositions_run:
  assumes "approved = composition_pool mode platform compositions"
  shows "\<exists>ex. (reroll = 0 \<longrightarrow> ex = []) \<and>
    runSyncSelection (selectApprovedCompositions lc scope key reroll mode grain platform compositions n) hash =
    (if approved = [] then ([], emptyMatch grain platform (length (composition_pool mode None compositions)))
     else (let picks = runSyncSelection (deal_round lc (scope @ '':'' @ key) grain n approved reroll ex) hash
           in (picks, \<lparr>ma_grain = grain,
               ma_atGrain = (if given grain then Some (length (filter (\<lambda>c. cp_grain c = grain) picks)) else None),
               ma_grainAvailable = (if given grain then Some (length (filter (\<lambda>c. cp_grain c = grain) approved)) else None),
               ma_platform = platform,
               ma_platformExcluded = length (composition_pool mode None compositions) - length approved\<rparr>)))"
proof -
  define a1 where "a1 = (if given mode then filter (\<lambda>c. cp_surface c = mode) (broad_compositions compositions) else broad_compositions compositions)"
  have a1: "a1 = composition_pool mode None compositions"
    by (simp add: a1_def composition_pool_def eligible_composition_def [abs_def] given_def)
  have a: "approved = (if given platform then filter (survives (the platform)) a1 else a1)"
    by (simp add: assms a1_def composition_pool_def eligible_composition_def [abs_def] conj_commute)
  obtain ex where "reroll = 0 \<longrightarrow> ex = []"
      "runSyncSelection (reroll_chain (deal_round lc (scope @ '':'' @ key) grain n approved) cp_id reroll 0 []) hash =
       runSyncSelection (deal_round lc (scope @ '':'' @ key) grain n approved reroll ex) hash"
    using chain_last [of "deal_round lc (scope @ '':'' @ key) grain n approved" cp_id reroll 0 "[]" hash] by auto
  moreover have "broad_compositions compositions = [] \<longrightarrow> a1 = []" "a1 = [] \<longrightarrow> approved = []"
    by (simp_all add: a1_def a)
  moreover note sel = selectApprovedCompositions_def [of lc scope key reroll mode grain platform compositions n,
      unfolded Let_def, folded a1_def, folded a]
  ultimately show ?thesis
    unfolding sel a1 [symmetric] Let_def
    by (intro exI [of _ ex]; cases "a1 = []"; cases "approved = []") simp_all
qed

text \<open>
  C31: A deal of compositions takes them from the approved pool that fits the mode and survives the
  platform; there is no fallback for either, so an empty pool deals nothing. From a pool that is not
  empty it is a full deal of the candidates of the last round, and the match that is reported counts
  what was dealt at the grain and what the pool has.
\<close>
theorem compositions_deal:
  assumes "distinct (map cp_id compositions)" "0 < n"
    and "runSyncSelection (selectApprovedCompositions lc scope key reroll mode grain platform compositions n) hash = (picks, mt)"
    and "pool = composition_pool mode platform compositions"
  shows "(if pool = [] then picks = []
          else \<exists>prior. (reroll = 0 \<longrightarrow> prior = []) \<and> full_deal n (deal_candidates n pool prior) picks) \<and>
         (\<forall>p \<in> set picks. p \<in> set compositions \<and> cp_status p = ''approved'' \<and> eligible_composition mode platform p) \<and>
         ma_atGrain mt = (if given grain then Some (length (filter (\<lambda>c. cp_grain c = grain) picks)) else None) \<and>
         ma_grainAvailable mt = (if given grain then Some (length (filter (\<lambda>c. cp_grain c = grain) pool)) else None) \<and>
         ma_platformExcluded mt = length (composition_pool mode None compositions) - length pool"
proof -
  have pool: "p \<in> set compositions \<and> cp_status p = ''approved'' \<and> eligible_composition mode platform p" if "p \<in> set pool" for p
    using that set_narrow [of _ "filter (\<lambda>c. cp_status c = ''approved'') compositions"]
    by (auto simp: assms(4) composition_pool_def broad_compositions_def)
  obtain ex where ex: "reroll = 0 \<longrightarrow> ex = []" and run: "(picks, mt) =
      (if pool = [] then ([], emptyMatch grain platform (length (composition_pool mode None compositions)))
     else (let picks = runSyncSelection (deal_round lc (scope @ '':'' @ key) grain n pool reroll ex) hash
           in (picks, \<lparr>ma_grain = grain,
               ma_atGrain = (if given grain then Some (length (filter (\<lambda>c. cp_grain c = grain) picks)) else None),
               ma_grainAvailable = (if given grain then Some (length (filter (\<lambda>c. cp_grain c = grain) pool)) else None),
               ma_platform = platform,
               ma_platformExcluded = length (composition_pool mode None compositions) - length pool\<rparr>)))"
    using compositions_run [OF assms(4), of reroll lc scope key grain n hash] assms(3) by metis
  show ?thesis
  proof (cases "pool = []")
    case True
    then show ?thesis using run by (simp add: emptyMatch_def)
  next
    case False
    have "inj_on cp_id (set pool)"
      using assms(1) pool by (auto simp: distinct_map intro: inj_on_subset)
    then have full: "full_deal n (deal_candidates n pool ex) picks"
      using deal_round_full [OF False assms(2)] run False by (simp add: Let_def)
    moreover have "\<forall>p \<in> set picks. p \<in> set pool"
      using full deal_candidates_sub by (fastforce simp: full_deal_def)
    ultimately show ?thesis
      using run False ex pool by (auto simp: Let_def)
  qed
qed

definition demo_composition :: "string \<Rightarrow> string \<Rightarrow> string list option \<Rightarrow> int \<Rightarrow> composition" where
  "demo_composition i fam platforms rating = \<lparr>cp_id = i, cp_status = ''approved'', cp_surface = Some ''read'',
     cp_familyId = Some fam, cp_grain = Some ''view'', cp_platforms = platforms,
     cp_review = Some \<lparr>rv_rating = Some rating, rv_breadth = None, rv_allowedModes = None\<rparr>\<rparr>"

definition demo_compositions :: "composition list" where
  "demo_compositions = [demo_composition ''a'' ''f'' None 3, demo_composition ''b'' ''f'' None 2,
     demo_composition ''c'' ''g'' (Some [''web'']) 2, demo_composition ''d'' ''g'' None 2]"

theorem compositions_deal_witness:
  "map cp_id (fst (runSyncSelection (selectApprovedCompositions code_unit_order ''surface'' ''k'' 0 (Some ''read'') None (Some ''ios'')
       demo_compositions 2) (\<lambda>s. s))) = [''d'', ''b''] \<and>
   ma_platformExcluded (snd (runSyncSelection (selectApprovedCompositions code_unit_order ''surface'' ''k'' 0 (Some ''read'') None (Some ''ios'')
       demo_compositions 2) (\<lambda>s. s))) = 1"
proof -
  have "distinct (map cp_id demo_compositions)" by code_simp
  note deal = compositions_deal [OF this, where n = 2, OF _ prod.collapse [symmetric] refl, where lc = code_unit_order and scope = "''surface''"
      and key = "''k''" and reroll = 0 and mode = "Some ''read''" and grain = None and platform = "Some ''ios''" and hash = "\<lambda>s. s"]
  have "length (composition_pool (Some ''read'') None demo_compositions) - length (composition_pool (Some ''read'') (Some ''ios'') demo_compositions) = 1"
    by code_simp
  moreover have "map cp_id (fst (runSyncSelection (selectApprovedCompositions code_unit_order ''surface'' ''k'' 0 (Some ''read'') None (Some ''ios'')
       demo_compositions 2) (\<lambda>s. s))) = [''d'', ''b'']"
    by code_simp
  ultimately show ?thesis using deal by simp
qed

text \<open>
  A re-roll may deal fewer than asked for although the pool has enough: the entries that are left
  are counted before the marginal ones among them lose their tickets.
\<close>

definition demo_marginal :: "composition list" where
  "demo_marginal = [demo_composition ''a'' ''f'' None 2, demo_composition ''b'' ''g'' None 2, demo_composition ''c'' ''h'' None 2,
     demo_composition ''d'' ''i'' None 1]"

lemma reroll_deals_fewer:
  "length (fst (runSyncSelection (selectApprovedCompositions code_unit_order ''surface'' ''k'' 1 None None None
     demo_marginal 2) (\<lambda>s. s))) = 1"
proof -
  have pool: "broad_compositions demo_marginal = demo_marginal" "demo_marginal \<noteq> []" by code_simp+
  have first: "map cp_id (runSyncSelection (deal_round code_unit_order (''surface'' @ '':'' @ ''k'') None 2 demo_marginal 0 []) (\<lambda>s. s)) = [''c'', ''b'']"
    by code_simp
  have "length (runSyncSelection (deal_round code_unit_order (''surface'' @ '':'' @ ''k'') None 2 demo_marginal 1 [''c'', ''b'']) (\<lambda>s. s)) = 1"
    by code_simp
  then show ?thesis using first
    by (simp add: selectApprovedCompositions_def pool given_def)
qed

end
