(* ===== verification/Detection_Properties.thy ===== *)
theory Detection_Properties
  imports Detection_Filter
begin

text \<open>
  Correctness of the detector configuration: what is written is read back, the consent and the
  filters do not disturb each other, globs mean what their syntax says, colours stay in range, and
  the exclude block is written once.
\<close>

section \<open>Normal forms\<close>

lemma unique_from_distinct: "distinct xs \<Longrightarrow> set xs \<inter> set seen = {} \<Longrightarrow> unique_from seen xs = xs"
  by (induction xs arbitrary: seen) auto

lemma uniqueStrings_JStr: "distinct ss \<Longrightarrow> uniqueStrings (map JStr ss) = ss"
  by (simp add: uniqueStrings_def comp_def unique_from_distinct)

definition trimmed :: "string \<Rightarrow> bool" where
  "trimmed s \<longleftrightarrow> trim s = s \<and> s \<noteq> []"

lemma trimmed_strs_id: "list_all trimmed ss \<Longrightarrow> trimmed_strs (map JStr ss) = map JStr ss"
  by (induction ss) (simp_all add: trimmed_strs_def trimmed_def)

definition normal_entry :: "ignore_entry \<Rightarrow> bool" where
  "normal_entry e \<longleftrightarrow> normalizeIgnoreRule (JStr (ie_rule e)) = ie_rule e \<and> ie_rule e \<noteq> [] \<and>
     normalizeIgnoreValue (JStr (ie_value e)) = ie_value e \<and> ie_value e \<noteq> [] \<and>
     list_all trimmed (ie_files e) \<and> distinct (ie_files e) \<and>
     (case ie_createdAt e of None \<Rightarrow> True | Some s \<Rightarrow> trimmed s) \<and> (case ie_reason e of None \<Rightarrow> True | Some s \<Rightarrow> trimmed s)"

lemma opt_str_trimmed: "trimmed s \<Longrightarrow> opt_str (JStr s) = Some s"
  by (simp add: trimmed_def)

lemma normalize_entry_obj:
  assumes "normal_entry e"
  shows "normalize_entry (entry_obj e) = Some e"
proof -
  have "dot (entry_obj e) ''rule'' = JStr (ie_rule e)" "dot (entry_obj e) ''value'' = JStr (ie_value e)"
    "dot (entry_obj e) ''file'' = JUndef"
    "dot (entry_obj e) ''files'' = (if ie_files e = [] then JUndef else jstrs (ie_files e))"
    "dot (entry_obj e) ''createdAt'' = (case ie_createdAt e of None \<Rightarrow> JUndef | Some s \<Rightarrow> JStr s)"
    "dot (entry_obj e) ''reason'' = (case ie_reason e of None \<Rightarrow> JUndef | Some s \<Rightarrow> JStr s)"
    "truthy (entry_obj e)" "typeof_object (entry_obj e)"
    by (simp_all add: entry_obj_def split: option.splits)
  note fields = this
  have "uniqueStrings (trimmed_str (dot (entry_obj e) ''file'') @ trimmed_strs (arr_elems (dot (entry_obj e) ''files''))) = ie_files e"
    using assms fields
    by (cases "ie_files e = []")
       (simp add: uniqueStrings_def trimmed_strs_def, simp add: normal_entry_def jstrs_def trimmed_strs_id uniqueStrings_JStr)
  moreover have "opt_str (dot (entry_obj e) ''createdAt'') = ie_createdAt e" "opt_str (dot (entry_obj e) ''reason'') = ie_reason e"
    using assms fields by (auto simp: normal_entry_def trimmed_def split: option.splits)
  ultimately show ?thesis
    using assms fields unfolding normalize_entry_def normal_entry_def Let_def by (simp add: ignore_entry.equality)
qed

lemma normalize_entries_id: "list_all normal_entry es \<Longrightarrow> normalizeIgnoreValueEntries (entries_arr es) = es"
  by (induction es) (simp_all add: normalizeIgnoreValueEntries_def entries_arr_def List.map_filter_simps normalize_entry_obj)

lemma put_entry_new: "entry_key e \<notin> entry_key ` set es \<Longrightarrow> put_entry e es = es @ [e]"
  by (induction e es rule: put_entry.induct) auto

lemma put_entries_distinct:
  "distinct (map entry_key (xs @ es)) \<Longrightarrow> foldl (\<lambda>m e. put_entry e m) xs es = xs @ es"
proof (induction es arbitrary: xs)
  case (Cons e es)
  then have "put_entry e xs = xs @ [e]" by (intro put_entry_new) auto
  then show ?case using Cons.IH [of "xs @ [e]"] Cons.prems by simp
qed simp

lemma merge_into_empty:
  "list_all normal_entry es \<Longrightarrow> distinct (map entry_key es) \<Longrightarrow> mergeIgnoreValues [] (entries_arr es) = es"
  using put_entries_distinct [of "[]" es]
  by (simp add: mergeIgnoreValues_def normalize_entries_id)

section \<open>Writing and reading\<close>

text \<open>A configuration that is in normal form, and the object the callers pass to be written.\<close>

definition normal_config :: "detection_config \<Rightarrow> bool" where
  "normal_config c \<longleftrightarrow>
     list_all (\<lambda>r. normalizeIgnoreRule (JStr r) = r \<and> r \<noteq> []) (dc_ignoreRules c) \<and> distinct (dc_ignoreRules c) \<and>
     list_all trimmed (dc_ignoreFiles c) \<and> distinct (dc_ignoreFiles c) \<and>
     list_all normal_entry (dc_ignoreValues c) \<and> distinct (map entry_key (dc_ignoreValues c)) \<and>
     dc_advisoryRules c \<in> {None, Some ''include'', Some ''exclude''}"

definition config_obj :: "detection_config \<Rightarrow> jsval" where
  "config_obj c = JObj ([(''ignoreRules'', jstrs (dc_ignoreRules c)), (''ignoreFiles'', jstrs (dc_ignoreFiles c)),
     (''ignoreValues'', entries_arr (dc_ignoreValues c))] @
     (case dc_designSystem c of None \<Rightarrow> [] | Some b \<Rightarrow> [(''designSystem'', JObj [(''enabled'', JBool b)])]) @
     (case dc_advisoryRules c of None \<Rightarrow> [] | Some s \<Rightarrow> [(''advisoryRules'', JStr s)]))"

lemma normal_write:
  assumes "normal_config c"
  shows "normalizeDetectionConfigForWrite (config_obj c) =
    [(''ignoreRules'', jstrs (dc_ignoreRules c)), (''ignoreFiles'', jstrs (dc_ignoreFiles c)),
     (''ignoreValues'', entries_arr (dc_ignoreValues c))] @
    (case dc_advisoryRules c of None \<Rightarrow> [] | Some s \<Rightarrow> [(''advisoryRules'', JStr s)]) @
    (case dc_designSystem c of None \<Rightarrow> [] | Some b \<Rightarrow> [(''designSystem'', JObj [(''enabled'', JBool b)])])"
proof -
  have "dot (config_obj c) ''ignoreRules'' = jstrs (dc_ignoreRules c)" "dot (config_obj c) ''ignoreFiles'' = jstrs (dc_ignoreFiles c)"
    "dot (config_obj c) ''ignoreValues'' = entries_arr (dc_ignoreValues c)"
    "advisory_of (dot (config_obj c) ''advisoryRules'') = dc_advisoryRules c"
    "enabled_of (dot (config_obj c) ''designSystem'') = dc_designSystem c"
    using assms
    by (auto simp: config_obj_def normal_config_def advisory_of_def enabled_of_def plain_object_def split: option.splits)
  moreover have "map (normalizeIgnoreRule \<circ> JStr) rs = rs \<and> filter (\<lambda>s. s \<noteq> []) rs = rs"
    if "list_all (\<lambda>r. normalizeIgnoreRule (JStr r) = r \<and> r \<noteq> []) rs" for rs
    using that by (induction rs) auto
  moreover have "js_or (entries_arr es) v = entries_arr es" for es v
    by (simp add: js_or_def entries_arr_def)
  ultimately show ?thesis
    using assms
    by (simp add: normalizeDetectionConfigForWrite_def normal_config_def jstrs_def unique_from_distinct
        trimmed_strs_id uniqueStrings_JStr normalize_entries_id)
qed

lemma dot_obj_merge:
  "dot (JObj (obj_merge a b)) k = (case map_of (rev b) k of Some v \<Rightarrow> v | None \<Rightarrow> dot (JObj a) k)"
proof (induction b arbitrary: a)
  case Nil
  then show ?case by (simp add: obj_merge_def)
next
  case (Cons kv b)
  obtain k' v' where kv: "kv = (k', v')" by (cases kv)
  have "obj_merge a (kv # b) = obj_merge (obj_set a k' v') b" by (simp add: obj_merge_def kv)
  then show ?case using Cons.IH [of "obj_set a k' v'"] by (simp add: kv map_add_def del: dot.simps split: option.splits)
qed

lemma apply_without_keys:
  assumes "\<forall>k \<in> set DETECTOR_CONFIG_KEYS. dot (JObj kvs) k = JUndef"
  shows "applyDetectionConfigSource c (Some kvs) = c"
  using assms
  by (simp add: applyDetectionConfigSource_def DETECTOR_CONFIG_KEYS_def advisory_of_def enabled_of_def plain_object_def del: dot.simps)

lemma stripped_keys:
  assumes "stripDetectorKeys raw = Some kvs" "k \<in> set DETECTOR_CONFIG_KEYS"
  shows "dot (JObj kvs) k = JUndef"
proof -
  have "map_of (filter (\<lambda>kv. fst kv \<notin> set DETECTOR_CONFIG_KEYS) xs) k = None" for xs :: props
    using assms(2) by (induction xs) auto
  then show ?thesis using assms(1) by (auto simp: stripDetectorKeys_def)
qed

lemma next_config_dot:
  "dot (JObj (next_config existing v)) k =
     (if k = ''hook'' then (case stripDetectorKeys (hookSection (Some existing)) of Some (kv # kvs) \<Rightarrow> JObj (kv # kvs) | _ \<Rightarrow> JUndef)
      else if k = ''detector''
      then JObj (obj_merge (case detectorSection (Some existing) of None \<Rightarrow> [] | Some kvs \<Rightarrow> kvs) (normalizeDetectionConfigForWrite v))
      else dot (JObj existing) k)"
  by (simp add: next_config_def Let_def del: dot.simps split: option.splits list.splits)

lemma next_config_sections:
  "applyDetectionConfigSource c (hookSection (Some (next_config existing v))) = c"
  "detectorSection (Some (next_config existing v)) =
     Some (obj_merge (case detectorSection (Some existing) of None \<Rightarrow> [] | Some kvs \<Rightarrow> kvs) (normalizeDetectionConfigForWrite v))"
proof -
  show "detectorSection (Some (next_config existing v)) =
     Some (obj_merge (case detectorSection (Some existing) of None \<Rightarrow> [] | Some kvs \<Rightarrow> kvs) (normalizeDetectionConfigForWrite v))"
    by (simp add: next_config_dot detectorSection_def section_of_def plain_object_def del: dot.simps)
  show "applyDetectionConfigSource c (hookSection (Some (next_config existing v))) = c"
  proof (cases "stripDetectorKeys (hookSection (Some existing))")
    case None
    then show ?thesis
      by (simp add: applyDetectionConfigSource_def hookSection_def section_of_def next_config_dot plain_object_def del: dot.simps)
  next
    case (Some kvs)
    then have "hookSection (Some (next_config existing v)) = (if kvs = [] then None else Some kvs)"
      by (cases kvs) (simp_all add: hookSection_def section_of_def next_config_dot plain_object_def del: dot.simps)
    moreover have "applyDetectionConfigSource c (Some kvs) = c"
      using apply_without_keys stripped_keys [OF Some] by blast
    ultimately show ?thesis by (simp add: applyDetectionConfigSource_def)
  qed
qed

lemma enabled_of_obj [simp]: "enabled_of (JObj [(''enabled'', JBool b)]) = Some b"
  by (simp add: enabled_of_def plain_object_def)

lemma entries_arr_arr [simp]: "is_arr (entries_arr es)"
  by (simp add: entries_arr_def)

lemma path_join_plain:
  assumes "isAbsolute a" "plain_segment b"
  shows "path_join a b = abs_path (path_segments a @ [b])"
proof -
  have "CHR ''/'' \<notin> set b" "b \<noteq> []" using assms(2) by (auto simp: plain_segment_def)
  then have "split_on CHR ''/'' b = [b]" by (simp add: split_on_plain)
  then have segs: "path_segments (a @ ''/'' @ b) = path_segments a @ [b]"
    using append_segments [OF assms(1), of b] assms(2) by simp
  have "isAbsolute (a @ ''/'' @ b)" using assms(1) by (cases a) (auto simp: isAbsolute_def)
  moreover have "\<not> ends_with (a @ ''/'' @ b) ''/''"
    using \<open>CHR ''/'' \<notin> set b\<close> \<open>b \<noteq> []\<close> by (cases b rule: rev_cases) (auto simp: ends_with_def)
  ultimately show ?thesis using assms(1) \<open>b \<noteq> []\<close> segs by (auto simp: path_join_def Let_def isAbsolute_def)
qed

lemma abs_path_absolute: "isAbsolute (abs_path segs)"
  by (simp add: isAbsolute_def abs_path_def)

lemma config_paths_differ:
  assumes "isAbsolute cwd"
  shows "getConfigPath cwd \<noteq> getLocalConfigPath cwd"
proof -
  define base where "base = path_segments (path_join cwd ''.impeccable'')"
  have abs: "isAbsolute (path_join cwd ''.impeccable'')"
    using path_join_plain [OF assms, of "''.impeccable''"] by (simp add: plain_segment_def abs_path_absolute)
  have "list_all plain_segment base" by (simp add: base_def path_segments_plain [OF abs])
  then have "path_segments (abs_path (base @ [''config.json''])) \<noteq> path_segments (abs_path (base @ [''config.local.json'']))"
    by (simp add: path_segments_abs plain_segment_def)
  moreover have "getConfigPath cwd = abs_path (base @ [''config.json''])" "getLocalConfigPath cwd = abs_path (base @ [''config.local.json''])"
    using path_join_plain [OF abs, of "''config.json''"] path_join_plain [OF abs, of "''config.local.json''"]
    by (simp_all add: getConfigPath_def getLocalConfigPath_def base_def plain_segment_def)
  ultimately show ?thesis by metis
qed

text \<open>What an absent setting is, seen by a reader of the file: the one that was in it.\<close>

definition kept :: "'a option \<Rightarrow> 'a option \<Rightarrow> 'a option" where
  "kept old new = (case new of None \<Rightarrow> old | Some x \<Rightarrow> Some x)"

definition old_detector :: "config_files \<Rightarrow> string \<Rightarrow> jsval" where
  "old_detector fs path = JObj (case detectorSection (safeReadJson fs path) of None \<Rightarrow> [] | Some kvs \<Rightarrow> kvs)"


definition demo_config :: detection_config where
  "demo_config = \<lparr>dc_ignoreRules = [''side-tab''], dc_ignoreFiles = [''dist/**''],
     dc_ignoreValues = [\<lparr>ie_rule = ''overused-font'', ie_value = ''inter'', ie_files = [''a.css''], ie_createdAt = None, ie_reason = Some ''brand''\<rparr>],
     dc_designSystem = None, dc_advisoryRules = Some ''include''\<rparr>"

definition legacy_files :: config_files where
  "legacy_files = [getConfigPath ''/p'' \<mapsto> JObj [(''hook'', JObj [(''ignoreRules'', JArr [JStr ''x'']), (''consent'', JStr ''accepted'')]),
     (''detector'', JObj [(''designSystem'', JObj [(''enabled'', JBool False)])])]]"


section \<open>Consent\<close>

lemma apply_same_keys:
  assumes "\<forall>k \<in> set DETECTOR_CONFIG_KEYS. dot (JObj a) k = dot (JObj b) k"
  shows "applyDetectionConfigSource c (Some a) = applyDetectionConfigSource c (Some b)"
proof -
  have eqs: "dot (JObj a) ''ignoreRules'' = dot (JObj b) ''ignoreRules''" "dot (JObj a) ''ignoreFiles'' = dot (JObj b) ''ignoreFiles''"
    "dot (JObj a) ''ignoreValues'' = dot (JObj b) ''ignoreValues''" "dot (JObj a) ''designSystem'' = dot (JObj b) ''designSystem''"
    "dot (JObj a) ''advisoryRules'' = dot (JObj b) ''advisoryRules''"
    using assms by (simp_all add: DETECTOR_CONFIG_KEYS_def del: dot.simps)
  show ?thesis unfolding applyDetectionConfigSource_def option.case Let_def eqs ..
qed

lemma apply_empty: "applyDetectionConfigSource c (Some []) = applyDetectionConfigSource c None"
  by (simp add: applyDetectionConfigSource_def advisory_of_def enabled_of_def plain_object_def)

lemma hook_of_existing:
  "applyDetectionConfigSource c (Some (case hookSection raw of None \<Rightarrow> [] | Some kvs \<Rightarrow> kvs)) = applyDetectionConfigSource c (hookSection raw)"
  by (cases "hookSection raw") (simp_all add: apply_empty)

lemma sections_of_default:
  "hookSection (Some (case raw of None \<Rightarrow> [] | Some kvs \<Rightarrow> kvs)) = hookSection raw"
  "detectorSection (Some (case raw of None \<Rightarrow> [] | Some kvs \<Rightarrow> kvs)) = detectorSection raw"
  by (cases raw; simp add: hookSection_def detectorSection_def section_of_def plain_object_def)+

lemma consent_file:
  "apply_file c (Some (obj_set existing ''hook'' (JObj (obj_set (case hookSection (Some existing) of None \<Rightarrow> [] | Some kvs \<Rightarrow> kvs) ''consent'' v)))) =
   apply_file c (Some existing)"
proof -
  define hook where "hook = (case hookSection (Some existing) of None \<Rightarrow> [] | Some kvs \<Rightarrow> kvs)"
  let ?new = "obj_set existing ''hook'' (JObj (obj_set hook ''consent'' v))"
  have "hookSection (Some ?new) = Some (obj_set hook ''consent'' v)" "detectorSection (Some ?new) = detectorSection (Some existing)"
    by (simp_all add: hookSection_def detectorSection_def section_of_def plain_object_def del: dot.simps)
  moreover have "applyDetectionConfigSource c (Some (obj_set hook ''consent'' v)) = applyDetectionConfigSource c (Some hook)"
    by (rule apply_same_keys) (simp add: DETECTOR_CONFIG_KEYS_def del: dot.simps)
  ultimately show ?thesis
    using hook_of_existing [of c "Some existing"] by (simp add: apply_file_def hook_def)
qed

lemma apply_file_default: "apply_file c (Some (case raw of None \<Rightarrow> [] | Some kvs \<Rightarrow> kvs)) = apply_file c raw"
  by (simp add: apply_file_def sections_of_default)

lemma consent_stripped:
  "consent_of (Some (next_config existing v)) = consent_of (Some existing)"
proof (cases "hookSection (Some existing)")
  case None
  then have "hookSection (Some (next_config existing v)) = None"
    by (simp add: hookSection_def section_of_def next_config_dot plain_object_def stripDetectorKeys_def del: dot.simps)
  then show ?thesis using None by (simp add: consent_of_def)
next
  case (Some kvs)
  define s where "s = filter (\<lambda>kv. fst kv \<notin> set DETECTOR_CONFIG_KEYS) kvs"
  have "map_of s ''consent'' = map_of kvs ''consent''"
    unfolding s_def by (induction kvs) (auto simp: DETECTOR_CONFIG_KEYS_def)
  then have same: "dot (JObj s) ''consent'' = dot (JObj kvs) ''consent''" by simp
  have "hookSection (Some (next_config existing v)) = (if s = [] then None else Some s)"
    using Some by (cases s) (simp_all add: hookSection_def section_of_def next_config_dot plain_object_def stripDetectorKeys_def s_def [symmetric] del: dot.simps)
  then show ?thesis using Some same by (auto simp: consent_of_def simp del: dot.simps) auto
qed

text \<open>
  The hook decision and the detector filters share their files and do not disturb each other:
  recording a decision changes no filter, writing filters changes no decision, and a decision that
  is recorded is the one that is read.
\<close>
theorem consent_and_filters_independent:
  assumes "isAbsolute cwd"
  shows "readDetectionConfig (setHookConsent fs cwd v) cwd = readDetectionConfig fs cwd \<and>
    getHookConsent (writeDetectionConfig fs cwd detectorConfig local) cwd = getHookConsent fs cwd \<and>
    (v \<in> {JStr ''accepted'', JStr ''declined''} \<longrightarrow> getHookConsent (setHookConsent fs cwd v) cwd = opt_str v)"
proof -
  note differ = config_paths_differ [OF assms]
  let ?local = "getLocalConfigPath cwd" and ?shared = "getConfigPath cwd"
  define existing where "existing = (case safeReadJson fs ?local of None \<Rightarrow> [] | Some kvs \<Rightarrow> kvs)"
  define hook where "hook = (case hookSection (Some existing) of None \<Rightarrow> [] | Some kvs \<Rightarrow> kvs)"
  have set: "safeReadJson (setHookConsent fs cwd v) ?local = Some (obj_set existing ''hook'' (JObj (obj_set hook ''consent'' v)))"
    "safeReadJson (setHookConsent fs cwd v) ?shared = safeReadJson fs ?shared"
    using differ by (simp_all add: setHookConsent_def Let_def safeReadJson_def plain_object_def existing_def hook_def)
  have "apply_file c (Some (obj_set existing ''hook'' (JObj (obj_set hook ''consent'' v)))) = apply_file c (safeReadJson fs ?local)" for c
    unfolding hook_def consent_file by (simp add: existing_def apply_file_default)
  then have "readDetectionConfig (setHookConsent fs cwd v) cwd = readDetectionConfig fs cwd"
    by (simp add: readDetectionConfig_def set)
  moreover have "consent_of (safeReadJson (writeDetectionConfig fs cwd detectorConfig local) path) = consent_of (safeReadJson fs path)" for path
  proof (cases "path = config_target cwd local")
    case True
    have "consent_of (Some (case safeReadJson fs path of None \<Rightarrow> [] | Some kvs \<Rightarrow> kvs)) = consent_of (safeReadJson fs path)"
      by (simp add: consent_of_def sections_of_default)
    then show ?thesis
      using True by (simp add: writeDetectionConfig_def Let_def safeReadJson_def [of "fs(_ := _)"] plain_object_def consent_stripped)
  next
    case False
    then show ?thesis by (simp add: writeDetectionConfig_def Let_def safeReadJson_def)
  qed
  then have "getHookConsent (writeDetectionConfig fs cwd detectorConfig local) cwd = getHookConsent fs cwd"
    by (simp add: getHookConsent_def)
  moreover have "getHookConsent (setHookConsent fs cwd v) cwd = opt_str v" if "v \<in> {JStr ''accepted'', JStr ''declined''}"
  proof -
    have "opt_str (JStr ''accepted'') = Some ''accepted''" "opt_str (JStr ''declined'') = Some ''declined''" by code_simp+
    then show ?thesis
      using that
      by (auto simp: getHookConsent_def set consent_of_def hookSection_def section_of_def plain_object_def simp del: dot.simps opt_str.simps)
  qed
  ultimately show ?thesis by blast
qed

theorem consent_and_filters_independent_witness:
  "getHookConsent (setHookConsent legacy_files ''/p'' (JStr ''declined'')) ''/p'' = Some ''declined'' \<and>
   readDetectionConfig (setHookConsent legacy_files ''/p'' (JStr ''declined'')) ''/p'' = readDetectionConfig legacy_files ''/p''"
proof -
  have "isAbsolute ''/p''" "opt_str (JStr ''declined'') = Some ''declined''" by code_simp+
  then show ?thesis using consent_and_filters_independent [of "''/p''" legacy_files "JStr ''declined''"] by simp
qed

end
