(* ===== verification/Filter_Properties.thy ===== *)
theory Filter_Properties
  imports Detection_Filter
begin

text \<open>
  What globs, colours and ignore entries mean, and that the exclude block is written once.
\<close>

section \<open>Anchored expressions\<close>

lemma blind_Some [simp]: "blind Some"
  by (simp add: blind_def)

lemma exec_not_at_start: "exec_from (Cat Bol r) (x # b) s = None"
  by (induction s arbitrary: x b) (simp_all add: exec_from.simps)

lemma glob_test_iff: "glob_test r s \<longleftrightarrow> lang r ([], s) \<noteq> {}"
proof -
  have "glob_test r s \<longleftrightarrow> rmatch r ([], s, []) Some \<noteq> None"
    by (cases s) (auto simp: glob_test_def re_test_def re_exec_def exec_from.simps [of _ "[]"] exec_not_at_start
        split: option.splits prod.splits)
  also have "\<dots> \<longleftrightarrow> lang r ([], s) \<noteq> {}"
    using rmatch_iff [OF blind_Some, of r "[]" s "[]"] by (auto simp del: not_None_eq)
  finally show ?thesis .
qed

section \<open>Globs\<close>

text \<open>
  The meaning of a glob, on the text itself: two stars stand for any text on a line and may swallow
  the slash behind them, one star for any text without a slash, a question mark for one character
  that is no slash, a brace group for one of its alternatives, and anything else for itself.
\<close>

function glob_means :: "string \<Rightarrow> string \<Rightarrow> bool" where
  "glob_means [] s \<longleftrightarrow> s = []"
| "glob_means (c # cs) s \<longleftrightarrow>
     (if c = CHR ''*'' \<and> starts_with cs ''*'' then
        \<exists>w t. s = w @ t \<and> NL \<notin> set w \<and> CR \<notin> set w \<and> glob_means (after_stars (tl cs)) t
      else if c = CHR ''*'' then \<exists>w t. s = w @ t \<and> CHR ''/'' \<notin> set w \<and> glob_means cs t
      else if c = CHR ''?'' then \<exists>x t. s = x # t \<and> x \<noteq> CHR ''/'' \<and> glob_means cs t
      else if c = CHR ''{'' \<and> CHR ''}'' \<in> set cs then
        \<exists>part \<in> set (split_on CHR '','' (takeWhile (\<lambda>x. x \<noteq> CHR ''}'') cs)). \<exists>t.
          s = part @ t \<and> glob_means (tl (dropWhile (\<lambda>x. x \<noteq> CHR ''}'') cs)) t
      else \<exists>t. s = c # t \<and> glob_means cs t)"
  by pat_completeness auto

termination
  by (relation "measure (length \<circ> fst)")
     (auto simp: after_stars_def less_Suc_eq_le intro: le_trans [OF diff_le_self] le_trans [OF length_dropWhile_le])

text \<open>No star and no question mark between an opening brace and the next closing one.\<close>

fun braces_plain :: "string \<Rightarrow> bool" where
  "braces_plain [] = True"
| "braces_plain (c # cs) \<longleftrightarrow>
     (c = CHR ''{'' \<and> CHR ''}'' \<in> set cs \<longrightarrow> list_all (\<lambda>x. x \<noteq> CHR ''*'' \<and> x \<noteq> CHR ''?'') (takeWhile (\<lambda>x. x \<noteq> CHR ''}'') cs)) \<and>
     braces_plain cs"

lemma braces_plain_drop: "braces_plain s \<Longrightarrow> braces_plain (drop n s)"
proof (induction s arbitrary: n)
  case (Cons c cs)
  then show ?case by (cases n) simp_all
qed simp

lemma braces_plain_tl: "braces_plain s \<Longrightarrow> braces_plain (tl s)"
  by (cases s) simp_all

lemma braces_plain_dropWhile: "braces_plain s \<Longrightarrow> braces_plain (dropWhile P s)"
  by (induction s) auto

lemma after_stars_plain: "braces_plain s \<Longrightarrow> braces_plain (after_stars s)"
  by (simp add: after_stars_def braces_plain_tl)

lemma starts_with_char: "starts_with s [c] \<longleftrightarrow> (\<exists>t. s = c # t)"
  by (cases s) auto

lemma part_re_plain:
  assumes "list_all (\<lambda>x. x \<noteq> CHR ''*'' \<and> x \<noteq> CHR ''?'') p"
  shows "\<exists>r. part_re p = Some r \<and> (\<forall>b s. lang r (b, s) = {q. \<exists>t. s = p @ t \<and> q = (rev p @ b, t)})"
  using assms
proof (induction p)
  case Nil
  show ?case by auto
next
  case (Cons c cs)
  then obtain r where r: "part_re cs = Some r" "\<forall>b s. lang r (b, s) = {q. \<exists>t. s = cs @ t \<and> q = (rev cs @ b, t)}"
    by auto
  have "\<not> starts_with cs ''*''" "\<not> starts_with cs ''?''"
    using Cons.prems by (auto simp: starts_with_char)
  then have "part_re (c # cs) = Some (Cat (Cls (\<lambda>x. x = c)) r)"
    using Cons.prems r(1) by simp
  moreover have "lang (Cat (Cls (\<lambda>x. x = c)) r) (b, s) = {q. \<exists>t. s = (c # cs) @ t \<and> q = (rev (c # cs) @ b, t)}" for b s
    using r(2) by (auto split: list.splits)
  ultimately show ?case by blast
qed

lemma lang_alts: "rs \<noteq> [] \<Longrightarrow> lang (alts rs) p = (\<Union>r \<in> set rs. lang r p)"
  by (induction rs rule: alts.induct) auto

lemma collect_parts:
  assumes "\<forall>p \<in> set ps. list_all (\<lambda>x. x \<noteq> CHR ''*'' \<and> x \<noteq> CHR ''?'') p"
  shows "\<exists>rs. collect (map part_re ps) = Some rs \<and> length rs = length ps \<and>
    (\<forall>b s. (\<Union>r \<in> set rs. lang r (b, s)) = {q. \<exists>p \<in> set ps. \<exists>t. s = p @ t \<and> q = (rev p @ b, t)})"
  using assms
proof (induction ps)
  case (Cons p ps)
  then obtain rs where rs: "collect (map part_re ps) = Some rs" "length rs = length ps"
      "\<forall>b s. (\<Union>r \<in> set rs. lang r (b, s)) = {q. \<exists>p \<in> set ps. \<exists>t. s = p @ t \<and> q = (rev p @ b, t)}" by auto
  obtain r where r: "part_re p = Some r" "\<forall>b s. lang r (b, s) = {q. \<exists>t. s = p @ t \<and> q = (rev p @ b, t)}"
    using part_re_plain [of p] Cons.prems by auto
  have "collect (map part_re (p # ps)) = Some (r # rs)" using rs(1) r(1) by simp
  moreover have "(\<Union>x \<in> set (r # rs). lang x (b, s)) = {q. \<exists>p' \<in> set (p # ps). \<exists>t. s = p' @ t \<and> q = (rev p' @ b, t)}" for b s
    using rs(3) r(2) by (simp add: Collect_disj_eq [symmetric] bex_simps)
  ultimately show ?case using rs(2) by auto
qed simp

lemma brace_re_plain:
  assumes "list_all (\<lambda>x. x \<noteq> CHR ''*'' \<and> x \<noteq> CHR ''?'') body"
  shows "\<exists>r. brace_re body = Some r \<and>
    (\<forall>b s. lang r (b, s) = {q. \<exists>p \<in> set (split_on CHR '','' body). \<exists>t. s = p @ t \<and> q = (rev p @ b, t)})"
proof -
  have "\<forall>p \<in> set (split_on c body). set p \<subseteq> set body" for c
    by (induction c body rule: split_on.induct) (fastforce split: if_splits list.splits)+
  then have "\<forall>p \<in> set (split_on CHR '','' body). list_all (\<lambda>x. x \<noteq> CHR ''*'' \<and> x \<noteq> CHR ''?'') p"
    using assms by (auto simp: list_all_iff)
  from collect_parts [OF this] obtain rs where rs: "collect (map part_re (split_on CHR '','' body)) = Some rs"
      "length rs = length (split_on CHR '','' body)"
      "\<forall>b s. (\<Union>r \<in> set rs. lang r (b, s)) = {q. \<exists>p \<in> set (split_on CHR '','' body). \<exists>t. s = p @ t \<and> q = (rev p @ b, t)}"
    by blast
  have "rs \<noteq> []" using rs(2) split_on_ne by (metis length_0_conv)
  then show ?thesis using rs by (simp add: brace_re_def lang_alts)
qed

lemma cat_reaches: "lang (Cat r1 r2) p \<noteq> {} \<longleftrightarrow> (\<exists>q \<in> lang r1 p. lang r2 q \<noteq> {})"
  by auto

definition reaches :: "re option \<Rightarrow> (string \<Rightarrow> bool) \<Rightarrow> bool" where
  "reaches ro P \<longleftrightarrow> (\<exists>r. ro = Some r \<and> (\<forall>b s. lang r (b, s) \<noteq> {} \<longleftrightarrow> P s))"

lemma reaches_cat:
  assumes "reaches ro P" "\<And>b s. (\<exists>q \<in> lang r1 (b, s). P (snd q)) \<longleftrightarrow> Q s"
  shows "reaches (option_cat (Some r1) ro) Q"
proof -
  obtain r where r: "ro = Some r" "\<forall>b s. lang r (b, s) \<noteq> {} \<longleftrightarrow> P s" using assms(1) by (auto simp: reaches_def)
  have "lang r q \<noteq> {} \<longleftrightarrow> P (snd q)" for q using r(2) by (cases q) simp
  then show ?thesis using assms(2) r(1) by (simp add: reaches_def option_cat_def cat_reaches del: lang.simps)
qed

lemma glob_reaches: "braces_plain g \<Longrightarrow> reaches (globToRegex g) (glob_means g)"
proof (induction g rule: globToRegex.induct)
  case 1
  show ?case by (auto simp: reaches_def)
next
  case (2 c cs)
  have cs: "braces_plain cs" using "2.prems" by simp
  consider "c = CHR ''*''" "starts_with cs ''*''" | "c = CHR ''*''" "\<not> starts_with cs ''*''" | "c = CHR ''?''"
    | "c = CHR ''{''" "CHR ''}'' \<in> set cs" | "c \<noteq> CHR ''*''" "c \<noteq> CHR ''?''" "\<not> (c = CHR ''{'' \<and> CHR ''}'' \<in> set cs)"
    by blast
  then show ?case
  proof cases
    case 1
    then have IH: "reaches (globToRegex (after_stars (tl cs))) (glob_means (after_stars (tl cs)))"
      using "2.IH"(1) cs by (simp add: after_stars_plain braces_plain_tl)
    show ?thesis using 1 by (simp, intro reaches_cat [OF IH]) (auto simp: dot_re_def none_of_def)
  next
    case 2
    then have IH: "reaches (globToRegex cs) (glob_means cs)" using "2.IH"(2) cs by simp
    show ?thesis using 2 by (simp, intro reaches_cat [OF IH]) (auto simp: segment_re_def)
  next
    case 3
    then have IH: "reaches (globToRegex cs) (glob_means cs)" using "2.IH"(3) cs by simp
    show ?thesis using 3 by (simp, intro reaches_cat [OF IH]) (auto split: list.splits)
  next
    case 4
    define body rest where "body = takeWhile (\<lambda>x. x \<noteq> CHR ''}'') cs" and "rest = tl (dropWhile (\<lambda>x. x \<noteq> CHR ''}'') cs)"
    have IH: "reaches (globToRegex rest) (glob_means rest)"
      using "2.IH"(4) 4 cs by (simp add: rest_def braces_plain_tl braces_plain_dropWhile)
    have "list_all (\<lambda>x. x \<noteq> CHR ''*'' \<and> x \<noteq> CHR ''?'') body" using "2.prems" 4 by (simp add: body_def)
    then obtain r where r: "brace_re body = Some r"
        "\<forall>b s. lang r (b, s) = {q. \<exists>p \<in> set (split_on CHR '','' body). \<exists>t. s = p @ t \<and> q = (rev p @ b, t)}"
      using brace_re_plain by blast
    have glob: "globToRegex (c # cs) = option_cat (Some r) (globToRegex rest)" using 4 r(1) by (simp add: body_def rest_def)
    have means: "glob_means (c # cs) s \<longleftrightarrow> (\<exists>p \<in> set (split_on CHR '','' body). \<exists>t. s = p @ t \<and> glob_means rest t)" for s
      using 4 by (simp add: body_def rest_def)
    show ?thesis
      unfolding glob by (rule reaches_cat [OF IH]) (use r(2) in \<open>auto simp: means simp del: glob_means.simps\<close>)
  next
    case 5
    then have IH: "reaches (globToRegex cs) (glob_means cs)" using "2.IH"(5) cs by auto
    have glob: "globToRegex (c # cs) = option_cat (Some (Cls (\<lambda>x. x = c))) (globToRegex cs)" using 5 by auto
    have means: "glob_means (c # cs) s \<longleftrightarrow> (\<exists>t. s = c # t \<and> glob_means cs t)" for s using 5 by auto
    show ?thesis
      unfolding glob by (rule reaches_cat [OF IH]) (auto simp: means simp del: glob_means.simps split: list.splits)
  qed
qed



text \<open>
  With a star in a brace group the expression may be one that is rejected, and then the glob never
  matches: \<^verbatim>\<open>new RegExp\<close> throws and the loop goes on.
\<close>

lemma starred_brace_rejected: "globToRegex ''{*.js,*.ts}'' = None"
  by code_simp

section \<open>The exclude file\<close>

lemma starts_with_iff: "starts_with s p \<longleftrightarrow> take (length p) s = p"
  by (induction s p rule: starts_with.induct) auto

lemma split_first_parts: "split_first p s = Some (pre, post) \<Longrightarrow> s = pre @ p @ post"
proof (induction p s arbitrary: pre rule: split_first.induct)
  case (1 p s)
  show ?case
  proof (cases "starts_with s p")
    case True
    then have "pre = []" "post = drop (length p) s" using "1.prems" by (simp_all add: split_first.simps [of p s])
    then show ?thesis using True by (metis append_Nil append_take_drop_id starts_with_iff)
  next
    case False
    then obtain c cs pre' where "s = c # cs" "split_first p cs = Some (pre', post)" "pre = c # pre'"
      using "1.prems" by (auto simp: split_first.simps [of p s] split: list.splits)
    then show ?thesis using "1.IH" False by auto
  qed
qed

lemma split_first_stable: "split_first p (pre @ p @ x) = Some (pre, x) \<Longrightarrow> split_first p (pre @ p @ y) = Some (pre, y)"
proof (induction pre)
  case Nil
  show ?case by (simp add: split_first.simps [of p "p @ y"] starts_with_iff)
next
  case (Cons c pre)
  have no: "\<not> starts_with (c # pre @ p @ x) p"
    using Cons.prems by (auto simp: split_first.simps [of p "c # pre @ p @ x"])
  moreover have "starts_with (c # pre @ p @ x) p \<longleftrightarrow> starts_with (c # pre @ p @ y) p"
    using starts_with_iff [of "c # pre @ p @ x" p] starts_with_iff [of "c # pre @ p @ y" p] by (cases "length p") simp_all
  ultimately have "split_first p (pre @ p @ x) = Some (pre, x)" "\<not> starts_with (c # pre @ p @ y) p"
    using Cons.prems by (auto simp: split_first.simps [of p "c # pre @ p @ x"])
  then show ?case using Cons.IH by (simp add: split_first.simps [of p "c # pre @ p @ y"])
qed

lemma split_first_None_tl: "split_first p (c # r) = None \<Longrightarrow> split_first p r = None \<and> \<not> starts_with (c # r) p"
  by (simp add: split_first.simps [of p "c # r"] split: if_splits)

text \<open>A text that ends in a newline does not share characters with a marker that follows it.\<close>

lemma split_first_after_newline:
  assumes "NL \<notin> set p" "split_first p r = None" "r = [] \<or> last r = NL"
  shows "split_first p (r @ p @ y) = Some (r, y)"
  using assms(2,3)
proof (induction r)
  case Nil
  show ?case by (simp add: split_first.simps [of p "p @ y"] starts_with_iff)
next
  case (Cons c r)
  note tl = split_first_None_tl [OF Cons.prems(1)]
  have "\<not> starts_with (c # r @ p @ y) p"
  proof
    assume "starts_with (c # r @ p @ y) p"
    then have p: "take (length p) ((c # r) @ p @ y) = p" by (simp add: starts_with_iff)
    show False
    proof (cases "length p \<le> length (c # r)")
      case True
      then have "take (length p) (c # r) = p" using p by (simp only: take_append) simp
      then show False using tl by (simp add: starts_with_iff)
    next
      case False
      then have "take (length (c # r)) p = c # r" using p by (metis append_eq_conv_conj nat_le_linear take_all take_append take_take min.absorb1)
      then have "set (c # r) \<subseteq> set p" by (metis set_take_subset)
      moreover have "last (c # r) \<in> set (c # r)" by (rule last_in_set) simp
      ultimately show False using Cons.prems(2) assms(1) by auto
    qed
  qed
  moreover have "split_first p (r @ p @ y) = Some (r, y)" using Cons tl by (cases r) auto
  ultimately show ?case by (simp add: split_first.simps [of p "c # r @ p @ y"])
qed

lemma split_first_snoc_newline:
  assumes "NL \<notin> set p" "p \<noteq> []" "split_first p r = None"
  shows "split_first p (r @ [NL]) = None"
  using assms(3)
proof (induction r)
  case Nil
  then show ?case using assms(1,2) by (cases p) (auto simp: split_first.simps)
next
  case (Cons c r)
  note tl = split_first_None_tl [OF Cons.prems]
  have "\<not> starts_with (c # r @ [NL]) p"
  proof
    assume "starts_with (c # r @ [NL]) p"
    then have p: "take (length p) ((c # r) @ [NL]) = p" by (simp add: starts_with_iff)
    show False
    proof (cases "length p \<le> length (c # r)")
      case True
      then have "take (length p) (c # r) = p" using p by (simp only: take_append) simp
      then show False using tl by (simp add: starts_with_iff)
    next
      case False
      then have "p = (c # r) @ [NL]" using p by (metis Suc_leI append_Nil2 length_append_singleton not_le take_all)
      then show False using assms(1) by auto
    qed
  qed
  then show ?case using Cons.IH tl by (simp add: split_first.simps [of p "c # r @ [NL]"])
qed

definition block_middle :: string where
  "block_middle = NL # join_with [NL] EXCLUDE_PATTERNS @ [NL]"

lemma exclude_block_parts: "exclude_block = EXCLUDE_OPEN @ block_middle @ EXCLUDE_CLOSE"
  by code_simp

lemma block_markers:
  "NL \<notin> set EXCLUDE_OPEN" "EXCLUDE_OPEN \<noteq> []" "NL \<notin> set EXCLUDE_CLOSE" "split_first EXCLUDE_CLOSE block_middle = None"
  "last block_middle = NL"
  by code_simp+

lemma block_close: "split_first EXCLUDE_CLOSE (block_middle @ EXCLUDE_CLOSE @ post) = Some (block_middle, post)"
  by (rule split_first_after_newline) (simp_all add: block_markers)

text \<open>No opening marker without a closing one behind it.\<close>

definition no_dangling_marker :: "string \<Rightarrow> bool" where
  "no_dangling_marker s \<longleftrightarrow> split_first EXCLUDE_OPEN s = None \<or> marker_match s \<noteq> None"

lemma exclude_update_settles:
  assumes "no_dangling_marker s"
  shows "\<exists>pre post. exclude_update s = pre @ exclude_block @ post \<and> marker_match (exclude_update s) = Some (pre, post)"
proof (cases "marker_match s")
  case (Some pp)
  obtain pre post where pp: "pp = (pre, post)" by (cases pp)
  obtain rest mid where o: "split_first EXCLUDE_OPEN s = Some (pre, rest)" "split_first EXCLUDE_CLOSE rest = Some (mid, post)"
    using Some pp by (auto simp: marker_match_def split: option.splits prod.splits)
  have "split_first EXCLUDE_OPEN (pre @ EXCLUDE_OPEN @ block_middle @ EXCLUDE_CLOSE @ post) = Some (pre, block_middle @ EXCLUDE_CLOSE @ post)"
    using o(1) split_first_parts [OF o(1)] by (metis split_first_stable)
  then show ?thesis
    using Some pp block_close by (simp add: exclude_update_def marker_match_def exclude_block_parts)
next
  case None
  then have o: "split_first EXCLUDE_OPEN s = None" using assms by (simp add: no_dangling_marker_def)
  define r where "r = (if s = [] then [] else if ends_with s [NL] then s else s @ [NL])"
  have "split_first EXCLUDE_OPEN r = None"
    using o split_first_snoc_newline [OF block_markers(1,2) o] by (auto simp: r_def)
  moreover have "r = [] \<or> last r = NL"
    by (cases s rule: rev_cases) (auto simp: r_def ends_with_def)
  ultimately have "split_first EXCLUDE_OPEN (r @ EXCLUDE_OPEN @ block_middle @ EXCLUDE_CLOSE @ [NL]) = Some (r, block_middle @ EXCLUDE_CLOSE @ [NL])"
    by (rule split_first_after_newline [OF block_markers(1)])
  then show ?thesis
    using None block_close by (simp add: exclude_update_def marker_match_def exclude_block_parts r_def [symmetric])
qed

definition exclude_text :: "config_disk \<Rightarrow> string \<Rightarrow> string" where
  "exclude_text d cwd = (case resolveGitDir d cwd of None \<Rightarrow> []
     | Some gitDir \<Rightarrow> (case cd_text d (path_join (path_join gitDir ''info'') ''exclude'') of None \<Rightarrow> [] | Some s \<Rightarrow> s))"

text \<open>
  Keeping the local configuration out of git is idempotent: when the repository has a git
  directory the block is in the exclude file afterwards, and doing it again changes nothing,
  provided the file has no opening marker that is never closed.
\<close>
theorem exclude_block_once:
  assumes "no_dangling_marker (exclude_text d cwd)" "ensureConfigGitExclude d cwd = (d', ok)"
  shows "ensureConfigGitExclude d' cwd = (d', ok) \<and>
    (ok \<longrightarrow> (\<exists>pre post. exclude_text d' cwd = pre @ exclude_block @ post))"
proof (cases "resolveGitDir d cwd")
  case None
  then show ?thesis using assms(2) by (simp add: ensureConfigGitExclude_def)
next
  case (Some gitDir)
  define target where "target = path_join (path_join gitDir ''info'') ''exclude''"
  define s where "s = exclude_text d cwd"
  have d': "d' = d\<lparr>cd_text := (cd_text d)(target := Some (exclude_update s))\<rparr>" "ok"
    using assms(2) Some by (simp_all add: ensureConfigGitExclude_def Let_def target_def s_def exclude_text_def)
  have again: "resolveGitDir d' cwd = Some gitDir" using Some by (simp add: d'(1) resolveGitDir_def)
  obtain pre post where m: "exclude_update s = pre @ exclude_block @ post" "marker_match (exclude_update s) = Some (pre, post)"
    using exclude_update_settles [of s] assms(1) s_def by blast
  have "exclude_update t = t" if "marker_match t = Some (pre, post)" "t = pre @ exclude_block @ post" for t
    using that by (simp add: exclude_update_def)
  then have "exclude_update (exclude_update s) = exclude_update s" using m by blast
  then show ?thesis
    using m(1) d'(2) again by (auto simp: ensureConfigGitExclude_def exclude_text_def Let_def target_def [symmetric] d'(1))
qed

definition demo_disk :: config_disk where
  "demo_disk = \<lparr>cd_json = \<lambda>_. None, cd_dotgit = (\<lambda>_. NoGit)(''/p/.git'' := GitDir), cd_text = [''/p/.git/info/exclude'' \<mapsto> ''*.log'']\<rparr>"

theorem exclude_block_once_witness:
  "ensureConfigGitExclude (fst (ensureConfigGitExclude demo_disk ''/p'')) ''/p'' = (fst (ensureConfigGitExclude demo_disk ''/p''), True)"
proof -
  have "no_dangling_marker (exclude_text demo_disk ''/p'')" by code_simp
  moreover have "snd (ensureConfigGitExclude demo_disk ''/p'') = True" by code_simp
  ultimately show ?thesis
    using exclude_block_once [of demo_disk "''/p''" "fst (ensureConfigGitExclude demo_disk ''/p'')" True]
    by (metis prod.collapse)
qed

section \<open>Colours\<close>

lemma round_even_bounds:
  assumes "0 \<le> q" "q \<le> of_int n"
  shows "0 \<le> round_even q" "round_even q \<le> n"
proof -
  have f: "0 \<le> \<lfloor>q\<rfloor>" "of_int \<lfloor>q\<rfloor> \<le> q" using assms(1) by simp_all
  then show "0 \<le> round_even q" by (simp add: round_even_def Let_def)
  have "\<lfloor>q\<rfloor> < n" if "q \<noteq> of_int \<lfloor>q\<rfloor>"
    using that assms(2) f(2) by linarith
  moreover have "\<lfloor>q\<rfloor> \<le> n" using assms(2) by linarith
  ultimately show "round_even q \<le> n" by (cases "q = of_int \<lfloor>q\<rfloor>") (auto simp: round_even_def Let_def)
qed

text \<open>Rounding to binary64 does not leave the unit interval.\<close>

lemma fl_unit:
  assumes "0 \<le> q" "q \<le> 1"
  shows "0 \<le> fl q" "fl q \<le> 1"
proof -
  define k where "k = max (exponent_of q - 52) (- 1074)"
  have u: "0 < two_to k" by (simp add: two_to_def)
  have flq: "fl q = (if q = 0 then 0 else of_int (round_even (q / two_to k)) * two_to k)"
    by (simp add: fl_def k_def Let_def)
  have pos: "0 \<le> q / two_to k" using assms(1) u by simp
  show "0 \<le> fl q"
    using round_even_bounds(1) [OF pos, of "\<lceil>q / two_to k\<rceil>"] u by (simp add: flq)
  have "of_int (round_even (q / two_to k)) * two_to k \<le> 1"
  proof (cases "k \<le> 0")
    case True
    define n :: int where "n = 2 ^ nat (- k)"
    have n: "of_int n * two_to k = 1" using True by (cases "k = 0") (simp_all add: n_def two_to_def)
    have "q / two_to k \<le> of_int n" using assms(2) n u by (simp add: divide_le_eq)
    then have "round_even (q / two_to k) \<le> n" by (rule round_even_bounds(2) [OF pos])
    then have "of_int (round_even (q / two_to k)) * two_to k \<le> of_int n * two_to k"
      using u by (intro mult_right_mono) simp_all
    then show ?thesis using n by simp
  next
    case False
    then have "2 \<le> two_to k"
      using power_increasing [of 1 "nat k" "2 :: rat"] by (simp add: two_to_def)
    then have "q / two_to k \<le> 1 / 2" using assms u by (simp add: divide_le_eq)
    then have "\<lfloor>q / two_to k\<rfloor> = 0" using pos by linarith
    then have "round_even (q / two_to k) = 0"
      using \<open>q / two_to k \<le> 1 / 2\<close> by (simp add: round_even_def Let_def)
    then show ?thesis by simp
  qed
  then show "fl q \<le> 1" by (simp add: flq)
qed

lemma math_round_byte: "0 \<le> q \<Longrightarrow> q \<le> 255 \<Longrightarrow> 0 \<le> math_round q \<and> math_round q \<le> 255"
  unfolding math_round_def by linarith

lemma hex_pair_byte: "0 \<le> hex_pair x y \<and> hex_pair x y \<le> 255" if "hex_digit x \<noteq> None" "hex_digit y \<noteq> None"
proof -
  have "the (hex_digit c) \<le> 15" if "hex_digit c \<noteq> None" for c
    using that by (auto simp: hex_digit_def Let_def split: if_splits)
  from this [OF that(1)] this [OF that(2)] show ?thesis by (simp add: hex_pair_def)
qed

definition in_gamut :: "ignore_color \<Rightarrow> bool" where
  "in_gamut c \<longleftrightarrow> col_r c \<in> {0..255} \<and> col_g c \<in> {0..255} \<and> col_b c \<in> {0..255} \<and> 0 \<le> col_a c \<and> col_a c \<le> 1"

lemma hex_gamut:
  assumes "length h \<in> {3, 4, 6, 8}" "list_all (\<lambda>c. hex_digit c \<noteq> None) h"
  shows "in_gamut (parseHexIgnoreColor h)"
proof -
  have nth: "hex_digit (h ! i) \<noteq> None" if "i < length h" for i using assms(2) that by (simp add: list_all_length)
  have alpha: "0 \<le> fl (of_int (hex_pair x y) / 255) \<and> fl (of_int (hex_pair x y) / 255) \<le> 1"
    if "hex_digit x \<noteq> None" "hex_digit y \<noteq> None" for x y
  proof -
    have "0 \<le> (of_int (hex_pair x y) :: rat)" "(of_int (hex_pair x y) :: rat) \<le> 255"
      using hex_pair_byte [OF that] of_int_le_iff [of "hex_pair x y" 255, where ?'a = rat] by simp_all
    then show ?thesis using fl_unit [of "of_int (hex_pair x y) / 255"] by simp
  qed
  show ?thesis
    using assms(1) hex_pair_byte [OF nth nth] alpha [OF nth nth]
    by (auto simp: in_gamut_def parseHexIgnoreColor_def)
qed

lemma rgb_channel_byte: "parseRgbChannel raw = Some n \<Longrightarrow> 0 \<le> n \<and> n \<le> 255"
  using math_round_byte by (auto simp: parseRgbChannel_def Let_def split: option.splits if_splits)

lemma alpha_channel_unit: "fourth_alpha parts = Some a \<Longrightarrow> 0 \<le> a \<and> a \<le> 1"
  by (auto simp: fourth_alpha_def parseAlphaChannel_def Let_def split: option.splits if_splits)

lemma hsl_gamut: "0 \<le> a \<Longrightarrow> a \<le> 1 \<Longrightarrow> in_gamut (hslToRgb h s l a)"
  by (simp add: in_gamut_def hslToRgb_def Let_def clampByte_def)

text \<open>
  C34: Whatever text is given as a colour, what it is parsed to has three channels of one byte and an
  alpha between 0 and 1, rounding included.
\<close>
theorem parsed_color_in_gamut:
  assumes "parseIgnoreColor v = Some c"
  shows "in_gamut c"
proof -
  define t where "t = toLowerCase (trim v)"
  consider (hex) "is_hex_color t" "c = parseHexIgnoreColor (tl t)"
    | (rgb) parts r g b a where "parseRgbChannel (parts ! 0) = Some r" "parseRgbChannel (parts ! 1) = Some g"
        "parseRgbChannel (parts ! 2) = Some b" "fourth_alpha parts = Some a" "c = \<lparr>col_r = r, col_g = g, col_b = b, col_a = a\<rparr>"
    | (hsl) parts h s l a where "fourth_alpha parts = Some a" "c = hslToRgb h s l a"
    using assms unfolding parseIgnoreColor_def t_def [symmetric] Let_def
    by (auto split: if_splits option.splits prod.splits)
  then show ?thesis
  proof cases
    case hex
    then show ?thesis using hex_gamut by (simp add: is_hex_color_def)
  next
    case (rgb parts r g b a)
    then show ?thesis
      using rgb_channel_byte alpha_channel_unit by (auto simp: in_gamut_def)
  next
    case (hsl parts h s l a)
    then show ?thesis using alpha_channel_unit hsl_gamut by blast
  qed
qed

theorem parsed_color_in_gamut_witness:
  "colorIgnoreKey ''#FfF8'' = colorIgnoreKey ''#ffffff88'' \<and> in_gamut (the (parseIgnoreColor ''#ffffff88''))"
proof -
  have "colorIgnoreKey ''#FfF8'' = colorIgnoreKey ''#ffffff88''" by code_simp
  moreover have "parseIgnoreColor ''#ffffff88'' \<noteq> None" by code_simp
  ultimately show ?thesis using parsed_color_in_gamut by auto
qed

end
