(* ===== verification/Tag_Properties.thy ===== *)
theory Tag_Properties
  imports Tag_Injection
begin

text \<open>
  Injection and removal of the script tag: removal undoes an insertion, a second insertion finds the
  text as the first left it, and the loop of \<^verbatim>\<open>removeTag\<close> ends.
\<close>

section \<open>Texts without an opener\<close>

text \<open>No comment that starts with \<open>h\<close> and \<open>d\<close> begins in the text.\<close>

fun opener_free :: "char \<Rightarrow> char \<Rightarrow> string \<Rightarrow> bool" where
  "opener_free h d [] = True"
| "opener_free h d (c # cs) = ((c = h \<longrightarrow> cs \<noteq> [] \<and> hd cs \<noteq> d) \<and> opener_free h d cs)"

lemma opener_free_append: "opener_free h d xs \<Longrightarrow> opener_free h d ys \<Longrightarrow> opener_free h d (xs @ ys)"
  by (induction xs) auto

lemma opener_free_absent: "h \<notin> set xs \<Longrightarrow> opener_free h d xs"
  by (induction xs) auto

lemma opener_free_suffix: "opener_free h d (xs @ ys) \<Longrightarrow> opener_free h d ys"
  by (induction xs) auto

lemma opener_free_starts:
  assumes "opener_free h d v" "v \<noteq> []"
  shows "\<not> starts_with (v @ z) (h # d # p)"
proof (cases v)
  case (Cons c cs)
  then show ?thesis using assms by (cases cs) auto
qed (use assms in simp)

lemma append_meet:
  assumes "a @ b = c @ d"
  obtains us where "a = c @ us" "us @ b = d" | us where "a @ us = c" "b = us @ d"
  using assms append_eq_append_conv2 [of a b c d] by blast

lemma two_marks:
  assumes "v @ z # a = w @ h # y" "z \<notin> set y"
  shows "v = w \<and> z = h \<or> (\<exists>u. w = v @ z # u)"
  using assms(1)
proof (cases rule: append_meet)
  case (1 us)
  then show ?thesis using assms(2) by (cases us) auto
next
  case (2 us)
  then show ?thesis by (cases us) auto
qed

section \<open>The two comment syntaxes\<close>

definition tag_syntax :: "string \<Rightarrow> string \<Rightarrow> bool" where
  "tag_syntax op cl \<longleftrightarrow> (op, cl) = (''<!--'', ''-->'') \<or> (op, cl) = (''{/*'', ''*/}'')"

definition block_text :: "string \<Rightarrow> string \<Rightarrow> string \<Rightarrow> string \<Rightarrow> string" where
  "block_text op cl nl line =
     op @ '' '' @ MARKER_OPEN_TEXT @ '' '' @ cl @ nl @ line @ nl @ op @ '' '' @ MARKER_CLOSE_TEXT @ '' '' @ cl @ nl"

lemmas marker_defs = MARKER_OPEN_TEXT_def MARKER_CLOSE_TEXT_def

lemma tag_syntaxE:
  assumes "tag_syntax op cl"
  obtains h d p where "op = h # d # p" "h \<notin> set (d # p)" "h \<notin> set MARKER_OPEN_TEXT" "\<not> is_ws h" "\<not> is_blank h"
    "cl \<noteq> []" "\<not> is_ws (hd cl)"
  using assms by (auto simp: tag_syntax_def marker_defs is_ws_def is_blank_def)

text \<open>
  No match begins in a text before the block, unless in the blanks directly before it; and none at
  all of the other syntax.
\<close>

lemma tag_clash:
  assumes eq: "v @ z # T = w1 @ op @ x1 @ MARKER_OPEN_TEXT @ T'"
    and op: "tag_syntax op cl"
    and blank: "\<forall>c \<in> set w1. is_blank c" and ws: "\<forall>c \<in> set x1. is_ws c"
    and absent: "\<not> str_includes v MARKER_OPEN_TEXT"
    and z: "z \<notin> set (tl op)" "z \<notin> set MARKER_OPEN_TEXT" "\<not> is_ws z"
  shows "v = w1 \<and> z = hd op \<or> (\<exists>u. w1 = v @ z # u)"
proof -
  obtain h d p where h: "op = h # d # p" using op by (rule tag_syntaxE)
  let ?q = "w1 @ op @ x1 @ MARKER_OPEN_TEXT"
  have "v @ z # T = ?q @ T'" using eq by simp
  then show ?thesis
  proof (cases rule: append_meet)
    case (1 us)
    then have "v = (w1 @ op @ x1) @ MARKER_OPEN_TEXT @ us" by simp
    then show ?thesis using absent unfolding str_includes_ex by blast
  next
    case (2 us)
    show ?thesis
    proof (cases us)
      case Nil
      then have "v = (w1 @ op @ x1) @ MARKER_OPEN_TEXT @ []" using 2 by simp
      then show ?thesis using absent unfolding str_includes_ex by blast
    next
      case (Cons y us')
      then have v: "v @ z # us' = w1 @ h # (tl op @ x1 @ MARKER_OPEN_TEXT)" using 2 h by simp
      have "z \<notin> set (tl op @ x1 @ MARKER_OPEN_TEXT)" using z ws by auto
      then show ?thesis using two_marks [OF v] h by simp
    qed
  qed
qed

section \<open>The match at the block\<close>

definition line_end :: "string \<Rightarrow> bool" where
  "line_end nl \<longleftrightarrow> nl = [NL] \<or> nl = [CR, NL]"

lemma hit_space:
  assumes "t \<noteq> [] \<and> \<not> is_ws (hd t)" "k (CHR '' '' # b, t, g) = Some x"
  shows "rmatch (Many is_ws) (b, '' '' @ t, g) k = Some x"
  using hit_Many [of "'' ''" is_ws t k b g x] assms by (simp add: is_ws_def)

lemma newline_step:
  assumes "line_end nl"
  shows "rmatch (Grp 2 (Cat (Many is_blank) (Opt newline_re))) (b, nl @ R, g) Some = Some (rev nl @ b, R, (2, nl) # g)"
  using assms by (auto simp: line_end_def newline_re_def is_blank_def NL_def CR_def)

definition close_re :: "string \<Rightarrow> string \<Rightarrow> re" where
  "close_re op cl = seq [lit op, Many is_ws, lit MARKER_CLOSE_TEXT, Many is_ws, lit cl, Grp 2 (Cat (Many is_blank) (Opt newline_re))]"

lemma marker_head: "MARKER_CLOSE_TEXT @ t \<noteq> [] \<and> \<not> is_ws (hd (MARKER_CLOSE_TEXT @ t))"
  "MARKER_OPEN_TEXT @ t \<noteq> [] \<and> \<not> is_ws (hd (MARKER_OPEN_TEXT @ t))"
  by (simp_all add: marker_defs is_ws_def)

lemma cl_head: "tag_syntax op cl \<Longrightarrow> cl @ t \<noteq> [] \<and> \<not> is_ws (hd (cl @ t))"
  by (auto simp: tag_syntax_def is_ws_def)

lemma close_match:
  assumes "tag_syntax op cl" "line_end nl"
  shows "\<exists>b'. rmatch (close_re op cl) (b, op @ '' '' @ MARKER_CLOSE_TEXT @ '' '' @ cl @ nl @ R, g) Some = Some (b', R, (2, nl) # g)"
  unfolding close_re_def seq.simps
  by (rule exI, (rule hit_Cat hit_lit hit_space marker_head cl_head [OF assms(1)] newline_step [OF assms(2)])+)

lemma open_match:
  assumes "tag_syntax op cl" "line_end nl" "opener_free (hd op) (op ! 1) (nl @ line @ nl)" "\<forall>c \<in> set run. is_blank c"
  shows "\<exists>b'. rmatch (tag_pattern op cl) (b, run @ block_text op cl nl line @ R, []) Some = Some (b', R, [(2, nl), (1, run)])"
proof -
  obtain h d p where h: "op = h # d # p" "\<not> is_blank h" using assms(1) by (rule tag_syntaxE)
  let ?inner = "nl @ line @ nl"
  let ?rest = "op @ '' '' @ MARKER_CLOSE_TEXT @ '' '' @ cl @ nl @ R"
  let ?b = "rev cl @ CHR '' '' # rev MARKER_OPEN_TEXT @ CHR '' '' # rev op @ rev run @ b"
  have pat: "tag_pattern op cl = Cat (Grp 1 (Many is_blank)) (seq [lit op, Many is_ws, lit MARKER_OPEN_TEXT, Many is_ws, lit cl, Lazy is_any, close_re op cl])"
    by (simp add: tag_pattern_def close_re_def)
  obtain b' where close: "rmatch (close_re op cl) (rev ?inner @ ?b, ?rest, [(1, run)]) Some = Some (b', R, [(2, nl), (1, run)])"
    using close_match [OF assms(1,2)] by blast
  have fails: "rmatch (close_re op cl) (rev u @ ?b, v @ ?rest, [(1, run)]) Some = None" if "?inner = u @ v" "v \<noteq> []" for u v
  proof -
    have "opener_free h d v" using assms(3) that(1) h(1) opener_free_suffix by (metis list.sel(1) nth_Cons_Suc nth_Cons_0 One_nat_def)
    then have "\<not> starts_with (v @ ?rest) op" using opener_free_starts [of h d v ?rest p] that(2) h(1) by simp
    then show ?thesis by (simp add: close_re_def rmatch_lit_fails del: lit.simps)
  qed
  have lazy: "rmatch (Lazy is_any) (?b, ?inner @ ?rest, [(1, run)]) (\<lambda>st. rmatch (close_re op cl) st Some) = Some (b', R, [(2, nl), (1, run)])"
    by (rule hit_Lazy) (use fails close in \<open>auto simp: is_any_def\<close>)
  have "rmatch (tag_pattern op cl) (b, run @ op @ '' '' @ MARKER_OPEN_TEXT @ '' '' @ cl @ ?inner @ ?rest, []) Some = Some (b', R, [(2, nl), (1, run)])"
    unfolding pat seq.simps
    by (rule hit_Cat, rule hit_Grp_Many [OF assms(4)], use h in simp)
       (rule hit_Cat hit_lit hit_space marker_head cl_head [OF assms(1)] lazy)+
  then show ?thesis by (auto simp: block_text_def)
qed

section \<open>Removal of a block\<close>

lemma no_marker_no_match: "\<not> str_includes s MARKER_OPEN_TEXT \<Longrightarrow> re_exec (tag_pattern op cl) s = None"
proof (rule ccontr)
  assume absent: "\<not> str_includes s MARKER_OPEN_TEXT" and "re_exec (tag_pattern op cl) s \<noteq> None"
  then obtain u v b' t g where uv: "s = u @ v" "(b', t, g) \<in> steps (tag_pattern op cl) (rev u, v, [])"
    unfolding re_exec_None by fastforce
  obtain w1 x1 x2 y x3 x4 w2 where "v = w1 @ op @ x1 @ MARKER_OPEN_TEXT @ x2 @ cl @ y @ op @ x3 @ MARKER_CLOSE_TEXT @ x4 @ cl @ w2 @ t"
    by (rule tag_pattern_steps [OF uv(2)])
  then have "s = (u @ w1 @ op @ x1) @ MARKER_OPEN_TEXT @ (x2 @ cl @ y @ op @ x3 @ MARKER_CLOSE_TEXT @ x4 @ cl @ w2 @ t)"
    using uv(1) by simp
  then show False using absent unfolding str_includes_ex by blast
qed

lemma not_includes_append: "\<not> str_includes (a @ b) p \<Longrightarrow> \<not> str_includes a p \<and> \<not> str_includes b p"
  unfolding str_includes_ex by (metis append_assoc)

text \<open>The blanks at the end of a text.\<close>

lemma trailing_blanks:
  obtains A0 run where "A = A0 @ run" "\<forall>c \<in> set run. is_blank c" "A0 = [] \<or> \<not> is_blank (last A0)"
proof -
  let ?run = "rev (takeWhile is_blank (rev A))" and ?A0 = "rev (dropWhile is_blank (rev A))"
  have "A = ?A0 @ ?run" by (metis rev_append rev_rev_ident takeWhile_dropWhile_id)
  moreover have "\<forall>c \<in> set ?run. is_blank c" by (auto dest: set_takeWhileD)
  moreover have "?A0 = [] \<or> \<not> is_blank (last ?A0)" by (metis hd_dropWhile last_rev rev_is_Nil_conv)
  ultimately show thesis using that by blast
qed

lemma detag_block:
  assumes syn: "tag_syntax op cl" and nl: "line_end nl" and line: "opener_free (hd op) (op ! 1) (nl @ line @ nl)"
    and absent: "\<not> str_includes A MARKER_OPEN_TEXT"
  shows "detag_once (tag_pattern op cl) (A @ block_text op cl nl line @ R) = A @ R"
proof -
  obtain A0 run where A: "A = A0 @ run" "\<forall>c \<in> set run. is_blank c" "A0 = [] \<or> \<not> is_blank (last A0)"
    by (rule trailing_blanks)
  obtain h d p where h: "op = h # d # p" "h \<notin> set (d # p)" "h \<notin> set MARKER_OPEN_TEXT" "\<not> is_ws h"
    using syn by (rule tag_syntaxE)
  let ?B = "block_text op cl nl line"
  obtain B' where B: "?B = h # B'" using h(1) by (simp add: block_text_def)
  have skip: "steps (tag_pattern op cl) (rev u @ [], v @ run @ ?B @ R, []) = {}" if "A0 = u @ v" "v \<noteq> []" for u v
  proof (rule ccontr)
    assume "steps (tag_pattern op cl) (rev u @ [], v @ run @ ?B @ R, []) \<noteq> {}"
    then obtain b' t g where q: "(b', t, g) \<in> steps (tag_pattern op cl) (rev u, v @ run @ ?B @ R, [])" by auto
    obtain w1 x1 x2 y x3 x4 w2 where w: "v @ run @ ?B @ R = w1 @ op @ x1 @ MARKER_OPEN_TEXT @ x2 @ cl @ y @ op @ x3 @ MARKER_CLOSE_TEXT @ x4 @ cl @ w2 @ t"
        "\<forall>c \<in> set w1. is_blank c" "\<forall>c \<in> set x1. is_ws c" by (rule tag_pattern_steps [OF q])
    have "(v @ run) @ h # (B' @ R) = w1 @ op @ x1 @ MARKER_OPEN_TEXT @ (x2 @ cl @ y @ op @ x3 @ MARKER_CLOSE_TEXT @ x4 @ cl @ w2 @ t)"
      using w(1) B by simp
    moreover have "\<not> str_includes (v @ run) MARKER_OPEN_TEXT"
      using absent not_includes_append [of u "v @ run" MARKER_OPEN_TEXT] that(1) A(1) by simp
    ultimately have "v @ run = w1 \<or> (\<exists>u. w1 = (v @ run) @ h # u)"
      using tag_clash [of "v @ run" h "B' @ R" w1 op x1 _ cl] syn w(2,3) h by auto
    then have "set v \<subseteq> set w1" by auto
    then have "is_blank (last v)" using w(2) last_in_set [OF that(2)] by blast
    then show False using A(3) that by simp
  qed
  obtain b' where hit: "rmatch (tag_pattern op cl) (rev A0, run @ ?B @ R, []) Some = Some (b', R, [(2, nl), (1, run)])"
    using open_match [OF syn nl line A(2)] by blast
  have "re_exec (tag_pattern op cl) (A @ ?B @ R) = exec_from (tag_pattern op cl) (rev A0 @ []) (run @ ?B @ R)"
    unfolding re_exec_def A(1) append_assoc by (rule exec_from_skip) (rule skip)
  also have "\<dots> = Some \<lparr>ex_index = length A0, ex_text = run @ ?B, ex_groups = [(2, nl), (1, run)]\<rparr>"
    using exec_from_hit [OF hit, of "run @ ?B"] by simp
  finally have m: "re_exec (tag_pattern op cl) (A @ ?B @ R) = \<dots>" .
  have "list_ex (\<lambda>c. c = CR \<or> c = NL) nl" using nl by (auto simp: line_end_def)
  then have "tag_replacement \<lparr>ex_index = length A0, ex_text = run @ ?B, ex_groups = [(2, nl), (1, run)]\<rparr> = run"
    by (simp add: tag_replacement_def group_text_def group_def Let_def)
  then show ?thesis unfolding detag_once_def m by (simp add: A(1))
qed

lemma html_pattern_misses_jsx:
  assumes A: "\<not> str_includes A MARKER_OPEN_TEXT" and R: "\<not> str_includes R MARKER_OPEN_TEXT"
    and B: "B = CHR ''{'' # X" "opener_free (CHR ''<'') (CHR ''!'') B"
  shows "re_exec (tag_pattern ''<!--'' ''-->'') (A @ B @ R) = None"
proof (rule ccontr)
  assume "re_exec (tag_pattern ''<!--'' ''-->'') (A @ B @ R) \<noteq> None"
  then obtain u v b' t g where uv: "A @ B @ R = u @ v" "(b', t, g) \<in> steps (tag_pattern ''<!--'' ''-->'') (rev u, v, [])"
    unfolding re_exec_None by fastforce
  obtain w1 x1 x2 y x3 x4 w2 where w: "v = w1 @ ''<!--'' @ x1 @ MARKER_OPEN_TEXT @ x2 @ ''-->'' @ y @ ''<!--'' @ x3 @ MARKER_CLOSE_TEXT @ x4 @ ''-->'' @ w2 @ t"
      "\<forall>c \<in> set x1. is_ws c" by (rule tag_pattern_steps [OF uv(2)])
  define P T where "P = u @ w1" and "T = x2 @ ''-->'' @ y @ ''<!--'' @ x3 @ MARKER_CLOSE_TEXT @ x4 @ ''-->'' @ w2 @ t"
  have eq: "A @ B @ R = (P @ ''<!--'' @ x1 @ MARKER_OPEN_TEXT) @ T" using uv(1) w(1) by (simp add: P_def T_def)
  have z: "CHR ''{'' \<notin> set (''!--'' @ x1 @ MARKER_OPEN_TEXT)" using w(2) by (auto simp: marker_defs is_ws_def)
  from eq show False
  proof (cases rule: append_meet)
    case (1 us)
    then have "A = (P @ ''<!--'' @ x1) @ MARKER_OPEN_TEXT @ us" by simp
    then show False using A unfolding str_includes_ex by blast
  next
    case (2 us)
    show False
    proof (cases us)
      case Nil
      then have "A = (P @ ''<!--'' @ x1) @ MARKER_OPEN_TEXT @ []" using 2 by simp
      then show False using A unfolding str_includes_ex by blast
    next
      case (Cons c us')
      then have c: "A @ CHR ''{'' # us' = P @ CHR ''<'' # (''!--'' @ x1 @ MARKER_OPEN_TEXT)" using 2 B(1) by simp
      obtain u2 where u2: "P = A @ CHR ''{'' # u2" using two_marks [OF c z] by auto
      have "(CHR ''{'' # u2) @ (''<!--'' @ x1 @ MARKER_OPEN_TEXT @ T) = B @ R" using eq u2 by simp
      then show False
      proof (cases rule: append_meet)
        case (1 us2)
        then have "R = (us2 @ ''<!--'' @ x1) @ MARKER_OPEN_TEXT @ T" by simp
        then show False using R unfolding str_includes_ex by blast
      next
        case (2 us2)
        show False
        proof (cases us2)
          case Nil
          then have "R = (''<!--'' @ x1) @ MARKER_OPEN_TEXT @ T" using 2 by simp
          then show False using R unfolding str_includes_ex by blast
        next
          case (Cons c2 us3)
          have "opener_free (CHR ''<'') (CHR ''!'') us2" using B(2) 2(1) opener_free_suffix by metis
          then show False using 2(2) Cons by (cases us3) auto
        qed
      qed
    qed
  qed
qed

lemma detag_loop_block:
  assumes "tag_syntax op cl" "line_end nl" "opener_free (hd op) (op ! 1) (nl @ line @ nl)" "\<not> str_includes (A @ R) MARKER_OPEN_TEXT"
  shows "detag_loop op cl (A @ block_text op cl nl line @ R) ch = (A @ R, True)"
proof -
  have A: "\<not> str_includes A MARKER_OPEN_TEXT" using not_includes_append assms(4) by blast
  have "A @ R \<noteq> A @ block_text op cl nl line @ R" by (auto simp: block_text_def)
  moreover have "detag_loop op cl (A @ R) True = (A @ R, True)"
    using no_marker_no_match [OF assms(4), of op cl] by (simp add: detag_loop.simps [of op cl "A @ R"] detag_once_def)
  ultimately show ?thesis
    using detag_block [OF assms(1-3) A] by (simp add: detag_loop.simps [of op cl "A @ block_text op cl nl line @ R"])
qed

lemma removeTag_block:
  assumes "tag_syntax op cl" "line_end nl" "\<not> str_includes (A @ R) MARKER_OPEN_TEXT"
    and "opener_free (CHR ''<'') (CHR ''!'') (nl @ line @ nl)" "CHR ''{'' \<notin> set line"
  shows "removeTag (A @ block_text op cl nl line @ R) = A @ R"
proof (cases "op = ''<!--''")
  case True
  then have "cl = ''-->''" using assms(1) by (simp add: tag_syntax_def)
  then show ?thesis
    using detag_loop_block [OF assms(1,2) _ assms(3), of line False] assms(4) True by (simp add: removeTag_def)
next
  case False
  then have syn: "op = ''{/*''" "cl = ''*/}''" using assms(1) by (auto simp: tag_syntax_def)
  have "CHR ''{'' \<notin> set (nl @ line @ nl)" using assms(2,5) by (auto simp: line_end_def NL_def CR_def)
  then have free: "opener_free (hd op) (op ! 1) (nl @ line @ nl)" using syn by (simp add: opener_free_absent)
  let ?B = "block_text op cl nl line"
  have "?B = (op @ '' '' @ MARKER_OPEN_TEXT @ '' '' @ cl) @ (nl @ line @ nl) @ (op @ '' '' @ MARKER_CLOSE_TEXT @ '' '' @ cl @ nl)"
    by (simp add: block_text_def)
  moreover have "opener_free (CHR ''<'') (CHR ''!'') (op @ '' '' @ MARKER_OPEN_TEXT @ '' '' @ cl)"
      "opener_free (CHR ''<'') (CHR ''!'') (op @ '' '' @ MARKER_CLOSE_TEXT @ '' '' @ cl @ nl)"
    using syn assms(2) by (auto intro!: opener_free_absent simp: marker_defs line_end_def NL_def CR_def)
  ultimately have "opener_free (CHR ''<'') (CHR ''!'') ?B"
    using assms(4) opener_free_append by metis
  moreover have "\<exists>X. ?B = CHR ''{'' # X" by (simp add: block_text_def syn)
  ultimately have "re_exec (tag_pattern ''<!--'' ''-->'') (A @ ?B @ R) = None"
    using html_pattern_misses_jsx not_includes_append [OF assms(3)] by blast
  then have "detag_loop ''<!--'' ''-->'' (A @ ?B @ R) False = (A @ ?B @ R, False)"
    by (simp add: detag_loop.simps [of "''<!--''"] detag_once_def)
  then show ?thesis
    using detag_loop_block [OF assms(1,2) free assms(3), of False] syn by (simp add: removeTag_def)
qed

section \<open>The script line\<close>

lemma nat_str_digits: "set (nat_str n) \<subseteq> {c. 48 \<le> (of_char c :: nat) \<and> (of_char c :: nat) \<le> 57}"
proof (induction n rule: nat_str.induct)
  case (1 n)
  show ?case
  proof (cases "n < 10")
    case True
    then show ?thesis by (simp add: nat_str.simps [of n])
  next
    case False
    then have "set (nat_str n) = insert (char_of (48 + n mod 10)) (set (nat_str (n div 10)))" by (simp add: nat_str.simps [of n])
    then show ?thesis using "1.IH" False by simp
  qed
qed

lemma nat_str_absent: "(of_char c :: nat) < 48 \<or> 57 < (of_char c :: nat) \<Longrightarrow> c \<notin> set (nat_str n)"
  using nat_str_digits [of n] by fastforce

lemma jint_text_absent: "(of_char c :: nat) < 48 \<and> c \<noteq> CHR ''-'' \<or> 57 < (of_char c :: nat) \<Longrightarrow> c \<notin> set (js_text (jint p))"
proof -
  assume c: "(of_char c :: nat) < 48 \<and> c \<noteq> CHR ''-'' \<or> 57 < (of_char c :: nat)"
  have "js_text (jint p) = (if p < 0 then ''-'' else []) @ nat_str (nat \<bar>p\<bar>)"
    by (simp add: Let_def of_int_abs [symmetric] del: of_int_abs)
  then show ?thesis using c nat_str_absent [of c] by auto
qed

lemma hex_upper_ranges: "n < 16 \<Longrightarrow> (of_char (hex_upper n) :: nat) \<in> {48..57} \<union> {65..70}"
  by (auto simp: hex_upper_def)

lemma encoded_absent:
  assumes "\<not> uri_plain c" "c \<noteq> CHR ''%''"
  shows "c \<notin> set (encodeURIComponent t)"
proof -
  have hx: "c \<noteq> hex_upper n" if "n < 16" for n
    using hex_upper_ranges [OF that] assms(1) by (auto simp: uri_plain_def is_word_char_def Let_def)
  have pb: "c \<notin> set (percent_byte n)" if "n < 256" for n
    using hx [of "n div 16"] hx [of "n mod 16"] that assms(2) by (auto simp: percent_byte_def)
  have lt: "(of_char x :: nat) < 256" for x :: char using range_nat_of_char by (metis atLeastLessThan_iff rangeI)
  have "192 + (of_char x :: nat) div 64 < 256" "128 + (of_char x :: nat) mod 64 < 256" for x :: char
    using div_le_mono [of "of_char x" 255 64] lt [of x] by auto
  then have "c \<notin> set (percent_byte (192 + (of_char x :: nat) div 64))" "c \<notin> set (percent_byte (128 + (of_char x :: nat) mod 64))" for x :: char
    using pb by blast+
  then show ?thesis using assms pb by (auto simp: encodeURIComponent_def Let_def split: if_splits)
qed

lemma src_absent:
  assumes "c = CHR ''<'' \<or> c = CHR ''{'' \<or> c = NL"
  shows "c \<notin> set (buildLiveScriptSrc port token)"
proof -
  have "\<not> uri_plain c" "c \<noteq> CHR ''%''" "(of_char c :: nat) < 48 \<and> c \<noteq> CHR ''-'' \<or> 57 < (of_char c :: nat)"
      "c \<notin> set (''http://localhost:'' @ ''/live.js'' @ ''?token='')"
    using assms by (auto simp: uri_plain_def is_word_char_def NL_def)
  then show ?thesis using encoded_absent [of c] jint_text_absent [of c port]
    by (auto simp: buildLiveScriptSrc_def Let_def simp del: js_text.simps split: option.splits)
qed

text \<open>The attributes that the registry of frameworks supplies.\<close>

definition registry_attrs :: "string \<Rightarrow> bool" where
  "registry_attrs attrs \<longleftrightarrow> attrs = [] \<or> attrs = ''is:inline ''"

lemma script_line_chars:
  assumes "registry_attrs attrs" "line_end nl"
  shows "CHR ''{'' \<notin> set (script_line port token attrs)" "NL \<notin> set (script_line port token attrs)"
    "opener_free (CHR ''<'') (CHR ''!'') (nl @ script_line port token attrs @ nl)"
proof -
  have src: "CHR ''<'' \<notin> set (buildLiveScriptSrc port token)" "CHR ''{'' \<notin> set (buildLiveScriptSrc port token)"
      "NL \<notin> set (buildLiveScriptSrc port token)" by (rule src_absent, simp)+
  show "CHR ''{'' \<notin> set (script_line port token attrs)" using assms(1) src by (auto simp: script_line_def registry_attrs_def)
  show "NL \<notin> set (script_line port token attrs)" using assms(1) src by (auto simp: script_line_def registry_attrs_def NL_def)
  have "nl @ script_line port token attrs @ nl =
      nl @ ''<script '' @ (attrs @ ''src=\"'' @ buildLiveScriptSrc port token @ ''\">'') @ ''</script>'' @ nl"
    by (simp add: script_line_def)
  moreover have "opener_free (CHR ''<'') (CHR ''!'') (attrs @ ''src=\"'' @ buildLiveScriptSrc port token @ ''\">'')"
    using assms(1) src by (intro opener_free_absent) (auto simp: registry_attrs_def)
  moreover have "opener_free (CHR ''<'') (CHR ''!'') nl"
    using assms(2) by (intro opener_free_absent) (auto simp: line_end_def NL_def CR_def)
  moreover have "opener_free (CHR ''<'') (CHR ''!'') ''<script ''" "opener_free (CHR ''<'') (CHR ''!'') ''</script>''" by simp_all
  ultimately show "opener_free (CHR ''<'') (CHR ''!'') (nl @ script_line port token attrs @ nl)"
    by (simp only: opener_free_append)
qed

lemma normalize_plain: "NL \<notin> set xs \<Longrightarrow> concat (map (\<lambda>c. if c = NL then le else [c]) xs) = xs"
  by (induction xs) auto

lemma comment_syntax: "tag_syntax (commentOpen syn) (commentClose syn)"
  by (simp add: tag_syntax_def commentOpen_def commentClose_def)

lemma block_is_text:
  assumes "registry_attrs attrs" "line_end le"
  shows "normalizeLineEndings (buildTagBlock syn port token attrs) le =
    block_text (commentOpen syn) (commentClose syn) le (script_line port token attrs)"
proof (cases "le = [NL]")
  case True
  then show ?thesis by (simp add: normalizeLineEndings_def buildTagBlock_def block_text_def)
next
  case False
  have "NL \<notin> set (commentOpen syn @ '' '' @ MARKER_OPEN_TEXT @ '' '' @ commentClose syn)"
      "NL \<notin> set (commentOpen syn @ '' '' @ MARKER_CLOSE_TEXT @ '' '' @ commentClose syn)"
    by (simp_all add: commentOpen_def commentClose_def marker_defs NL_def)
  moreover have "buildTagBlock syn port token attrs =
      (commentOpen syn @ '' '' @ MARKER_OPEN_TEXT @ '' '' @ commentClose syn) @ [NL] @ script_line port token attrs @ [NL] @
      (commentOpen syn @ '' '' @ MARKER_CLOSE_TEXT @ '' '' @ commentClose syn) @ [NL]"
    by (simp add: buildTagBlock_def)
  ultimately show ?thesis
    using False script_line_chars(2) [OF assms, of port token]
    by (auto simp: normalizeLineEndings_def block_text_def normalize_plain)
qed

lemma removeTag_inserted:
  assumes "registry_attrs attrs" "line_end le" "\<not> str_includes (A @ R) MARKER_OPEN_TEXT"
  shows "removeTag (A @ normalizeLineEndings (buildTagBlock syn port token attrs) le @ R) = A @ R"
  unfolding block_is_text [OF assms(1,2)]
  using removeTag_block [OF comment_syntax assms(2,3)] script_line_chars [OF assms(1,2)] by blast

lemma removeTag_absent: "\<not> str_includes content MARKER_OPEN_TEXT \<Longrightarrow> removeTag content = content"
  using no_marker_no_match [of content] by (simp add: removeTag_def detag_loop.simps [of _ _ content] detag_once_def)

section \<open>Searching\<close>

lemma index_of_Some: "index_of s p = Some i \<Longrightarrow> \<exists>t. s = take i s @ p @ t \<and> i + length p \<le> length s"
proof (induction s p arbitrary: i rule: index_of.induct)
  case (2 c cs p)
  show ?case
  proof (cases "starts_with (c # cs) p")
    case True
    then obtain t where t: "c # cs = p @ t" by (auto simp: starts_with_ex)
    moreover have "i = 0" using "2.prems" True by simp
    ultimately show ?thesis using arg_cong [OF t, of length] by (auto simp: t)
  next
    case False
    then show ?thesis using 2 by fastforce
  qed
qed (auto split: if_splits)

text \<open>A first occurrence does not depend on what follows it.\<close>

lemma index_of_stable:
  "index_of (a @ t) p = Some i \<Longrightarrow> i + length p \<le> length a \<Longrightarrow> index_of (a @ t') p = Some i"
proof (induction a arbitrary: i)
  case Nil
  then show ?case by (cases t'; cases p) auto
next
  case (Cons c a)
  have sw: "starts_with (c # a @ t) p = starts_with (c # a @ t') p" if "length p \<le> length (c # a)"
    using that unfolding starts_with_ex by (metis append_Cons append_eq_append_conv_if append_take_drop_id)
  show ?case
  proof (cases i)
    case 0
    then have "length p \<le> length (c # a)" "starts_with (c # a @ t) p" using Cons.prems by (auto split: if_splits)
    then show ?thesis using sw 0 by simp
  next
    case (Suc j)
    then have "index_of (a @ t) p = Some j" "\<not> starts_with (c # a @ t) p" using Cons.prems by (auto split: if_splits)
    moreover have "length p \<le> length (c # a)" "j + length p \<le> length a" using Cons.prems Suc by simp_all
    ultimately show ?thesis using Cons.IH sw Suc by simp
  qed
qed

lemma not_includes_insert_newline:
  assumes "\<not> str_includes (a @ b) p" "set nl \<inter> set p = {}" "nl \<noteq> []"
  shows "\<not> str_includes (a @ nl @ b) p"
proof
  assume "str_includes (a @ nl @ b) p"
  then obtain x y where "x @ p @ y = a @ nl @ b" by (auto simp: str_includes_ex)
  then show False
  proof (cases rule: append_meet)
    case (1 us)
    have "us @ p @ y = nl @ b" by (rule 1)
    then show False
    proof (cases rule: append_meet)
      case (1 us2)
      then have "b = us2 @ p @ y" by simp
      then have "a @ b = (a @ us2) @ p @ y" by simp
      then show False using assms(1) unfolding str_includes_ex by blast
    next
      case (2 us2)
      have "p = [] \<or> us2 = [] \<or> hd p = hd us2" using 2(2) by (cases p; cases us2) auto
      moreover have "us2 \<noteq> [] \<Longrightarrow> hd us2 \<in> set nl" using 2(1) by auto
      moreover have "p = [] \<Longrightarrow> False" using assms(1) by (auto simp: str_includes_ex)
      ultimately have "us2 = []" using assms(2) by (metis IntI empty_iff hd_in_set)
      then have "a @ b = a @ p @ y" using 2 by simp
      then show False using assms(1) unfolding str_includes_ex by blast
    qed
  next
    case (2 us)
    have "p @ y = us @ (nl @ b)" by (rule 2)
    then show False
    proof (cases rule: append_meet)
      case (1 us2)
      have "us2 = [] \<or> hd us2 = hd nl" using 1(2) assms(3) by (cases us2; cases nl) auto
      then have "us2 = []" using 1(1) assms(2,3) by (metis IntI UnCI empty_iff hd_in_set set_append)
      then have "a @ b = x @ p @ b" using 1 2(1) by simp
      then show False using assms(1) unfolding str_includes_ex by blast
    next
      case (2 us2)
      have "x @ p @ us2 = a" using \<open>x @ us = a\<close> 2(1) by simp
      then have "a @ b = x @ p @ (us2 @ b)" by auto
      then show False using assms(1) unfolding str_includes_ex by blast
    qed
  qed
qed

section \<open>Properties\<close>

text \<open>The place of an insertion: the text before and after the block.\<close>

lemma insertTag_place:
  assumes "insertTag content config port token attrs = Inr s" "s \<noteq> content"
  obtains (before) a i where "tc_insertBefore config = Some a" "a \<noteq> []" "last_index_of content a = Some i"
      "s = take i content @ normalizeLineEndings (buildTagBlock (tc_commentSyntax config) port token attrs) (detectLineEnding content) @ drop i content"
  | (after) a i where "tc_insertBefore config = None \<or> tc_insertBefore config = Some []" "tc_insertAfter config = Some a" "index_of content a = Some i"
      "s = (take (i + length a) content @ (if readLineEndingAt content (i + length a) \<noteq> [] then readLineEndingAt content (i + length a) else detectLineEnding content)) @
         normalizeLineEndings (buildTagBlock (tc_commentSyntax config) port token attrs) (detectLineEnding content) @
         drop (i + length a + length (readLineEndingAt content (i + length a))) content"
  using assms unfolding insertTag_def Let_def
  by (cases "tc_insertBefore config"; cases "the (tc_insertBefore config)"; cases "tc_insertAfter config")
     (auto split: option.splits list.splits)

lemma read_line_ending_take: "take i content @ readLineEndingAt content i @ drop (i + length (readLineEndingAt content i)) content = content"
proof -
  have "readLineEndingAt content i @ drop (length (readLineEndingAt content i)) (drop i content) = drop i content"
    unfolding readLineEndingAt_def Let_def starts_with_ex by (auto simp del: drop_drop)
  then show ?thesis by (metis append_take_drop_id drop_drop add.commute)
qed

lemma line_end_detect: "detectLineEnding content \<noteq> [CR] \<Longrightarrow> line_end (detectLineEnding content)"
  by (auto simp: detectLineEnding_def line_end_def split: if_splits)

lemma detect_gap:
  assumes "detectLineEnding (a @ b) = le" "le \<noteq> [CR]"
  shows "detectLineEnding (a @ le @ b) = le"
proof (cases "le = [NL]")
  case True
  have plain: "str_includes x [CR] \<longleftrightarrow> CR \<in> set x" for x
    by (auto simp: str_includes_ex in_set_conv_decomp)
  have "CR \<notin> set (a @ b)" using assms(1) True plain by (auto simp: detectLineEnding_def NL_def CR_def split: if_splits)
  then have "CR \<notin> set (a @ le @ b)" using True by (simp add: NL_def CR_def)
  then have "\<not> str_includes (a @ le @ b) [CR]" "\<not> str_includes (a @ le @ b) [CR, NL]"
    using plain [of "a @ le @ b"] by (simp, unfold str_includes_ex) (metis append_Cons append_Nil in_set_conv_decomp)
  then show ?thesis using True by (simp add: detectLineEnding_def)
next
  case False
  then have "le = [CR, NL]" using assms by (auto simp: detectLineEnding_def split: if_splits)
  then have "str_includes (a @ le @ b) [CR, NL]" unfolding str_includes_ex by blast
  then show ?thesis using \<open>le = [CR, NL]\<close> by (simp add: detectLineEnding_def)
qed

text \<open>
  What removal leaves: the content, with one line ending more where the tag was inserted behind an
  anchor that none followed.
\<close>

definition left_behind :: "string \<Rightarrow> tag_config \<Rightarrow> string" where
  "left_behind content config = (case tc_insertBefore config of
      Some (_ # _) \<Rightarrow> content
    | _ \<Rightarrow> (case tc_insertAfter config of None \<Rightarrow> content
        | Some a \<Rightarrow> (case index_of content a of None \<Rightarrow> content
            | Some i \<Rightarrow> if readLineEndingAt content (i + length a) \<noteq> [] then content
                else take (i + length a) content @ detectLineEnding content @ drop (i + length a) content)))"

lemma newline_not_in_marker: "line_end nl \<Longrightarrow> set nl \<inter> set MARKER_OPEN_TEXT = {}"
  by (auto simp: line_end_def marker_defs NL_def CR_def)

lemma line_end_ne: "line_end nl \<Longrightarrow> nl \<noteq> []"
  by (auto simp: line_end_def)

text \<open>
  C17: Removing an injected script tag. For both comment syntaxes, with LF or CRLF line endings, any
  port and any token: \<^verbatim>\<open>removeTag\<close> takes out exactly what \<^verbatim>\<open>insertTag\<close> put in, indentation
  included, except for the line ending that \<^verbatim>\<open>insertTag\<close> adds behind an \<^verbatim>\<open>insertAfter\<close>
  anchor that ends no line; that one stays. A following injection, on whatever port, then gives what
  it would have given on the original text.
\<close>

theorem tag_inject_remove:
  assumes "\<not> str_includes content MARKER_OPEN_TEXT" "detectLineEnding content \<noteq> [CR]" "registry_attrs attrs"
    and "insertTag content config port token attrs = Inr s" "s \<noteq> content"
  shows "removeTag s = left_behind content config \<and>
    insertTag (removeTag s) config port' token' attrs' = insertTag content config port' token' attrs'"
  using assms(4,5)
proof (cases rule: insertTag_place)
  case (before a i)
  have le: "line_end (detectLineEnding content)" using assms(2) by (rule line_end_detect)
  have "removeTag s = content"
    using removeTag_inserted [OF assms(3) le, of "take i content" "drop i content"] before assms(1) by simp
  moreover have "left_behind content config = content" using before(1,2) by (cases a) (simp_all add: left_behind_def)
  ultimately show ?thesis by simp
next
  case (after a i)
  let ?j = "i + length a"
  have le: "line_end (detectLineEnding content)" using assms(2) by (rule line_end_detect)
  show ?thesis
  proof (cases "readLineEndingAt content ?j = []")
    case False
    then have parts: "(take ?j content @ readLineEndingAt content ?j) @ drop (?j + length (readLineEndingAt content ?j)) content = content"
      using read_line_ending_take [of ?j content] by simp
    have "removeTag s = content"
      using removeTag_inserted [OF assms(3) le, of "take ?j content @ readLineEndingAt content ?j"] parts after(4) assms(1) False by simp
    moreover have "left_behind content config = content" using after False by (auto simp: left_behind_def split: list.splits)
    ultimately show ?thesis by simp
  next
    case True
    let ?c = "take ?j content @ detectLineEnding content @ drop ?j content"
    have "\<not> str_includes ?c MARKER_OPEN_TEXT"
      using not_includes_insert_newline [of "take ?j content" "drop ?j content"] assms(1) newline_not_in_marker [OF le] line_end_ne [OF le] by simp
    then have rem: "removeTag s = ?c"
      using removeTag_inserted [OF assms(3) le, of "take ?j content @ detectLineEnding content" "drop ?j content"] after(4) True by simp
    have lb: "left_behind content config = ?c" using after True by (auto simp: left_behind_def split: list.splits)
    have bound: "?j \<le> length content" using index_of_Some [OF after(3)] by blast
    have "index_of ?c a = Some i"
      using index_of_stable [of "take ?j content" "drop ?j content" a i] after(3) bound by simp
    moreover have "detectLineEnding ?c = detectLineEnding content"
      using detect_gap [of "take ?j content" "drop ?j content"] assms(2) by simp
    moreover have "readLineEndingAt ?c ?j = detectLineEnding content"
      using le bound by (auto simp: readLineEndingAt_def Let_def line_end_def NL_def CR_def)
    ultimately have "insertTag ?c config port' token' attrs' = insertTag content config port' token' attrs'"
      using after(1-3) True bound line_end_ne [OF le] by (auto simp: insertTag_def Let_def)
    then show ?thesis using rem lb by simp
  qed
qed

definition demo_html :: string where "demo_html = ''<p>a</p>'' @ [NL] @ ''  </body>''"

definition demo_tag_config :: tag_config where
  "demo_tag_config = \<lparr>tc_insertBefore = Some ''</body>'', tc_insertAfter = None, tc_commentSyntax = ''html''\<rparr>"

lemma insertion_differs:
  assumes "b \<noteq> []"
  shows "take i c @ b @ drop i c \<noteq> c"
proof
  assume "take i c @ b @ drop i c = c"
  then have "length (take i c @ b @ drop i c) = length c" by simp
  then show False using assms by (cases "i \<le> length c") simp_all
qed

theorem tag_inject_remove_witness:
  "case insertTag demo_html demo_tag_config 8400 (Some ''t1'') [] of Inl _ \<Rightarrow> False
   | Inr s \<Rightarrow> s \<noteq> demo_html \<and> removeTag s = demo_html \<and>
       insertTag (removeTag s) demo_tag_config 8401 None [] = insertTag demo_html demo_tag_config 8401 None []"
proof -
  let ?B = "normalizeLineEndings (buildTagBlock ''html'' 8400 (Some ''t1'') []) (detectLineEnding demo_html)"
  have "last_index_of demo_html ''</body>'' = Some 11" by code_simp
  then have s: "insertTag demo_html demo_tag_config 8400 (Some ''t1'') [] = Inr (take 11 demo_html @ ?B @ drop 11 demo_html)"
    by (simp add: insertTag_def demo_tag_config_def Let_def)
  have "line_end (detectLineEnding demo_html)" by code_simp
  then have "?B \<noteq> []" by (simp add: block_is_text registry_attrs_def block_text_def)
  then have ne: "take 11 demo_html @ ?B @ drop 11 demo_html \<noteq> demo_html"
    by (rule insertion_differs)
  have "\<not> str_includes demo_html MARKER_OPEN_TEXT" "detectLineEnding demo_html \<noteq> [CR]" by code_simp+
  moreover have "left_behind demo_html demo_tag_config = demo_html" by (simp add: left_behind_def demo_tag_config_def)
  ultimately show ?thesis
    using tag_inject_remove [of demo_html "[]" demo_tag_config 8400 "Some ''t1''" _ 8401 None "[]", OF _ _ _ s ne] s ne
    by (simp add: registry_attrs_def)
qed

lemma detag_once_fixed:
  assumes "detag_once (tag_pattern op cl) content = content"
  shows "re_exec (tag_pattern op cl) content = None"
proof (rule ccontr)
  assume "re_exec (tag_pattern op cl) content \<noteq> None"
  then obtain m where m: "re_exec (tag_pattern op cl) content = Some m" by auto
  obtain core where c: "ex_text m = group_text m 1 @ core @ group_text m 2" "40 \<le> length core"
      "ex_index m + length (ex_text m) \<le> length content" by (rule detag_match [OF m])
  have "length (detag_once (tag_pattern op cl) content) =
      ex_index m + length (tag_replacement m) + (length content - (ex_index m + length (ex_text m)))"
    using m c(3) by (simp add: detag_once_def)
  then show False using assms c tag_replacement_length [of m] by simp
qed

lemma detag_rounds:
  "length content div 40 \<le> n \<Longrightarrow> detag_once (tag_pattern op cl) ((detag_once (tag_pattern op cl) ^^ n) content) = (detag_once (tag_pattern op cl) ^^ n) content"
proof (induction n arbitrary: content)
  case 0
  then have "length content < 40" by (simp add: div_eq_0_iff)
  then show ?case using detag_once_shrinks [of op cl content] by fastforce
next
  case (Suc n)
  let ?f = "detag_once (tag_pattern op cl)"
  show ?case
  proof (cases "?f content = content")
    case True
    have "(?f ^^ k) content = content" for k by (induction k) (simp_all add: True)
    then show ?thesis using True by simp
  next
    case False
    then have "length (?f content) + 40 \<le> length content" by (rule detag_once_shrinks)
    then have "length (?f content) div 40 \<le> n" using Suc.prems div_le_mono [of "length (?f content) + 40" "length content" 40] by simp
    then show ?thesis using Suc.IH [of "?f content"] by (simp add: funpow_swap1)
  qed
qed

lemma detag_loop_rounds:
  "detag_once (tag_pattern op cl) ((detag_once (tag_pattern op cl) ^^ n) content) = (detag_once (tag_pattern op cl) ^^ n) content \<Longrightarrow>
   fst (detag_loop op cl content changed) = (detag_once (tag_pattern op cl) ^^ n) content"
proof (induction n arbitrary: content changed)
  case 0
  then show ?case by (simp add: detag_loop.simps [of op cl content])
next
  case (Suc n)
  let ?f = "detag_once (tag_pattern op cl)"
  show ?case
  proof (cases "?f content = content")
    case True
    have "(?f ^^ k) content = content" for k by (induction k) (simp_all add: True)
    then show ?thesis using True by (simp add: detag_loop.simps [of op cl content])
  next
    case False
    then show ?thesis using Suc.IH [of "?f content" True] Suc.prems
      by (simp add: detag_loop.simps [of op cl content] funpow_swap1)
  qed
qed

text \<open>
  C39: The loop of \<^verbatim>\<open>removeTag\<close> ends. On a text of \<open>n\<close> characters it has reached its end after
  \<open>n div 40\<close> turns, because a turn that changes the text shortens it by at least 40 characters; and
  then no complete block of that comment syntax is left.
\<close>

theorem detag_loop_ends:
  "fst (detag_loop op cl content changed) = (detag_once (tag_pattern op cl) ^^ (length content div 40)) content \<and>
   re_exec (tag_pattern op cl) (fst (detag_loop op cl content changed)) = None"
  using detag_loop_rounds [OF detag_rounds [OF le_refl]] detag_once_fixed [OF detag_rounds [OF le_refl]] by metis

end
