(* ===== verification/Inject_Journal.thy ===== *)
theory Inject_Journal
  imports Paths Tag_Properties
begin

text \<open>
  The journal of an injection (\<^verbatim>\<open>scripts/live/frameworks/journal.mjs\<close>): what an injection wrote is
  recorded, and what an injection that never got to stop left behind is healed.

  The project is a list of files and a list of directories, by the segments of their absolute paths.
  The file of the journal is apart, by its parsed content (\<open>None\<close> when it is missing or does not
  parse). Whether the process may change a path is a parameter, as are the undo functions that the
  frameworks register; a key that none registers is looked up in \<^verbatim>\<open>Object.prototype\<close>, as the code
  does. An exception leaves the changes made so far.
\<close>

section \<open>State\<close>

record project =
  pj_files :: "(string list \<times> string) list"
  pj_dirs :: "string list list"
  pj_journal :: "jsval option"

definition read_file :: "project \<Rightarrow> string list \<Rightarrow> string option" where
  "read_file pj p = map_of (pj_files pj) p"

definition remove_file :: "string list \<Rightarrow> project \<Rightarrow> project" where
  "remove_file p pj = pj\<lparr>pj_files := filter (\<lambda>(q, _). q \<noteq> p) (pj_files pj)\<rparr>"

definition write_file :: "string list \<Rightarrow> string \<Rightarrow> project \<Rightarrow> project" where
  "write_file p c pj = pj\<lparr>pj_files := (p, c) # filter (\<lambda>(q, _). q \<noteq> p) (pj_files pj)\<rparr>"

definition children :: "project \<Rightarrow> string list \<Rightarrow> string list list" where
  "children pj d = filter (\<lambda>p. p \<noteq> [] \<and> butlast p = d) (map fst (pj_files pj) @ pj_dirs pj)"

section \<open>The journal\<close>

definition INJECT_JOURNAL_VERSION :: int where "INJECT_JOURNAL_VERSION = 1"

definition readInjectJournal :: "project \<Rightarrow> jsval option" where
  "readInjectJournal pj = (case pj_journal pj of None \<Rightarrow> None
     | Some raw \<Rightarrow> if \<not> truthy raw \<or> \<not> typeof_object raw \<or> \<not> is_arr (dot raw ''artifacts'') then None else Some raw)"

definition clearInjectJournal :: "project \<Rightarrow> project" where
  "clearInjectJournal pj = pj\<lparr>pj_journal := None\<rparr>"

definition writeInjectJournal :: "jsval \<Rightarrow> project \<Rightarrow> project" where
  "writeInjectJournal journal pj = pj\<lparr>pj_journal := Some journal\<rparr>"

text \<open>\<open>now\<close> is the text of the date.\<close>

definition recordInjection :: "string \<Rightarrow> int \<Rightarrow> string \<Rightarrow> jsval \<Rightarrow> jsval \<Rightarrow> jsval list \<Rightarrow> project \<Rightarrow> project" where
  "recordInjection cwd pid now framework port artifacts pj =
     (if artifacts = [] then clearInjectJournal pj
      else writeInjectJournal (JObj
        [(''version'', jint INJECT_JOURNAL_VERSION), (''appRoot'', JStr (path_resolve cwd ''.'')),
         (''framework'', js_or framework JNull),
         (''port'', case to_number port of Fin q \<Rightarrow> JNum (Fin q) | _ \<Rightarrow> JNull),
         (''pid'', jint pid), (''recordedAt'', JStr now), (''artifacts'', JArr artifacts)]) pj)"

section \<open>Confinement\<close>

definition insideProject :: "string \<Rightarrow> string list \<Rightarrow> bool" where
  "insideProject cwd absf = (\<not> outside_root (join_with ''/'' (relative_segments (path_segments cwd) absf)))"

text \<open>
  \<^verbatim>\<open>current.startsWith(stop + path.sep)\<close> on the texts; the directory that is left is the parent.
\<close>

function pruneEmptyDirs :: "(string list \<Rightarrow> bool) \<Rightarrow> string list \<Rightarrow> string list \<Rightarrow> project \<Rightarrow> project" where
  "pruneEmptyDirs may current stop pj =
     (if current = stop \<or> current = [] \<or> \<not> starts_with (abs_path current) (abs_path stop @ ''/'') then pj
      else if current \<notin> set (pj_dirs pj) \<or> children pj current \<noteq> [] \<or> \<not> may current then pj
      else pruneEmptyDirs may (butlast current) stop (pj\<lparr>pj_dirs := removeAll current (pj_dirs pj)\<rparr>))"
  by pat_completeness auto

termination
  by (relation "measure (\<lambda>(_, current, _, _). length current)") auto

declare pruneEmptyDirs.simps [simp del]

section \<open>Healing\<close>

datatype undone = Text string | Not_Text | Throws

text \<open>
  The functions that every object inherits, called on a text without a receiver:
  \<^verbatim>\<open>toString\<close> answers for \<^verbatim>\<open>undefined\<close>, \<^verbatim>\<open>isPrototypeOf\<close> and \<^verbatim>\<open>constructor\<close> answer with
  something that is not a text, the others throw.
\<close>

definition inherited :: "string \<Rightarrow> undone option" where
  "inherited key =
     (if key = ''toString'' then Some (Text ''[object Undefined]'')
      else if key = ''isPrototypeOf'' \<or> key = ''constructor'' then Some Not_Text
      else if key \<in> set [''hasOwnProperty'', ''propertyIsEnumerable'', ''toLocaleString'', ''valueOf'',
        ''__defineGetter__'', ''__defineSetter__'', ''__lookupGetter__'', ''__lookupSetter__''] then Some Throws
      else None)"

definition call_undo :: "(string \<Rightarrow> (string \<Rightarrow> string) option) \<Rightarrow> string \<Rightarrow> string \<Rightarrow> undone option" where
  "call_undo undoers key content = (case undoers key of Some f \<Rightarrow> Some (Text (f content)) | None \<Rightarrow> inherited key)"

datatype action = Refused_Outside_Project | Absent | Disowned | Removed | Unpatched

type_synonym outcome = "(string \<times> action) option"

definition marker_in :: "string \<Rightarrow> jsval \<Rightarrow> bool" where
  "marker_in content marker = str_includes content (js_text marker)"

text \<open>The directories that a removed file leaves empty, up to \<^verbatim>\<open>pruneTo\<close>.\<close>

definition prune_after :: "string \<Rightarrow> (string list \<Rightarrow> bool) \<Rightarrow> jsval \<Rightarrow> string list \<Rightarrow> project \<Rightarrow> project js" where
  "prune_after cwd may pruneTo absf pj =
     (if pruneTo = JUndef then Inr pj
      else (case js_or pruneTo (JStr ''.'') of
          JStr t \<Rightarrow>
           (let pruneRoot = resolve_segments cwd t
            in Inr (if insideProject cwd pruneRoot \<or> pruneRoot = path_segments cwd
                    then pruneEmptyDirs may (butlast absf) pruneRoot pj else pj))
        | _ \<Rightarrow> Inl TypeError))"

definition healArtifact ::
  "string \<Rightarrow> (string list \<Rightarrow> bool) \<Rightarrow> (string \<Rightarrow> (string \<Rightarrow> string) option) \<Rightarrow> string \<Rightarrow> jsval \<Rightarrow> project \<Rightarrow> project \<times> outcome js" where
  "healArtifact cwd may undoers path artifact pj =
     (let absf = resolve_segments cwd path in
      if \<not> insideProject cwd absf then (pj, Inr (Some (path, Refused_Outside_Project)))
      else (case read_file pj absf of
          None \<Rightarrow> (pj, Inr (Some (path, Absent)))
        | Some content \<Rightarrow>
            if dot artifact ''kind'' = JStr ''created'' then
             (let marker = dot artifact ''marker'' in
              if \<not> truthy marker \<or> \<not> marker_in content marker then (pj, Inr (Some (path, Disowned)))
              else if \<not> may absf then (pj, Inr None)
              else (case prune_after cwd may (dot artifact ''pruneTo'') absf (remove_file absf pj) of
                  Inl e \<Rightarrow> (remove_file absf pj, Inl e)
                | Inr pj' \<Rightarrow> (pj', Inr (Some (path, Removed)))))
            else if dot artifact ''kind'' = JStr ''patched'' then
             (let markers = arr_elems (dot artifact ''markers'') in
              if markers \<noteq> [] \<and> \<not> list_ex (marker_in content) markers then (pj, Inr (Some (path, Disowned)))
              else (case call_undo undoers (js_text (dot artifact ''patch'')) content of
                  None \<Rightarrow> (pj, Inr None)
                | Some Throws \<Rightarrow> (pj, Inl TypeError)
                | Some Not_Text \<Rightarrow> (pj, Inr None)
                | Some (Text next) \<Rightarrow>
                    if next = content then (pj, Inr (Some (path, Disowned)))
                    else if \<not> may absf then (pj, Inr None)
                    else (write_file absf next pj, Inr (Some (path, Unpatched)))))
            else (pj, Inr None)))"

text \<open>The loop of \<^verbatim>\<open>healInjectJournal\<close>: what was healed and what is kept, in order.\<close>

fun heal_all ::
  "string \<Rightarrow> (string list \<Rightarrow> bool) \<Rightarrow> (string \<Rightarrow> (string \<Rightarrow> string) option) \<Rightarrow> string list set \<Rightarrow> jsval list \<Rightarrow>
   (string \<times> action) list \<Rightarrow> jsval list \<Rightarrow> project \<Rightarrow> project \<times> ((string \<times> action) list \<times> jsval list) js" where
  "heal_all cwd may undoers keepSet [] healed kept pj = (pj, Inr (healed, kept))"
| "heal_all cwd may undoers keepSet (artifact # artifacts) healed kept pj =
     (case dot artifact ''path'' of
        JStr path \<Rightarrow>
          if resolve_segments cwd path \<in> keepSet then heal_all cwd may undoers keepSet artifacts healed (kept @ [artifact]) pj
          else (case healArtifact cwd may undoers path artifact pj of
              (pj', Inl e) \<Rightarrow> (pj', Inl e)
            | (pj', Inr (Some (p, a))) \<Rightarrow>
                heal_all cwd may undoers keepSet artifacts (if a = Removed \<or> a = Unpatched then healed @ [(p, a)] else healed) kept pj'
            | (pj', Inr None) \<Rightarrow> heal_all cwd may undoers keepSet artifacts healed kept pj')
      | _ \<Rightarrow> heal_all cwd may undoers keepSet artifacts healed kept pj)"

definition healInjectJournal ::
  "string \<Rightarrow> (string list \<Rightarrow> bool) \<Rightarrow> (string \<Rightarrow> (string \<Rightarrow> string) option) \<Rightarrow> string list \<Rightarrow> project \<Rightarrow>
   project \<times> ((string \<times> action) list \<times> jsval list) js" where
  "healInjectJournal cwd may undoers keep pj = (case readInjectJournal pj of
      None \<Rightarrow> (pj, Inr ([], []))
    | Some journal \<Rightarrow>
       (case heal_all cwd may undoers (resolve_segments cwd ` set keep) (arr_elems (dot journal ''artifacts'')) [] [] pj of
          (pj', Inl e) \<Rightarrow> (pj', Inl e)
        | (pj', Inr (healed, kept)) \<Rightarrow>
            (if kept \<noteq> [] then writeInjectJournal (JObj (obj_set (own_props journal) ''artifacts'' (JArr kept))) pj'
             else clearInjectJournal pj', Inr (healed, kept))))"

section \<open>Properties\<close>

text \<open>A path that passes the test is strictly below the project.\<close>

lemma insideProject_below:
  assumes "isAbsolute cwd" "insideProject cwd (resolve_segments cwd p)"
  obtains rest where "resolve_segments cwd p = path_segments cwd @ rest" "rest \<noteq> []"
  using inside_root [OF path_segments_plain [OF assms(1)] resolve_plain [OF assms(1)]] assms(2)
  unfolding insideProject_def by blast

definition below :: "string list \<Rightarrow> string list \<Rightarrow> bool" where
  "below r p \<longleftrightarrow> (\<exists>rest. p = r @ rest \<and> rest \<noteq> [])"

text \<open>What healing leaves alone: everything that is not strictly below the project.\<close>

definition same_outside :: "string list \<Rightarrow> project \<Rightarrow> project \<Rightarrow> bool" where
  "same_outside r pj pj' \<longleftrightarrow> (\<forall>p. \<not> below r p \<longrightarrow> read_file pj' p = read_file pj p \<and> (p \<in> set (pj_dirs pj') \<longleftrightarrow> p \<in> set (pj_dirs pj)))"

lemma same_outside_refl [simp]: "same_outside r pj pj"
  by (simp add: same_outside_def)

lemma same_outside_trans: "same_outside r pj pj' \<Longrightarrow> same_outside r pj' pj'' \<Longrightarrow> same_outside r pj pj''"
  by (simp add: same_outside_def)

lemma same_outside_journal [simp]: "same_outside r pj (pj'\<lparr>pj_journal := j\<rparr>) \<longleftrightarrow> same_outside r pj pj'"
  by (simp add: same_outside_def read_file_def)

lemma map_of_filter_ne: "map_of (filter (\<lambda>(q, _). q \<noteq> p) xs) r = (if r = p then None else map_of xs r)"
  by (induction xs) auto

lemma read_remove [simp]: "read_file (remove_file p pj) q = (if q = p then None else read_file pj q)"
  by (simp add: read_file_def remove_file_def map_of_filter_ne)

lemma read_write [simp]: "read_file (write_file p c pj) q = (if q = p then Some c else read_file pj q)"
  by (simp add: read_file_def write_file_def map_of_filter_ne)

lemma dirs_keep [simp]: "pj_dirs (remove_file p pj) = pj_dirs pj" "pj_dirs (write_file p c pj) = pj_dirs pj"
  by (simp_all add: remove_file_def write_file_def)

lemma journal_keep [simp]: "pj_journal (remove_file p pj) = pj_journal pj" "pj_journal (write_file p c pj) = pj_journal pj"
  by (simp_all add: remove_file_def write_file_def)

lemma same_outside_remove: "below r p \<Longrightarrow> same_outside r pj (remove_file p pj)"
  by (auto simp: same_outside_def)

lemma same_outside_write: "below r p \<Longrightarrow> same_outside r pj (write_file p c pj)"
  by (auto simp: same_outside_def)

text \<open>Pruning removes empty directories strictly below the place where it stops, and no file.\<close>

lemma split_abs_path: "list_all plain_segment s \<Longrightarrow> s \<noteq> [] \<Longrightarrow> split_on (CHR ''/'') (abs_path s) = [] # s"
  using split_on_join [of s] by (auto simp: abs_path_def plain_segment_def list_all_iff)

lemma starts_with_parent:
  assumes "list_all plain_segment c" "list_all plain_segment s" "starts_with (abs_path c) (abs_path s @ ''/'')" "c \<noteq> []"
  shows "below s c"
proof -
  obtain t where t: "abs_path c = abs_path s @ CHR ''/'' # t" using assms(3) by (auto simp: starts_with_ex)
  have c: "[] # c = split_on (CHR ''/'') (abs_path s) @ split_on (CHR ''/'') t"
    using split_abs_path [OF assms(1,4)] split_on_snoc_sep [of "CHR ''/''" "abs_path s" t] t by simp
  show ?thesis
  proof (cases "s = []")
    case True
    then have "c = [] # split_on (CHR ''/'') t" using c by (simp add: abs_path_def)
    then show ?thesis using assms(1) by (simp add: plain_segment_def)
  next
    case False
    then show ?thesis using c split_abs_path [OF assms(2)] by (auto simp: below_def)
  qed
qed

definition at_or_below :: "string list \<Rightarrow> string list \<Rightarrow> bool" where
  "at_or_below r p \<longleftrightarrow> p = r \<or> below r p"

lemma below_trans: "at_or_below r s \<Longrightarrow> below s c \<Longrightarrow> below r c"
  by (auto simp: at_or_below_def below_def)

lemma prune_keeps:
  "list_all plain_segment stop \<Longrightarrow> at_or_below r stop \<Longrightarrow> list_all plain_segment current \<Longrightarrow> same_outside r pj (pruneEmptyDirs may current stop pj) \<and>
    read_file (pruneEmptyDirs may current stop pj) = read_file pj \<and> pj_journal (pruneEmptyDirs may current stop pj) = pj_journal pj"
proof (induction may current stop pj rule: pruneEmptyDirs.induct)
  case (1 may current stop pj)
  show ?case
  proof (cases "current = stop \<or> current = [] \<or> \<not> starts_with (abs_path current) (abs_path stop @ ''/'') \<or>
      current \<notin> set (pj_dirs pj) \<or> children pj current \<noteq> [] \<or> \<not> may current")
    case True
    then have "pruneEmptyDirs may current stop pj = pj" by (auto simp: pruneEmptyDirs.simps [of may current])
    then show ?thesis by simp
  next
    case False
    let ?pj = "pj\<lparr>pj_dirs := removeAll current (pj_dirs pj)\<rparr>"
    have eq: "pruneEmptyDirs may current stop pj = pruneEmptyDirs may (butlast current) stop ?pj"
      using False by (simp add: pruneEmptyDirs.simps [of may current])
    have "list_all plain_segment (butlast current)" using "1.prems"(3) by (auto simp: list_all_iff dest: in_set_butlastD)
    then have IH: "same_outside r ?pj (pruneEmptyDirs may (butlast current) stop ?pj) \<and>
        read_file (pruneEmptyDirs may (butlast current) stop ?pj) = read_file ?pj \<and>
        pj_journal (pruneEmptyDirs may (butlast current) stop ?pj) = pj_journal ?pj"
      using "1.IH" False "1.prems"(1,2) by blast
    have "below r current" using below_trans [OF "1.prems"(2)] starts_with_parent [OF "1.prems"(3,1)] False by blast
    then have "same_outside r pj ?pj" by (auto simp: same_outside_def read_file_def)
    then show ?thesis unfolding eq using IH same_outside_trans by (auto simp: read_file_def fun_eq_iff)
  qed
qed

lemma prune_after_keeps:
  assumes "isAbsolute cwd" "list_all plain_segment f" "prune_after cwd may pruneTo f pj = Inr pj'"
  shows "same_outside (path_segments cwd) pj pj' \<and> read_file pj' = read_file pj \<and> pj_journal pj' = pj_journal pj"
proof -
  have "pj' = pj \<or> (\<exists>t. (insideProject cwd (resolve_segments cwd t) \<or> resolve_segments cwd t = path_segments cwd) \<and>
      pj' = pruneEmptyDirs may (butlast f) (resolve_segments cwd t) pj)"
    using assms(3) by (auto simp: prune_after_def Let_def split: if_splits jsval.splits)
  moreover have "at_or_below (path_segments cwd) (resolve_segments cwd t)"
    if "insideProject cwd (resolve_segments cwd t) \<or> resolve_segments cwd t = path_segments cwd" for t
    using that insideProject_below [OF assms(1), of t] by (metis at_or_below_def below_def)
  moreover have "list_all plain_segment (butlast f)" using assms(2) by (auto simp: list_all_iff dest: in_set_butlastD)
  ultimately show ?thesis using prune_keeps [OF resolve_plain [OF assms(1)]] by (metis same_outside_refl)
qed

text \<open>An artifact that a file disowns.\<close>

definition disowns :: "string \<Rightarrow> jsval \<Rightarrow> bool" where
  "disowns content artifact \<longleftrightarrow>
     (dot artifact ''kind'' = JStr ''created'' \<longrightarrow> \<not> (truthy (dot artifact ''marker'') \<and> marker_in content (dot artifact ''marker''))) \<and>
     (dot artifact ''kind'' = JStr ''patched'' \<longrightarrow>
        arr_elems (dot artifact ''markers'') \<noteq> [] \<and> \<not> list_ex (marker_in content) (arr_elems (dot artifact ''markers'')))"

lemma healArtifact_keeps:
  assumes "isAbsolute cwd" "healArtifact cwd may undoers path artifact pj = (pj', res)"
  shows "same_outside (path_segments cwd) pj pj'" "pj_journal pj' = pj_journal pj"
    "q \<noteq> resolve_segments cwd path \<Longrightarrow> read_file pj' q = read_file pj q"
    "read_file pj (resolve_segments cwd path) = Some c \<Longrightarrow> disowns c artifact \<Longrightarrow> pj' = pj"
proof -
  let ?f = "resolve_segments cwd path"
  have all: "pj' = pj \<or> (insideProject cwd ?f \<and> (\<exists>content. read_file pj ?f = Some content \<and> \<not> disowns content artifact) \<and>
      (pj' = remove_file ?f pj \<or> prune_after cwd may (dot artifact ''pruneTo'') ?f (remove_file ?f pj) = Inr pj' \<or>
       (\<exists>c. pj' = write_file ?f c pj)))"
    using assms(2) unfolding healArtifact_def Let_def disowns_def
    by (simp split: if_splits option.splits sum.splits undone.splits) (metis prod.inject)+
  have pl: "list_all plain_segment ?f" using assms(1) by (rule resolve_plain)
  have b: "below (path_segments cwd) ?f" if "insideProject cwd ?f"
    using insideProject_below [OF assms(1) that] by (metis below_def)
  note pr = prune_after_keeps [OF assms(1) pl]
  show "same_outside (path_segments cwd) pj pj'"
    using all b pr same_outside_trans [OF same_outside_remove [OF b]] by (metis same_outside_refl same_outside_remove same_outside_write)
  show "pj_journal pj' = pj_journal pj" using all pr by (metis journal_keep)
  show "read_file pj' q = read_file pj q" if "q \<noteq> ?f" using all pr that by (metis read_remove read_write)
  show "pj' = pj" if "read_file pj ?f = Some c" "disowns c artifact" using all that by auto
qed

lemma heal_all_keeps:
  assumes "isAbsolute cwd"
  shows "heal_all cwd may undoers K artifacts healed kept pj = (pj', res) \<Longrightarrow>
    same_outside (path_segments cwd) pj pj' \<and> pj_journal pj' = pj_journal pj \<and>
    (\<forall>q c. read_file pj q = Some c \<longrightarrow>
       (\<forall>artifact \<in> set artifacts. \<forall>path. dot artifact ''path'' = JStr path \<longrightarrow> resolve_segments cwd path = q \<longrightarrow> disowns c artifact) \<longrightarrow>
       read_file pj' q = Some c)"
proof (induction artifacts arbitrary: healed kept pj)
  case Nil
  then show ?case by simp
next
  case (Cons artifact artifacts)
  show ?case
  proof (cases "\<exists>path. dot artifact ''path'' = JStr path \<and> resolve_segments cwd path \<notin> K")
    case False
    then obtain kept' where "heal_all cwd may undoers K artifacts healed kept' pj = (pj', res)"
      using Cons.prems by (auto split: jsval.splits if_splits)
    from Cons.IH [OF this] show ?thesis by (meson list.set_intros(2))
  next
    case True
    then obtain path where p: "dot artifact ''path'' = JStr path" "resolve_segments cwd path \<notin> K" by blast
    obtain pj1 r where h: "healArtifact cwd may undoers path artifact pj = (pj1, r)" by fastforce
    note k = healArtifact_keeps [OF assms h]
    have step: "read_file pj1 q = Some c"
      if "read_file pj q = Some c" "resolve_segments cwd path = q \<longrightarrow> disowns c artifact" for q c
      using k(3,4) that by metis
    show ?thesis
    proof (cases r)
      case (Inl e)
      then have "pj' = pj1" using Cons.prems p h by simp
      then show ?thesis using k(1,2) step p(1) by (meson list.set_intros(1))
    next
      case (Inr o')
      then obtain healed' where "heal_all cwd may undoers K artifacts healed' kept pj1 = (pj', res)"
        using Cons.prems p h by (cases o') auto
      from Cons.IH [OF this] show ?thesis
        using k(1,2) step p(1) same_outside_trans by (metis list.set_intros(1,2))
    qed
  qed
qed


definition demo_pj :: project where
  "demo_pj = \<lparr>pj_files = [([''p'', ''a.html''], ''mine''), ([''etc'', ''x''], ''live'')], pj_dirs = [[''p''], [''etc'']],
     pj_journal = Some (JObj [(''artifacts'', JArr
       [JObj [(''kind'', JStr ''created''), (''path'', JStr ''../etc/x''), (''marker'', JStr ''live'')],
        JObj [(''kind'', JStr ''created''), (''path'', JStr ''a.html''), (''marker'', JStr ''live'')]])])\<rparr>"



lemma heal_all_kept:
  "heal_all cwd may undoers K artifacts healed kept pj = (pj', Inr (healed', kept')) \<Longrightarrow>
   \<exists>more. kept' = kept @ more \<and> (\<forall>artifact \<in> set more. \<exists>path. dot artifact ''path'' = JStr path \<and> resolve_segments cwd path \<in> K)"
proof (induction artifacts arbitrary: healed kept pj)
  case Nil
  then show ?case by simp
next
  case (Cons artifact artifacts)
  consider healed1 pj1 where "heal_all cwd may undoers K artifacts healed1 kept pj1 = (pj', Inr (healed', kept'))"
    | path where "dot artifact ''path'' = JStr path" "resolve_segments cwd path \<in> K"
        "heal_all cwd may undoers K artifacts healed (kept @ [artifact]) pj = (pj', Inr (healed', kept'))"
    using Cons.prems by (auto split: jsval.splits if_splits prod.splits sum.splits option.splits)
  then show ?case
  proof cases
    case 1
    then show ?thesis using Cons.IH by blast
  next
    case 2
    from Cons.IH [OF 2(3)] obtain more where "kept' = kept @ artifact # more"
        "\<forall>artifact \<in> set more. \<exists>path. dot artifact ''path'' = JStr path \<and> resolve_segments cwd path \<in> K" by auto
    then show ?thesis using 2(1,2) by (intro exI [of _ "artifact # more"]) auto
  qed
qed

lemma heal_all_only_kept:
  "\<forall>artifact \<in> set artifacts. \<exists>path. dot artifact ''path'' = JStr path \<and> resolve_segments cwd path \<in> K \<Longrightarrow>
   heal_all cwd may undoers K artifacts healed kept pj = (pj, Inr (healed, kept @ artifacts))"
  by (induction artifacts arbitrary: kept) auto

lemma obj_set_twice: "obj_set (obj_set kvs k v) k v' = obj_set kvs k v'"
  by (induction kvs k v rule: obj_set.induct) auto

text \<open>
  Healing is idempotent: after a run that ended without an exception, a second run with the same
  paths to keep changes nothing, heals nothing and keeps the same artifacts.
\<close>

theorem heal_idempotent:
  assumes "healInjectJournal cwd may undoers keep pj = (pj', Inr (healed, kept))"
  shows "healInjectJournal cwd may undoers keep pj' = (pj', Inr ([], kept))"
proof (cases "readInjectJournal pj")
  case None
  then show ?thesis using assms by (auto simp: healInjectJournal_def)
next
  case (Some j)
  obtain pj1 r where h: "heal_all cwd may undoers (resolve_segments cwd ` set keep) (arr_elems (dot j ''artifacts'')) [] [] pj = (pj1, r)"
    by fastforce
  then have r: "r = Inr (healed, kept)" and pj': "pj' = (if kept \<noteq> [] then writeInjectJournal (JObj (obj_set (own_props j) ''artifacts'' (JArr kept))) pj1
      else clearInjectJournal pj1)"
    using assms Some by (auto simp: healInjectJournal_def split: sum.splits)
  show ?thesis
  proof (cases "kept = []")
    case True
    then show ?thesis using pj' by (simp add: healInjectJournal_def readInjectJournal_def clearInjectJournal_def)
  next
    case False
    let ?j = "JObj (obj_set (own_props j) ''artifacts'' (JArr kept))"
    have read: "readInjectJournal pj' = Some ?j" using pj' False by (simp add: readInjectJournal_def writeInjectJournal_def del: dot.simps)
    have "\<forall>artifact \<in> set kept. \<exists>path. dot artifact ''path'' = JStr path \<and> resolve_segments cwd path \<in> resolve_segments cwd ` set keep"
      using heal_all_kept [OF h [unfolded r]] by auto
    from heal_all_only_kept [OF this] show ?thesis
      using read pj' False by (simp add: healInjectJournal_def writeInjectJournal_def obj_set_twice del: dot.simps)
  qed
qed

definition demo_kept :: project where
  "demo_kept = \<lparr>pj_files = [([''p'', ''b.html''], ''live'')], pj_dirs = [[''p'']],
     pj_journal = Some (JObj [(''artifacts'', JArr
       [JObj [(''kind'', JStr ''created''), (''path'', JStr ''a.html''), (''marker'', JStr ''live'')],
        JObj [(''kind'', JStr ''created''), (''path'', JStr ''b.html''), (''marker'', JStr ''live'')]])])\<rparr>"

theorem heal_idempotent_witness:
  "\<exists>pj' kept. healInjectJournal ''/p'' (\<lambda>_. True) Map.empty [''a.html''] demo_kept = (pj', Inr ([(''b.html'', Removed)], kept)) \<and>
     healInjectJournal ''/p'' (\<lambda>_. True) Map.empty [''a.html''] pj' = (pj', Inr ([], kept)) \<and> length kept = 1"
proof -
  have r: "resolve_segments ''/p'' ''a.html'' = [''p'', ''a.html'']" "resolve_segments ''/p'' ''b.html'' = [''p'', ''b.html'']"
      "insideProject ''/p'' [''p'', ''b.html'']" "marker_in ''live'' (JStr ''live'')" by code_simp+
  obtain pj' kept where h: "healInjectJournal ''/p'' (\<lambda>_. True) Map.empty [''a.html''] demo_kept = (pj', Inr ([(''b.html'', Removed)], kept))"
      "length kept = 1"
    by (simp add: healInjectJournal_def readInjectJournal_def healArtifact_def prune_after_def demo_kept_def read_file_def r Let_def)
  show ?thesis using heal_idempotent [OF h(1)] h by blast
qed

text \<open>
  The undo function of an artifact is looked up with its prototype. A journal that names a file of
  the project, lists no markers and gives \<^verbatim>\<open>toString\<close> as its patch replaces the whole content of
  that file, whatever it is, with the text \<^verbatim>\<open>[object Undefined]\<close>, and reports it as unpatched.
\<close>

theorem heal_inherited_undo:
  assumes "undoers ''toString'' = None" "may [''p'', ''a.html'']" "content \<noteq> ''[object Undefined]''"
  shows "\<exists>pj'. healInjectJournal ''/p'' may undoers []
      \<lparr>pj_files = [([''p'', ''a.html''], content)], pj_dirs = [[''p'']],
       pj_journal = Some (JObj [(''artifacts'', JArr [JObj [(''kind'', JStr ''patched''), (''path'', JStr ''a.html''), (''patch'', JStr ''toString'')]])])\<rparr> =
        (pj', Inr ([(''a.html'', Unpatched)], [])) \<and> read_file pj' [''p'', ''a.html''] = Some ''[object Undefined]''"
proof -
  have r: "resolve_segments ''/p'' ''a.html'' = [''p'', ''a.html'']" "insideProject ''/p'' [''p'', ''a.html'']" by code_simp+
  show ?thesis
    using assms by (simp add: healInjectJournal_def readInjectJournal_def healArtifact_def r read_file_def call_undo_def inherited_def
      clearInjectJournal_def write_file_def Let_def)
qed

theorem heal_inherited_undo_witness:
  "\<exists>pj'. healInjectJournal ''/p'' (\<lambda>_. True) (\<lambda>k. if k = ''live-tag'' then Some removeTag else None) []
      \<lparr>pj_files = [([''p'', ''a.html''], ''mine'')], pj_dirs = [[''p'']],
       pj_journal = Some (JObj [(''artifacts'', JArr [JObj [(''kind'', JStr ''patched''), (''path'', JStr ''a.html''), (''patch'', JStr ''toString'')]])])\<rparr> =
        (pj', Inr ([(''a.html'', Unpatched)], [])) \<and> read_file pj' [''p'', ''a.html''] = Some ''[object Undefined]''"
  by (rule heal_inherited_undo) simp_all

end
