(* ===== verification/Variant_Accept.thy ===== *)
theory Variant_Accept
  imports Variant_Wrap Session_Store
begin

text \<open>
  Accepting and discarding variants (\<^verbatim>\<open>scripts/live-accept.mjs\<close>) and the check of an accepted file
  (\<^verbatim>\<open>scripts/live/accept-verify.mjs\<close>). The block between the markers of a session is read back from
  the source; a discard puts the original in its place, an accept the content of one variant.

  The command keeps a receipt per session. The search for the file of a session, the lock (with the
  message of its refusal) and the rewriting of Svelte components are parameters. The number of a
  variant goes into a regular expression as it is; the command lets only digits through.
\<close>

section \<open>Markers\<close>

record block =
  bl_start :: nat
  bl_end :: nat
  bl_id :: string

fun marker_scan :: "string \<Rightarrow> string \<Rightarrow> nat \<Rightarrow> nat option \<Rightarrow> string list \<Rightarrow> (nat option \<times> nat) option" where
  "marker_scan sp ep i start [] = None"
| "marker_scan sp ep i start (line # lines) =
     (let start' = (if start = None \<and> str_includes line sp then Some i else start)
      in if str_includes line ep then Some (start', i) else marker_scan sp ep (Suc i) start' lines)"

definition start_pattern :: "string \<Rightarrow> string" where "start_pattern sid = ''impeccable-variants-start '' @ sid"
definition end_pattern :: "string \<Rightarrow> string" where "end_pattern sid = ''impeccable-variants-end '' @ sid"

definition findMarkerBlock :: "string \<Rightarrow> string list \<Rightarrow> block option" where
  "findMarkerBlock sid lines = (case marker_scan (start_pattern sid) (end_pattern sid) 0 None lines of
     Some (Some s, e) \<Rightarrow> Some \<lparr>bl_start = s, bl_end = e, bl_id = sid\<rparr> | _ \<Rightarrow> None)"

definition isVariantEndMarkerLine :: "string \<Rightarrow> string \<Rightarrow> bool" where
  "isVariantEndMarkerLine line sid =
     re_test (seq [lit ''impeccable-variants-end'', many1 is_ws, lit sid, alts [Cls is_ws, lit ''--'', lit ''*/'', Eol]]) line"

definition hasVariantWrapperAttr :: "string \<Rightarrow> string \<Rightarrow> bool" where
  "hasVariantWrapperAttr line sid =
     re_test (seq [lit ''data-impeccable-variants'', Many is_ws, lit ''='', Many is_ws,
       alts [lit (quoted sid), lit ([CHR 0x27] @ sid @ [CHR 0x27]),
             seq [lit ''{'', Cls is_quote, lit sid, Cls is_quote, lit ''}'']]]) line"

definition has_div :: "string \<Rightarrow> bool" where
  "has_div line = re_test (Cat (lit ''<div'') Boundary) line"

text \<open>The walk back to the line of the opener; \<open>n\<close> counts the line it is at.\<close>

fun to_opener :: "string list \<Rightarrow> string \<Rightarrow> nat \<Rightarrow> nat" where
  "to_opener lines sid 0 = 0"
| "to_opener lines sid (Suc n) =
     (if \<not> has_div (lines ! Suc n) \<and> \<not> isVariantEndMarkerLine (lines ! Suc n) sid then to_opener lines sid n else Suc n)"

fun wrapper_start :: "string list \<Rightarrow> string \<Rightarrow> nat \<Rightarrow> nat \<Rightarrow> nat" where
  "wrapper_start lines sid start 0 = start"
| "wrapper_start lines sid start (Suc i) =
     (if isVariantEndMarkerLine (lines ! i) sid then start
      else if hasVariantWrapperAttr (lines ! i) sid
        then (let opener = to_opener lines sid i in if has_div (lines ! opener) then opener else start)
      else wrapper_start lines sid start i)"

definition DIV_TAG_RE :: re where
  "DIV_TAG_RE = Alt (seq [lit ''<div'', Boundary, Lazy (\<lambda>c. c \<noteq> CHR ''>''), Grp 1 (Opt (lit ''/'')), lit ''>''])
     (seq [lit ''</div'', Many is_ws, lit ''>''])"

fun div_end :: "string \<Rightarrow> nat \<Rightarrow> nat \<Rightarrow> int \<Rightarrow> exec_result list \<Rightarrow> nat" where
  "div_end joined start fin depth [] = fin"
| "div_end joined start fin depth (m # ms) =
     (let isClose = starts_with (ex_text m) ''</'';
          isSelfClose = (\<not> isClose \<and> group m 1 = Some ''/'');
          depth' = (if isClose then depth - 1 else if isSelfClose then depth else depth + 1);
          candidateEnd = start + length (filter (\<lambda>c. c = NL) (take (ex_index m + length (ex_text m)) joined))
      in if depth' \<le> 0 \<and> fin \<le> candidateEnd then candidateEnd else div_end joined start fin depth' ms)"

definition expandReplaceRange :: "block \<Rightarrow> string list \<Rightarrow> bool \<Rightarrow> range" where
  "expandReplaceRange b lines isJsx =
     (if \<not> isJsx then (bl_start b, bl_end b)
      else
       (let start = wrapper_start lines (bl_id b) (bl_start b) (bl_start b); joined = join_with [NL] (drop start lines)
        in (start, div_end joined start (bl_end b) 0 (match_all DIV_TAG_RE joined))))"

section \<open>Extraction\<close>

definition STYLE_ELEMENT_RE :: re where
  "STYLE_ELEMENT_RE = seq [lit ''<style'', Boundary, Many (\<lambda>c. c \<noteq> CHR ''>''), lit ''>'', Lazy is_any, lit ''</style'', Many is_ws, lit ''>'']"

definition STYLE_SELF_RE :: re where
  "STYLE_SELF_RE = seq [lit ''<style'', Boundary, Many (\<lambda>c. c \<noteq> CHR ''>''), lit ''/'', Many is_ws, lit ''>'']"

definition STYLE_OPEN_RE :: re where "STYLE_OPEN_RE = Cat (lit ''<style'') Boundary"
definition STYLE_CLOSE_RE :: re where "STYLE_CLOSE_RE = seq [lit ''</style'', Many is_ws, lit ''>'']"

fun strip_style :: "bool \<Rightarrow> string list \<Rightarrow> string list" where
  "strip_style inStyle [] = []"
| "strip_style inStyle (line # lines) =
     (if \<not> inStyle then
       (let line' = replace_all STYLE_SELF_RE (\<lambda>_. []) (replace_all STYLE_ELEMENT_RE (\<lambda>_. []) line)
        in case re_search STYLE_OPEN_RE line' of
             Some i \<Rightarrow> take i line' # strip_style True lines
           | None \<Rightarrow> line' # strip_style False lines)
      else (case re_search STYLE_CLOSE_RE line of
          Some i \<Rightarrow> replace_first STYLE_CLOSE_RE [] (drop i line) # strip_style False lines
        | None \<Rightarrow> strip_style True lines))"

definition block_lines :: "string list \<Rightarrow> block \<Rightarrow> string list" where
  "block_lines lines b = slice_lines (bl_start b, bl_end b) lines"

definition stripStyleAndJoin :: "string list \<Rightarrow> block \<Rightarrow> string" where
  "stripStyleAndJoin lines b = join_with [NL] (strip_style False (block_lines lines b))"

definition not_gt :: "char \<Rightarrow> bool" where "not_gt c = (c \<noteq> CHR ''>'')"

definition attr_opener :: "string \<Rightarrow> re" where
  "attr_opener attr = seq [lit ''<'', Grp 1 (Cat (Cls is_letter) (Many is_alnum)), Boundary, Many not_gt, lit attr, Many not_gt, lit ''>'']"

definition same_tag :: "string \<Rightarrow> re" where
  "same_tag tagName = seq [lit ''<'', Opt (lit ''/''), lit tagName, Boundary, Many not_gt, lit ''>'']"

definition self_closing :: "string \<Rightarrow> bool" where
  "self_closing tag = re_test (seq [lit ''/'', Many is_ws, lit ''>'', Eol]) tag"

text \<open>The index of the closing tag at which the depth reaches 0.\<close>

fun close_index :: "nat \<Rightarrow> exec_result list \<Rightarrow> nat option" where
  "close_index depth [] = None"
| "close_index depth (m # ms) =
     (if starts_with (ex_text m) ''</'' then (if depth = 1 then Some (ex_index m) else close_index (depth - 1) ms)
      else if self_closing (ex_text m) then close_index depth ms
      else close_index (Suc depth) ms)"

definition extractInnerByAttr :: "string \<Rightarrow> string \<Rightarrow> string option" where
  "extractInnerByAttr text attr = (case re_exec (attr_opener attr) text of
      None \<Rightarrow> None
    | Some m \<Rightarrow>
       (let innerStart = ex_index m + length (ex_text m)
        in case close_index 1 (scan (same_tag (group_text m 1)) (rev (take innerStart text)) (drop innerStart text) 0) of
             None \<Rightarrow> None
           | Some i \<Rightarrow> Some (drop innerStart (take i text))))"

definition variant_attr :: "string \<Rightarrow> string" where
  "variant_attr v = ''data-impeccable-variant='' @ quoted v"

definition extractOriginal :: "string list \<Rightarrow> block \<Rightarrow> string list" where
  "extractOriginal lines b = (case extractInnerByAttr (stripStyleAndJoin lines b) (variant_attr ''original'') of
     None \<Rightarrow> [] | Some inner \<Rightarrow> split_on NL inner)"

text \<open>Blank lines are dropped from both ends, but never the last line.\<close>

fun drop_blank_front :: "string list \<Rightarrow> string list" where
  "drop_blank_front (x # y # zs) = (if is_blank_line x then drop_blank_front (y # zs) else x # y # zs)"
| "drop_blank_front xs = xs"

definition extractVariant :: "string list \<Rightarrow> block \<Rightarrow> string \<Rightarrow> string list option" where
  "extractVariant lines b variantNum = (case extractInnerByAttr (stripStyleAndJoin lines b) (variant_attr variantNum) of
     None \<Rightarrow> None | Some inner \<Rightarrow> Some (rev (drop_blank_front (rev (drop_blank_front (split_on NL inner))))))"

definition trim_start :: "string \<Rightarrow> string" where "trim_start s = dropWhile is_ws s"
definition trim_end :: "string \<Rightarrow> string" where "trim_end s = rev (dropWhile is_ws (rev s))"

definition strip_open_tick :: "string list \<Rightarrow> string list" where
  "strip_open_tick out = (case out of [] \<Rightarrow> []
     | x # xs \<Rightarrow>
         if trim_start x = ''{`'' then xs
         else if starts_with (trim_start x) ''{`'' then
          (let i = the (index_of x ''{`''); x' = take i x @ drop (i + 2) x in if is_blank_line x' then xs else x' # xs)
         else x # xs)"

definition strip_close_tick :: "string list \<Rightarrow> string list" where
  "strip_close_tick out = (if out = [] then [] else
     (let x = last out; xs = butlast out in
      if trim_end x = ''`}'' then xs
      else if ends_with (trim_end x) ''`}'' then
       (let i = the (last_index_of x ''`}''); x' = take i x @ drop (i + 2) x in if is_blank_line x' then xs else xs @ [x'])
      else out))"

definition nonempty_lines :: "string list \<Rightarrow> string list option" where
  "nonempty_lines ls = (if ls = [] then None else Some ls)"

definition stripJsxTemplateLines :: "string list \<Rightarrow> string list option" where
  "stripJsxTemplateLines content =
     (let out = rev (dropWhile is_blank_line (rev (dropWhile is_blank_line content)))
      in nonempty_lines (strip_close_tick (strip_open_tick out)))"

definition stripJsxTemplateWrap :: "string \<Rightarrow> string" where
  "stripJsxTemplateWrap text = (case stripJsxTemplateLines (split_on NL text) of None \<Rightarrow> [] | Some ls \<Rightarrow> join_with [NL] ls)"

definition STYLE_BODY_RE :: re where
  "STYLE_BODY_RE = seq [lit ''<style'', Boundary, Many not_gt, lit ''>'', Grp 1 (Lazy is_any), lit ''</style'', Many is_ws, lit ''>'']"

text \<open>The lines of a style body up to the line that closes it.\<close>

definition css_body :: "string list \<Rightarrow> string list" where
  "css_body lines = takeWhile (\<lambda>l. \<not> str_includes l ''</style>'') lines"

fun css_scan :: "string \<Rightarrow> string list \<Rightarrow> string list option" where
  "css_scan styleAttr [] = None"
| "css_scan styleAttr (line # lines) =
     (if \<not> str_includes line styleAttr then css_scan styleAttr lines
      else if re_test STYLE_SELF_RE line then None
      else (case re_exec STYLE_BODY_RE line of
          Some m \<Rightarrow> (let inner = stripJsxTemplateWrap (group_text m 1) in if inner \<noteq> [] then Some (split_on NL inner) else None)
        | None \<Rightarrow> if css_body lines = [] then None else stripJsxTemplateLines (css_body lines)))"

definition extractCss :: "string list \<Rightarrow> block \<Rightarrow> string \<Rightarrow> string list option" where
  "extractCss lines b sid = css_scan (''data-impeccable-css='' @ quoted sid) (block_lines lines b)"

section \<open>Replacement\<close>

definition deindentContent :: "string list \<Rightarrow> string \<Rightarrow> string list" where
  "deindentContent contentLines baseIndent =
     map (\<lambda>l. if is_blank_line l then [] else baseIndent @ drop (minLeadingSpaces contentLines) l) contentLines"

definition reindentContent :: "string list \<Rightarrow> string \<Rightarrow> string \<Rightarrow> string list" where
  "reindentContent contentLines fromIndent toIndent =
     map (\<lambda>l. if is_blank_line l then [] else if starts_with l fromIndent then toIndent @ drop (length fromIndent) l
              else toIndent @ trim_start l) contentLines"

definition accept_isJsx :: "string \<Rightarrow> bool" where
  "accept_isJsx filePath = (file_ext filePath = ''.jsx'' \<or> file_ext filePath = ''.tsx'')"

text \<open>\<^verbatim>\<open>JSON.stringify\<close> without indentation, of a parsed value.\<close>

definition json_char :: "char \<Rightarrow> string" where
  "json_char c = (let n = (of_char c :: nat) in
     if c = CHR 0x22 then [CHR 0x5C, CHR 0x22] else if c = CHR 0x5C then [CHR 0x5C, CHR 0x5C]
     else if n = 8 then CHR 0x5C # ''b'' else if n = 9 then CHR 0x5C # ''t'' else if n = 10 then CHR 0x5C # ''n''
     else if n = 12 then CHR 0x5C # ''f'' else if n = 13 then CHR 0x5C # ''r''
     else if n < 32 then CHR 0x5C # ''u00'' @ [char_of (48 + n div 16), if n mod 16 < 10 then char_of (48 + n mod 16) else char_of (87 + n mod 16)]
     else [c])"

definition json_string :: "string \<Rightarrow> string" where
  "json_string s = [CHR 0x22] @ concat (map json_char s) @ [CHR 0x22]"

fun json_text :: "jsval \<Rightarrow> string" where
  "json_text JUndef = ''null''"
| "json_text JNull = ''null''"
| "json_text (JBool b) = (if b then ''true'' else ''false'')"
| "json_text (JNum (Fin q)) = num_text (Fin q)"
| "json_text (JNum _) = ''null''"
| "json_text (JStr s) = json_string s"
| "json_text (JArr xs) = ''['' @ join_with '','' (map json_text xs) @ '']''"
| "json_text (JObj kvs) = ''{'' @ join_with '','' (map (\<lambda>(k, v). json_string k @ '':'' @ json_text v) kvs) @ ''}''"

definition carbonize_body :: "bool \<Rightarrow> string \<Rightarrow> string \<Rightarrow> string list \<Rightarrow> jsval \<Rightarrow> string \<Rightarrow> string list \<Rightarrow> string \<Rightarrow> string list" where
  "carbonize_body isJsx sid variantNum css paramValues indent restored bodyIndent =
     [bodyIndent @ comment isJsx (''impeccable-carbonize-start '' @ sid),
      bodyIndent @ ''<style data-impeccable-css='' @ quoted sid @ ''>'' @ (if isJsx then ''{`'' else [])] @
     map (\<lambda>l. bodyIndent @ trim_start l) css @
     [bodyIndent @ (if isJsx then ''`}</style>'' else ''</style>'')] @
     (if truthy paramValues \<and> own_props paramValues \<noteq> []
      then [bodyIndent @ comment isJsx (''impeccable-param-values '' @ sid @ '': '' @ json_text paramValues)] else []) @
     [bodyIndent @ comment isJsx (''impeccable-carbonize-end '' @ sid),
      bodyIndent @ ''<div data-impeccable-variant='' @ quoted variantNum @ '' '' @
        (if isJsx then ''style={{ display: '' @ [CHR 0x27] @ ''contents'' @ [CHR 0x27] @ '' }}'' else ''style=\"display: contents\"'') @ ''>''] @
     reindentContent restored indent (bodyIndent @ ''  '') @
     [bodyIndent @ ''</div>'']"

definition buildCarbonizeReplacement :: "string \<Rightarrow> bool \<Rightarrow> string \<Rightarrow> string \<Rightarrow> string list option \<Rightarrow> jsval \<Rightarrow> string list \<Rightarrow> string list" where
  "buildCarbonizeReplacement indent isJsx sid variantNum cssContent paramValues restored = (case cssContent of
      None \<Rightarrow> restored
    | Some css \<Rightarrow>
        if isJsx then
          [indent @ ''<div data-impeccable-carbonize='' @ quoted sid @ '' style={{ display: \"contents\" }}>''] @
          carbonize_body isJsx sid variantNum css paramValues indent restored (indent @ ''  '') @
          [indent @ ''</div>'']
        else carbonize_body isJsx sid variantNum css paramValues indent restored indent)"

definition replace_range :: "range \<Rightarrow> string list \<Rightarrow> string list \<Rightarrow> string list" where
  "replace_range r new lines = take (fst r) lines @ new @ drop (Suc (snd r)) lines"

record built =
  bt_content :: string
  bt_carbonize :: bool
  bt_originalText :: string

definition buildAcceptedWrappedSource :: "string \<Rightarrow> string \<Rightarrow> string list \<Rightarrow> string \<Rightarrow> jsval \<Rightarrow> string + built" where
  "buildAcceptedWrappedSource sid variantNum lines targetFile paramValues = (case findMarkerBlock sid lines of
      None \<Rightarrow> Inl ''Markers not found''
    | Some b \<Rightarrow>
       (let isJsx = accept_isJsx targetFile; r = expandReplaceRange b lines isJsx; indent = leading_ws (lines ! fst r)
        in case extractVariant lines b variantNum of
             None \<Rightarrow> Inl (''Variant '' @ variantNum @ '' not found'')
           | Some variantContent \<Rightarrow>
              (let css = extractCss lines b sid;
                   needsCarbonize = (css \<noteq> None \<or> str_includes (join_with [NL] variantContent) ''data-impeccable-variant'');
                   restored = deindentContent variantContent indent;
                   replacement = buildCarbonizeReplacement indent isJsx sid variantNum css paramValues restored
               in Inr \<lparr>bt_content = join_with [NL] (replace_range r replacement lines), bt_carbonize = needsCarbonize,
                    bt_originalText = join_with [NL] (extractOriginal lines b)\<rparr>)))"

definition discard_lines :: "string \<Rightarrow> string list \<Rightarrow> string \<Rightarrow> string list option" where
  "discard_lines sid lines targetFile = (case findMarkerBlock sid lines of
      None \<Rightarrow> None
    | Some b \<Rightarrow>
       (let r = expandReplaceRange b lines (accept_isJsx targetFile); indent = leading_ws (lines ! fst r)
        in Some (replace_range r (deindentContent (extractOriginal lines b) indent) lines)))"

section \<open>Staged edits that an accept embodies\<close>

definition JSX_COMMENT_RE :: re where "JSX_COMMENT_RE = seq [lit ''{/*'', Lazy is_any, lit ''*/}'']"
definition HTML_COMMENT_RE :: re where "HTML_COMMENT_RE = seq [lit ''<!--'', Lazy is_any, lit ''-->'']"

definition normalizeManualEditText :: "string \<Rightarrow> string" where
  "normalizeManualEditText text = trim (single_spaced text)"

definition manualEditTextSegments :: "string \<Rightarrow> string list" where
  "manualEditTextSegments source =
     filter (\<lambda>t. t \<noteq> []) (map normalizeManualEditText (split_on NL
       (replace_all HTML_COMMENT_RE (\<lambda>_. [NL]) (replace_all JSX_COMMENT_RE (\<lambda>_. [NL]) (replace_all TAGS_RE (\<lambda>_. [NL]) source)))))"

definition originalBlockHasExactManualText :: "string \<Rightarrow> string \<Rightarrow> bool" where
  "originalBlockHasExactManualText originalBlock text =
     (let needle = normalizeManualEditText text in needle \<noteq> [] \<and> needle \<in> set (manualEditTextSegments originalBlock))"

definition manualEditOpAppearsInBlock :: "jsval \<Rightarrow> string \<Rightarrow> bool" where
  "manualEditOpAppearsInBlock oper originalBlock =
     list_ex (originalBlockHasExactManualText originalBlock) (nonempty_str (dot oper ''newText'') @ nonempty_str (dot oper ''originalText''))"

definition scrub_entry :: "string \<Rightarrow> string \<Rightarrow> bentry \<Rightarrow> bentry" where
  "scrub_entry originalBlock pageUrl e =
     (if be_pageUrl e = JStr pageUrl then e\<lparr>be_ops := filter (\<lambda>oper. \<not> manualEditOpAppearsInBlock oper originalBlock) (be_ops e)\<rparr> else e)"

definition scrubManualEditsAgainstOriginalBlock :: "string \<Rightarrow> string option \<Rightarrow> buffer_file \<Rightarrow> buffer_file" where
  "scrubManualEditsAgainstOriginalBlock originalBlock pageUrl buf =
     (if originalBlock = [] \<or> \<not> present pageUrl \<or> readBuffer buf = [] then buf
      else
       (let entries = readBuffer buf; scrubbed = map (scrub_entry originalBlock (the pageUrl)) entries
        in if map (length \<circ> be_ops) scrubbed \<noteq> map (length \<circ> be_ops) entries
           then Buffer (filter (\<lambda>e. be_ops e \<noteq> []) scrubbed) else buf))"

section \<open>Previews of the old kind\<close>

definition quoted_value :: "char \<Rightarrow> re \<Rightarrow> re" where
  "quoted_value q body = seq [lit [q], body, lit [q]]"

definition either_quote :: "re \<Rightarrow> re" where
  "either_quote body = Alt (quoted_value (CHR 0x22) body) (quoted_value (CHR 0x27) body)"

definition replace_text :: "string \<Rightarrow> string \<Rightarrow> string \<Rightarrow> string" where
  "replace_text old new s = replace_all (lit old) (\<lambda>_. new) s"

definition decodeHtmlAttr :: "string \<Rightarrow> string" where
  "decodeHtmlAttr v = replace_text ''&amp;'' ''&'' (replace_text ''&gt;'' ''>'' (replace_text ''&lt;'' ''<'' (replace_text ''&quot;'' [CHR 0x22] v)))"

definition readHtmlAttr :: "string \<Rightarrow> string \<Rightarrow> string option" where
  "readHtmlAttr tag name = (case re_exec (seq [Cls is_ws, lit name, Many is_ws, lit ''='', Many is_ws,
        either_quote (Grp 2 (Lazy (none_of [NL, CR])))]) tag of
     None \<Rightarrow> None | Some m \<Rightarrow> Some (decodeHtmlAttr (group_text m 2)))"

definition attr_finite :: "string option \<Rightarrow> bool" where
  "attr_finite a = num_is_finite (JNum (case a of None \<Rightarrow> Fin 0 | Some t \<Rightarrow> str_to_number t))"

definition is_source_shadow_preview :: "string \<Rightarrow> string \<Rightarrow> bool" where
  "is_source_shadow_preview content sid =
     (case re_exec (seq [lit ''<'', many1 not_gt, lit ''data-impeccable-variants='', either_quote (lit sid), Many not_gt, lit ''>'']) content of
        None \<Rightarrow> False
      | Some m \<Rightarrow>
         (let tag = ex_text m in
          readHtmlAttr tag ''data-impeccable-preview'' = Some ''source-shadow'' \<and>
          present (readHtmlAttr tag ''data-impeccable-source-file'') \<and>
          attr_finite (readHtmlAttr tag ''data-impeccable-source-start'') \<and>
          attr_finite (readHtmlAttr tag ''data-impeccable-source-end'')))"

section \<open>The command\<close>

record accept_world =
  aw_files :: file_map
  aw_receipts :: "string \<Rightarrow> jsval option"
  aw_buffer :: buffer_file

text \<open>
  \<open>ae_find\<close> finds the file with the markers of a session, \<open>ae_manifest\<close> the manifest of a component
  session, \<open>ae_lock\<close> gives the message with which the lock of a file is refused, and the last two
  rewrite a component.
\<close>

record accept_env =
  ae_cwd :: string
  ae_now :: string
  ae_find :: "string \<Rightarrow> file_map \<Rightarrow> string option"
  ae_manifest :: "string \<Rightarrow> jsval option"
  ae_generated :: "string \<Rightarrow> bool"
  ae_lock :: "string \<Rightarrow> string option"
  ae_svelteDiscard :: "string \<Rightarrow> file_map \<Rightarrow> file_map"
  ae_svelteAccept :: "jsval \<Rightarrow> string \<Rightarrow> jsval \<Rightarrow> file_map \<Rightarrow> file_map \<times> (string + props)"

record accept_request =
  ar_id :: "string option"
  ar_variant :: "string option"
  ar_params :: jsval
  ar_pageUrl :: "string option"
  ar_discard :: bool

datatype accept_out = Usage string | Printed jsval

definition VARIANT_NUM_PATTERN :: "string \<Rightarrow> bool" where
  "VARIANT_NUM_PATTERN v = (1 \<le> length v \<and> length v \<le> 3 \<and> list_all is_digit v)"

definition operationFailure :: "string \<Rightarrow> props \<Rightarrow> props" where
  "operationFailure message extra =
     obj_merge [(''handled'', JBool False), (''mode'', JStr ''error''), (''error'', JStr message)] extra"

definition markPreviewFailure :: "props \<Rightarrow> props" where
  "markPreviewFailure result =
     (if dot (JObj result) ''handled'' = JBool False \<and> \<not> truthy (dot (JObj result) ''mode'') \<and> truthy (dot (JObj result) ''previewMode'')
      then obj_set result ''mode'' (JStr ''error'') else result)"

definition readAcceptReceipt :: "accept_world \<Rightarrow> string \<Rightarrow> jsval" where
  "readAcceptReceipt w sid = (case aw_receipts w sid of None \<Rightarrow> JNull | Some r \<Rightarrow> r)"

definition writeAcceptReceipt :: "string \<Rightarrow> string \<Rightarrow> props \<Rightarrow> accept_world \<Rightarrow> accept_world" where
  "writeAcceptReceipt now sid receipt w =
     w\<lparr>aw_receipts := (aw_receipts w)(sid \<mapsto> JObj (obj_merge [(''id'', JStr sid)] (receipt @ [(''completedAt'', JStr now)])))\<rparr>"

definition requested_operation :: "accept_request \<Rightarrow> string" where
  "requested_operation rq = (if ar_discard rq then ''discard'' else ''accept'')"

definition same_operation :: "accept_request \<Rightarrow> jsval \<Rightarrow> bool" where
  "same_operation rq prior =
     (dot prior ''operation'' = JStr (requested_operation rq) \<and>
      (ar_discard rq \<or> js_text (dot prior ''variantId'') = the (ar_variant rq)))"

definition prior_answer :: "accept_request \<Rightarrow> jsval \<Rightarrow> jsval" where
  "prior_answer rq prior =
     (if same_operation rq prior
      then JObj (obj_merge (own_props (dot prior ''result'')) [(''handled'', JBool True), (''alreadyApplied'', JBool True)])
      else JObj [(''handled'', JBool False), (''mode'', JStr ''error''), (''error'', JStr ''accept_receipt_conflict''),
        (''priorOperation'', dot prior ''operation''), (''priorVariantId'', coalesce (dot prior ''variantId'') JNull)])"

definition emitResult :: "accept_env \<Rightarrow> accept_request \<Rightarrow> props \<Rightarrow> accept_world \<Rightarrow> accept_world \<times> accept_out" where
  "emitResult env rq raw w =
     (let result = markPreviewFailure raw;
          receipt = [(''operation'', JStr (requested_operation rq)),
            (''variantId'', if ar_discard rq then JNull else JStr (the (ar_variant rq))), (''result'', JObj result)]
      in (if dot (JObj result) ''handled'' \<noteq> JBool False then writeAcceptReceipt (ae_now env) (the (ar_id rq)) receipt w else w,
          Printed (JObj result)))"

definition todo_text :: "string \<Rightarrow> string" where
  "todo_text relFile = ''REQUIRED before next poll: carbonize cleanup in '' @ relFile @ ''. See reference/live.md \"Required after accept\".''"

definition with_todo :: "props \<Rightarrow> string \<Rightarrow> props" where
  "with_todo result relFile =
     (if truthy (dot (JObj result) ''carbonize'') then obj_set result ''todo'' (JStr (todo_text relFile)) else result)"

definition svelte_command :: "accept_env \<Rightarrow> accept_request \<Rightarrow> jsval \<Rightarrow> accept_world \<Rightarrow> accept_world \<times> accept_out" where
  "svelte_command env rq manifest w =
     (let sid = the (ar_id rq); sourceFile = dot manifest ''sourceFile''; lock = ae_lock env (js_text sourceFile);
          preview = [(''previewMode'', JStr ''svelte-component''), (''componentDir'', dot manifest ''componentDir'')]
      in if ar_discard rq then
          (let (w', result) = (case lock of
                 Some m \<Rightarrow> (w, operationFailure m [])
               | None \<Rightarrow> (w\<lparr>aw_files := ae_svelteDiscard env sid (aw_files w)\<rparr>, [(''handled'', JBool True)]))
           in emitResult env rq (obj_merge result ([(''file'', sourceFile), (''carbonize'', JBool False)] @ preview)) w')
         else
          (let extra = [(''file'', sourceFile), (''sourceFile'', sourceFile)] @ preview;
               (w', result) = (case lock of
                 Some m \<Rightarrow> (w, operationFailure m extra)
               | None \<Rightarrow> (case ae_svelteAccept env manifest (the (ar_variant rq)) (ar_params rq) (aw_files w) of
                   (fs, Inl m) \<Rightarrow> (w\<lparr>aw_files := fs\<rparr>, operationFailure m extra)
                 | (fs, Inr r) \<Rightarrow> (w\<lparr>aw_files := fs\<rparr>, r)));
               result' = with_todo result (js_text (dot (JObj result) ''file''))
           in emitResult env rq (obj_merge [(''handled'', JBool (dot (JObj result') ''handled'' \<noteq> JBool False))] result') w'))"

definition handleDiscard :: "accept_env \<Rightarrow> string \<Rightarrow> string \<Rightarrow> accept_world \<Rightarrow> accept_world \<times> (string + props)" where
  "handleDiscard env sid targetFile w = (case ae_lock env targetFile of
      Some m \<Rightarrow> (w, Inl m)
    | None \<Rightarrow> (case aw_files w targetFile of
        None \<Rightarrow> (w, Inl ''ENOENT'')
      | Some content \<Rightarrow> (case discard_lines sid (split_on NL content) targetFile of
          None \<Rightarrow> (w, Inr [(''handled'', JBool False), (''error'', JStr ''Markers not found'')])
        | Some newLines \<Rightarrow> (w\<lparr>aw_files := (aw_files w)(targetFile \<mapsto> join_with [NL] newLines)\<rparr>, Inr []))))"

definition handleAccept :: "accept_env \<Rightarrow> string \<Rightarrow> string \<Rightarrow> string \<Rightarrow> jsval \<Rightarrow> accept_world \<Rightarrow> accept_world \<times> (string + props \<times> string)" where
  "handleAccept env sid variantNum targetFile paramValues w = (case ae_lock env targetFile of
      Some m \<Rightarrow> (w, Inl m)
    | None \<Rightarrow> (case aw_files w targetFile of
        None \<Rightarrow> (w, Inl ''ENOENT'')
      | Some content \<Rightarrow> (case buildAcceptedWrappedSource sid variantNum (split_on NL content) targetFile paramValues of
          Inl e \<Rightarrow> (w, Inr ([(''handled'', JBool False), (''error'', JStr e)], []))
        | Inr b \<Rightarrow> (w\<lparr>aw_files := (aw_files w)(targetFile \<mapsto> bt_content b)\<rparr>,
            Inr ([(''carbonize'', JBool (bt_carbonize b))], bt_originalText b)))))"

definition source_command :: "accept_env \<Rightarrow> accept_request \<Rightarrow> string \<Rightarrow> accept_world \<Rightarrow> accept_world \<times> accept_out" where
  "source_command env rq targetFile w =
     (let sid = the (ar_id rq); relFile = path_relative (ae_cwd env) targetFile; file = [(''file'', JStr relFile)] in
      if ar_discard rq then
        (case handleDiscard env sid targetFile w of
           (w', Inl m) \<Rightarrow> emitResult env rq (operationFailure m file) w'
         | (w', Inr result) \<Rightarrow>
             emitResult env rq (obj_merge ([(''handled'', JBool True)] @ file @ [(''carbonize'', JBool False)]) result) w')
      else
        (case handleAccept env sid (the (ar_variant rq)) targetFile (ar_params rq) w of
           (w', Inl m) \<Rightarrow> emitResult env rq (operationFailure m file) w'
         | (w', Inr (result, originalText)) \<Rightarrow>
            (let result' = with_todo result relFile;
                 w'' = (if dot (JObj result') ''handled'' \<noteq> JBool False
                   then w'\<lparr>aw_buffer := scrubManualEditsAgainstOriginalBlock originalText (ar_pageUrl rq) (aw_buffer w')\<rparr> else w')
             in emitResult env rq (obj_merge ([(''handled'', JBool True)] @ file) result') w'')))"

definition acceptCli :: "accept_env \<Rightarrow> accept_request \<Rightarrow> accept_world \<Rightarrow> accept_world \<times> accept_out" where
  "acceptCli env rq w =
     (if \<not> present (ar_id rq) then (w, Usage ''Missing --id'')
      else if \<not> safe_id_pattern (the (ar_id rq)) then (w, Usage ''Invalid --id'')
      else if \<not> ar_discard rq \<and> \<not> present (ar_variant rq) then (w, Usage ''Need --discard or --variant N'')
      else if \<not> ar_discard rq \<and> \<not> VARIANT_NUM_PATTERN (the (ar_variant rq)) then (w, Usage ''Invalid --variant'')
      else
       (let sid = the (ar_id rq); prior = readAcceptReceipt w sid in
        if truthy prior then (w, Printed (prior_answer rq prior))
        else (case ae_find env sid (aw_files w) of
            None \<Rightarrow> (case ae_manifest env sid of
                None \<Rightarrow> (w, Printed (JObj [(''handled'', JBool False), (''error'', JStr (''Session markers not found for id: '' @ sid))]))
              | Some manifest \<Rightarrow> svelte_command env rq manifest w)
          | Some targetFile \<Rightarrow> (case aw_files w targetFile of
                None \<Rightarrow> (w, Usage ''ENOENT'')
              | Some content \<Rightarrow>
                  if findMarkerBlock sid (split_on NL content) \<noteq> None \<and> is_source_shadow_preview content sid
                  then (w, Printed (JObj [(''handled'', JBool False), (''error'', JStr ''source_shadow_preview_deprecated'')]))
                  else if ae_generated env targetFile
                  then (w, Printed (JObj [(''handled'', JBool False), (''mode'', JStr ''fallback''),
                         (''file'', JStr (path_relative (ae_cwd env) targetFile))]))
                  else source_command env rq targetFile w))))"

section \<open>The check of an accepted file\<close>

definition FORBIDDEN_TEXTS :: "string list" where
  "FORBIDDEN_TEXTS = [''impeccable-variants-start'', ''impeccable-variants-end'', ''impeccable-carbonize-start'',
     ''impeccable-carbonize-end'', ''impeccable-param-values'', ''data-impeccable-'']"

definition is_name_char :: "char \<Rightarrow> bool" where "is_name_char c = (is_word_char c \<or> c = CHR ''-'')"

definition PARAM_ATTR_RE :: re where
  "PARAM_ATTR_RE = seq [Boundary, lit ''data-p-'', many1 is_name_char, Many is_ws, Cls (\<lambda>c. c = CHR ''='' \<or> c = CHR '']'')]"

definition PARAM_VAR_RE :: re where
  "PARAM_VAR_RE = seq [lit ''var('', Many is_ws, lit ''--p-'', many1 is_name_char, Many is_ws, Cls (\<lambda>c. c = CHR '','' \<or> c = CHR '')'')]"

text \<open>The labels that a line is reported under, in the order of the table.\<close>

definition line_findings :: "string \<Rightarrow> string list" where
  "line_findings line =
     filter (str_includes line) FORBIDDEN_TEXTS @
     (if re_test PARAM_ATTR_RE line then [''data-p-*''] else []) @
     (if re_test PARAM_VAR_RE line then [''var(--p-*)''] else []) @
     (if str_includes line ''--impeccable-variant-ready'' then [''--impeccable-variant-ready''] else [])"

definition verifyAcceptedSource :: "string \<Rightarrow> bool \<times> (string \<times> nat \<times> string) list" where
  "verifyAcceptedSource text =
     (let lines = split_on NL text;
          findings = concat (map (\<lambda>(i, line). map (\<lambda>l. (l, i + 1, take 120 (trim line))) (line_findings line)) (zip [0..<length lines] lines))
      in (findings = [], findings))"

end
