(* ===== verification/Wrap_Roundtrip.thy ===== *)
theory Wrap_Roundtrip
  imports Variant_Accept Tag_Properties
begin

text \<open>
  What a discard makes of a wrapped file. The text of the wrapper is followed through the functions
  of \<open>Variant_Accept\<close>: the lines of the file, the markers, the styles that are stripped, the opener of
  the original, the tags up to its end, and the indentation.
\<close>

section \<open>Lines\<close>

lemma split_join_lines:
  "\<forall>l \<in> set ls. c \<notin> set l \<Longrightarrow> ls \<noteq> [] \<Longrightarrow> split_on c (join_with [c] ls) = ls"
proof (induction ls)
  case (Cons l ls)
  then show ?case by (cases ls) (simp_all add: split_on_plain split_on_append)
qed simp

lemma join_append: "xs \<noteq> [] \<Longrightarrow> ys \<noteq> [] \<Longrightarrow> join_with sep (xs @ ys) = join_with sep xs @ sep @ join_with sep ys"
proof (induction xs)
  case (Cons x xs)
  then show ?case by (cases xs; cases ys) auto
qed simp

lemma join_nested: "ys \<noteq> [] \<Longrightarrow> join_with sep (xs @ [join_with sep ys] @ zs) = join_with sep (xs @ ys @ zs)"
  by (cases "xs = []"; cases zs) (simp_all add: join_append [of _ _ sep])

section \<open>Texts without an occurrence\<close>

lemma opener_free_includes:
  assumes "opener_free h d t" "\<exists>x y. p = x @ h # d # y"
  shows "\<not> str_includes t p"
proof
  assume "str_includes t p"
  then obtain a b x y where "t = (a @ x) @ h # d # (y @ b)" using assms(2) by (auto simp: str_includes_ex)
  then have "opener_free h d (h # d # (y @ b))" using assms(1) opener_free_suffix by metis
  then show False by simp
qed

lemma ws_prefix_includes:
  assumes "\<forall>c \<in> set w. is_ws c" "p \<noteq> []" "\<not> is_ws (hd p)"
  shows "str_includes (w @ t) p \<longleftrightarrow> str_includes t p"
proof
  assume "str_includes (w @ t) p"
  then obtain a b where "w @ t = a @ p @ b" by (auto simp: str_includes_ex)
  then show "str_includes t p"
  proof (cases rule: append_meet)
    case (1 us)
    then have "us = [] \<or> hd p = hd us" using assms(2) by (cases p; cases us) auto
    moreover have "us \<noteq> [] \<Longrightarrow> is_ws (hd us)" using assms(1) 1(1) by auto
    ultimately have "us = []" using assms(3) by metis
    then have "t = [] @ p @ b" using 1 by simp
    then show ?thesis unfolding str_includes_ex by blast
  next
    case (2 us)
    then show ?thesis unfolding str_includes_ex by blast
  qed
next
  assume "str_includes t p"
  then show "str_includes (w @ t) p" unfolding str_includes_ex by (metis append_assoc)
qed

lemma suffix_includes: "str_includes t p \<Longrightarrow> str_includes (w @ t) p"
  unfolding str_includes_ex by (metis append_assoc)

lemma drop_ws_includes:
  assumes "n \<le> length (takeWhile is_ws l)" "p \<noteq> []" "\<not> is_ws (hd p)"
  shows "str_includes (drop n l) p \<longleftrightarrow> str_includes l p"
proof -
  have "\<forall>c \<in> set (take n l). is_ws c"
  proof -
    have "take n l = take n (takeWhile is_ws l)" using assms(1) by (metis takeWhile_dropWhile_id take_append diff_is_0_eq take0 append_Nil2)
    then show ?thesis by (auto dest!: in_set_takeD set_takeWhileD)
  qed
  then show ?thesis using ws_prefix_includes [of "take n l" p "drop n l"] assms(2,3) by simp
qed

text \<open>A needle without a newline lies in one of the lines.\<close>

lemma includes_line:
  assumes "c \<notin> set p" "str_includes s p"
  shows "\<exists>l \<in> set (split_on c s). str_includes l p"
proof -
  obtain a b where s: "s = a @ p @ b" using assms(2) by (auto simp: str_includes_ex)
  obtain a1 a2 where a: "a = a1 @ a2" "c \<notin> set a2" "a1 = [] \<or> last a1 = c"
  proof -
    let ?a2 = "rev (takeWhile (\<lambda>x. x \<noteq> c) (rev a))" and ?a1 = "rev (dropWhile (\<lambda>x. x \<noteq> c) (rev a))"
    have "a = ?a1 @ ?a2" by (metis rev_append rev_rev_ident takeWhile_dropWhile_id)
    moreover have "c \<notin> set ?a2" by (auto dest: set_takeWhileD)
    moreover have "?a1 = [] \<or> last ?a1 = c" by (metis (mono_tags, lifting) hd_dropWhile last_rev rev_is_Nil_conv)
    ultimately show thesis using that by blast
  qed
  let ?b1 = "takeWhile (\<lambda>x. x \<noteq> c) b" and ?b2 = "dropWhile (\<lambda>x. x \<noteq> c) b"
  have plain: "c \<notin> set (a2 @ p @ ?b1)" using a(2) assms(1) by (auto dest: set_takeWhileD)
  have "a2 @ p @ ?b1 \<in> set (split_on c (a2 @ p @ b))"
  proof (cases ?b2)
    case Nil
    then have "b = ?b1" by (metis append_Nil2 takeWhile_dropWhile_id)
    then show ?thesis using split_on_plain [OF plain] by simp
  next
    case (Cons x xs)
    then have "x = c" using hd_dropWhile [of "\<lambda>x. x \<noteq> c" b] by auto
    then have "a2 @ p @ b = (a2 @ p @ ?b1) @ c # xs" using Cons takeWhile_dropWhile_id [of "\<lambda>x. x \<noteq> c" b] by simp
    then show ?thesis using split_on_append [OF plain, of xs] by (metis list.set_intros(1))
  qed
  moreover have "set (split_on c (a2 @ p @ b)) \<subseteq> set (split_on c s)"
  proof (cases "a1 = []")
    case True
    then show ?thesis using s a(1) by simp
  next
    case False
    then obtain a1' where "a1 = a1' @ [c]" using a(3) by (metis append_butlast_last_id)
    then have "s = a1' @ c # (a2 @ p @ b)" using s a(1) by simp
    then show ?thesis using split_on_snoc_sep [of c a1' "a2 @ p @ b"] by simp
  qed
  ultimately show ?thesis by (metis subsetD str_includes_ex append_assoc)
qed

section \<open>Tags\<close>

text \<open>What a tag of the name \<^verbatim>\<open>div\<close> matches: up to the first \<^verbatim>\<open>>\<close>.\<close>

definition after_name :: "string \<Rightarrow> bool" where
  "after_name s = (s = [] \<or> \<not> is_word_char (hd s))"

definition tag_prefix :: "string \<Rightarrow> string option" where
  "tag_prefix s =
     (if (starts_with s ''<div'' \<and> after_name (drop 4 s) \<or> starts_with s ''</div'' \<and> after_name (drop 5 s)) \<and> CHR ''>'' \<in> set s
      then Some (takeWhile not_gt s @ ''>'') else None)"

lemma split_gt:
  assumes "CHR ''>'' \<in> set t"
  obtains u where "t = takeWhile not_gt t @ CHR ''>'' # u"
  using assms
  by (metis (mono_tags, lifting) not_gt_def takeWhile_dropWhile_id dropWhile_eq_Nil_conv hd_dropWhile list.exhaust_sel)

lemma tail_match:
  assumes "is_word_char c"
  shows "rmatch (Cat Boundary (Cat (Many not_gt) (lit ''>''))) (c # b, t, g) Some =
    (if after_name t \<and> CHR ''>'' \<in> set t then Some (rev (takeWhile not_gt t @ ''>'') @ c # b, drop (length (takeWhile not_gt t) + 1) t, g) else None)"
proof (cases "after_name t")
  case False
  then show ?thesis using assms by (auto simp: at_boundary_def after_name_def split: list.splits)
next
  case True
  then have bd: "at_boundary (c # b) t" using assms by (auto simp: at_boundary_def after_name_def split: list.splits)
  show ?thesis
  proof (cases "CHR ''>'' \<in> set t")
    case True
    then obtain u where t: "t = takeWhile not_gt t @ CHR ''>'' # u" by (rule split_gt)
    have all: "\<forall>c \<in> set (takeWhile not_gt t). not_gt c" by (auto dest: set_takeWhileD)
    have "rmatch (Cat (Many not_gt) (lit ''>'')) (c # b, takeWhile not_gt t @ CHR ''>'' # u, g) Some =
        Some (rev (takeWhile not_gt t @ ''>'') @ c # b, u, g)"
      by (rule hit_Cat, rule hit_Many [OF all]) (simp_all add: not_gt_def)
    moreover have "drop (length (takeWhile not_gt t) + 1) t = u" by (subst (2) t) simp
    ultimately show ?thesis using bd True \<open>after_name t\<close> t by simp
  next
    case False
    have "rmatch (Cat (Many not_gt) (lit ''>'')) (c # b, t, g) Some = None"
    proof (rule ccontr)
      assume "rmatch (Cat (Many not_gt) (lit ''>'')) (c # b, t, g) Some \<noteq> None"
      then have "steps (Cat (Many not_gt) (lit ''>'')) (c # b, t, g) \<noteq> {}" by (simp only: rmatch_start_fails not_False_eq_True)
      then obtain q where "q \<in> steps (Cat (Many not_gt) (lit ''>'')) (c # b, t, g)" by blast
      then show False using False by (cases q) (auto simp: steps_Cat_iff steps_lit_iff steps_Many simp del: steps.simps lit.simps)
    qed
    then show ?thesis using False by simp
  qed
qed

lemma starts_with_Cons: "starts_with (c # s) (p # ps) \<longleftrightarrow> c = p \<and> starts_with s ps"
  by simp

lemma same_tag_match:
  "rmatch (same_tag ''div'') (b, s, g) Some =
    (case tag_prefix s of None \<Rightarrow> None | Some w \<Rightarrow> Some (rev w @ b, drop (length w) s, g))"
proof -
  let ?tail = "Cat Boundary (Cat (Many not_gt) (lit ''>''))"
  have re: "same_tag ''div'' = Cat (lit ''<'') (Cat (Opt (lit ''/'')) (Cat (lit ''div'') ?tail))" by (simp add: same_tag_def)
  have wd: "is_word_char CHR ''v''" by (simp add: is_word_char_def)
  consider t where "s = ''<div'' @ t" | t where "s = ''</div'' @ t" | "\<not> starts_with s ''<div''" "\<not> starts_with s ''</div''"
    by (auto simp: starts_with_ex)
  then show ?thesis
  proof cases
    case (1 t)
    have "rmatch (same_tag ''div'') (b, s, g) Some = rmatch ?tail (CHR ''v'' # ''id<'' @ b, t, g) Some" unfolding re 1 by simp
    then show ?thesis using tail_match [OF wd, of "''id<'' @ b" t g] 1 by (simp add: tag_prefix_def not_gt_def)
  next
    case (2 t)
    have "rmatch (same_tag ''div'') (b, s, g) Some = rmatch ?tail (CHR ''v'' # ''id/<'' @ b, t, g) Some"
      unfolding re 2 by (cases "rmatch ?tail (CHR ''v'' # ''id/<'' @ b, t, g) Some") simp_all
    then show ?thesis using tail_match [OF wd, of "''id/<'' @ b" t g] 2 by (simp add: tag_prefix_def not_gt_def)
  next
    case 3
    then have "tag_prefix s = None" by (simp add: tag_prefix_def)
    moreover have "rmatch (same_tag ''div'') (b, s, g) Some = None"
    proof (cases s)
      case (Cons c s')
      show ?thesis
      proof (cases "c = CHR ''<''")
        case True
        have no: "rmatch (lit ''div'') (b', s', g) k = None" for b' and k :: "mstate \<Rightarrow> mstate option"
          by (rule rmatch_lit_fails) (use 3(1) Cons True in simp)
        show ?thesis
        proof (cases s')
          case Nil
          then show ?thesis unfolding re Cons by simp
        next
          case (Cons d s'')
          have no2: "rmatch (lit ''div'') (b', s'', g) k = None" if "d = CHR ''/''" for b' and k :: "mstate \<Rightarrow> mstate option"
            by (rule rmatch_lit_fails) (use 3(2) \<open>s = c # s'\<close> Cons True that in simp)
          show ?thesis unfolding re \<open>s = c # s'\<close> using no no2 Cons True
            by (cases "d = CHR ''/''") (simp_all del: lit.simps add: lit.simps(1) lit.simps(2) [of _ "[]"])
        qed
      next
        case False
        then show ?thesis unfolding re \<open>s = c # s'\<close> by simp
      qed
    next
      case Nil
      then show ?thesis unfolding re by simp
    qed
    ultimately show ?thesis by simp
  qed
qed

section \<open>Tags in a text whose tags are closed\<close>

text \<open>Every \<^verbatim>\<open><\<close> is followed by a \<^verbatim>\<open>>\<close>.\<close>

fun tags_closed :: "string \<Rightarrow> bool" where
  "tags_closed [] = True"
| "tags_closed (c # cs) = ((c = CHR ''<'' \<longrightarrow> CHR ''>'' \<in> set cs) \<and> tags_closed cs)"

lemma takeWhile_in: "\<not> P c \<Longrightarrow> c \<in> set s \<Longrightarrow> takeWhile P (s @ r) = takeWhile P s"
  by (induction s) auto

lemma starts_with_closed:
  assumes "c \<in> set s" "c \<notin> set p"
  shows "starts_with (s @ r) p \<longleftrightarrow> starts_with s p"
  using assms by (induction s p rule: starts_with.induct) auto

lemma after_name_append:
  assumes "starts_with s p" "c \<in> set s" "c \<notin> set p"
  shows "after_name (drop (length p) (s @ r)) \<longleftrightarrow> after_name (drop (length p) s)"
proof -
  obtain t where t: "s = p @ t" using assms(1) by (auto simp: starts_with_ex)
  then have "t \<noteq> []" using assms(2,3) by auto
  then show ?thesis using t by (simp add: after_name_def)
qed

lemma tag_prefix_append:
  assumes "hd s = CHR ''<'' \<longrightarrow> CHR ''>'' \<in> set s" "s \<noteq> []"
  shows "tag_prefix (s @ r) = tag_prefix s"
proof (cases "CHR ''>'' \<in> set s")
  case True
  have "starts_with (s @ r) ''<div'' \<longleftrightarrow> starts_with s ''<div''" "starts_with (s @ r) ''</div'' \<longleftrightarrow> starts_with s ''</div''"
    by (rule starts_with_closed [OF True], simp)+
  moreover have "starts_with s ''<div'' \<Longrightarrow> after_name (drop 4 (s @ r)) \<longleftrightarrow> after_name (drop 4 s)"
    using after_name_append [of s "''<div''" "CHR ''>''" r] True by (simp add: eval_nat_numeral)
  moreover have "starts_with s ''</div'' \<Longrightarrow> after_name (drop 5 (s @ r)) \<longleftrightarrow> after_name (drop 5 s)"
    using after_name_append [of s "''</div''" "CHR ''>''" r] True by (simp add: eval_nat_numeral)
  ultimately show ?thesis using True takeWhile_in [of not_gt "CHR ''>''" s r] by (auto simp: tag_prefix_def not_gt_def)
next
  case False
  then have "hd s \<noteq> CHR ''<''" using assms(1) by blast
  then have "\<not> starts_with (s @ r) (CHR ''<'' # p)" "\<not> starts_with s (CHR ''<'' # p)" for p using assms(2) by (cases s; auto)+
  then show ?thesis by (simp add: tag_prefix_def)
qed

lemma tag_prefix_text:
  assumes "tag_prefix s = Some w"
  obtains t where "s = w @ t" "w \<noteq> []"
proof -
  have w: "CHR ''>'' \<in> set s" "w = takeWhile not_gt s @ ''>''" using assms by (auto simp: tag_prefix_def split: if_splits)
  obtain u where "s = takeWhile not_gt s @ CHR ''>'' # u" using w(1) by (rule split_gt)
  then have "s = w @ u" using w(2) by simp
  then show thesis using that w(2) by simp
qed

text \<open>Scanning such a text does not depend on what is around it; only the places move.\<close>

lemma scan_tags:
  "scan (same_tag ''div'') b (x # xs) 0 = (case tag_prefix (x # xs) of
      None \<Rightarrow> scan (same_tag ''div'') (x # b) xs 0
    | Some w \<Rightarrow> \<lparr>ex_index = length b, ex_text = w, ex_groups = []\<rparr> # scan (same_tag ''div'') (x # b) xs (length w - 1))"
proof (cases "tag_prefix (x # xs)")
  case None
  then show ?thesis by (simp add: same_tag_match)
next
  case (Some w)
  then obtain t where t: "x # xs = w @ t" by (rule tag_prefix_text)
  then have len: "Suc (length xs) = length w + length t" by (metis length_Cons length_append)
  then have "take (Suc (length xs) - length (drop (length w) (x # xs))) (x # xs) = w" unfolding t by simp
  moreover have "length xs - (Suc (length xs) - length w) = length w - 1" using len by simp
  ultimately show ?thesis using Some by (simp add: same_tag_match Let_def del: drop_Cons)
qed

lemma scan_nil: "scan (same_tag ''div'') b [] n = []"
  by (simp add: same_tag_match tag_prefix_def)

lemma scan_append:
  assumes "tags_closed s" "n \<le> length s"
  shows "\<exists>ms. scan (same_tag ''div'') b (s @ r) n = ms @ scan (same_tag ''div'') (rev s @ b) r 0 \<and>
    map ex_text ms = map ex_text (scan (same_tag ''div'') b' s n)"
  using assms
proof (induction s arbitrary: b b' n)
  case Nil
  then show ?case by (auto simp: scan_nil simp del: scan.simps)
next
  case (Cons x xs)
  note IH = Cons.IH [of _ "x # b" "x # b'"]
  show ?case
  proof (cases "0 < n")
    case True
    then show ?thesis using IH [of "n - 1"] Cons.prems by auto
  next
    case False
    have same: "tag_prefix (x # xs @ r) = tag_prefix (x # xs)" using tag_prefix_append [of "x # xs" r] Cons.prems(1) by auto
    show ?thesis
    proof (cases "tag_prefix (x # xs)")
      case None
      then show ?thesis using IH [of 0] Cons.prems False same by (simp add: scan_tags del: scan.simps)
    next
      case (Some w)
      then obtain t where t: "x # xs = w @ t" by (rule tag_prefix_text)
      then have "Suc (length xs) = length w + length t" by (metis length_Cons length_append)
      then have "length w - 1 \<le> length xs" by simp
      then obtain ms where "scan (same_tag ''div'') (x # b) (xs @ r) (length w - 1) = ms @ scan (same_tag ''div'') (rev xs @ x # b) r 0"
          "map ex_text ms = map ex_text (scan (same_tag ''div'') (x # b') xs (length w - 1))"
        using IH [of "length w - 1"] Cons.prems(1) by auto
      then show ?thesis using Some same False
        by (intro exI [of _ "\<lparr>ex_index = length b, ex_text = w, ex_groups = []\<rparr> # ms"]) (simp add: scan_tags del: scan.simps)
    qed
  qed
qed

text \<open>The depth at the end of a list of tags, unless it falls to 0 on the way.\<close>

fun depth_after :: "nat \<Rightarrow> string list \<Rightarrow> nat option" where
  "depth_after depth [] = Some depth"
| "depth_after depth (t # ts) =
     (if starts_with t ''</'' then (if depth = 1 then None else depth_after (depth - 1) ts)
      else if self_closing t then depth_after depth ts
      else depth_after (Suc depth) ts)"

lemma close_index_append:
  "depth_after d (map ex_text ms) = Some d' \<Longrightarrow> close_index d (ms @ ms') = close_index d' ms'"
  by (induction ms arbitrary: d) (auto split: if_splits)

text \<open>A text whose \<^verbatim>\<open>div\<close> elements are complete.\<close>

definition divs_balanced :: "string \<Rightarrow> bool" where
  "divs_balanced s \<longleftrightarrow> tags_closed s \<and> depth_after 1 (map ex_text (match_all (same_tag ''div'') s)) = Some 1"

lemma close_index_balanced:
  assumes "divs_balanced s" "CHR ''<'' \<notin> set w" "CHR ''<'' \<notin> set w'"
  shows "close_index 1 (scan (same_tag ''div'') b (w @ s @ w' @ ''</div>'' @ r) 0) = Some (length b + length w + length s + length w')"
proof -
  have skip: "scan (same_tag ''div'') b (w @ t) 0 = scan (same_tag ''div'') (rev w @ b) t 0" if "CHR ''<'' \<notin> set w" for b w t
    using that
  proof (induction w arbitrary: b)
    case (Cons c w)
    then have "tag_prefix (c # w @ t) = None" by (auto simp: tag_prefix_def)
    then show ?case using Cons by (simp add: scan_tags del: scan.simps)
  qed simp
  obtain ms where ms: "scan (same_tag ''div'') (rev w @ b) (s @ w' @ ''</div>'' @ r) 0 =
        ms @ scan (same_tag ''div'') (rev s @ rev w @ b) (w' @ ''</div>'' @ r) 0"
      "map ex_text ms = map ex_text (match_all (same_tag ''div'') s)"
    using scan_append [of s 0 "rev w @ b" "w' @ ''</div>'' @ r" "[]"] assms(1) by (auto simp: divs_balanced_def match_all_def)
  have "tag_prefix (''</div>'' @ r) = Some ''</div>''" by (simp add: tag_prefix_def not_gt_def after_name_def is_word_char_def)
  then obtain ms' where "scan (same_tag ''div'') (rev w' @ rev s @ rev w @ b) (''</div>'' @ r) 0 =
      \<lparr>ex_index = length b + length w + length s + length w', ex_text = ''</div>'', ex_groups = []\<rparr> # ms'"
    using scan_tags [of "rev w' @ rev s @ rev w @ b" "CHR ''<''" "''/div>'' @ r"] by (simp add: ac_simps)
  then have "close_index 1 (scan (same_tag ''div'') (rev s @ rev w @ b) (w' @ ''</div>'' @ r) 0) = Some (length b + length w + length s + length w')"
    using skip [OF assms(3), of "rev s @ rev w @ b" "''</div>'' @ r"] by simp
  then show ?thesis using skip [OF assms(2), of b] ms close_index_append [of 1 ms 1] assms(1) by (simp add: divs_balanced_def)
qed

section \<open>The opener of the original\<close>

text \<open>
  No tag with the attribute begins in the text: a \<^verbatim>\<open><\<close> is not followed by a letter, or the tag ends
  inside of the text and lacks the attribute.
\<close>

fun no_attr_tag :: "string \<Rightarrow> string \<Rightarrow> bool" where
  "no_attr_tag attr [] = True"
| "no_attr_tag attr (c # cs) =
     ((c = CHR ''<'' \<longrightarrow> (cs \<noteq> [] \<and> \<not> is_letter (hd cs)) \<or> (CHR ''>'' \<in> set cs \<and> \<not> str_includes (takeWhile not_gt cs) attr)) \<and>
      no_attr_tag attr cs)"

lemma no_attr_tag_append: "no_attr_tag attr xs \<Longrightarrow> no_attr_tag attr ys \<Longrightarrow> no_attr_tag attr (xs @ ys)"
proof (induction xs)
  case (Cons c cs)
  have "takeWhile not_gt (cs @ ys) = takeWhile not_gt cs" if "CHR ''>'' \<in> set cs"
    using takeWhile_in [of not_gt "CHR ''>''" cs ys] that by (simp add: not_gt_def)
  then show ?case using Cons by auto
qed simp

lemma no_attr_tag_absent: "CHR ''<'' \<notin> set xs \<Longrightarrow> no_attr_tag attr xs"
  by (induction xs) auto

lemma no_attr_tag_suffix: "no_attr_tag attr (xs @ ys) \<Longrightarrow> no_attr_tag attr ys"
  by (induction xs) auto

lemma attr_opener_steps:
  assumes "(b', t, g) \<in> steps (attr_opener attr) (b, s, [])" "CHR ''>'' \<notin> set attr"
  obtains c cs where "s = CHR ''<'' # c # cs" "is_letter c" "str_includes (takeWhile not_gt (c # cs)) attr"
proof -
  obtain b1 t1 g1 b2 t2 g2 x y where q: "s = ''<'' @ t1" "(b2, t2, g2) \<in> steps (Grp 1 (Cat (Cls is_letter) (Many is_alnum))) (b1, t1, g1)"
      "t2 = x @ attr @ y @ ''>'' @ t" "\<forall>c \<in> set x. not_gt c" "\<forall>c \<in> set y. not_gt c"
    using assms(1) unfolding attr_opener_def seq.simps steps_Cat_iff steps_lit_iff steps_Many
    by (simp del: steps.simps(9) lit.simps split: if_splits) blast
  obtain w g3 where w: "t1 = w @ t2" "(b2, t2, g3) \<in> steps (Cat (Cls is_letter) (Many is_alnum)) (b1, t1, g1)"
    using q(2) by (rule steps_Grp)
  then obtain c ds where c: "is_letter c" "t1 = c # ds @ t2" "\<forall>c \<in> set ds. is_alnum c" by auto
  have "\<forall>d \<in> set (c # ds). not_gt d" using c(1,3) by (auto simp: not_gt_def is_letter_def is_alnum_def is_digit_def)
  then have "\<forall>d \<in> set (c # ds @ x @ attr @ y). not_gt d" using q(4,5) assms(2) by (auto simp: not_gt_def)
  then have "takeWhile not_gt ((c # ds @ x @ attr @ y) @ CHR ''>'' # t) = c # ds @ x @ attr @ y"
    by (subst takeWhile_append2) (auto simp: not_gt_def)
  then have "takeWhile not_gt (c # ds @ t2) = (c # ds @ x) @ attr @ y" using q(3) by simp
  then have "str_includes (takeWhile not_gt (c # ds @ t2)) attr" unfolding str_includes_ex by metis
  moreover have "s = CHR ''<'' # c # ds @ t2" using q(1) c(2) by simp
  ultimately show thesis using that c(1) by blast
qed

lemma attr_skip:
  assumes "no_attr_tag attr (u @ v)" "v \<noteq> []" "CHR ''>'' \<notin> set attr"
  shows "steps (attr_opener attr) (b, v @ t, []) = {}"
proof (rule ccontr)
  assume "steps (attr_opener attr) (b, v @ t, []) \<noteq> {}"
  then obtain b' t' g where st: "(b', t', g) \<in> steps (attr_opener attr) (b, v @ t, [])" by auto
  obtain c cs where m: "v @ t = CHR ''<'' # c # cs" "is_letter c" "str_includes (takeWhile not_gt (c # cs)) attr"
    using attr_opener_steps [OF st assms(3)] by blast
  have "no_attr_tag attr v" using assms(1) no_attr_tag_suffix by blast
  moreover obtain vs where v: "v = CHR ''<'' # vs" "vs @ t = c # cs" using m(1) assms(2) by (cases v) auto
  ultimately have "(vs \<noteq> [] \<and> \<not> is_letter (hd vs)) \<or> (CHR ''>'' \<in> set vs \<and> \<not> str_includes (takeWhile not_gt vs) attr)" by simp
  moreover have "takeWhile not_gt (c # cs) = takeWhile not_gt vs" if "CHR ''>'' \<in> set vs"
    using takeWhile_in [of not_gt "CHR ''>''" vs t] that v(2) by (simp add: not_gt_def)
  moreover have "vs \<noteq> [] \<Longrightarrow> hd vs = c" using v(2) by (cases vs) auto
  ultimately show False using m(2,3) by auto
qed

lemma original_hit:
  "\<exists>b'. rmatch (attr_opener (variant_attr ''original'')) (b, ORIGINAL_DIV @ T, []) Some = Some (b', T, [(1, ''div'')])"
  by (simp add: attr_opener_def ORIGINAL_DIV_def variant_attr_def quoted_def is_letter_def is_alnum_def is_digit_def
      at_boundary_def is_word_char_def not_gt_def)

lemma original_found:
  assumes "no_attr_tag (variant_attr ''original'') P"
  shows "re_exec (attr_opener (variant_attr ''original'')) (P @ ORIGINAL_DIV @ T) =
    Some \<lparr>ex_index = length P, ex_text = ORIGINAL_DIV, ex_groups = [(1, ''div'')]\<rparr>"
proof -
  have gt: "CHR ''>'' \<notin> set (variant_attr ''original'')" by (simp add: variant_attr_def quoted_def)
  have "re_exec (attr_opener (variant_attr ''original'')) (P @ ORIGINAL_DIV @ T) =
      exec_from (attr_opener (variant_attr ''original'')) (rev P @ []) (ORIGINAL_DIV @ T)"
    unfolding re_exec_def by (rule exec_from_skip) (use attr_skip [OF _ _ gt] assms in blast)
  moreover obtain b' where "rmatch (attr_opener (variant_attr ''original'')) (rev P, ORIGINAL_DIV @ T, []) Some = Some (b', T, [(1, ''div'')])"
    using original_hit by blast
  ultimately show ?thesis using exec_from_hit [of _ "rev P" "ORIGINAL_DIV @ T" b' T "[(1, ''div'')]" ORIGINAL_DIV] by simp
qed

lemma inner_of_original:
  assumes "no_attr_tag (variant_attr ''original'') P" "divs_balanced J" "CHR ''<'' \<notin> set w" "CHR ''<'' \<notin> set w'"
  shows "extractInnerByAttr (P @ ORIGINAL_DIV @ w @ J @ w' @ ''</div>'' @ r) (variant_attr ''original'') = Some (w @ J @ w')"
proof -
  let ?b = "rev (P @ ORIGINAL_DIV)"
  have "close_index 1 (scan (same_tag ''div'') ?b (w @ J @ w' @ ''</div>'' @ r) 0) = Some (length ?b + length w + length J + length w')"
    using close_index_balanced [OF assms(2-4)] by blast
  then show ?thesis
    unfolding extractInnerByAttr_def original_found [OF assms(1)]
    by (simp add: Let_def group_text_def group_def)
qed

section \<open>Styles and markers\<close>

lemma replace_from_none:
  "(\<And>u v. s = u @ v \<Longrightarrow> steps r (rev u @ b, v, []) = {}) \<Longrightarrow> replace_from r f b s 0 = s"
proof (induction s arbitrary: b)
  case Nil
  then have "steps r (b, [], []) = {}" by simp
  then have "rmatch r (b, [], []) Some = None" by (simp add: rmatch_start_fails)
  then show ?case by simp
next
  case (Cons x s)
  have "steps r (b, x # s, []) = {}" using Cons.prems [of "[]"] by simp
  then have "rmatch r (b, x # s, []) Some = None" by (simp add: rmatch_start_fails)
  moreover have "replace_from r f (x # b) s 0 = s"
  proof (rule Cons.IH)
    fix u v
    assume "s = u @ v"
    then show "steps r (rev u @ x # b, v, []) = {}" using Cons.prems [of "x # u" v] by simp
  qed
  ultimately show ?case by simp
qed

lemma steps_lit_first: "\<not> str_includes s p \<Longrightarrow> s = u @ v \<Longrightarrow> steps (Cat (lit p) r) (b, v, g) = {}"
  by (auto simp: steps_lit starts_with_ex str_includes_ex simp del: lit.simps split: if_splits)

lemma strip_style_plain: "\<forall>l \<in> set ls. \<not> str_includes l ''<style'' \<Longrightarrow> strip_style False ls = ls"
proof (induction ls)
  case (Cons l ls)
  then have l: "\<not> str_includes l ''<style''" by simp
  note first = steps_lit_first [OF l]
  have "replace_all STYLE_ELEMENT_RE (\<lambda>_. []) l = l" "replace_all STYLE_SELF_RE (\<lambda>_. []) l = l"
    unfolding replace_all_def STYLE_ELEMENT_RE_def STYLE_SELF_RE_def seq.simps by (rule replace_from_none, rule first, assumption)+
  moreover have "re_search STYLE_OPEN_RE l = None"
  proof -
    have "re_exec STYLE_OPEN_RE l = None" unfolding re_exec_None STYLE_OPEN_RE_def using first by blast
    then show ?thesis by (simp add: re_search_def)
  qed
  ultimately show ?case using Cons by simp
qed simp

lemma marker_scan_skip:
  assumes "\<forall>l \<in> set xs. \<not> str_includes l ep" "start \<noteq> None \<or> (\<forall>l \<in> set xs. \<not> str_includes l sp)"
  shows "marker_scan sp ep i start (xs @ ys) = marker_scan sp ep (i + length xs) start ys"
  using assms by (induction xs arbitrary: i) (auto simp: Let_def)

section \<open>Indentation\<close>

lemma fold_min: "foldl min (n :: nat) ns = Min (set (n # ns))"
proof (induction ns arbitrary: n)
  case (Cons m ns)
  then show ?case by (cases "ns = []") (simp_all add: ac_simps)
qed simp

lemma minLeadingSpaces_le: "l \<in> set ls \<Longrightarrow> \<not> is_blank_line l \<Longrightarrow> minLeadingSpaces ls \<le> length (leading_ws l)"
proof -
  assume l: "l \<in> set ls" "\<not> is_blank_line l"
  let ?ns = "map (length \<circ> leading_ws) (filter (\<lambda>l. \<not> is_blank_line l) ls)"
  have "length (leading_ws l) \<in> set ?ns" using l by auto
  then show ?thesis unfolding minLeadingSpaces_def by (cases ?ns) (auto simp: fold_min simp del: foldl_Cons)
qed

lemma minLeadingSpaces_attained:
  assumes "l \<in> set ls" "\<not> is_blank_line l"
  obtains l0 where "l0 \<in> set ls" "\<not> is_blank_line l0" "minLeadingSpaces ls = length (leading_ws l0)"
proof -
  let ?ns = "map (length \<circ> leading_ws) (filter (\<lambda>l. \<not> is_blank_line l) ls)"
  have ne: "?ns \<noteq> []" using assms by (auto simp: filter_empty_conv)
  then have "minLeadingSpaces ls = Min (set ?ns)" unfolding minLeadingSpaces_def by (cases ?ns) (auto simp: fold_min simp del: foldl_Cons)
  moreover have "Min (set ?ns) \<in> set ?ns" using Min_in [of "set ?ns"] ne by (metis List.finite_set set_empty)
  ultimately have "minLeadingSpaces ls \<in> set ?ns" by simp
  then show thesis using that by auto
qed

lemma is_blank_line_iff: "is_blank_line l \<longleftrightarrow> (\<forall>c \<in> set l. is_ws c)"
proof (cases "dropWhile is_ws l")
  case Nil
  then have "is_blank_line l" unfolding is_blank_line_def trim_def Nil by simp
  moreover have "\<forall>c \<in> set l. is_ws c" using Nil unfolding dropWhile_eq_Nil_conv by blast
  ultimately show ?thesis by blast
next
  case (Cons x xs)
  then have x: "\<not> is_ws x" "x \<in> set l" using hd_dropWhile [of is_ws l] set_dropWhileD [of x is_ws l] by auto
  then have "\<exists>y \<in> set (rev (dropWhile is_ws l)). \<not> is_ws y" using Cons by auto
  then have "dropWhile is_ws (rev (dropWhile is_ws l)) \<noteq> []" unfolding dropWhile_eq_Nil_conv by blast
  moreover have "is_blank_line l \<longleftrightarrow> dropWhile is_ws (rev (dropWhile is_ws l)) = []" by (simp add: is_blank_line_def trim_def)
  ultimately show ?thesis using x by blast
qed

lemma leading_ws_all: "\<forall>c \<in> set (leading_ws l). is_ws c"
  by (auto simp: leading_ws_def dest: set_takeWhileD)

lemma leading_ws_append: "\<forall>c \<in> set w. is_ws c \<Longrightarrow> leading_ws (w @ t) = w @ leading_ws t"
  by (simp add: leading_ws_def)

lemma leading_ws_drop: "n \<le> length (leading_ws l) \<Longrightarrow> length (leading_ws (drop n l)) = length (leading_ws l) - n"
proof (induction l arbitrary: n)
  case (Cons c l)
  then show ?case by (cases n) (auto simp: leading_ws_def split: if_splits)
qed (simp add: leading_ws_def)

text \<open>What wrapping and discarding make of one line of the element.\<close>

definition restored_line :: "string \<Rightarrow> string list \<Rightarrow> string \<Rightarrow> string" where
  "restored_line indent original l = (if is_blank_line l then [] else indent @ drop (minLeadingSpaces original) l)"

lemma drop_not_blank:
  assumes "\<not> is_blank_line l" "n \<le> length (leading_ws l)"
  shows "\<not> is_blank_line (drop n l)"
proof -
  obtain c where "c \<in> set l" "\<not> is_ws c" using assms(1) by (auto simp: is_blank_line_iff)
  moreover have "\<forall>c \<in> set (take n l). is_ws c"
    using assms(2) leading_ws_all [of l] unfolding leading_ws_def
    by (metis in_set_takeD takeWhile_dropWhile_id take_append diff_is_0_eq take0 append_Nil2)
  ultimately have "c \<in> set (drop n l)" by (metis Un_iff append_take_drop_id set_append)
  then show ?thesis using \<open>\<not> is_ws c\<close> by (auto simp: is_blank_line_iff)
qed

lemma deindent_reindented:
  assumes ind: "\<forall>c \<in> set (indent @ extra). is_ws c" and ne: "l0 \<in> set original" "\<not> is_blank_line l0"
    and blank: "is_blank_line a" "is_blank_line z"
  shows "deindentContent (a # reindentOriginal indent extra original @ [z]) indent =
    [] # map (restored_line indent original) original @ [[]]"
proof -
  let ?base = "minLeadingSpaces original"
  let ?f = "\<lambda>l. if is_blank_line l then [] else indent @ extra @ drop ?base l"
  have le: "?base \<le> length (leading_ws l)" if "l \<in> set original" "\<not> is_blank_line l" for l
    using minLeadingSpaces_le that by blast
  have f: "\<not> is_blank_line (?f l)" "length (leading_ws (?f l)) = length (indent @ extra) + (length (leading_ws l) - ?base)"
    if "l \<in> set original" "\<not> is_blank_line l" for l
  proof -
    show "\<not> is_blank_line (?f l)" using drop_not_blank [OF that(2) le [OF that]] that(2) by (auto simp: is_blank_line_iff)
    show "length (leading_ws (?f l)) = length (indent @ extra) + (length (leading_ws l) - ?base)"
      using leading_ws_append [OF ind, of "drop ?base l"] leading_ws_drop [OF le [OF that]] that(2) by simp
  qed
  have nil: "is_blank_line []" by (simp add: is_blank_line_iff)
  let ?ls = "a # map ?f original @ [z]"
  obtain l1 where l1: "l1 \<in> set original" "\<not> is_blank_line l1" "?base = length (leading_ws l1)"
    using minLeadingSpaces_attained [OF ne] by blast
  have "?f l1 \<in> set ?ls" using l1(1) by simp
  then have up: "minLeadingSpaces ?ls \<le> length (indent @ extra)"
    using minLeadingSpaces_le [of "?f l1" ?ls] f [OF l1(1,2)] l1(3) by simp
  obtain m where m: "m \<in> set ?ls" "\<not> is_blank_line m" "minLeadingSpaces ?ls = length (leading_ws m)"
    using minLeadingSpaces_attained [of "?f l1" ?ls] \<open>?f l1 \<in> set ?ls\<close> f(1) [OF l1(1,2)] by blast
  then obtain l where "l \<in> set original" "m = ?f l" "\<not> is_blank_line l" using blank nil by auto
  then have "length (indent @ extra) \<le> minLeadingSpaces ?ls" using f(2) [of l] m(3) by simp
  then have min: "minLeadingSpaces ?ls = length (indent @ extra)" using up by simp
  have line: "(if is_blank_line (?f l) then [] else indent @ drop (length (indent @ extra)) (?f l)) = restored_line indent original l"
    if "l \<in> set original" for l
    using f(1) [OF that] nil by (auto simp: restored_line_def)
  show ?thesis unfolding deindentContent_def reindentOriginal_def min using line blank by simp
qed

section \<open>The lines of the wrapper\<close>

text \<open>The lines of a wrapper that is not JSX, before and after those of the element.\<close>

definition head_lines :: "string \<Rightarrow> string \<Rightarrow> string \<Rightarrow> string list" where
  "head_lines sid cnt indent =
     [indent @ comment False (start_pattern sid), indent @ wrapper_div False sid cnt,
      indent @ ''  '' @ comment False ''Original'', indent @ ''  '' @ ORIGINAL_DIV]"

definition tail_lines :: "string \<Rightarrow> string list" where
  "tail_lines indent = [indent @ ''  </div>'', indent @ ''  '' @ comment False ''Variants: insert below this line'', indent @ ''</div>'']"

definition end_line :: "string \<Rightarrow> string \<Rightarrow> string" where
  "end_line sid indent = indent @ comment False (end_pattern sid)"

lemmas wrapper_text = head_lines_def tail_lines_def end_line_def comment_def wrapper_div_def ORIGINAL_DIV_def quoted_def
  start_pattern_def end_pattern_def

lemma wrap_content_lines:
  assumes "original \<noteq> []"
  shows "wrap_content False sid cnt (s, e) original lines =
    join_with [NL] (take s lines @ head_lines sid cnt (leading_ws (lines ! s)) @
      reindentOriginal (leading_ws (lines ! s)) ''    '' original @
      tail_lines (leading_ws (lines ! s)) @ [end_line sid (leading_ws (lines ! s))] @ drop (Suc e) lines)"
proof -
  let ?i = "leading_ws (lines ! s)"
  let ?ys = "reindentOriginal ?i ''    '' original" and ?zs = "tail_lines ?i @ [end_line sid ?i] @ drop (Suc e) lines"
  have "?ys \<noteq> []" using assms by (simp add: reindentOriginal_def)
  have w: "wrapper_lines False sid cnt ?i original = head_lines sid cnt ?i @ [join_with [NL] ?ys] @ tail_lines ?i @ [end_line sid ?i]"
    unfolding wrapper_lines_def head_lines_def tail_lines_def end_line_def start_pattern_def end_pattern_def Let_def if_False append_Cons append_Nil ..
  have "wrap_content False sid cnt (s, e) original lines = join_with [NL] ((take s lines @ head_lines sid cnt ?i) @ [join_with [NL] ?ys] @ ?zs)"
    unfolding wrap_content_def fst_conv snd_conv w append_assoc ..
  also have "\<dots> = join_with [NL] ((take s lines @ head_lines sid cnt ?i) @ ?ys @ ?zs)" using \<open>?ys \<noteq> []\<close> by (rule join_nested)
  finally show ?thesis unfolding append_assoc .
qed

text \<open>The ids of sessions are hexadecimal; the count is a number.\<close>

definition hex_id :: "string \<Rightarrow> bool" where
  "hex_id sid = list_all (\<lambda>c. c \<in> set ''0123456789abcdef'') sid"

lemma hex_id_absent: "hex_id sid \<Longrightarrow> c \<notin> set ''0123456789abcdef'' \<Longrightarrow> c \<notin> set sid"
  unfolding hex_id_def list_all_iff by blast

text \<open>No character pair of the kind in any line of the wrapper before its last.\<close>

lemma wrapper_free:
  assumes "h \<notin> set sid" "h \<notin> set cnt" "\<forall>c \<in> set indent. is_ws c" "(h, d) \<in> {(CHR ''n'', CHR ''d''), (CHR ''<'', CHR ''s'')}"
    and "l \<in> set (head_lines sid cnt indent @ tail_lines indent)"
  shows "opener_free h d l"
proof -
  have "h \<notin> set indent" using assms(3,4) by (auto simp: is_ws_def)
  then have parts: "opener_free h d indent" "opener_free h d sid" "opener_free h d cnt" using assms(1,2) by (simp_all add: opener_free_absent)
  note app = opener_free_append [of h d]
  have "\<forall>l \<in> set (head_lines sid cnt indent @ tail_lines indent). opener_free h d l"
    unfolding wrapper_text if_False set_append list.set ball_Un ball_simps
    by (intro conjI app parts TrueI; use assms(4) in \<open>elim insertE emptyE Pair_inject; simp\<close>)
  then show ?thesis using assms(5) by blast
qed

lemma wrapper_plain:
  assumes "hex_id sid" "\<forall>c \<in> set indent. is_ws c" "l \<in> set (head_lines sid (nat_str k) indent @ tail_lines indent)"
  shows "\<not> str_includes l (end_pattern sid)" "\<not> str_includes l ''<style''"
proof -
  have "opener_free (CHR ''n'') (CHR ''d'') l" "opener_free (CHR ''<'') (CHR ''s'') l"
    using wrapper_free [OF hex_id_absent [OF assms(1)] nat_str_absent assms(2) _ assms(3)] by (simp_all add: wrapper_free)
  moreover have "end_pattern sid = ''impeccable-variants-e'' @ CHR ''n'' # CHR ''d'' # '' '' @ sid" "''<style'' = [] @ CHR ''<'' # CHR ''s'' # ''tyle''"
    by (simp_all add: end_pattern_def)
  ultimately show "\<not> str_includes l (end_pattern sid)" "\<not> str_includes l ''<style''"
    using opener_free_includes by (metis, metis)
qed

lemma end_line_plain:
  assumes "hex_id sid" "\<forall>c \<in> set indent. is_ws c"
  shows "\<not> str_includes (end_line sid indent) ''<style''"
proof -
  have "CHR ''<'' \<notin> set indent" using assms(2) by (auto simp: is_ws_def)
  then have "opener_free (CHR ''<'') (CHR ''s'') (indent @ ''<!-- impeccable-variants-end '' @ sid @ '' -->'')"
    using hex_id_absent [OF assms(1), of "CHR ''<''"] by (intro opener_free_append) (simp_all add: opener_free_absent)
  then have "opener_free (CHR ''<'') (CHR ''s'') (end_line sid indent)" by (simp add: wrapper_text)
  then show ?thesis by (rule opener_free_includes) (rule exI [of _ "[]"], simp)
qed

lemma reindented_includes:
  assumes "l \<in> set (reindentOriginal indent extra original)" "\<forall>c \<in> set (indent @ extra). is_ws c" "str_includes l p" "p \<noteq> []" "\<not> is_ws (hd p)"
  shows "\<exists>m \<in> set original. str_includes m p"
proof -
  obtain m where m: "m \<in> set original" "l = (if is_blank_line m then [] else (indent @ extra) @ drop (minLeadingSpaces original) m)"
    using assms(1) by (auto simp: reindentOriginal_def)
  have "\<not> str_includes [] p" using assms(4) by (simp add: str_includes_ex)
  then have "\<not> is_blank_line m" using m(2) assms(3) by auto
  moreover from this have "minLeadingSpaces original \<le> length (takeWhile is_ws m)"
    using minLeadingSpaces_le [OF m(1)] by (simp add: leading_ws_def)
  ultimately have "str_includes m p"
    using m(2) assms(3) ws_prefix_includes [OF assms(2,4,5)] drop_ws_includes [OF _ assms(4,5)] by (metis (full_types))
  then show ?thesis using m(1) by blast
qed

lemma reindented_newline: "NL \<notin> set (indent @ extra) \<Longrightarrow> \<forall>l \<in> set original. NL \<notin> set l \<Longrightarrow> \<forall>l \<in> set (reindentOriginal indent extra original). NL \<notin> set l"
  by (auto simp: reindentOriginal_def) (metis in_set_dropD)

lemma marker_block_found:
  assumes "\<forall>l \<in> set pre. \<not> str_includes l (start_pattern sid) \<and> \<not> str_includes l (end_pattern sid)"
    and "\<forall>l \<in> set (x # mid). \<not> str_includes l (end_pattern sid)" "str_includes x (start_pattern sid)" "str_includes y (end_pattern sid)"
  shows "findMarkerBlock sid (pre @ (x # mid) @ y # post) =
    Some \<lparr>bl_start = length pre, bl_end = length pre + length (x # mid), bl_id = sid\<rparr>"
proof -
  let ?sp = "start_pattern sid" and ?ep = "end_pattern sid"
  have "marker_scan ?sp ?ep 0 None (pre @ (x # mid) @ y # post) = marker_scan ?sp ?ep (length pre) None ((x # mid) @ y # post)"
    using marker_scan_skip [of pre ?ep None ?sp 0] assms(1) by simp
  also have "\<dots> = marker_scan ?sp ?ep (Suc (length pre)) (Some (length pre)) (mid @ y # post)" using assms(2,3) by simp
  also have "\<dots> = marker_scan ?sp ?ep (Suc (length pre) + length mid) (Some (length pre)) (y # post)"
    using marker_scan_skip [of mid ?ep "Some (length pre)" ?sp] assms(2) by simp
  also have "\<dots> = Some (Some (length pre), length pre + length (x # mid))" using assms(4) by simp
  finally show ?thesis by (simp add: findMarkerBlock_def)
qed

lemma head_no_attr:
  assumes "hex_id sid" "\<forall>c \<in> set indent. is_ws c"
  shows "no_attr_tag (variant_attr ''original'')
    (join_with [NL] [indent @ comment False (start_pattern sid), indent @ wrapper_div False sid (nat_str k), indent @ ''  '' @ comment False ''Original'', indent @ ''  ''])"
proof -
  have lt: "CHR ''<'' \<notin> set indent" "CHR ''<'' \<notin> set sid" using assms(2) hex_id_absent [OF assms(1), of "CHR ''<''"] by (auto simp: is_ws_def)
  have gt: "CHR ''>'' \<notin> set sid" "CHR ''>'' \<notin> set (nat_str k)" using hex_id_absent [OF assms(1), of "CHR ''>''"] by (simp_all add: nat_str_absent)
  let ?attrs = "'' data-impeccable-variants=\"'' @ sid @ ''\" data-impeccable-variant-count=\"'' @ nat_str k @ ''\" style=\"display: contents\"''"
  have "opener_free (CHR ''o'') (CHR ''r'') (''div'' @ ?attrs)"
    by (intro opener_free_append opener_free_absent [OF nat_str_absent] opener_free_absent [OF hex_id_absent [OF assms(1)]]) simp_all
  moreover have "variant_attr ''original'' = ''data-impeccable-variant=\"'' @ CHR ''o'' # CHR ''r'' # ''iginal\"''" by (simp add: variant_attr_def quoted_def)
  ultimately have no: "\<not> str_includes (''div'' @ ?attrs) (variant_attr ''original'')" using opener_free_includes by metis
  have "takeWhile not_gt ((''div'' @ ?attrs) @ ''>'') = ''div'' @ ?attrs"
    using gt by (subst takeWhile_append2) (auto simp: not_gt_def)
  then have "takeWhile not_gt (''div'' @ ?attrs @ ''>'') = ''div'' @ ?attrs" unfolding append_assoc .
  moreover have "no_attr_tag (variant_attr ''original'') (''div'' @ ?attrs @ ''>'')" using lt nat_str_absent [of "CHR ''<''" k] by (intro no_attr_tag_absent) simp
  ultimately have "no_attr_tag (variant_attr ''original'') (CHR ''<'' # ''div'' @ ?attrs @ ''>'')" using no by simp
  then have tag: "no_attr_tag (variant_attr ''original'') (wrapper_div False sid (nat_str k))" by (simp add: wrapper_div_def quoted_def)
  have open_comment: "no_attr_tag (variant_attr ''original'') (comment False t)" if "CHR ''<'' \<notin> set t" for t
    using that no_attr_tag_absent [of "t @ '' -->''"] by (simp add: comment_def is_letter_def)
  have "no_attr_tag (variant_attr ''original'') indent" "no_attr_tag (variant_attr ''original'') (comment False (start_pattern sid))"
    "no_attr_tag (variant_attr ''original'') (comment False ''Original'')"
    using lt by (simp_all add: no_attr_tag_absent open_comment start_pattern_def)
  then show ?thesis using tag by (simp add: no_attr_tag_append no_attr_tag_absent NL_def)
qed

section \<open>Discarding\<close>

lemma join_around:
  assumes "xs \<noteq> []" "ys \<noteq> []" "zs \<noteq> []"
  shows "join_with [NL] (xs @ ys @ zs) = join_with [NL] xs @ [NL] @ join_with [NL] ys @ [NL] @ join_with [NL] zs"
  using assms by (simp add: join_append)

lemma wrapper_inner:
  assumes "hex_id sid" "\<forall>c \<in> set indent. is_ws c" "ys \<noteq> []" "divs_balanced (join_with [NL] ys)"
  shows "extractInnerByAttr (join_with [NL] (head_lines sid (nat_str k) indent @ ys @ tail_lines indent @ [end_line sid indent])) (variant_attr ''original'') =
    Some ([NL] @ join_with [NL] ys @ NL # indent @ ''  '')"
proof -
  let ?P = "join_with [NL] [indent @ comment False (start_pattern sid), indent @ wrapper_div False sid (nat_str k), indent @ ''  '' @ comment False ''Original'', indent @ ''  '']"
  obtain r where "join_with [NL] (tail_lines indent @ [end_line sid indent]) = indent @ ''  </div>'' @ r" by (simp add: tail_lines_def)
  moreover have "join_with [NL] (head_lines sid (nat_str k) indent) = ?P @ ORIGINAL_DIV" by (simp add: head_lines_def)
  ultimately have "join_with [NL] (head_lines sid (nat_str k) indent @ ys @ tail_lines indent @ [end_line sid indent]) =
      ?P @ ORIGINAL_DIV @ [NL] @ join_with [NL] ys @ (NL # indent @ ''  '') @ ''</div>'' @ r"
    using join_around [of "head_lines sid (nat_str k) indent" ys "tail_lines indent @ [end_line sid indent]"] assms(3) by (simp add: head_lines_def)
  moreover have "CHR ''<'' \<notin> set [NL]" "CHR ''<'' \<notin> set (NL # indent @ ''  '')" using assms(2) by (auto simp: NL_def is_ws_def)
  ultimately show ?thesis using inner_of_original [OF head_no_attr [OF assms(1,2)] assms(4)] by metis
qed

text \<open>
  The place of an element in the lines of a file, for which the wrapper can be read back: the file has no
  marker of the session and the element no style, its first line is not blank, and its \<^verbatim>\<open>div\<close> elements
  are complete.
\<close>

definition element_lines :: "string list \<Rightarrow> range \<Rightarrow> string list" where
  "element_lines lines r = reindentOriginal (leading_ws (lines ! fst r)) ''    '' (slice_lines r lines)"

definition wrappable :: "string \<Rightarrow> string list \<Rightarrow> range \<Rightarrow> bool" where
  "wrappable sid lines r \<longleftrightarrow>
     hex_id sid \<and> fst r \<le> snd r \<and> snd r < length lines \<and> \<not> is_blank_line (lines ! fst r) \<and>
     list_all (\<lambda>l. NL \<notin> set l \<and> \<not> str_includes l (start_pattern sid) \<and> \<not> str_includes l (end_pattern sid)) lines \<and>
     list_all (\<lambda>l. \<not> str_includes l ''<style'') (slice_lines r lines) \<and>
     divs_balanced (join_with [NL] (element_lines lines r))"

definition mid_lines :: "string \<Rightarrow> string \<Rightarrow> string list \<Rightarrow> range \<Rightarrow> string list" where
  "mid_lines sid cnt lines r =
     head_lines sid cnt (leading_ws (lines ! fst r)) @ element_lines lines r @ tail_lines (leading_ws (lines ! fst r))"

definition wrapped_lines :: "string \<Rightarrow> string \<Rightarrow> string list \<Rightarrow> range \<Rightarrow> string list" where
  "wrapped_lines sid cnt lines r =
     take (fst r) lines @ mid_lines sid cnt lines r @ end_line sid (leading_ws (lines ! fst r)) # drop (Suc (snd r)) lines"

lemma wrappable_facts:
  assumes "wrappable sid lines r"
  shows "hex_id sid" "fst r \<le> snd r" "snd r < length lines" "\<not> is_blank_line (lines ! fst r)"
    "\<And>l. l \<in> set lines \<Longrightarrow> NL \<notin> set l \<and> \<not> str_includes l (start_pattern sid) \<and> \<not> str_includes l (end_pattern sid)"
    "\<And>l. l \<in> set (slice_lines r lines) \<Longrightarrow> \<not> str_includes l ''<style''" "divs_balanced (join_with [NL] (element_lines lines r))"
    "lines ! fst r \<in> set (slice_lines r lines)" "set (slice_lines r lines) \<subseteq> set lines"
    "NL \<notin> set (leading_ws (lines ! fst r))" "\<And>l. l \<in> set (element_lines lines r) \<Longrightarrow> NL \<notin> set l" "element_lines lines r \<noteq> []"
proof -
  show base: "hex_id sid" "fst r \<le> snd r" "snd r < length lines" "\<not> is_blank_line (lines ! fst r)"
    "\<And>l. l \<in> set lines \<Longrightarrow> NL \<notin> set l \<and> \<not> str_includes l (start_pattern sid) \<and> \<not> str_includes l (end_pattern sid)"
    "\<And>l. l \<in> set (slice_lines r lines) \<Longrightarrow> \<not> str_includes l ''<style''" "divs_balanced (join_with [NL] (element_lines lines r))"
    using assms unfolding wrappable_def list_all_iff by blast+
  show first: "lines ! fst r \<in> set (slice_lines r lines)"
    using base(2,3) by (auto simp: slice_lines_def in_set_conv_nth intro!: exI [of _ 0])
  show sub: "set (slice_lines r lines) \<subseteq> set lines" by (auto simp: slice_lines_def dest: in_set_dropD in_set_takeD)
  show nl: "NL \<notin> set (leading_ws (lines ! fst r))" using base(2,3,5) by (auto simp: leading_ws_def dest: set_takeWhileD)
  show "NL \<notin> set l" if "l \<in> set (element_lines lines r)" for l
    using that reindented_newline [of "leading_ws (lines ! fst r)" "''    ''" "slice_lines r lines"] nl base(5) sub
    by (auto simp: element_lines_def NL_def)
  show "element_lines lines r \<noteq> []" using first by (auto simp: element_lines_def reindentOriginal_def)
qed

lemma indent_ws: "\<forall>c \<in> set (leading_ws l @ ''    ''). is_ws c"
  using leading_ws_all [of l] by (auto simp: is_ws_def)

lemma split_wrapped:
  assumes "wrappable sid lines r"
  shows "split_on NL (wrap_content False sid (nat_str k) r (slice_lines r lines) lines) = wrapped_lines sid (nat_str k) lines r"
proof -
  note f = wrappable_facts [OF assms]
  have sid: "NL \<notin> set sid" "NL \<notin> set (nat_str k)" using hex_id_absent [OF f(1), of NL] by (simp_all add: nat_str_absent NL_def)
  let ?i = "leading_ws (lines ! fst r)"
  have "\<forall>l \<in> set (head_lines sid (nat_str k) ?i @ tail_lines ?i @ [end_line sid ?i]). NL \<notin> set l"
    using f(10) sid by (simp add: wrapper_text NL_def)
  then have "\<forall>l \<in> set (wrapped_lines sid (nat_str k) lines r). NL \<notin> set l"
    using f(5,11) by (auto simp: wrapped_lines_def mid_lines_def dest: in_set_takeD in_set_dropD)
  moreover have "wrap_content False sid (nat_str k) r (slice_lines r lines) lines = join_with [NL] (wrapped_lines sid (nat_str k) lines r)"
    using wrap_content_lines [OF length_greater_0_conv [THEN iffD1, OF length_pos_if_in_set [OF f(8)]], of sid "nat_str k" "fst r" "snd r" lines]
    by (simp add: wrapped_lines_def mid_lines_def element_lines_def)
  ultimately show ?thesis by (simp add: split_join_lines wrapped_lines_def)
qed

lemma mid_plain:
  assumes "wrappable sid lines r" "l \<in> set (mid_lines sid (nat_str k) lines r)"
  shows "\<not> str_includes l (end_pattern sid) \<and> \<not> str_includes l ''<style''"
proof -
  note f = wrappable_facts [OF assms(1)]
  have hds: "end_pattern sid \<noteq> []" "\<not> is_ws (hd (end_pattern sid))" "''<style'' \<noteq> []" "\<not> is_ws (hd ''<style'')"
    by (simp_all add: end_pattern_def is_ws_def)
  consider "l \<in> set (element_lines lines r)"
    | "l \<in> set (head_lines sid (nat_str k) (leading_ws (lines ! fst r)) @ tail_lines (leading_ws (lines ! fst r)))"
    using assms(2) by (auto simp: mid_lines_def)
  then show ?thesis
  proof cases
    case 1
    note inc = reindented_includes [OF 1 [unfolded element_lines_def] indent_ws]
    show ?thesis using inc [OF _ hds(1,2)] inc [OF _ hds(3,4)] f(5,6,9) by blast
  next
    case 2
    then show ?thesis using wrapper_plain [OF f(1) leading_ws_all] by blast
  qed
qed

text \<open>The block that the markers of the session delimit.\<close>

definition wrapper_block :: "string \<Rightarrow> string \<Rightarrow> string list \<Rightarrow> range \<Rightarrow> block" where
  "wrapper_block sid cnt lines r = \<lparr>bl_start = fst r, bl_end = fst r + length (mid_lines sid cnt lines r), bl_id = sid\<rparr>"

lemma wrapped_block:
  assumes "wrappable sid lines r"
  shows "findMarkerBlock sid (wrapped_lines sid (nat_str k) lines r) = Some (wrapper_block sid (nat_str k) lines r)"
proof -
  note f = wrappable_facts [OF assms]
  let ?i = "leading_ws (lines ! fst r)" and ?mid = "mid_lines sid (nat_str k) lines r"
  have pre: "\<forall>l \<in> set (take (fst r) lines). \<not> str_includes l (start_pattern sid) \<and> \<not> str_includes l (end_pattern sid)"
    using f(5) in_set_takeD by fast
  have mid: "hd (head_lines sid (nat_str k) ?i) # tl ?mid = ?mid" by (simp add: mid_lines_def head_lines_def)
  have plain: "\<forall>l \<in> set (hd (head_lines sid (nat_str k) ?i) # tl ?mid). \<not> str_includes l (end_pattern sid)"
    unfolding mid using mid_plain [OF assms] by blast
  have "str_includes (hd (head_lines sid (nat_str k) ?i)) (start_pattern sid)" "str_includes (end_line sid ?i) (end_pattern sid)"
    unfolding wrapper_text str_includes_ex list.sel by (metis append_assoc)+
  from marker_block_found [OF pre plain this, of "drop (Suc (snd r)) lines"] show ?thesis
    using f(2,3) unfolding mid by (simp add: wrapped_lines_def wrapper_block_def)
qed

lemma wrapped_original:
  assumes "wrappable sid lines r"
  shows "extractOriginal (wrapped_lines sid (nat_str k) lines r) (wrapper_block sid (nat_str k) lines r) =
    [] # element_lines lines r @ [leading_ws (lines ! fst r) @ ''  '']"
proof -
  note f = wrappable_facts [OF assms]
  let ?i = "leading_ws (lines ! fst r)" and ?mid = "mid_lines sid (nat_str k) lines r" and ?ys = "element_lines lines r"
  have blk: "block_lines (wrapped_lines sid (nat_str k) lines r) (wrapper_block sid (nat_str k) lines r) = ?mid @ [end_line sid ?i]"
    using f(2,3) by (simp add: block_lines_def slice_lines_def wrapper_block_def wrapped_lines_def)
  have "strip_style False (?mid @ [end_line sid ?i]) = ?mid @ [end_line sid ?i]"
    using mid_plain [OF assms] end_line_plain [OF f(1) leading_ws_all] by (intro strip_style_plain) auto
  then have "extractOriginal (wrapped_lines sid (nat_str k) lines r) (wrapper_block sid (nat_str k) lines r) =
      split_on NL ([NL] @ join_with [NL] ?ys @ NL # ?i @ ''  '')"
    using wrapper_inner [OF f(1) leading_ws_all f(12,7), of k] unfolding extractOriginal_def stripStyleAndJoin_def blk by (simp add: mid_lines_def)
  moreover have "\<forall>l \<in> set ([] # ?ys @ [?i @ ''  '']). NL \<notin> set l" using f(10,11) by (auto simp: NL_def)
  moreover have "[NL] @ join_with [NL] ?ys @ NL # ?i @ ''  '' = join_with [NL] ([[]] @ ?ys @ [?i @ ''  ''])"
    using join_around [of "[[]]" ?ys "[?i @ ''  '']"] f(12) by simp
  ultimately show ?thesis using split_join_lines [of "[] # ?ys @ [?i @ ''  '']" NL] by (metis append_Cons append_Nil list.distinct(1))
qed

text \<open>The lines of the file that a discard leaves, of a file that a wrapper was put into.\<close>

definition restored_lines :: "string list \<Rightarrow> range \<Rightarrow> string list" where
  "restored_lines lines r = map (restored_line (leading_ws (lines ! fst r)) (slice_lines r lines)) (slice_lines r lines)"

lemma discard_wrapped_lines:
  assumes "wrappable sid lines r" "\<not> accept_isJsx f"
  shows "discard_lines sid (split_on NL (wrap_content False sid (nat_str k) r (slice_lines r lines) lines)) f =
    Some (take (fst r) lines @ [[]] @ restored_lines lines r @ [[]] @ drop (Suc (snd r)) lines)"
proof -
  note f = wrappable_facts [OF assms(1)]
  let ?i = "leading_ws (lines ! fst r)"
  have "wrapped_lines sid (nat_str k) lines r ! fst r = ?i @ comment False (start_pattern sid)"
    using f(2,3) by (simp add: wrapped_lines_def mid_lines_def nth_append head_lines_def)
  then have "leading_ws (wrapped_lines sid (nat_str k) lines r ! fst r) = ?i"
    using leading_ws_append [OF leading_ws_all] by (simp add: comment_def leading_ws_def is_ws_def)
  moreover have "deindentContent ([] # element_lines lines r @ [?i @ ''  '']) ?i = [[]] @ restored_lines lines r @ [[]]"
    using deindent_reindented [OF indent_ws f(8,4), of "[]" "?i @ ''  ''"] leading_ws_all [of "lines ! fst r"]
    by (auto simp: is_blank_line_iff is_ws_def element_lines_def restored_lines_def)
  moreover have "replace_range (fst r, fst r + length (mid_lines sid (nat_str k) lines r)) ls (wrapped_lines sid (nat_str k) lines r) =
      take (fst r) lines @ ls @ drop (Suc (snd r)) lines" for ls
    using f(2,3) by (simp add: replace_range_def wrapped_lines_def)
  ultimately show ?thesis
    using assms(2) wrapped_block [OF assms(1)] wrapped_original [OF assms(1)]
    by (simp add: split_wrapped [OF assms(1)] discard_lines_def expandReplaceRange_def wrapper_block_def)
qed

lemma restored_aligned:
  assumes "\<not> is_blank_line (lines ! fst r)" "lines ! fst r \<in> set (slice_lines r lines)"
    and "list_all (\<lambda>l. l = [] \<or> (\<not> is_blank_line l \<and> starts_with l (leading_ws (lines ! fst r)))) (slice_lines r lines)"
  shows "restored_lines lines r = slice_lines r lines"
proof -
  let ?i = "leading_ws (lines ! fst r)" and ?ls = "slice_lines r lines"
  have aligned: "\<exists>t. l = ?i @ t" if "l \<in> set ?ls" "\<not> is_blank_line l" for l
    using assms(3) that by (auto simp: list_all_iff starts_with_ex is_blank_line_iff)
  obtain m where m: "m \<in> set ?ls" "\<not> is_blank_line m" "minLeadingSpaces ?ls = length (leading_ws m)"
    using minLeadingSpaces_attained [OF assms(2,1)] by blast
  then have "length ?i \<le> minLeadingSpaces ?ls" using aligned [OF m(1,2)] leading_ws_append [OF leading_ws_all] by auto
  then have "minLeadingSpaces ?ls = length ?i" using minLeadingSpaces_le [OF assms(2,1)] by simp
  moreover have "\<forall>l \<in> set ?ls. is_blank_line l \<longrightarrow> l = []" using assms(3) by (auto simp: list_all_iff)
  ultimately have "restored_line ?i ?ls l = l" if "l \<in> set ?ls" for l using aligned [OF that] that by (auto simp: restored_line_def)
  then show ?thesis unfolding restored_lines_def by (simp add: map_idI)
qed

lemma isJsx_agree: "wrap_isJsx f \<longleftrightarrow> accept_isJsx f"
  by (auto simp: wrap_isJsx_def accept_isJsx_def resolveSourceTraits_def Let_def SOURCE_TRAIT_DEFAULTS_def)

lemma count_text: "js_text (JNum (Fin (of_nat k))) = nat_str k"
  by simp


definition sample_page :: string where
  "sample_page = ''<main>'' @ [NL] @ ''  <div class=\"card\">'' @ [NL] @ ''    <p>Hi</p>'' @ [NL] @ ''  </div>'' @ [NL] @ ''</main>''"

lemma sample_lines: "split_on NL sample_page = [''<main>'', ''  <div class=\"card\">'', ''    <p>Hi</p>'', ''  </div>'', ''</main>'']"
  by (simp add: sample_page_def NL_def)

lemma sample_wrappable: "wrappable ''0a1b2c3d'' (split_on NL sample_page) (1, 3)"
  by code_simp

definition sample_wrap :: wrap_request where
  "sample_wrap = \<lparr>wr_id = Some ''0a1b2c3d'', wr_count = Fin (of_nat 3), wr_elementId = None, wr_classes = Some ''card'', wr_tag = None,
     wr_query = None, wr_file = None, wr_text = None, wr_pageUrl = None, wr_defer = False\<rparr>"

definition sample_accept_env :: accept_env where
  "sample_accept_env = \<lparr>ae_cwd = ''/app'', ae_now = ''2025-01-01'', ae_find = (\<lambda>_ _. Some ''page.html''), ae_manifest = (\<lambda>_. None),
     ae_generated = (\<lambda>_. False), ae_lock = (\<lambda>_. None), ae_svelteDiscard = (\<lambda>_ fs. fs), ae_svelteAccept = (\<lambda>_ _ _ fs. (fs, Inr []))\<rparr>"

definition sample_world :: accept_world where
  "sample_world = \<lparr>aw_files = [''page.html'' \<mapsto> sample_page], aw_receipts = (\<lambda>_. None), aw_buffer = NoBuffer\<rparr>"


end
