(* ===== verification/Variant_Properties.thy ===== *)
theory Variant_Properties
  imports Wrap_Roundtrip
begin

text \<open>
  What holds of accepting and discarding: the receipt that makes a handled operation happen once, the
  part of the file that is replaced, and the cleanup that the check of an accepted file insists on.
\<close>

section \<open>Receipts\<close>

definition well_formed_request :: "accept_request \<Rightarrow> bool" where
  "well_formed_request rq \<longleftrightarrow>
     present (ar_id rq) \<and> safe_id_pattern (the (ar_id rq)) \<and>
     (ar_discard rq \<or> (present (ar_variant rq) \<and> VARIANT_NUM_PATTERN (the (ar_variant rq))))"

definition receipt_of :: "accept_env \<Rightarrow> accept_request \<Rightarrow> props \<Rightarrow> jsval" where
  "receipt_of env rq result = JObj (obj_merge [(''id'', JStr (the (ar_id rq)))]
     [(''operation'', JStr (requested_operation rq)),
      (''variantId'', if ar_discard rq then JNull else JStr (the (ar_variant rq))), (''result'', JObj result),
      (''completedAt'', JStr (ae_now env))])"

lemma emitted_receipt:
  assumes "emitResult env rq raw w = (w', Printed out)" "dot out ''handled'' \<noteq> JBool False"
  shows "\<exists>result. out = JObj result \<and> aw_receipts w' (the (ar_id rq)) = Some (receipt_of env rq result)"
  using assms by (auto simp: emitResult_def Let_def writeAcceptReceipt_def receipt_of_def split: if_splits)

lemma command_emits:
  assumes "acceptCli env rq w = (w', Printed out)" "\<not> truthy (readAcceptReceipt w (the (ar_id rq)))" "dot out ''handled'' \<noteq> JBool False"
  shows "well_formed_request rq \<and> (\<exists>raw w0. emitResult env rq raw w0 = (w', Printed out))"
proof -
  have wf: "well_formed_request rq" using assms(1) by (auto simp: acceptCli_def well_formed_request_def split: if_splits)
  then have "(\<exists>f. source_command env rq f w = (w', Printed out)) \<or> (\<exists>m. svelte_command env rq m w = (w', Printed out))"
    using assms by (auto simp: acceptCli_def well_formed_request_def Let_def split: if_splits option.splits)
  then have "\<exists>raw w0. emitResult env rq raw w0 = (w', Printed out)"
  proof (elim disjE exE)
    fix f assume "source_command env rq f w = (w', Printed out)"
    then show ?thesis unfolding source_command_def Let_def by (auto split: if_splits prod.splits sum.splits)
  next
    fix m assume "svelte_command env rq m w = (w', Printed out)"
    then show ?thesis unfolding svelte_command_def Let_def by (auto split: if_splits prod.splits sum.splits option.splits)
  qed
  then show ?thesis using wf by blast
qed

lemma receipt_fields:
  "dot (receipt_of env rq result) ''operation'' = JStr (requested_operation rq)"
  "dot (receipt_of env rq result) ''variantId'' = (if ar_discard rq then JNull else JStr (the (ar_variant rq)))"
  "dot (receipt_of env rq result) ''result'' = JObj result"
  "truthy (receipt_of env rq result)"
  by (simp_all add: receipt_of_def obj_merge_def)

text \<open>
  C14: A handled operation happens once. After an accept or a discard that was handled, a later
  request for the same session changes nothing, whatever the files hold by then: the same operation
  is answered from the receipt, with the fields of the first answer, and any other is refused as a
  conflict that names the operation that was done.
\<close>

theorem accept_once:
  assumes "acceptCli env rq w = (w', Printed out)" "\<not> truthy (readAcceptReceipt w (the (ar_id rq)))" "dot out ''handled'' \<noteq> JBool False"
    and "well_formed_request rq2" "ar_id rq2 = ar_id rq" "aw_receipts w2 = aw_receipts w'"
  shows "acceptCli env2 rq2 w2 = (w2, Printed
    (if ar_discard rq2 = ar_discard rq \<and> (ar_discard rq \<or> ar_variant rq2 = ar_variant rq)
     then JObj (obj_merge (own_props out) [(''handled'', JBool True), (''alreadyApplied'', JBool True)])
     else JObj [(''handled'', JBool False), (''mode'', JStr ''error''), (''error'', JStr ''accept_receipt_conflict''),
       (''priorOperation'', JStr (if ar_discard rq then ''discard'' else ''accept'')),
       (''priorVariantId'', if ar_discard rq then JNull else JStr (the (ar_variant rq)))]))"
proof -
  obtain result where r: "out = JObj result" "aw_receipts w2 (the (ar_id rq)) = Some (receipt_of env rq result)" "well_formed_request rq"
    using command_emits [OF assms(1-3)] emitted_receipt [OF _ assms(3)] assms(6) by metis
  let ?prior = "receipt_of env rq result"
  have "readAcceptReceipt w2 (the (ar_id rq2)) = ?prior" using r(2) assms(5) by (simp add: readAcceptReceipt_def)
  then have "acceptCli env2 rq2 w2 = (w2, Printed (prior_answer rq2 ?prior))"
    using assms(4) by (auto simp: acceptCli_def well_formed_request_def receipt_fields Let_def)
  moreover have "same_operation rq2 ?prior \<longleftrightarrow> ar_discard rq2 = ar_discard rq \<and> (ar_discard rq \<or> ar_variant rq2 = ar_variant rq)"
    using assms(4) r(3)
    by (auto simp: same_operation_def receipt_fields requested_operation_def well_formed_request_def present_def split: option.splits)
  ultimately show ?thesis
    by (simp add: prior_answer_def receipt_fields r(1) requested_operation_def coalesce_def)
qed

definition component_env :: accept_env where
  "component_env = sample_accept_env\<lparr>ae_find := (\<lambda>_ _. None), ae_manifest := (\<lambda>_. Some (JObj [(''sourceFile'', JStr ''src/Card.svelte'')]))\<rparr>"

definition discard_request :: accept_request where
  "discard_request = \<lparr>ar_id = Some ''0a1b2c3d'', ar_variant = None, ar_params = JUndef, ar_pageUrl = None, ar_discard = True\<rparr>"

definition accept_second :: accept_request where
  "accept_second = discard_request\<lparr>ar_variant := Some ''2'', ar_discard := False\<rparr>"

lemma component_discard:
  "acceptCli component_env discard_request sample_world =
    (writeAcceptReceipt ''2025-01-01'' ''0a1b2c3d'' [(''operation'', JStr ''discard''), (''variantId'', JNull),
        (''result'', JObj [(''handled'', JBool True), (''file'', JStr ''src/Card.svelte''), (''carbonize'', JBool False),
          (''previewMode'', JStr ''svelte-component''), (''componentDir'', JUndef)])] sample_world,
     Printed (JObj [(''handled'', JBool True), (''file'', JStr ''src/Card.svelte''), (''carbonize'', JBool False),
          (''previewMode'', JStr ''svelte-component''), (''componentDir'', JUndef)]))"
proof -
  have "safe_id_pattern ''0a1b2c3d''" by code_simp
  then show ?thesis
    by (simp add: acceptCli_def component_env_def sample_accept_env_def discard_request_def sample_world_def present_def readAcceptReceipt_def
        svelte_command_def emitResult_def markPreviewFailure_def obj_merge_def requested_operation_def Let_def)
qed

theorem accept_once_witness:
  "acceptCli sample_accept_env accept_second (fst (acceptCli component_env discard_request sample_world)) =
    (fst (acceptCli component_env discard_request sample_world),
     Printed (JObj [(''handled'', JBool False), (''mode'', JStr ''error''), (''error'', JStr ''accept_receipt_conflict''),
       (''priorOperation'', JStr ''discard''), (''priorVariantId'', JNull)]))"
proof -
  have "well_formed_request accept_second" by code_simp
  moreover have "\<not> truthy (readAcceptReceipt sample_world (the (ar_id discard_request)))" by (simp add: sample_world_def readAcceptReceipt_def)
  ultimately show ?thesis
    using accept_once [OF component_discard, of accept_second "fst (acceptCli component_env discard_request sample_world)" sample_accept_env]
    unfolding component_discard fst_conv by (simp add: accept_second_def discard_request_def)
qed

section \<open>What an accept leaves to clean up\<close>

lemma includes_trans: "str_includes s p \<Longrightarrow> str_includes p q \<Longrightarrow> str_includes s q"
  unfolding str_includes_ex by (metis append_assoc)

lemma join_includes: "l \<in> set ls \<Longrightarrow> str_includes (join_with sep ls) l"
proof (induction ls)
  case (Cons x xs)
  show ?case
  proof (cases "xs = []")
    case True
    then show ?thesis using Cons.prems by (simp add: str_includes_ex exI [of _ "[]"])
  next
    case False
    then have j: "join_with sep (x # xs) = x @ sep @ join_with sep xs" by (cases xs) auto
    show ?thesis
    proof (cases "l = x")
      case True
      then have "join_with sep (x # xs) = [] @ l @ (sep @ join_with sep xs)" using j by simp
      then show ?thesis unfolding str_includes_ex by blast
    next
      case False
      then have "str_includes (join_with sep xs) l" using Cons by simp
      then show ?thesis unfolding j by (metis append_assoc suffix_includes)
    qed
  qed
qed simp

lemma forbidden_not_clean:
  assumes "str_includes content p" "p \<in> set FORBIDDEN_TEXTS"
  shows "\<not> fst (verifyAcceptedSource content)"
proof -
  have "NL \<notin> set p" using assms(2) by (auto simp: FORBIDDEN_TEXTS_def NL_def)
  then obtain l where l: "l \<in> set (split_on NL content)" "str_includes l p" using includes_line assms(1) by blast
  then have "line_findings l \<noteq> []" using assms(2) by (auto simp: line_findings_def filter_empty_conv)
  moreover obtain i where "(i, l) \<in> set (zip [0..<length (split_on NL content)] (split_on NL content))"
    using l(1) by (metis length_map length_upt map_nth in_set_impl_in_set_zip2 diff_zero)
  ultimately show ?thesis unfolding verifyAcceptedSource_def Let_def fst_conv concat_eq_Nil_conv set_map by fastforce
qed

lemma deindent_includes:
  assumes "l \<in> set ls" "str_includes l p" "p \<noteq> []" "\<not> is_ws (hd p)"
  shows "\<exists>m \<in> set (deindentContent ls indent). str_includes m p"
proof -
  obtain c where "c \<in> set l" "\<not> is_ws c" using assms(2-4) by (cases p) (force simp: str_includes_ex)+
  then have nb: "\<not> is_blank_line l" by (auto simp: is_blank_line_iff)
  then have "str_includes (drop (minLeadingSpaces ls) l) p"
    using drop_ws_includes [OF _ assms(3,4)] minLeadingSpaces_le [OF assms(1)] assms(2) by (simp add: leading_ws_def)
  then have "str_includes (indent @ drop (minLeadingSpaces ls) l) p" by (rule suffix_includes)
  then show ?thesis using assms(1) nb by (auto simp: deindentContent_def)
qed

lemma drop_blank_front_subset: "set (drop_blank_front xs) \<subseteq> set xs"
  by (induction xs rule: drop_blank_front.induct) auto

lemma drop_blank_front_nonempty: "xs \<noteq> [] \<Longrightarrow> drop_blank_front xs \<noteq> []"
  by (induction xs rule: drop_blank_front.induct) auto

lemma variant_lines:
  assumes "extractVariant lines b v = Some ls"
  shows "ls \<noteq> [] \<and> (\<forall>l \<in> set ls. NL \<notin> set l)"
proof -
  obtain inner where "ls = rev (drop_blank_front (rev (drop_blank_front (split_on NL inner))))"
    using assms by (auto simp: extractVariant_def split: option.splits)
  moreover from this have "set ls \<subseteq> set (split_on NL inner)" using drop_blank_front_subset by (metis set_rev subset_trans)
  ultimately show ?thesis
    using drop_blank_front_nonempty [OF split_on_ne [of NL inner]] drop_blank_front_nonempty split_on_no_sep by (metis rev_is_Nil_conv subsetD)
qed

text \<open>
  An accept that asks for cleanup leaves a file that the check refuses. When the source that
  \<^verbatim>\<open>buildAcceptedWrappedSource\<close> builds is marked for carbonizing, \<^verbatim>\<open>verifyAcceptedSource\<close> does not find it
  clean, so that the cleanup cannot be skipped unnoticed.
\<close>

theorem carbonize_not_clean:
  assumes "buildAcceptedWrappedSource sid variantNum lines f params = Inr built" "bt_carbonize built"
  shows "\<not> fst (verifyAcceptedSource (bt_content built))"
proof -
  obtain b ls where b: "findMarkerBlock sid lines = Some b" "extractVariant lines b variantNum = Some ls"
    using assms(1) by (auto simp: buildAcceptedWrappedSource_def Let_def split: option.splits)
  define r where "r = expandReplaceRange b lines (accept_isJsx f)"
  define indent where "indent = leading_ws (lines ! fst r)"
  define css where "css = extractCss lines b sid"
  define new where "new = buildCarbonizeReplacement indent (accept_isJsx f) sid variantNum css params (deindentContent ls indent)"
  have content: "bt_content built = join_with [NL] (replace_range r new lines)"
    and why: "css \<noteq> None \<or> str_includes (join_with [NL] ls) ''data-impeccable-variant''"
    using assms b by (auto simp: buildAcceptedWrappedSource_def Let_def r_def indent_def css_def new_def)
  have line: "\<exists>l \<in> set new. \<exists>p \<in> set FORBIDDEN_TEXTS. str_includes l p"
  proof (cases css)
    case (Some c)
    have "\<exists>bi. bi @ comment (accept_isJsx f) (''impeccable-carbonize-start '' @ sid) \<in> set new"
      by (auto simp: new_def Some buildCarbonizeReplacement_def carbonize_body_def)
    moreover have "str_includes (bi @ comment j (''impeccable-carbonize-start '' @ sid)) ''impeccable-carbonize-start''" for bi j
      unfolding str_includes_ex comment_def by (rule exI [of _ "bi @ (if j then ''{/*'' else ''<!--'') @ '' ''"]) simp
    ultimately show ?thesis by (auto simp: FORBIDDEN_TEXTS_def)
  next
    case None
    then have "str_includes (join_with [NL] ls) ''data-impeccable-variant''" using why by simp
    moreover have "split_on NL (join_with [NL] ls) = ls" using variant_lines [OF b(2)] by (simp add: split_join_lines)
    moreover have "NL \<notin> set ''data-impeccable-variant''" by (simp add: NL_def)
    ultimately obtain l where l: "l \<in> set ls" "str_includes l ''data-impeccable-variant''" using includes_line by metis
    obtain m where "m \<in> set (deindentContent ls indent)" "str_includes m ''data-impeccable-variant''"
      using deindent_includes [OF l, of indent] by (auto simp: is_ws_def)
    moreover have "str_includes ''data-impeccable-variant'' ''data-impeccable-''" by simp
    ultimately have "m \<in> set new" "str_includes m ''data-impeccable-''"
      using includes_trans None by (simp add: new_def buildCarbonizeReplacement_def, blast)
    then show ?thesis unfolding FORBIDDEN_TEXTS_def by (metis list.set_intros)
  qed
  then obtain l p where l: "l \<in> set new" "p \<in> set FORBIDDEN_TEXTS" "str_includes l p" by blast
  have "str_includes (bt_content built) l" unfolding content by (rule join_includes) (use l(1) in \<open>simp add: replace_range_def\<close>)
  then show ?thesis using forbidden_not_clean [OF _ l(2)] includes_trans l(3) by blast
qed

definition styled_lines :: "string list" where
  "styled_lines = [''<!-- impeccable-variants-start 0a1b2c3d -->'', ''<style data-impeccable-css=\"0a1b2c3d\">'', ''p { color: red }'', ''</style>'',
     ''<div data-impeccable-variant=\"1\">'', ''  <p>Hi</p>'', ''</div>'', ''<!-- impeccable-variants-end 0a1b2c3d -->'']"

theorem carbonize_not_clean_witness:
  "fst (verifyAcceptedSource (bt_content (projr (buildAcceptedWrappedSource ''0a1b2c3d'' ''1'' styled_lines ''page.html'' JUndef)))) = False"
proof -
  obtain built where b: "buildAcceptedWrappedSource ''0a1b2c3d'' ''1'' styled_lines ''page.html'' JUndef = Inr built"
  proof -
    have "isl (buildAcceptedWrappedSource ''0a1b2c3d'' ''1'' styled_lines ''page.html'' JUndef) = False" by code_simp
    then show thesis using that by (metis sum.collapse(2))
  qed
  have "bt_carbonize (projr (buildAcceptedWrappedSource ''0a1b2c3d'' ''1'' styled_lines ''page.html'' JUndef))" by code_simp
  then show ?thesis using carbonize_not_clean [OF b] b by simp
qed

section \<open>The part of the file that is replaced\<close>

lemma marker_scan_bounds:
  assumes "marker_scan sp ep i start lines = Some (st, e)" "\<forall>s. start = Some s \<longrightarrow> s \<le> i"
  shows "i \<le> e \<and> e < i + length lines \<and> (\<forall>s. st = Some s \<longrightarrow> s \<le> e)"
  using assms
proof (induction lines arbitrary: i start)
  case (Cons l ls)
  show ?case
  proof (cases "str_includes l ep")
    case True
    then show ?thesis using Cons.prems by (auto simp: Let_def split: if_splits)
  next
    case False
    then show ?thesis using Cons.prems Cons.IH [of "Suc i"] by (force simp: Let_def split: if_splits)
  qed
qed simp

lemma block_bounds: "findMarkerBlock sid lines = Some b \<Longrightarrow> bl_start b \<le> bl_end b \<and> bl_end b < length lines"
  using marker_scan_bounds [of "start_pattern sid" "end_pattern sid" 0 None lines]
  by (auto simp: findMarkerBlock_def split: option.splits prod.splits)

lemma to_opener_le: "to_opener lines sid n \<le> n"
  by (induction n) auto

lemma wrapper_start_le: "i \<le> start \<Longrightarrow> wrapper_start lines sid start i \<le> start"
proof (induction i)
  case (Suc i)
  then show ?case using to_opener_le [of lines sid i] by (auto simp: Let_def)
qed simp

lemma count_newlines: "\<forall>l \<in> set ls. NL \<notin> set l \<Longrightarrow> length (filter (\<lambda>c. c = NL) (join_with [NL] ls)) = length ls - 1"
proof (induction ls)
  case (Cons l ls)
  have "filter (\<lambda>c. c = NL) l = []" using Cons.prems by (auto simp: filter_empty_conv)
  then show ?case using Cons by (cases ls) simp_all
qed simp

lemma newlines_before: "length (filter P (take n s)) \<le> length (filter P s)"
  by (metis append_take_drop_id filter_append le_add1 length_append)

lemma div_end_bounds:
  assumes "fin \<le> start + length (filter (\<lambda>c. c = NL) joined)"
  shows "fin \<le> div_end joined start fin depth ms \<and> div_end joined start fin depth ms \<le> start + length (filter (\<lambda>c. c = NL) joined)"
proof (induction ms arbitrary: depth)
  case (Cons m ms)
  then show ?case using newlines_before [of "\<lambda>c. c = NL" "ex_index m + length (ex_text m)" joined] by (auto simp: Let_def)
qed (use assms in simp)

lemma replace_range_bounds:
  assumes "findMarkerBlock sid lines = Some b" "\<forall>l \<in> set lines. NL \<notin> set l"
  shows "fst (expandReplaceRange b lines isJsx) \<le> bl_start b \<and> bl_end b \<le> snd (expandReplaceRange b lines isJsx) \<and>
    snd (expandReplaceRange b lines isJsx) < length lines"
proof -
  note bb = block_bounds [OF assms(1)]
  define s where "s = wrapper_start lines (bl_id b) (bl_start b) (bl_start b)"
  have s: "s \<le> bl_start b" unfolding s_def by (rule wrapper_start_le) simp
  have "\<forall>l \<in> set (drop s lines). NL \<notin> set l" using assms(2) by (auto dest: in_set_dropD)
  then have n: "length (filter (\<lambda>c. c = NL) (join_with [NL] (drop s lines))) = length lines - s - 1" by (simp add: count_newlines)
  have "bl_end b \<le> s + length (filter (\<lambda>c. c = NL) (join_with [NL] (drop s lines)))" 
    using bb s n by (simp add: le_diff_conv2)
  from div_end_bounds [OF this, of 0 "match_all DIV_TAG_RE (join_with [NL] (drop s lines))"] show ?thesis
    using bb s n by (cases isJsx) (simp_all add: expandReplaceRange_def Let_def s_def [symmetric], linarith)
qed

text \<open>
  An accept and a discard touch only the part of the file around the markers. The new file is the
  old one with the lines of a range replaced; the range lies in the file, begins not after the start
  marker and ends not before the end marker, so the lines before and behind it stay as they were.
\<close>

theorem accept_frame:
  assumes "findMarkerBlock sid (split_on NL content) = Some b" "r = expandReplaceRange b (split_on NL content) (accept_isJsx f)"
  shows "fst r \<le> bl_start b \<and> bl_start b \<le> bl_end b \<and> bl_end b \<le> snd r \<and> snd r < length (split_on NL content) \<and>
    (\<exists>restored. discard_lines sid (split_on NL content) f =
       Some (take (fst r) (split_on NL content) @ restored @ drop (Suc (snd r)) (split_on NL content))) \<and>
    (\<forall>built. buildAcceptedWrappedSource sid v (split_on NL content) f params = Inr built \<longrightarrow>
       (\<exists>new. bt_content built = join_with [NL] (take (fst r) (split_on NL content) @ new @ drop (Suc (snd r)) (split_on NL content))))"
proof -
  have "\<forall>l \<in> set (split_on NL content). NL \<notin> set l" using split_on_no_sep by metis
  from replace_range_bounds [OF assms(1) this, of "accept_isJsx f"] show ?thesis
    using block_bounds [OF assms(1)] assms
    by (auto simp: discard_lines_def buildAcceptedWrappedSource_def replace_range_def Let_def split: option.splits)
qed

definition jsx_lines :: "string list" where
  "jsx_lines = [''<div data-impeccable-variants=\"0a1b2c3d\">'', ''  {/* impeccable-variants-start 0a1b2c3d */}'',
     ''  {/* impeccable-variants-end 0a1b2c3d */}'', ''</div>'', ''<p>after</p>'']"

theorem accept_frame_witness:
  "(case expandReplaceRange \<lparr>bl_start = 1, bl_end = 2, bl_id = ''0a1b2c3d''\<rparr> (split_on NL (join_with [NL] jsx_lines)) (accept_isJsx ''Card.tsx'') of
     (s, e) \<Rightarrow> (s, e) = (0, 3) \<and> s \<le> 1 \<and> 2 \<le> e \<and> e < 5)"
proof -
  have b: "findMarkerBlock ''0a1b2c3d'' (split_on NL (join_with [NL] jsx_lines)) = Some \<lparr>bl_start = 1, bl_end = 2, bl_id = ''0a1b2c3d''\<rparr>"
    by code_simp
  have r: "expandReplaceRange \<lparr>bl_start = 1, bl_end = 2, bl_id = ''0a1b2c3d''\<rparr> (split_on NL (join_with [NL] jsx_lines)) (accept_isJsx ''Card.tsx'') = (0, 3)"
    by code_simp
  have "length (split_on NL (join_with [NL] jsx_lines)) = 5" by code_simp
  then show ?thesis using accept_frame [OF b refl, of "''Card.tsx''"] r by simp
qed

end
