(* ===== verification/Variant_Insert.thy ===== *)
theory Variant_Insert
  imports Variant_Properties
begin

text \<open>
  Inserting new elements (\<^verbatim>\<open>scripts/live-insert.mjs\<close>): a wrapper without an original is put before or behind an
  anchor that is found as for wrapping. A discard of such a session gives the file back as it was.

  What surrounds the command is that of \<open>Variant_Wrap\<close>; the component that is prepared for a Svelte file is a
  parameter that returns the file of its manifest, or \<open>None\<close> when it throws;
  what it writes lies in the directory of the session and is left out.
\<close>

section \<open>The command\<close>

definition INSERT_POSITIONS :: "string list" where "INSERT_POSITIONS = [''before'', ''after'']"

definition isInsertPosition :: "string \<Rightarrow> bool" where "isInsertPosition v = (v \<in> set INSERT_POSITIONS)"

definition computeInsertLine :: "nat \<Rightarrow> nat \<Rightarrow> string \<Rightarrow> nat" where
  "computeInsertLine startLine endLine position = (if position = ''before'' then startLine else endLine + 1)"

definition insert_div :: "bool \<Rightarrow> string \<Rightarrow> string \<Rightarrow> string" where
  "insert_div isJsx sid cnt =
     ''<div data-impeccable-variants='' @ quoted sid @ '' data-impeccable-mode=\"insert\" data-impeccable-variant-count='' @ quoted cnt @ '' '' @
     (if isJsx then ''style={{ display: \"contents\" }}'' else ''style=\"display: contents\"'') @ ''>''"

definition buildInsertWrapperLines :: "string \<Rightarrow> string \<Rightarrow> string \<Rightarrow> bool \<Rightarrow> string list" where
  "buildInsertWrapperLines sid cnt indent isJsx =
     (if isJsx then
       [indent @ insert_div isJsx sid cnt,
        indent @ ''  '' @ comment isJsx (''impeccable-variants-start '' @ sid),
        indent @ ''  '' @ comment isJsx ''Variants: insert below this line'',
        indent @ ''  '' @ comment isJsx (''impeccable-variants-end '' @ sid),
        indent @ ''</div>'']
      else
       [indent @ comment isJsx (''impeccable-variants-start '' @ sid),
        indent @ insert_div isJsx sid cnt,
        indent @ ''  '' @ comment isJsx ''Variants: insert below this line'',
        indent @ ''</div>'',
        indent @ comment isJsx (''impeccable-variants-end '' @ sid)])"

datatype insert_error =
    Missing_Insert_Id
  | Missing_Position
  | Invalid_Position string
  | Missing_Anchor
  | Insert_Target wrap_error
  | Anchor_Unreadable
  | Anchor_Not_Found
  | Anchor_Ambiguous "range list"
  | Insert_Crashed

text \<open>With a text, all candidates are looked at; without one, the first element of the first query that has any.\<close>

definition resolveElementMatch :: "string list \<Rightarrow> string list \<Rightarrow> string option \<Rightarrow> string option \<Rightarrow> insert_error + range" where
  "resolveElementMatch lines queries tag text =
     (if present text then
       (let cands = candidates_of lines tag queries [] in
        case cands of
          [] \<Rightarrow> Inl Anchor_Not_Found
        | [c] \<Rightarrow> Inr c
        | c # _ \<Rightarrow> (case filterByText cands lines (the text) of
            [m] \<Rightarrow> Inr m
          | [] \<Rightarrow> Inr c
          | m # ms \<Rightarrow> Inl (Anchor_Ambiguous (m # ms))))
      else (case concat (map (\<lambda>q. case findElement lines q tag of None \<Rightarrow> [] | Some m \<Rightarrow> [m]) queries) of
          [] \<Rightarrow> Inl Anchor_Not_Found
        | m # _ \<Rightarrow> Inr m))"

record insert_output =
  io_position :: string
  io_file :: string
  io_insertLine :: nat
  io_wrapperBlock :: "string option"
  io_replace :: "range option"

definition shouldUseSvelteComponentInjection :: "wrap_env \<Rightarrow> string \<Rightarrow> bool" where
  "shouldUseSvelteComponentInjection env filePath = (\<not> re_test SVELTE_OFF (we_svelteFlag env) \<and> file_ext filePath = ''.svelte'')"

text \<open>The indentation of the line at the place, or of the anchor when the file ends there.\<close>

definition insert_indent :: "string list \<Rightarrow> nat \<Rightarrow> nat \<Rightarrow> string" where
  "insert_indent lines spliceIndex startLine =
     (if spliceIndex < length lines then leading_ws (lines ! spliceIndex)
      else if startLine < length lines then leading_ws (lines ! startLine) else [])"

definition insert_content :: "bool \<Rightarrow> string \<Rightarrow> string \<Rightarrow> string \<Rightarrow> nat \<Rightarrow> string list \<Rightarrow> string" where
  "insert_content isJsx sid cnt indent i lines =
     join_with [NL] (take i lines @ buildInsertWrapperLines sid cnt indent isJsx @ drop i lines)"

definition insert_source :: "wrap_request \<Rightarrow> string \<Rightarrow> string \<Rightarrow> range \<Rightarrow> string list \<Rightarrow> file_map \<Rightarrow> file_map \<times> insert_output" where
  "insert_source rq position targetFile r lines fs =
     (let i = computeInsertLine (fst r) (snd r) position; indent = insert_indent lines i (fst r);
          isJsx = wrap_isJsx targetFile; sid = the (wr_id rq); cnt = js_text (JNum (wr_count rq));
          out = \<lparr>io_position = position, io_file = targetFile, io_insertLine = i + 3 + 1, io_wrapperBlock = None, io_replace = None\<rparr>
      in if wr_defer rq
         then (fs, out\<lparr>io_wrapperBlock := Some (join_with [NL] (buildInsertWrapperLines sid cnt indent isJsx)), io_replace := Some (i + 1, i)\<rparr>)
         else (fs(targetFile \<mapsto> insert_content isJsx sid cnt indent i lines), out))"

definition insertCli ::
  "wrap_env \<Rightarrow> (string \<Rightarrow> nat \<Rightarrow> range \<Rightarrow> string list \<Rightarrow> string option) \<Rightarrow> wrap_request \<Rightarrow> string option \<Rightarrow> file_map \<Rightarrow> file_map \<times> (insert_error + insert_output)" where
  "insertCli env scaffold rq pos fs =
     (if \<not> present (wr_id rq) then (fs, Inl Missing_Insert_Id)
      else if \<not> present pos then (fs, Inl Missing_Position)
      else if \<not> isInsertPosition (the pos) then (fs, Inl (Invalid_Position (the pos)))
      else if \<not> present (wr_elementId rq) \<and> \<not> present (wr_classes rq) \<and> \<not> present (wr_query rq) then (fs, Inl Missing_Anchor)
      else
       (let queries = buildSearchQueries (wr_elementId rq) (wr_classes rq) (wr_tag rq) (wr_query rq) in
        case wrap_target env rq queries of
          Inl e \<Rightarrow> (fs, Inl (Insert_Target e))
        | Inr targetFile \<Rightarrow> (case fs targetFile of
            None \<Rightarrow> (fs, Inl Anchor_Unreadable)
          | Some content \<Rightarrow>
             (let lines = split_on NL content in
              case resolveElementMatch lines queries (wr_tag rq) (wr_text rq) of
                Inl e \<Rightarrow> (fs, Inl e)
              | Inr r \<Rightarrow>
                 if shouldUseSvelteComponentInjection env targetFile then
                   (case scaffold targetFile (computeInsertLine (fst r) (snd r) (the pos) + 1) r (slice_lines r lines) of
                      None \<Rightarrow> (fs, Inl Insert_Crashed)
                    | Some manifestFile \<Rightarrow> (fs, Inr \<lparr>io_position = the pos, io_file = manifestFile, io_insertLine = 1, io_wrapperBlock = None, io_replace = None\<rparr>))
                 else map_prod id Inr (insert_source rq (the pos) targetFile r lines fs)))))"

section \<open>The text of the wrapper\<close>

lemmas insert_text = buildInsertWrapperLines_def insert_div_def comment_def quoted_def

lemma insert_wrapper_free:
  assumes "hex_id sid" "\<forall>c \<in> set indent. is_ws c" "(h, d) \<in> {(CHR ''o'', CHR ''r''), (CHR ''<'', CHR ''s'')}"
    and "l \<in> set (buildInsertWrapperLines sid (nat_str k) indent isJsx)"
  shows "opener_free h d l"
proof -
  have "h \<notin> set indent" "h \<notin> set sid" "h \<notin> set (nat_str k)"
    using assms(2,3) hex_id_absent [OF assms(1), of h] nat_str_absent [of h k] by (auto simp: is_ws_def)
  then have parts: "opener_free h d indent" "opener_free h d sid" "opener_free h d (nat_str k)" by (simp_all add: opener_free_absent)
  note app = opener_free_append [of h d]
  have "\<forall>l \<in> set (buildInsertWrapperLines sid (nat_str k) indent isJsx). opener_free h d l"
    unfolding insert_text by (cases isJsx; simp only: if_True if_False list.set ball_simps;
      intro conjI app parts TrueI; use assms(3) in \<open>elim insertE emptyE Pair_inject; simp\<close>)
  then show ?thesis using assms(4) by blast
qed

lemma insert_wrapper_plain:
  assumes "hex_id sid" "\<forall>c \<in> set indent. is_ws c" "l \<in> set (buildInsertWrapperLines sid (nat_str k) indent isJsx)"
  shows "\<not> str_includes l (variant_attr ''original'')" "\<not> str_includes l ''<style''"
proof -
  have "opener_free (CHR ''o'') (CHR ''r'') l" "opener_free (CHR ''<'') (CHR ''s'') l"
    using insert_wrapper_free [OF assms(1,2) _ assms(3)] by simp_all
  moreover have "variant_attr ''original'' = ''data-impeccable-variant=\"'' @ CHR ''o'' # CHR ''r'' # ''iginal\"''" "''<style'' = [] @ CHR ''<'' # CHR ''s'' # ''tyle''"
    by (simp_all add: variant_attr_def quoted_def)
  ultimately show "\<not> str_includes l (variant_attr ''original'')" "\<not> str_includes l ''<style''"
    using opener_free_includes by (metis, metis)
qed

text \<open>Lines without the attribute have no original to restore.\<close>

lemma takeWhile_part: "str_includes (takeWhile P s) p \<Longrightarrow> str_includes s p"
  using takeWhile_dropWhile_id [of P s] unfolding str_includes_ex by (metis append_assoc)

lemma no_original:
  assumes "\<forall>l \<in> set (block_lines lines b). NL \<notin> set l \<and> \<not> str_includes l (variant_attr ''original'') \<and> \<not> str_includes l ''<style''"
  shows "extractOriginal lines b = []"
proof (cases "block_lines lines b = []")
  case True
  have "re_exec (attr_opener (variant_attr ''original'')) [] = None" by code_simp
  then show ?thesis using True by (simp add: extractOriginal_def extractInnerByAttr_def stripStyleAndJoin_def)
next
  case False
  let ?text = "join_with [NL] (block_lines lines b)"
  have strip: "stripStyleAndJoin lines b = ?text" using assms strip_style_plain by (simp add: stripStyleAndJoin_def)
  have "split_on NL ?text = block_lines lines b" using split_join_lines [of "block_lines lines b" NL] assms False by blast
  moreover have "NL \<notin> set (variant_attr ''original'')" by (simp add: variant_attr_def quoted_def NL_def)
  ultimately have absent: "\<not> str_includes ?text (variant_attr ''original'')" using includes_line [of NL "variant_attr ''original''" ?text] assms by metis
  have "steps (attr_opener (variant_attr ''original'')) (rev u, v, []) = {}" if "?text = u @ v" for u v
  proof (rule ccontr)
    assume "steps (attr_opener (variant_attr ''original'')) (rev u, v, []) \<noteq> {}"
    then obtain b' t g where "(b', t, g) \<in> steps (attr_opener (variant_attr ''original'')) (rev u, v, [])" by auto
    moreover have "CHR ''>'' \<notin> set (variant_attr ''original'')" by (simp add: variant_attr_def quoted_def)
    ultimately obtain c cs where v: "v = CHR ''<'' # c # cs" "str_includes (takeWhile not_gt (c # cs)) (variant_attr ''original'')"
      by (rule attr_opener_steps)
    have "str_includes (''<'' @ c # cs) (variant_attr ''original'')" by (rule suffix_includes, rule takeWhile_part, rule v(2))
    then have "str_includes v (variant_attr ''original'')" unfolding v(1) append_Cons append_Nil .
    then have "str_includes (u @ v) (variant_attr ''original'')" by (rule suffix_includes)
    then show False using absent unfolding that by (rule notE [rotated])
  qed
  then have "re_exec (attr_opener (variant_attr ''original'')) ?text = None" unfolding re_exec_None by blast
  then show ?thesis by (simp add: extractOriginal_def strip extractInnerByAttr_def)
qed

section \<open>Where the wrapper is found again\<close>

lemma marker_lines_free:
  assumes "hex_id sid" "\<forall>c \<in> set indent. is_ws c"
  shows "opener_free (CHR ''s'') (CHR ''-'') (indent @ insert_div isJsx sid (nat_str k))"
    "l \<in> {indent @ insert_div isJsx sid (nat_str k), indent @ comment isJsx (''impeccable-variants-start '' @ sid),
       indent @ ''  '' @ comment isJsx (''impeccable-variants-start '' @ sid), indent @ ''  '' @ comment isJsx ''Variants: insert below this line'', indent @ ''</div>''} \<Longrightarrow>
     opener_free (CHR ''n'') (CHR ''d'') l"
proof -
  have "CHR ''s'' \<notin> set indent" "CHR ''n'' \<notin> set indent" "CHR ''s'' \<notin> set sid" "CHR ''n'' \<notin> set sid" "CHR ''s'' \<notin> set (nat_str k)" "CHR ''n'' \<notin> set (nat_str k)"
    using assms(2) hex_id_absent [OF assms(1), of "CHR ''s''"] hex_id_absent [OF assms(1), of "CHR ''n''"] by (auto simp: is_ws_def nat_str_absent)
  then have parts: "opener_free (CHR ''s'') d indent" "opener_free (CHR ''n'') d indent" "opener_free (CHR ''s'') d sid" "opener_free (CHR ''n'') d sid"
      "opener_free (CHR ''s'') d (nat_str k)" "opener_free (CHR ''n'') d (nat_str k)" for d
    by (simp_all add: opener_free_absent)
  show "opener_free (CHR ''s'') (CHR ''-'') (indent @ insert_div isJsx sid (nat_str k))"
    unfolding insert_text by (cases isJsx; simp only: if_True if_False; intro opener_free_append parts; simp)
  have "\<forall>l \<in> {indent @ insert_div isJsx sid (nat_str k), indent @ comment isJsx (''impeccable-variants-start '' @ sid),
       indent @ ''  '' @ comment isJsx (''impeccable-variants-start '' @ sid), indent @ ''  '' @ comment isJsx ''Variants: insert below this line'', indent @ ''</div>''}.
     opener_free (CHR ''n'') (CHR ''d'') l"
    unfolding insert_text by (cases isJsx; simp only: if_True if_False ball_simps; intro conjI opener_free_append parts TrueI; simp)
  then show "l \<in> {indent @ insert_div isJsx sid (nat_str k), indent @ comment isJsx (''impeccable-variants-start '' @ sid),
       indent @ ''  '' @ comment isJsx (''impeccable-variants-start '' @ sid), indent @ ''  '' @ comment isJsx ''Variants: insert below this line'', indent @ ''</div>''} \<Longrightarrow>
     opener_free (CHR ''n'') (CHR ''d'') l" by (rule bspec)
qed

lemma insert_markers:
  assumes "hex_id sid" "\<forall>c \<in> set indent. is_ws c" "\<forall>l \<in> set lines. \<not> str_includes l (start_pattern sid) \<and> \<not> str_includes l (end_pattern sid)"
  shows "findMarkerBlock sid (take i lines @ buildInsertWrapperLines sid (nat_str k) indent isJsx @ drop i lines) =
    Some \<lparr>bl_start = length (take i lines) + (if isJsx then 1 else 0), bl_end = length (take i lines) + (if isJsx then 3 else 4), bl_id = sid\<rparr>"
proof -
  let ?div = "indent @ insert_div isJsx sid (nat_str k)" and ?say = "indent @ ''  '' @ comment isJsx ''Variants: insert below this line''"
  let ?start = "(indent @ (if isJsx then ''  '' else [])) @ comment isJsx (start_pattern sid)" and ?stop = "(indent @ (if isJsx then ''  '' else [])) @ comment isJsx (end_pattern sid)"
  have pat: "start_pattern sid = ''impeccable-variant'' @ CHR ''s'' # CHR ''-'' # ''start '' @ sid" "end_pattern sid = ''impeccable-variants-e'' @ CHR ''n'' # CHR ''d'' # '' '' @ sid"
    by (simp_all add: start_pattern_def end_pattern_def)
  have no_start: "\<not> str_includes ?div (start_pattern sid)"
    using marker_lines_free(1) [OF assms(1,2)] pat(1) opener_free_includes by metis
  have "opener_free (CHR ''n'') (CHR ''d'') l" if "l \<in> {?div, ?start, ?say, indent @ ''</div>''}" for l
    using marker_lines_free(2) [OF assms(1,2)] that by (cases isJsx) (auto simp: start_pattern_def)
  then have no_end: "\<not> str_includes l (end_pattern sid)" if "l \<in> {?div, ?start, ?say, indent @ ''</div>''}" for l
    using that pat(2) opener_free_includes by metis
  have hits: "str_includes ?start (start_pattern sid)" "str_includes ?stop (end_pattern sid)"
    unfolding comment_def str_includes_ex by (metis append_assoc)+
  have pre: "\<forall>l \<in> set (take i lines). \<not> str_includes l (start_pattern sid) \<and> \<not> str_includes l (end_pattern sid)" using assms(3) in_set_takeD by fast
  show ?thesis
  proof (cases isJsx)
    case True
    have w: "take i lines @ buildInsertWrapperLines sid (nat_str k) indent isJsx @ drop i lines =
        (take i lines @ [?div]) @ (?start # [?say]) @ ?stop # (indent @ ''</div>'') # drop i lines"
      using True by (simp add: buildInsertWrapperLines_def start_pattern_def end_pattern_def)
    show ?thesis unfolding w
      using marker_block_found [of "take i lines @ [?div]" sid ?start "[?say]" ?stop "(indent @ ''</div>'') # drop i lines"] pre no_start no_end hits True by auto
  next
    case False
    have w: "take i lines @ buildInsertWrapperLines sid (nat_str k) indent isJsx @ drop i lines =
        take i lines @ (?start # [?div, ?say, indent @ ''</div>'']) @ ?stop # drop i lines"
      using False by (simp add: buildInsertWrapperLines_def start_pattern_def end_pattern_def)
    show ?thesis unfolding w
      using marker_block_found [of "take i lines" sid ?start "[?div, ?say, indent @ ''</div>'']" ?stop "drop i lines"] pre no_end hits False by auto
  qed
qed

section \<open>The range in JSX\<close>

lemma scan_skip:
  assumes "\<And>u v. w = u @ v \<Longrightarrow> v \<noteq> [] \<Longrightarrow> steps r (rev u @ b, v @ t, []) = {}"
  shows "scan r b (w @ t) 0 = scan r (rev w @ b) t 0"
  using assms
proof (induction w arbitrary: b)
  case (Cons x w)
  have "rmatch r (b, x # w @ t, []) Some = None" using Cons.prems [of "[]" "x # w"] by (simp add: rmatch_start_fails)
  moreover have "scan r (x # b) (w @ t) 0 = scan r (rev w @ x # b) t 0"
    using Cons.prems [of "x # u" v for u v] by (intro Cons.IH) simp
  ultimately show ?case by simp
qed simp

lemma scan_past: "scan r b (w @ t) (length w) = scan r (rev w @ b) t 0"
proof (induction w arbitrary: b)
  case Nil
  then show ?case by simp
qed simp

lemma scan_hit:
  assumes "rmatch r (b, w @ t, []) Some = Some (b', t, g)" "w \<noteq> []"
  shows "scan r b (w @ t) 0 = \<lparr>ex_index = length b, ex_text = w, ex_groups = g\<rparr> # scan r (rev w @ b) t 0"
proof (cases w)
  case (Cons x xs)
  then show ?thesis using assms scan_past [of r "x # b" xs t] by simp
qed (use assms in simp)

lemma div_tag_start:
  assumes "s = [] \<or> hd s \<noteq> CHR ''<''"
  shows "steps DIV_TAG_RE (b, s, []) = {}"
  using assms by (cases s) (auto simp: DIV_TAG_RE_def)

lemma div_tag_skip:
  assumes "CHR ''<'' \<notin> set w"
  shows "scan DIV_TAG_RE b (w @ t) 0 = scan DIV_TAG_RE (rev w @ b) t 0"
proof (rule scan_skip)
  fix u v :: string
  assume "w = u @ v" "v \<noteq> []"
  then show "steps DIV_TAG_RE (rev u @ b, v @ t, []) = {}" using assms by (intro div_tag_start) (cases v; auto)
qed

lemma open_div_hit:
  assumes "CHR ''>'' \<notin> set a" "a = CHR '' '' # a'" "last a \<noteq> CHR ''/''"
  shows "\<exists>b'. rmatch DIV_TAG_RE (b, (''<div'' @ a @ ''>'') @ t, []) Some = Some (b', t, [(1, [])])"
proof -
  let ?k = "\<lambda>st. rmatch (Cat (Grp 1 (Opt (lit ''/''))) (lit ''>'')) st Some"
  have stop: "?k (rev a @ b0, ''>'' @ t, []) = Some (CHR ''>'' # rev a @ b0, t, [(1, [])])" for b0 by simp
  have "?k (rev u @ b0, v @ ''>'' @ t, []) = None" if "a = u @ v" "v \<noteq> []" for u v b0
  proof -
    obtain x vs where v: "v = x # vs" using \<open>v \<noteq> []\<close> by (cases v) auto
    have "x \<noteq> CHR ''>''" "vs = [] \<longrightarrow> x \<noteq> CHR ''/''" "vs \<noteq> [] \<longrightarrow> hd vs \<noteq> CHR ''>''"
      using assms(1,3) that(1) v by (auto simp: hd_append) (metis hd_in_set)
    then show ?thesis using v by (cases vs) auto
  qed
  then have "rmatch (Lazy (\<lambda>c. c \<noteq> CHR ''>'')) (b0, a @ ''>'' @ t, []) ?k = Some (CHR ''>'' # rev a @ b0, t, [(1, [])])" for b0
    using hit_Lazy [of a "\<lambda>c. c \<noteq> CHR ''>''" ?k b0 "''>'' @ t" "[]"] stop assms(1) by metis
  moreover have "at_boundary (CHR ''v'' # b0) (a @ s)" for b0 s using assms(2) by (simp add: at_boundary_def is_word_char_def)
  ultimately show ?thesis by (simp add: DIV_TAG_RE_def)
qed

lemma close_div_hit: "\<exists>b'. rmatch DIV_TAG_RE (b, ''</div>'' @ t, []) Some = Some (b', t, [])"
  by (simp add: DIV_TAG_RE_def is_ws_def)

definition jsx_attrs :: "string \<Rightarrow> string \<Rightarrow> string" where
  "jsx_attrs sid cnt = '' data-impeccable-variants='' @ quoted sid @ '' data-impeccable-mode=\"insert\" data-impeccable-variant-count='' @ quoted cnt @
     '' style={{ display: \"contents\" }}''"

lemma insert_div_jsx: "insert_div True sid cnt = ''<div'' @ jsx_attrs sid cnt @ ''>''"
  by (simp add: insert_div_def jsx_attrs_def)

lemma cat_step: "q1 \<in> steps r1 st \<Longrightarrow> q2 \<in> steps r2 q1 \<Longrightarrow> q2 \<in> steps (Cat r1 r2) st"
  by auto

lemma lit_step: "(rev p @ b, t, g) \<in> steps (lit p) (b, p @ t, g)"
  by (simp add: steps_lit_iff)

lemma many_step: "st \<in> steps (Many P) st"
  by (cases st) auto

lemma alt_step: "q \<in> steps r1 st \<Longrightarrow> q \<in> steps (Alt r1 r2) st"
  by simp

lemma jsx_div_line:
  shows "has_div (indent @ insert_div True sid cnt)" "hasVariantWrapperAttr (indent @ insert_div True sid cnt) sid"
proof -
  have "at_boundary (rev ''<div'' @ rev indent) (jsx_attrs sid cnt @ ''>'')" by (simp add: jsx_attrs_def at_boundary_def is_word_char_def)
  then have "(rev ''<div'' @ rev indent, jsx_attrs sid cnt @ ''>'', []) \<in> steps (Cat (lit ''<div'') Boundary) (rev indent, insert_div True sid cnt, [])"
    unfolding insert_div_jsx by (intro cat_step [OF lit_step]) simp
  then show "has_div (indent @ insert_div True sid cnt)" unfolding has_div_def re_test_def re_exec_None by blast
  have l: "indent @ insert_div True sid cnt = (indent @ ''<div '') @ ''data-impeccable-variants'' @ ''='' @ quoted sid @
      '' data-impeccable-mode=\"insert\" data-impeccable-variant-count='' @ quoted cnt @ '' style={{ display: \"contents\" }}>''"
    by (simp add: insert_div_def)
  have "(rev (quoted sid) @ rev ''='' @ rev ''data-impeccable-variants'' @ b, r, []) \<in> steps (seq [lit ''data-impeccable-variants'', Many is_ws, lit ''='', Many is_ws,
       alts [lit (quoted sid), lit ([CHR 0x27] @ sid @ [CHR 0x27]), seq [lit ''{'', Cls is_quote, lit sid, Cls is_quote, lit ''}'']]])
      (b, ''data-impeccable-variants'' @ ''='' @ quoted sid @ r, [])" for b r
    unfolding seq.simps alts.simps
    by (rule cat_step, rule lit_step, rule cat_step, rule many_step, rule cat_step, rule lit_step, rule cat_step, rule many_step, rule alt_step, rule lit_step)
  then show "hasVariantWrapperAttr (indent @ insert_div True sid cnt) sid"
    unfolding hasVariantWrapperAttr_def re_test_def re_exec_None l by (metis empty_iff)
qed

lemma jsx_not_end:
  assumes "\<not> str_includes l ''impeccable-variants-end''"
  shows "\<not> isVariantEndMarkerLine l sid"
  unfolding isVariantEndMarkerLine_def re_test_def not_not re_exec_None seq.simps using steps_lit_first [OF assms] by blast

lemma jsx_div_end:
  assumes "hex_id sid" "\<forall>c \<in> set indent. is_ws c" "NL \<notin> set indent"
    and joined_def: "joined = join_with [NL] (buildInsertWrapperLines sid (nat_str k) indent True @ post)"
  shows "div_end joined n (n + 3) 0 (match_all DIV_TAG_RE joined) = n + 4"
proof -
  let ?a = "jsx_attrs sid (nat_str k)"
  define tag where "tag = ''<div'' @ ?a @ ''>''"
  define mid where "mid = NL # indent @ ''  {/* impeccable-variants-start '' @ sid @ '' */}'' @ NL # indent @ ''  {/* Variants: insert below this line */}'' @
    NL # indent @ ''  {/* impeccable-variants-end '' @ sid @ '' */}'' @ NL # indent"
  obtain r where j: "joined = indent @ tag @ mid @ ''</div>'' @ r"
    by (cases post) (simp_all add: joined_def buildInsertWrapperLines_def comment_def insert_div_jsx tag_def mid_def)
  have absent: "c \<notin> set sid" if "c \<in> {CHR ''<'', CHR ''>'', NL}" for c using that hex_id_absent [OF assms(1), of c] by (auto simp: NL_def)
  have lt: "CHR ''<'' \<notin> set indent" using assms(2) by (auto simp: is_ws_def)
  then have "CHR ''<'' \<notin> set mid" using absent by (simp add: mid_def NL_def)
  have "CHR ''>'' \<notin> set ?a" "last ?a \<noteq> CHR ''/''" using absent by (simp_all add: jsx_attrs_def quoted_def nat_str_absent)
  moreover obtain a' where "?a = CHR '' '' # a'" by (simp add: jsx_attrs_def)
  ultimately obtain b1 where hit: "rmatch DIV_TAG_RE (rev indent, tag @ mid @ ''</div>'' @ r, []) Some = Some (b1, mid @ ''</div>'' @ r, [(1, [])])"
    using open_div_hit [of ?a a' "rev indent" "mid @ ''</div>'' @ r"] unfolding tag_def by blast
  obtain b2 where hit2: "rmatch DIV_TAG_RE (rev mid @ rev tag @ rev indent, ''</div>'' @ r, []) Some = Some (b2, r, [])" using close_div_hit by blast
  define ms where "ms = scan DIV_TAG_RE (rev ''</div>'' @ rev mid @ rev tag @ rev indent) r 0"
  have "match_all DIV_TAG_RE (joined) = \<lparr>ex_index = length indent, ex_text = tag, ex_groups = [(1, [])]\<rparr> #
      \<lparr>ex_index = length (indent @ tag @ mid), ex_text = ''</div>'', ex_groups = []\<rparr> # ms"
    unfolding match_all_def j ms_def
    using div_tag_skip [OF lt, of "[]" "tag @ mid @ ''</div>'' @ r"] scan_hit [OF hit] div_tag_skip [OF \<open>CHR ''<'' \<notin> set mid\<close>, of "rev tag @ rev indent" "''</div>'' @ r"] scan_hit [OF hit2]
    by (simp add: tag_def)
  moreover have "length (filter (\<lambda>c. c = NL) (take (length (indent @ tag @ mid) + length ''</div>'') (joined))) = 4"
  proof -
    have none: "filter (\<lambda>c. c = NL) x = []" if "NL \<notin> set x" for x using that by (auto simp: filter_empty_conv)
    have "NL \<notin> set tag" using absent by (simp add: tag_def jsx_attrs_def quoted_def nat_str_absent NL_def)
    moreover have "take (length (indent @ tag @ mid) + length ''</div>'') joined = indent @ tag @ mid @ ''</div>''" by (simp add: j)
    moreover have "length (filter (\<lambda>c. c = NL) mid) = 4" using none [OF assms(3)] none [OF absent [of NL]] by (simp add: mid_def NL_def)
    moreover have "filter (\<lambda>c. c = NL) ''</div>'' = []" by (simp add: NL_def)
    ultimately show ?thesis using none [OF assms(3)] none [of tag] by (simp only: filter_append) simp
  qed
  ultimately show ?thesis by (simp add: tag_def group_def)
qed

lemma insert_range_jsx:
  assumes "hex_id sid" "\<forall>c \<in> set indent. is_ws c" "NL \<notin> set indent"
  defines "b n \<equiv> \<lparr>bl_start = n + 1, bl_end = n + 3, bl_id = sid\<rparr>"
  shows "expandReplaceRange (b (length pre)) (pre @ buildInsertWrapperLines sid (nat_str k) indent True @ post) True = (length pre, length pre + 4)"
proof -
  let ?w = "buildInsertWrapperLines sid (nat_str k) indent True" and ?n = "length pre" and ?div = "indent @ insert_div True sid (nat_str k)"
  let ?lines = "pre @ ?w @ post"
  have at: "?lines ! ?n = ?div" by (simp add: nth_append buildInsertWrapperLines_def)
  have "opener_free (CHR ''n'') (CHR ''d'') ?div" using marker_lines_free(2) [OF assms(1,2)] by blast
  then have "\<not> str_includes ?div ''impeccable-variants-end''"
    by (rule opener_free_includes) (rule exI [of _ "''impeccable-variants-e''"], simp)
  then have "wrapper_start ?lines sid (?n + 1) (?n + 1) = ?n"
    using jsx_not_end jsx_div_line [of indent sid "nat_str k"] at by (cases ?n) (simp_all add: Let_def)
  moreover have "div_end (join_with [NL] (?w @ post)) ?n (?n + 3) 0 (match_all DIV_TAG_RE (join_with [NL] (?w @ post))) = ?n + 4"
    by (rule jsx_div_end [OF assms(1-3) refl])
  moreover have "drop ?n ?lines = ?w @ post" by simp
  ultimately show ?thesis by (simp add: expandReplaceRange_def b_def Let_def)
qed

section \<open>Discarding an insertion\<close>

lemma join_split: "join_with [c] (split_on c s) = s"
proof (induction s)
  case (Cons x s)
  obtain y ys where "split_on c s = y # ys" using split_on_ne [of c s] by (cases "split_on c s") simp_all
  then show ?case using Cons by (cases ys) auto
qed simp

lemma insert_indent_line:
  assumes "\<forall>l \<in> set lines. NL \<notin> set l"
  shows "\<forall>c \<in> set (insert_indent lines i j). is_ws c" "NL \<notin> set (insert_indent lines i j)"
proof -
  have "insert_indent lines i j \<in> insert [] (leading_ws ` set lines)" by (auto simp: insert_indent_def)
  then show "\<forall>c \<in> set (insert_indent lines i j). is_ws c" "NL \<notin> set (insert_indent lines i j)"
    using leading_ws_all assms set_takeWhileD [of NL is_ws] by (auto simp: leading_ws_def)
qed

lemma discard_inserted_lines:
  assumes "hex_id sid" "\<forall>c \<in> set indent. is_ws c" "NL \<notin> set indent" "\<forall>l \<in> set lines. NL \<notin> set l"
    and "\<forall>l \<in> set lines. \<not> str_includes l (start_pattern sid) \<and> \<not> str_includes l (end_pattern sid)" "isJsx = accept_isJsx f"
  shows "discard_lines sid (split_on NL (insert_content isJsx sid (nat_str k) indent i lines)) f = Some lines"
proof -
  let ?w = "buildInsertWrapperLines sid (nat_str k) indent isJsx" and ?n = "length (take i lines)"
  let ?new = "take i lines @ ?w @ drop i lines"
  let ?b = "\<lparr>bl_start = ?n + (if isJsx then 1 else 0), bl_end = ?n + (if isJsx then 3 else 4), bl_id = sid\<rparr>"
  have "NL \<notin> set sid" "NL \<notin> set (nat_str k)" using hex_id_absent [OF assms(1), of NL] by (simp_all add: nat_str_absent NL_def)
  then have w: "\<forall>l \<in> set ?w. NL \<notin> set l" using assms(3) by (simp add: insert_text NL_def)
  then have "\<forall>l \<in> set ?new. NL \<notin> set l" using assms(4) by (auto dest: in_set_takeD in_set_dropD)
  moreover have "?w \<noteq> []" by (simp add: buildInsertWrapperLines_def)
  ultimately have split: "split_on NL (insert_content isJsx sid (nat_str k) indent i lines) = ?new" unfolding insert_content_def by (intro split_join_lines) auto
  have block: "findMarkerBlock sid ?new = Some ?b" by (rule insert_markers [OF assms(1,2,5)])
  have len: "length ?w = 5" by (simp add: buildInsertWrapperLines_def)
  have range: "expandReplaceRange ?b ?new isJsx = (?n, ?n + 4)"
    using insert_range_jsx [OF assms(1-3), of "take i lines" k "drop i lines"] by (cases isJsx) (simp_all add: expandReplaceRange_def)
  have "set (block_lines ?new ?b) \<subseteq> set ?w"
    using len by (auto simp: block_lines_def slice_lines_def dest: in_set_takeD in_set_dropD)
  then have "extractOriginal ?new ?b = []" using w insert_wrapper_plain [OF assms(1,2)] by (intro no_original) blast
  then show ?thesis
    using block range len unfolding split discard_lines_def assms(6) [symmetric] by (cases "i \<le> length lines") (simp_all add: Let_def replace_range_def deindentContent_def)
qed

text \<open>
  C16: Discarding an insertion restores the file. When the command has written its wrapper into a file, HTML or JSX,
  before or behind the anchor, a discard of the session gives every file its content back, to the
  character.
\<close>

theorem discard_after_insert:
  assumes "insertCli env scaffold rq pos fs = (fs', Inr out)" "fs' \<noteq> fs" "fs (io_file out) = Some content"
    and "wr_id rq = Some sid" "hex_id sid" "wr_count rq = Fin (of_nat k)" "ae_lock aenv (io_file out) = None"
    and "\<not> str_includes content (start_pattern sid)" "\<not> str_includes content (end_pattern sid)"
  shows "handleDiscard aenv sid (io_file out) (w\<lparr>aw_files := fs'\<rparr>) = (w\<lparr>aw_files := fs\<rparr>, Inr [])"
proof -
  let ?lines = "split_on NL content"
  obtain r i where fs': "fs' = fs(io_file out \<mapsto> insert_content (wrap_isJsx (io_file out)) sid (nat_str k) (insert_indent ?lines i (fst r)) i ?lines)"
    using assms(1-4,6) count_text [of k]
    by (auto simp: insertCli_def insert_source_def Let_def simp del: js_text.simps split: if_splits sum.splits option.splits)
  have nl: "\<forall>l \<in> set ?lines. NL \<notin> set l" using split_on_no_sep by metis
  have "\<not> str_includes l p" if "l \<in> set ?lines" "\<not> str_includes content p" for l p
    using that join_includes [of l ?lines "[NL]"] includes_trans join_split [of NL content] by metis
  then have "discard_lines sid (split_on NL (insert_content (wrap_isJsx (io_file out)) sid (nat_str k) (insert_indent ?lines i (fst r)) i ?lines)) (io_file out) = Some ?lines"
    using assms(8,9) by (intro discard_inserted_lines [OF assms(5) insert_indent_line [OF nl] nl _ isJsx_agree]) blast
  then show ?thesis using assms(3,7) fs' join_split [of NL content] by (simp add: handleDiscard_def fun_upd_idem)
qed

definition sample_env :: wrap_env where
  "sample_env = \<lparr>we_cwd = ''/app'', we_find = (\<lambda>_ _. Some ''page.tsx''), we_generated = (\<lambda>_. False), we_buffer = NoBuffer, we_svelteFlag = [],
     we_scaffold = (\<lambda>_ _ _. Inl [])\<rparr>"

lemma sample_insert:
  "insertCli sample_env (\<lambda>_ _ _ _. None) sample_wrap (Some ''after'') [''page.tsx'' \<mapsto> sample_page] =
    ([''page.tsx'' \<mapsto> insert_content True ''0a1b2c3d'' (nat_str 3) [] 4 (split_on NL sample_page)],
     Inr \<lparr>io_position = ''after'', io_file = ''page.tsx'', io_insertLine = 8, io_wrapperBlock = None, io_replace = None\<rparr>)"
proof -
  have "resolveElementMatch (split_on NL sample_page) (buildSearchQueries None (Some ''card'') None None) None None = Inr (1, 3)" by code_simp
  moreover have "wrap_isJsx ''page.tsx''" "\<not> shouldUseSvelteComponentInjection sample_env ''page.tsx''" "wrap_target sample_env sample_wrap (buildSearchQueries None (Some ''card'') None None) = Inr ''page.tsx''"
      "insert_indent (split_on NL sample_page) 4 1 = []" by code_simp+
  ultimately show ?thesis
    by (simp add: insertCli_def sample_wrap_def present_def isInsertPosition_def INSERT_POSITIONS_def insert_source_def computeInsertLine_def Let_def)
qed

theorem discard_after_insert_witness:
  "handleDiscard sample_accept_env ''0a1b2c3d'' ''page.tsx''
     (sample_world\<lparr>aw_files := fst (insertCli sample_env (\<lambda>_ _ _ _. None) sample_wrap (Some ''after'') [''page.tsx'' \<mapsto> sample_page])\<rparr>) =
   (sample_world\<lparr>aw_files := [''page.tsx'' \<mapsto> sample_page]\<rparr>, Inr [])"
proof -
  let ?fs = "[''page.tsx'' \<mapsto> sample_page]"
  have absent: "\<not> str_includes sample_page (start_pattern ''0a1b2c3d'')" "\<not> str_includes sample_page (end_pattern ''0a1b2c3d'')" "hex_id ''0a1b2c3d''" by code_simp+
  have "insert_content True ''0a1b2c3d'' (nat_str 3) [] 4 (split_on NL sample_page) \<noteq> sample_page" by code_simp
  then have written: "fst (insertCli sample_env (\<lambda>_ _ _ _. None) sample_wrap (Some ''after'') ?fs) \<noteq> ?fs"
    unfolding sample_insert fst_conv by (metis fun_upd_same option.inject)
  have hyps: "wr_id sample_wrap = Some ''0a1b2c3d''" "wr_count sample_wrap = Fin (of_nat 3)" "ae_lock sample_accept_env ''page.tsx'' = None"
    by (simp_all add: sample_wrap_def sample_accept_env_def)
  show ?thesis
    using discard_after_insert [OF sample_insert written [unfolded sample_insert fst_conv] _ hyps(1) absent(3) hyps(2) _ absent(1,2)] hyps(3)
    unfolding sample_insert fst_conv by simp
qed

end
