(* ===== verification/Inline_Ignores.thy ===== *)
theory Inline_Ignores
  imports Detection_Filter Tag_Injection
begin

text \<open>
  The directives that a scanned file carries itself (\<^verbatim>\<open>scripts/detector/shared/inline-ignores.mjs\<close>).
  The sets of rules are lists without order; the maps by line are association lists in the order in
  which the lines are met.
\<close>

section \<open>Directives\<close>

definition is_tab_or_space :: "char \<Rightarrow> bool" where "is_tab_or_space c = (c = CHR '' '' \<or> c = CHR 0x09)"

definition DIRECTIVE_RE :: re where
  "DIRECTIVE_RE = seq [lit_i ''impeccable-'', Grp 1 (alts [lit_i ''disable-next-line'', lit_i ''disable-line'', lit_i ''disable'']), Boundary,
     Many is_tab_or_space, Grp 2 (Many (none_of [NL, CR]))]"

definition TRAILING_CLOSER_RE :: re where
  "TRAILING_CLOSER_RE = seq [Many is_ws,
     alts [seq [lit ''*/'', Opt (lit ''}'')], seq [lit ''-'', many1 (\<lambda>c. c = CHR ''-''), lit ''>''], lit ''*}'', lit ''#}'', lit ''%>'', lit ''}}''],
     Many is_ws, Eol]"

definition REASON_RE :: re where
  "REASON_RE = seq [Many is_ws, Alt (seq [lit ''-'', many1 (\<lambda>c. c = CHR ''-'')]) (lit '':''), Many is_ws]"

definition normalizeRule :: "jsval \<Rightarrow> string" where
  "normalizeRule token = toLowerCase (trim (if truthy token then js_text token else []))"

text \<open>The pieces between runs of separators; empty ones fall to \<^verbatim>\<open>filter(Boolean)\<close>.\<close>

fun pieces :: "(char \<Rightarrow> bool) \<Rightarrow> string \<Rightarrow> string list" where
  "pieces P [] = [[]]"
| "pieces P (c # cs) = (if P c then [] # pieces P cs else (case pieces P cs of [] \<Rightarrow> [[c]] | x # xs \<Rightarrow> (c # x) # xs))"

definition parseRuleList :: "string \<Rightarrow> string list" where
  "parseRuleList remainder =
     (let whole = trim (replace_first TRAILING_CLOSER_RE [] remainder);
          text = (case re_search REASON_RE whole of None \<Rightarrow> whole | Some i \<Rightarrow> take i whole);
          tokens = filter (\<lambda>t. t \<noteq> []) (map (\<lambda>t. normalizeRule (JStr t)) (pieces (\<lambda>c. is_ws c \<or> c = CHR '','') text))
      in if tokens = [] \<or> ''*'' \<in> set tokens then [''*''] else tokens)"

section \<open>Collecting\<close>

record inline_ignores =
  ig_file :: "string list"
  ig_line :: "(nat \<times> string list) list"
  ig_nextLine :: "(nat \<times> string list) list"

definition addRules :: "string list \<Rightarrow> string list \<Rightarrow> string list" where
  "addRules rs rules = fold (\<lambda>r s. if r \<in> set s then s else s @ [r]) rules rs"

text \<open>\<^verbatim>\<open>addRules(getSet(map, key), rules)\<close>\<close>

fun add_at :: "(nat \<times> string list) list \<Rightarrow> nat \<Rightarrow> string list \<Rightarrow> (nat \<times> string list) list" where
  "add_at [] key rules = [(key, addRules [] rules)]"
| "add_at ((k, s) # rest) key rules = (if k = key then (k, addRules s rules) # rest else (k, s) # add_at rest key rules)"

definition add_directive :: "nat \<Rightarrow> exec_result \<Rightarrow> inline_ignores \<Rightarrow> inline_ignores" where
  "add_directive i m result =
     (let variant = toLowerCase (group_text m 1); rules = parseRuleList (group_text m 2) in
      if variant = ''disable'' then result\<lparr>ig_file := addRules (ig_file result) rules\<rparr>
      else if variant = ''disable-line'' then result\<lparr>ig_line := add_at (ig_line result) (i + 1) rules\<rparr>
      else result\<lparr>ig_nextLine := add_at (ig_nextLine result) (i + 2) rules\<rparr>)"

definition NO_DIRECTIVES :: inline_ignores where
  "NO_DIRECTIVES = \<lparr>ig_file = [], ig_line = [], ig_nextLine = []\<rparr>"

definition content_text :: "jsval \<Rightarrow> string" where
  "content_text content = (case content of JStr s \<Rightarrow> s | _ \<Rightarrow> [])"

fun add_lines :: "nat \<Rightarrow> string list \<Rightarrow> inline_ignores \<Rightarrow> inline_ignores" where
  "add_lines i [] result = result"
| "add_lines i (line # lines) result = add_lines (Suc i) lines (fold (add_directive i) (match_all DIRECTIVE_RE line) result)"

definition parseInlineIgnores :: "jsval \<Rightarrow> inline_ignores" where
  "parseInlineIgnores content =
     (let text = content_text content in
      if \<not> re_test (lit_i ''impeccable-disable'') text then NO_DIRECTIVES
      else add_lines 0 (split_on NL text) NO_DIRECTIVES)"

section \<open>Matching\<close>

definition setMatches :: "string list option \<Rightarrow> string \<Rightarrow> bool" where
  "setMatches s rule = (case s of None \<Rightarrow> False | Some rules \<Rightarrow> ''*'' \<in> set rules \<or> rule \<in> set rules)"

text \<open>The entry of a map by line for the number \<open>q\<close>.\<close>

definition at_line :: "(nat \<times> string list) list \<Rightarrow> rat \<Rightarrow> string list option" where
  "at_line m q = (if is_integral q \<and> 0 \<le> q then map_of m (nat \<lfloor>q\<rfloor>) else None)"

definition isInlineIgnored :: "jsval \<Rightarrow> inline_ignores \<Rightarrow> bool" where
  "isInlineIgnored finding directives =
     (let rule = normalizeRule (dot finding ''antipattern'') in
      if rule = [] then False
      else if setMatches (Some (ig_file directives)) rule then True
      else (case to_number (dot finding ''line'') of
          Fin q \<Rightarrow> 0 < q \<and> (setMatches (at_line (ig_line directives) q) rule \<or> setMatches (at_line (ig_nextLine directives) q) rule)
        | _ \<Rightarrow> False))"

definition hasDirectives :: "inline_ignores \<Rightarrow> bool" where
  "hasDirectives directives = (ig_file directives \<noteq> [] \<or> ig_line directives \<noteq> [] \<or> ig_nextLine directives \<noteq> [])"

definition applyInlineIgnores :: "jsval list \<Rightarrow> jsval \<Rightarrow> jsval list" where
  "applyInlineIgnores findings content =
     (if findings = [] then findings
      else
       (let directives = parseInlineIgnores content in
        if \<not> hasDirectives directives then findings
        else filter (\<lambda>finding. \<not> isInlineIgnored finding directives) findings))"

section \<open>What the directives mean\<close>

text \<open>
  The reference: a directive of the kind \<open>variant\<close> on line \<open>i\<close> (counted from 0) waives a rule for the
  whole file, for its own line, or for the next one.
\<close>

definition waives :: "string \<Rightarrow> nat \<Rightarrow> string list \<Rightarrow> string \<Rightarrow> jsnum \<Rightarrow> bool" where
  "waives variant i rules rule line \<longleftrightarrow>
     (''*'' \<in> set rules \<or> rule \<in> set rules) \<and>
     (if variant = ''disable'' then True
      else if variant = ''disable-line'' then line = Fin (of_nat (i + 1))
      else line = Fin (of_nat (i + 2)))"

definition waived :: "string list \<Rightarrow> string \<Rightarrow> jsnum \<Rightarrow> bool" where
  "waived lines rule line \<longleftrightarrow>
     (\<exists>i < length lines. \<exists>m \<in> set (match_all DIRECTIVE_RE (lines ! i)).
        waives (toLowerCase (group_text m 1)) i (parseRuleList (group_text m 2)) rule line)"

text \<open>What collected directives waive.\<close>

definition waived_by :: "inline_ignores \<Rightarrow> string \<Rightarrow> jsnum \<Rightarrow> bool" where
  "waived_by d rule line \<longleftrightarrow>
     setMatches (Some (ig_file d)) rule \<or>
     (case line of Fin q \<Rightarrow> 0 < q \<and> (setMatches (at_line (ig_line d) q) rule \<or> setMatches (at_line (ig_nextLine d) q) rule) | _ \<Rightarrow> False)"

lemma set_addRules: "set (addRules s rules) = set s \<union> set rules"
proof -
  have "set (fold (\<lambda>r s. if r \<in> set s then s else s @ [r]) rules s) = set s \<union> set rules" by (induction rules arbitrary: s) auto
  then show ?thesis by (simp add: addRules_def)
qed

lemma setMatches_addRules: "setMatches (Some (addRules s rules)) rule \<longleftrightarrow> setMatches (Some s) rule \<or> ''*'' \<in> set rules \<or> rule \<in> set rules"
  by (auto simp: setMatches_def set_addRules)

lemma setMatches_None [simp]: "\<not> setMatches None rule"
  by (simp add: setMatches_def)

lemma setMatches_add_at:
  "setMatches (map_of (add_at m key rules) k) rule \<longleftrightarrow> setMatches (map_of m k) rule \<or> (k = key \<and> (''*'' \<in> set rules \<or> rule \<in> set rules))"
  by (induction m key rules rule: add_at.induct) (auto simp: setMatches_addRules, auto simp: setMatches_def set_addRules)

lemma at_line_nat: "at_line m (of_nat n) = map_of m n"
  by (simp add: at_line_def is_integral_def)

section \<open>The early exit\<close>

lemma toLowerCase_append: "toLowerCase (a @ b) = toLowerCase a @ toLowerCase b"
  by (simp add: toLowerCase_def)

lemma toLowerCase_split: "toLowerCase w = a @ b \<Longrightarrow> \<exists>w1 w2. w = w1 @ w2 \<and> toLowerCase w1 = a"
  unfolding toLowerCase_def map_eq_append_conv by blast

lemma steps_lit_i:
  "(b', t, g') \<in> steps (lit_i p) (b, s, g) \<longleftrightarrow> (\<exists>w. s = w @ t \<and> toLowerCase w = toLowerCase p \<and> b' = rev w @ b \<and> g' = g)"
proof (induction p arbitrary: b s)
  case Nil
  then show ?case by (auto simp: toLowerCase_def)
next
  case (Cons c p)
  have "(b', t, g') \<in> steps (lit_i (c # p)) (b, s, g) \<longleftrightarrow>
      (\<exists>x xs. s = x # xs \<and> lower_char x = lower_char c \<and> (b', t, g') \<in> steps (lit_i p) (x # b, xs, g))" by auto
  also have "\<dots> \<longleftrightarrow> (\<exists>w. s = w @ t \<and> toLowerCase w = toLowerCase (c # p) \<and> b' = rev w @ b \<and> g' = g)"
    unfolding Cons.IH by (auto simp: toLowerCase_def map_eq_Cons_conv)
  finally show ?case .
qed

lemma scan_steps:
  assumes "m \<in> set (scan r b s n)"
  shows "\<exists>u v. s = u @ v \<and> steps r (rev u @ b, v, []) \<noteq> {}"
  using assms
proof (induction s arbitrary: b n)
  case Nil
  then have "rmatch r (b, [], []) Some \<noteq> None" by (cases "rmatch r (b, [], []) Some") (auto split: if_splits)
  then show ?case using rmatch_start_fails [of r "(b, [], [])"] by auto
next
  case (Cons x s)
  show ?case
  proof (cases "n = 0 \<and> rmatch r (b, x # s, []) Some \<noteq> None")
    case True
    then have "steps r (b, x # s, []) \<noteq> {}" using rmatch_start_fails by metis
    then show ?thesis by (intro exI [of _ "[]"] exI [of _ "x # s"]) simp
  next
    case False
    then have "\<exists>n'. m \<in> set (scan r (x # b) s n')"
      using Cons.prems by (cases "n = 0"; cases "rmatch r (b, x # s, []) Some") auto
    then obtain n' where "m \<in> set (scan r (x # b) s n')" by blast
    then obtain u v where "s = u @ v" "steps r (rev u @ x # b, v, []) \<noteq> {}" using Cons.IH by blast
    then show ?thesis by (intro exI [of _ "x # u"] exI [of _ v]) simp
  qed
qed

lemma directive_steps:
  assumes "steps DIRECTIVE_RE (b, v, []) \<noteq> {}"
  shows "\<exists>w t. v = w @ t \<and> toLowerCase w = ''impeccable-disable''"
proof -
  let ?kinds = "alts [lit_i ''disable-next-line'', lit_i ''disable-line'', lit_i ''disable'']"
  obtain st where "st \<in> steps (Cat (lit_i ''impeccable-'') (Cat (Grp 1 ?kinds) (seq [Boundary, Many is_tab_or_space, Grp 2 (Many (none_of [NL, CR]))]))) (b, v, [])"
    using assms by (auto simp: DIRECTIVE_RE_def simp del: steps.simps lit_i.simps)
  then obtain b1 t1 g1 b2 t2 g2 where s: "(b1, t1, g1) \<in> steps (lit_i ''impeccable-'') (b, v, [])" "(b2, t2, g2) \<in> steps (Grp 1 ?kinds) (b1, t1, g1)"
    unfolding steps.simps(3) by (metis (no_types, lifting) UN_E prod.exhaust)
  obtain w1 where w1: "v = w1 @ t1" "toLowerCase w1 = ''impeccable-''" using s(1) unfolding steps_lit_i by (auto simp: toLowerCase_def lower_char_def)
  obtain w g3 where "(b2, t2, g3) \<in> steps ?kinds (b1, t1, g1)" using s(2) by (rule steps_Grp)
  then have "(b2, t2, g3) \<in> steps (lit_i (''disable'' @ ''-next-line'')) (b1, t1, g1) \<or> (b2, t2, g3) \<in> steps (lit_i (''disable'' @ ''-line'')) (b1, t1, g1) \<or>
      (b2, t2, g3) \<in> steps (lit_i (''disable'' @ [])) (b1, t1, g1)"
    by (simp only: alts.simps steps.simps(4) Un_iff append_Cons append_Nil)
  then obtain x where "(b2, t2, g3) \<in> steps (lit_i (''disable'' @ x)) (b1, t1, g1)" by blast
  then obtain w2 where w2: "t1 = w2 @ t2" "toLowerCase w2 = toLowerCase (''disable'' @ x)" unfolding steps_lit_i by blast
  have "toLowerCase ''disable'' = ''disable''" by (simp add: toLowerCase_def lower_char_def)
  then have "toLowerCase w2 = ''disable'' @ toLowerCase x" using w2(2) unfolding toLowerCase_append by (rule subst)
  then obtain w3 w4 where "w2 = w3 @ w4" "toLowerCase w3 = ''disable''" using toLowerCase_split by blast
  then have "v = (w1 @ w3) @ (w4 @ t2)" "toLowerCase (w1 @ w3) = ''impeccable-disable''" using w1 w2(1) by (simp_all add: toLowerCase_append)
  then show ?thesis by blast
qed

lemma includes_prefix: "starts_with s p \<Longrightarrow> str_includes s p"
  unfolding starts_with_ex str_includes_ex by (metis append_Nil)

lemma includes_Cons: "str_includes s p \<Longrightarrow> str_includes (x # s) p"
  unfolding str_includes_ex by (metis append_Cons)

lemma split_on_parts: "\<exists>y ys. split_on c s = y # ys \<and> starts_with s y \<and> (\<forall>l \<in> set ys. str_includes s l)"
proof (induction s)
  case (Cons x s)
  then show ?case by (auto simp: includes_prefix includes_Cons)
qed simp

lemma join_split_includes: "l \<in> set (split_on c s) \<Longrightarrow> str_includes s l"
  using split_on_parts [of c s] includes_prefix by auto

lemma directive_present:
  assumes "l \<in> set (split_on NL text)" "match_all DIRECTIVE_RE l \<noteq> []"
  shows "re_test (lit_i ''impeccable-disable'') text"
proof -
  obtain m where "m \<in> set (scan DIRECTIVE_RE [] l 0)" using assms(2) by (metis list.set_sel(1) match_all_def)
  then obtain u v where "l = u @ v" "steps DIRECTIVE_RE (rev u, v, []) \<noteq> {}" using scan_steps [of m DIRECTIVE_RE "[]" l 0] by auto
  then obtain w t where "l = u @ w @ t" "toLowerCase w = ''impeccable-disable''" using directive_steps by metis
  moreover have "str_includes text l" using assms(1) join_split_includes by blast
  ultimately obtain a c where "text = (a @ u) @ (w @ t @ c)" by (auto simp: str_includes_ex)
  moreover have "(rev w @ rev (a @ u), t @ c, []) \<in> steps (lit_i ''impeccable-disable'') (rev (a @ u), w @ t @ c, [])"
    unfolding steps_lit_i using \<open>toLowerCase w = _\<close> by (auto simp: toLowerCase_def lower_char_def)
  ultimately show ?thesis unfolding re_test_def re_exec_None by blast
qed

section \<open>The accumulation\<close>

lemma at_line_add:
  "setMatches (at_line (add_at m key rules) q) rule \<longleftrightarrow>
    setMatches (at_line m q) rule \<or> (q = of_nat key \<and> (''*'' \<in> set rules \<or> rule \<in> set rules))"
proof (cases "is_integral q \<and> 0 \<le> q")
  case True
  then obtain n where "q = of_nat n" unfolding is_integral_def by (metis of_int_0_le_iff of_nat_nat of_int_of_nat_eq zero_le_floor)
  then show ?thesis by (simp add: at_line_nat setMatches_add_at)
next
  case False
  then have "q \<noteq> of_nat key" unfolding is_integral_def by (metis floor_of_nat of_int_of_nat_eq of_nat_0_le_iff)
  moreover have "at_line n q = None" for n using False by (auto simp: at_line_def)
  ultimately show ?thesis by simp
qed

lemma waived_by_add:
  "waived_by (add_directive i m d) rule line \<longleftrightarrow>
    waived_by d rule line \<or> waives (toLowerCase (group_text m 1)) i (parseRuleList (group_text m 2)) rule line"
  by (cases line) (auto simp: waived_by_def add_directive_def waives_def Let_def setMatches_addRules at_line_add)

lemma waived_by_fold:
  "waived_by (fold (add_directive i) ms d) rule line \<longleftrightarrow>
    waived_by d rule line \<or> (\<exists>m \<in> set ms. waives (toLowerCase (group_text m 1)) i (parseRuleList (group_text m 2)) rule line)"
  by (induction ms arbitrary: d) (auto simp: waived_by_add)

lemma waived_by_lines:
  "waived_by (add_lines i lines d) rule line \<longleftrightarrow>
    waived_by d rule line \<or>
    (\<exists>j < length lines. \<exists>m \<in> set (match_all DIRECTIVE_RE (lines ! j)).
       waives (toLowerCase (group_text m 1)) (i + j) (parseRuleList (group_text m 2)) rule line)"
proof (induction lines arbitrary: i d)
  case (Cons l ls)
  then show ?case by (auto simp: waived_by_fold Ex_less_Suc2)
qed simp

lemma waived_by_none: "\<not> waived_by NO_DIRECTIVES rule line"
  by (cases line) (simp_all add: waived_by_def NO_DIRECTIVES_def setMatches_def at_line_def)

lemma parse_waived: "waived_by (parseInlineIgnores content) rule line \<longleftrightarrow> waived (split_on NL (content_text content)) rule line"
proof (cases "re_test (lit_i ''impeccable-disable'') (content_text content)")
  case True
  then show ?thesis by (simp add: parseInlineIgnores_def waived_by_lines waived_by_none waived_def)
next
  case False
  then have "match_all DIRECTIVE_RE (split_on NL (content_text content) ! i) = []" if "i < length (split_on NL (content_text content))" for i
    using directive_present that nth_mem by blast
  then show ?thesis using False by (auto simp: parseInlineIgnores_def waived_by_none waived_def)
qed

lemma ignored_waived: "isInlineIgnored f d \<longleftrightarrow> normalizeRule (dot f ''antipattern'') \<noteq> [] \<and> waived_by d (normalizeRule (dot f ''antipattern'')) (to_number (dot f ''line''))"
  by (auto simp: isInlineIgnored_def waived_by_def Let_def split: jsnum.splits)

lemma no_directives: "\<not> hasDirectives d \<Longrightarrow> \<not> waived_by d rule line"
  by (cases line) (simp_all add: hasDirectives_def waived_by_def setMatches_def at_line_def)


text \<open>
  A directive that names one rule can waive all of them. A star that stands by itself anywhere behind
  the directive on its line counts as a listed rule, and the end of a comment does not stop the list
  unless the line ends there: with the style sheet \<^verbatim>\<open>/* impeccable-disable-line side-tab */ * { margin: 0 }\<close>
  every finding of the line is dropped.
\<close>

theorem inline_star_leaks:
  "parseRuleList ''side-tab */ * { margin: 0 }'' = [''*''] \<and>
   applyInlineIgnores [JObj [(''antipattern'', JStr ''overused-font''), (''line'', jint 1)]]
     (JStr ''/* impeccable-disable-line side-tab */ * { margin: 0 }'') = []"
  by code_simp

end
