(* ===== verification/Hook_Config.thy ===== *)
theory Hook_Config
  imports Source_Search
begin

text \<open>
  The settings of the design hook and its filters (the first half of \<^verbatim>\<open>scripts/hook-lib.mjs\<close>).

  The hook keeps its own copy of the ignore filters of \<^verbatim>\<open>scripts/lib/impeccable-config.mjs\<close>; the copies of
  \<^verbatim>\<open>normalizeIgnoreValue\<close>, \<^verbatim>\<open>mergeIgnoreValues\<close>, \<^verbatim>\<open>matchesAnyGlob\<close>, \<^verbatim>\<open>isIgnoredFindingValue\<close> and the functions
  below them have the same text, so the definitions of \<open>Detection_Config\<close> and \<open>Detection_Filter\<close> serve both.
  Limits are numbers that need not be whole.
\<close>

section \<open>Constants\<close>

definition ALLOWED_EXTS :: "string list" where
  "ALLOWED_EXTS = [''.tsx'', ''.jsx'', ''.html'', ''.htm'', ''.vue'', ''.svelte'', ''.astro'',
     ''.css'', ''.scss'', ''.sass'', ''.less'', ''.ts'', ''.js'']"

definition ACK_EXTS :: "string list" where
  "ACK_EXTS = [''.tsx'', ''.jsx'', ''.html'', ''.htm'', ''.vue'', ''.svelte'', ''.astro'', ''.css'', ''.scss'', ''.sass'', ''.less'']"

definition is_slash :: "char \<Rightarrow> bool" where "is_slash c = (c = CHR ''/'' \<or> c = CHR 0x5C)"
definition not_slash :: "char \<Rightarrow> bool" where "not_slash c = (\<not> is_slash c)"
definition is_joiner :: "char \<Rightarrow> bool" where "is_joiner c = (c \<in> set ''._-'')"
definition is_letter_i :: "char \<Rightarrow> bool" where "is_letter_i c = (let n = (of_char (lower_char c) :: nat) in 97 \<le> n \<and> n \<le> 122)"

definition segment_start :: re where "segment_start = Alt Bol (Cls is_slash)"

text \<open>The look-ahead \<^verbatim>\<open>(?=[._-])\<close> is never at the end of the path, where more has to follow.\<close>

definition SENSITIVE_PATH :: re where
  "SENSITIVE_PATH = alts
     [seq [segment_start, lit_i ''.env'', Alt (lit ''.'') Eol],
      seq [segment_start, lit_i ''.git'', Alt (Cls is_slash) Eol],
      seq [segment_start, lit_i ''id_rsa'', Alt Eol (Cls is_joiner), Many not_slash, Eol],
      seq [segment_start, Many not_slash, lit_i ''.pem'', Eol],
      seq [segment_start, Opt (seq [Many not_slash, Cls is_joiner]),
        alts [lit_i ''secret'', lit_i ''secrets'', lit_i ''credential'', lit_i ''credentials''], Peek is_joiner, Many not_slash, lit ''.'',
        alts [lit_i ''json'', lit_i ''yaml'', lit_i ''yml'', lit_i ''toml'', lit_i ''ini'', lit_i ''conf'', lit_i ''config'', lit_i ''env'', lit_i ''txt'',
          lit_i ''key'', lit_i ''cert'', lit_i ''crt'', lit_i ''pem'', lit_i ''js'', lit_i ''ts''], Eol]]"

definition GENERATED_PATH :: re where
  "GENERATED_PATH = alts
     [seq [lit_i ''.generated.'', many1 is_letter_i, Eol],
      seq [lit_i ''.d.ts'', Eol],
      seq [lit_i ''.min.'', many1 is_letter_i, Eol],
      seq [Cls is_slash, lit_i ''node_modules'', Cls is_slash],
      seq [Cls is_slash, lit_i ''generated'', Cls is_slash],
      seq [Cls is_slash, alts [lit_i ''dist'', lit_i ''build'', lit_i ''out'', lit_i ''.next'', lit_i ''.cache'', lit_i ''coverage''], Cls is_slash],
      seq [Opt (Cls is_slash), many1 not_slash, lit_i ''.lock'', Opt (lit_i ''.json''), Eol]]"

definition TRUTHY :: re where
  "TRUTHY = seq [Bol, alts [lit_i ''1'', lit_i ''true'', lit_i ''yes'', lit_i ''on''], Eol]"

definition IMMEDIATE_TIER_RULES :: "string list" where
  "IMMEDIATE_TIER_RULES = [''broken-image'', ''text-overflow'', ''clipped-overflow-container'', ''body-text-viewport-edge'',
     ''low-contrast'', ''gray-on-color'', ''tiny-text'', ''gradient-text'', ''dark-glow'',
     ''design-system-font'', ''design-system-color'', ''design-system-radius'', ''design-system-font-size'']"

definition ADVISORY_RULES :: "string list" where "ADVISORY_RULES = [''em-dash-overuse'']"

definition EDIT_COUNT_THRESHOLD :: nat where "EDIT_COUNT_THRESHOLD = 6"
definition CACHE_MAX_SESSIONS :: nat where "CACHE_MAX_SESSIONS = 8"

section \<open>The environment\<close>

type_synonym hook_env = "string \<Rightarrow> string option"

definition env_truthy :: "string option \<Rightarrow> bool" where
  "env_truthy v = (case v of None \<Rightarrow> False | Some s \<Rightarrow> re_test TRUTHY s)"

definition depthIsSet :: "string option \<Rightarrow> bool" where
  "depthIsSet v = (case v of None \<Rightarrow> False
     | Some s \<Rightarrow> (let text = trim s in
         text \<noteq> [] \<and> (re_test TRUTHY text \<or> (list_all is_digit text \<and> 0 < digits_val text))))"

section \<open>Settings\<close>

record hook_config =
  hc_enabled :: bool
  hc_quiet :: bool
  hc_auditLog :: "string option"
  hc_designSystem :: bool
  hc_ignoreRules :: "string list"
  hc_ignoreFiles :: "string list"
  hc_ignoreValues :: "ignore_entry list"
  hc_extensions :: "(string \<times> string) list"
  hc_perEditRules :: string
  hc_advisoryRules :: string
  hc_maxFindings :: rat
  hc_maxChars :: rat
  hc_maxFileBytes :: rat

definition cloneDefaultConfig :: hook_config where
  "cloneDefaultConfig = \<lparr>hc_enabled = True, hc_quiet = False, hc_auditLog = None, hc_designSystem = True, hc_ignoreRules = [],
     hc_ignoreFiles = [], hc_ignoreValues = [], hc_extensions = [], hc_perEditRules = ''immediate'', hc_advisoryRules = ''exclude'',
     hc_maxFindings = 5, hc_maxChars = 8000, hc_maxFileBytes = 131072\<rparr>"

definition numberOr :: "jsval \<Rightarrow> rat \<Rightarrow> rat" where
  "numberOr v fallback = (case v of JNum (Fin q) \<Rightarrow> if 0 < q then q else fallback | _ \<Rightarrow> fallback)"

definition extensions_arr :: "(string \<times> string) list \<Rightarrow> jsval" where
  "extensions_arr es = JArr (map (\<lambda>(ext, engine). JObj [(''ext'', JStr ext), (''engine'', JStr engine)]) es)"

definition merged_strings :: "string list \<Rightarrow> jsval \<Rightarrow> string list" where
  "merged_strings old v = (if is_arr v then uniqueStrings (map JStr old @ arr_elems v) else old)"

definition applyDetectorConfigSource :: "hook_config \<Rightarrow> props option \<Rightarrow> hook_config" where
  "applyDetectorConfigSource config src = (case src of None \<Rightarrow> config | Some kvs \<Rightarrow>
     let raw = JObj kvs in
     config\<lparr>hc_advisoryRules := (case advisory_of (dot raw ''advisoryRules'') of None \<Rightarrow> hc_advisoryRules config | Some s \<Rightarrow> s),
       hc_designSystem := (case enabled_of (dot raw ''designSystem'') of None \<Rightarrow> hc_designSystem config | Some b \<Rightarrow> b),
       hc_ignoreRules := merged_strings (hc_ignoreRules config) (dot raw ''ignoreRules''),
       hc_ignoreFiles := merged_strings (hc_ignoreFiles config) (dot raw ''ignoreFiles''),
       hc_ignoreValues := (if is_arr (dot raw ''ignoreValues'')
         then mergeIgnoreValues (hc_ignoreValues config) (dot raw ''ignoreValues'') else hc_ignoreValues config),
       hc_extensions := (if is_arr (dot raw ''extensions'')
         then mergeExtensions (extensions_arr (hc_extensions config)) (dot raw ''extensions'') else hc_extensions config)\<rparr>)"

definition applyConfigSource :: "hook_config \<Rightarrow> props option \<Rightarrow> hook_config" where
  "applyConfigSource config src = (case src of None \<Rightarrow> config | Some kvs \<Rightarrow>
     let raw = JObj kvs; limits = dot raw ''limits'';
         c1 = config\<lparr>hc_enabled := (if ''enabled'' \<in> fst ` set kvs then dot raw ''enabled'' \<noteq> JBool False else hc_enabled config),
           hc_quiet := (if ''quiet'' \<in> fst ` set kvs then dot raw ''quiet'' = JBool True else hc_quiet config),
           hc_perEditRules := (case dot raw ''perEditRules'' of
              JStr s \<Rightarrow> if s = ''all'' \<or> s = ''immediate'' then s else hc_perEditRules config | _ \<Rightarrow> hc_perEditRules config),
           hc_auditLog := (case dot raw ''auditLog'' of
              JStr s \<Rightarrow> if trim s \<noteq> [] then Some (trim s) else hc_auditLog config | _ \<Rightarrow> hc_auditLog config)\<rparr>;
         c2 = applyDetectorConfigSource c1 (Some kvs)
     in if truthy limits \<and> typeof_object limits
        then c2\<lparr>hc_maxFindings := numberOr (dot limits ''maxFindings'') (hc_maxFindings c2),
           hc_maxChars := numberOr (dot limits ''maxChars'') (hc_maxChars c2),
           hc_maxFileBytes := numberOr (dot limits ''maxFileBytes'') (hc_maxFileBytes c2)\<rparr>
        else c2)"

definition readConfig :: "config_files \<Rightarrow> string \<Rightarrow> hook_config" where
  "readConfig fs cwd =
     foldl (\<lambda>config path. let raw = safeReadJson fs path
         in applyDetectorConfigSource (applyConfigSource config (hookSection raw)) (detectorSection raw))
       cloneDefaultConfig [getConfigPath cwd, getLocalConfigPath cwd]"

section \<open>Findings\<close>

definition isAdvisoryFinding :: "jsval \<Rightarrow> bool" where
  "isAdvisoryFinding finding =
     (let rule = normalizeIgnoreRule (dot finding ''antipattern'')
      in truthy finding \<and> rule \<noteq> [] \<and> (rule \<in> set ADVISORY_RULES \<or> dot finding ''advisory'' = JBool True))"

definition filterFindings :: "(string \<Rightarrow> string option) \<Rightarrow> jsval list \<Rightarrow> hook_config \<Rightarrow> jsval list" where
  "filterFindings dec findings config =
     (let ignoreRules = map (\<lambda>r. normalizeIgnoreRule (JStr r)) (hc_ignoreRules config);
          ignoreValues = normalizeIgnoreValueEntries (entries_arr (hc_ignoreValues config));
          includeAdvisory = (hc_advisoryRules config = ''include'')
      in filter (\<lambda>f. truthy f \<and> typeof_object f \<and> (includeAdvisory \<or> \<not> isAdvisoryFinding f) \<and>
           normalizeIgnoreRule (dot f ''antipattern'') \<notin> set ignoreRules \<and> \<not> isIgnoredFindingValue dec f ignoreValues) findings)"

definition is_immediate :: "jsval \<Rightarrow> bool" where
  "is_immediate f = (truthy f \<and> normalizeIgnoreRule (dot f ''antipattern'') \<in> set IMMEDIATE_TIER_RULES)"

definition splitFindingsByTier :: "jsval list \<Rightarrow> jsval list \<times> jsval list" where
  "splitFindingsByTier findings = (filter is_immediate findings, filter (\<lambda>f. \<not> is_immediate f) findings)"

definition perEditTieringActive :: "hook_config \<Rightarrow> string \<Rightarrow> bool" where
  "perEditTieringActive config harness =
     (if harness = ''cursor'' \<or> harness = ''github'' then False else hc_perEditRules config \<noteq> ''all'')"

text \<open>\<^verbatim>\<open>v > 0\<close> for any value.\<close>

definition js_positive :: "jsval \<Rightarrow> bool" where
  "js_positive v = (case to_number v of Fin q \<Rightarrow> 0 < q | PosInf \<Rightarrow> True | _ \<Rightarrow> False)"

definition findingCacheKey :: "(string \<Rightarrow> string option) \<Rightarrow> jsval \<Rightarrow> string" where
  "findingCacheKey dec finding =
     (let line = js_or (dot finding ''line'') (jint 0); v = extractFindingIgnoreValue dec finding;
          rule = js_text (dot finding ''antipattern''); snippet = take 80 (trim (js_text (js_or (dot finding ''snippet'') (JStr []))))
      in if js_positive line \<and> v \<noteq> [] then rule @ '':'' @ js_text line @ '':'' @ v
         else if js_positive line then rule @ '':'' @ js_text line
         else if v \<noteq> [] then rule @ '':0:'' @ v
         else if snippet \<noteq> [] then rule @ '':0:'' @ snippet else rule @ '':0'')"

section \<open>What any configuration reads to\<close>

text \<open>The shape on which the hook relies.\<close>

definition config_shape :: "hook_config \<Rightarrow> bool" where
  "config_shape c \<longleftrightarrow>
     0 < hc_maxFindings c \<and> 0 < hc_maxChars c \<and> 0 < hc_maxFileBytes c \<and>
     hc_perEditRules c \<in> {''all'', ''immediate''} \<and> hc_advisoryRules c \<in> {''include'', ''exclude''} \<and>
     distinct (hc_ignoreRules c) \<and> distinct (hc_ignoreFiles c) \<and> distinct (map fst (hc_extensions c)) \<and>
     list_all (\<lambda>(ext, engine). starts_with ext ''.'' \<and> engine \<in> {''html'', ''text''}) (hc_extensions c) \<and>
     list_all (\<lambda>e. ie_rule e \<noteq> [] \<and> ie_value e \<noteq> []) (hc_ignoreValues c) \<and> hc_auditLog c \<noteq> Some []"

lemma numberOr_pos: "0 < fallback \<Longrightarrow> 0 < numberOr v fallback"
  by (auto simp: numberOr_def split: jsval.splits jsnum.splits)

lemma unique_from_once: "distinct (unique_from seen xs) \<and> set (unique_from seen xs) \<inter> set seen = {}"
proof (induction xs arbitrary: seen)
  case (Cons x xs)
  then show ?case using Cons.IH [of "x # seen"] Cons.IH [of seen] by auto
qed simp

lemma merged_distinct: "distinct old \<Longrightarrow> distinct (merged_strings old v)"
  using unique_from_once unfolding merged_strings_def uniqueStrings_def by (auto simp del: map_append)

lemma extension_entry_shape: "\<forall>(ext, engine) \<in> set (extension_entry e). starts_with ext ''.'' \<and> engine \<in> {''html'', ''text''}"
  by (auto simp: extension_entry_def Let_def split: jsval.splits)

lemma extensions_shape: "\<forall>(ext, engine) \<in> set (normalizeExtensionEntries v). starts_with ext ''.'' \<and> engine \<in> {''html'', ''text''}"
  using extension_entry_shape by (auto simp: normalizeExtensionEntries_def split: jsval.splits)

lemma set_key_keys: "fst ` set (set_key m k v) = insert k (fst ` set m)"
  by (induction m k v rule: set_key.induct) auto

lemma set_key_distinct: "distinct (map fst m) \<Longrightarrow> distinct (map fst (set_key m k v))"
  by (induction m k v rule: set_key.induct) (auto simp: set_key_keys)

lemma set_key_set: "set (set_key m k v) \<subseteq> insert (k, v) (set m)"
  by (induction m k v rule: set_key.induct) auto

lemma fold_set_key:
  assumes "distinct (map fst m)"
  shows "distinct (map fst (fold (\<lambda>(k, v) m. set_key m k v) es m)) \<and> set (fold (\<lambda>(k, v) m. set_key m k v) es m) \<subseteq> set m \<union> set es"
  using assms
proof (induction es arbitrary: m)
  case (Cons e es)
  then show ?case using set_key_distinct set_key_set by (cases e) fastforce
qed simp

lemma mergeExtensions_shape:
  "distinct (map fst (mergeExtensions a b)) \<and> (\<forall>(ext, engine) \<in> set (mergeExtensions a b). starts_with ext ''.'' \<and> engine \<in> {''html'', ''text''})"
  using fold_set_key [of "[]" "normalizeExtensionEntries a @ normalizeExtensionEntries b"] extensions_shape [of a] extensions_shape [of b]
  unfolding mergeExtensions_def by fastforce

lemma normalize_entry_shape: "normalize_entry v = Some e \<Longrightarrow> ie_rule e \<noteq> [] \<and> ie_value e \<noteq> []"
  by (auto simp: normalize_entry_def Let_def split: if_splits)

lemma entries_shape: "\<forall>e \<in> set (normalizeIgnoreValueEntries v). ie_rule e \<noteq> [] \<and> ie_value e \<noteq> []"
  using normalize_entry_shape by (auto simp: normalizeIgnoreValueEntries_def map_filter_def split: jsval.splits)

lemma put_entry_set: "set (put_entry e es) \<subseteq> insert e (set es)"
  by (induction e es rule: put_entry.induct) auto

lemma mergeIgnoreValues_shape: "\<forall>e \<in> set (mergeIgnoreValues es v). ie_rule e \<noteq> [] \<and> ie_value e \<noteq> []"
proof -
  have "set (foldl (\<lambda>m e. put_entry e m) ys xs) \<subseteq> set xs \<union> set ys" for xs ys
  proof (induction xs arbitrary: ys)
    case (Cons x xs)
    then show ?case using put_entry_set [of x ys] by fastforce
  qed simp
  then have "set (mergeIgnoreValues es v) \<subseteq> set (normalizeIgnoreValueEntries v) \<union> set (normalizeIgnoreValueEntries (entries_arr es))"
    unfolding mergeIgnoreValues_def by (metis (no_types, lifting) Un_empty_right empty_set order_trans subset_refl sup_mono)
  then show ?thesis using entries_shape by blast
qed

lemma detector_source_shape: "config_shape c \<Longrightarrow> config_shape (applyDetectorConfigSource c src)"
  using mergeExtensions_shape mergeIgnoreValues_shape
  by (cases src) (auto simp: applyDetectorConfigSource_def config_shape_def Let_def merged_distinct advisory_of_def list_all_iff
      split: option.splits jsval.splits if_splits)

lemma hook_source_shape:
  assumes "config_shape c"
  shows "config_shape (applyConfigSource c src)"
proof (cases src)
  case (Some kvs)
  define c1 where "c1 = c\<lparr>hc_enabled := (if ''enabled'' \<in> fst ` set kvs then dot (JObj kvs) ''enabled'' \<noteq> JBool False else hc_enabled c),
           hc_quiet := (if ''quiet'' \<in> fst ` set kvs then dot (JObj kvs) ''quiet'' = JBool True else hc_quiet c),
           hc_perEditRules := (case dot (JObj kvs) ''perEditRules'' of
              JStr s \<Rightarrow> if s = ''all'' \<or> s = ''immediate'' then s else hc_perEditRules c | _ \<Rightarrow> hc_perEditRules c),
           hc_auditLog := (case dot (JObj kvs) ''auditLog'' of
              JStr s \<Rightarrow> if trim s \<noteq> [] then Some (trim s) else hc_auditLog c | _ \<Rightarrow> hc_auditLog c)\<rparr>"
  have "config_shape c1" using assms by (auto simp: c1_def config_shape_def split: jsval.splits)
  then have "config_shape (applyDetectorConfigSource c1 (Some kvs))" by (rule detector_source_shape)
  then show ?thesis
    unfolding Some applyConfigSource_def option.case Let_def c1_def [symmetric] by (auto simp: config_shape_def numberOr_pos)
qed (use assms in \<open>simp add: applyConfigSource_def\<close>)

text \<open>
  C40: Whatever the configuration files hold, the hook works with settings of the shape that it relies on:
  the limits are positive, the two switches have one of their values, ignored rules and files are listed
  once, each extension begins with a dot and names an engine, and no ignore entry lacks a rule or a value.
\<close>

theorem hook_config_shape: "config_shape (readConfig fs cwd)"
proof -
  have "config_shape cloneDefaultConfig" by (simp add: config_shape_def cloneDefaultConfig_def)
  then show ?thesis unfolding readConfig_def Let_def by (simp add: detector_source_shape hook_source_shape)
qed

end
