(* ===== verification/Hook_Events.thy ===== *)
theory Hook_Events
  imports Hook_Config
begin

text \<open>
  The events of the hook and the files to scan (\<^verbatim>\<open>scripts/hook-lib.mjs\<close>): which program sent the
  event, the event in the form of the hook, the files that it touches, and the style sheets that are
  scanned with them.

  \<^verbatim>\<open>JSON.parse\<close> is a parameter, \<open>None\<close> where it throws. Paths are absolute, with a name as their last
  segment. The memo of \<^verbatim>\<open>canonicalPath\<close> is left out: the disk does not change during an event.
\<close>

section \<open>Programs\<close>

definition resolveHarness :: "hook_env \<Rightarrow> jsval \<Rightarrow> string" where
  "resolveHarness env event =
     (let explicit = env ''IMPECCABLE_HOOK_HARNESS'' in
      if explicit = Some ''cursor'' then ''cursor''
      else if explicit = Some ''github'' then ''github''
      else if explicit = Some ''claude'' \<or> explicit = Some ''codex'' then ''claude''
      else if truthy event \<and> typeof_object event \<and> (is_str (dot event ''toolName'') \<or> dot event ''toolArgs'' \<noteq> JUndef) \<and>
           dot event ''tool_name'' = JUndef \<and> dot event ''tool_input'' = JUndef then ''github''
      else if is_str (dot event ''conversation_id'') \<and> truthy (dot event ''conversation_id'') then ''cursor''
      else ''claude'')"

definition is_plain :: "jsval \<Rightarrow> bool" where
  "is_plain v = (case v of JObj _ \<Rightarrow> True | _ \<Rightarrow> False)"

definition parseGitHubToolArgs :: "(string \<Rightarrow> jsval option) \<Rightarrow> jsval \<Rightarrow> jsval" where
  "parseGitHubToolArgs parse toolArgs =
     (if is_plain toolArgs then toolArgs
      else (case toolArgs of
          JStr s \<Rightarrow> if trim s = [] then JObj [] else (case parse s of Some v \<Rightarrow> if is_plain v then v else JObj [] | None \<Rightarrow> JObj [])
        | _ \<Rightarrow> JObj []))"

definition APPLY_PATCH_MARKER :: re where
  "APPLY_PATCH_MARKER = Cat (lit ''*** '') (alts [lit ''Begin Patch'', lit ''Add File:'', lit ''Update File:'', lit ''Delete File:''])"

definition looksLikeApplyPatch :: "(string \<Rightarrow> jsval option) \<Rightarrow> jsval \<Rightarrow> bool" where
  "looksLikeApplyPatch parse rawArgs = (case rawArgs of
      JStr s \<Rightarrow> re_test APPLY_PATCH_MARKER s \<and> (case parse s of Some v \<Rightarrow> \<not> (truthy v \<and> typeof_object v) | None \<Rightarrow> True)
    | _ \<Rightarrow> False)"

definition patch_field :: "jsval \<Rightarrow> jsval" where
  "patch_field args = js_or (js_or (js_or (dot args ''patch'') (dot args ''input'')) (dot args ''command'')) (JStr [])"

definition applyPatchText :: "(string \<Rightarrow> jsval option) \<Rightarrow> jsval \<Rightarrow> jsval" where
  "applyPatchText parse rawArgs = (case rawArgs of
      JStr s \<Rightarrow> if re_test APPLY_PATCH_MARKER s then JStr s else patch_field (parseGitHubToolArgs parse rawArgs)
    | _ \<Rightarrow> if is_plain rawArgs then patch_field rawArgs else JStr [])"

definition envProjectDir :: "hook_env \<Rightarrow> string \<Rightarrow> string" where
  "envProjectDir env fallback = (case env ''CURSOR_PROJECT_DIR'' of Some (c # cs) \<Rightarrow> c # cs | _ \<Rightarrow> fallback)"

definition event_cwd :: "hook_env \<Rightarrow> string \<Rightarrow> jsval \<Rightarrow> jsval" where
  "event_cwd env projectCwd v = js_or (js_or v (JStr (envProjectDir env projectCwd))) (JStr projectCwd)"

definition first_root :: "jsval \<Rightarrow> jsval" where
  "first_root roots = (case roots of JArr (r # _) \<Rightarrow> r | JArr [] \<Rightarrow> JUndef | _ \<Rightarrow> JBool False)"

definition normalizeGitHubEvent :: "(string \<Rightarrow> jsval option) \<Rightarrow> hook_env \<Rightarrow> jsval \<Rightarrow> string \<Rightarrow> jsval" where
  "normalizeGitHubEvent parse env event projectCwd =
     (let cwd = event_cwd env projectCwd (dot event ''cwd'');
          sessionId = js_or (js_or (dot event ''sessionId'') (dot event ''session_id'')) (JStr ''unknown'');
          toolName = js_or (js_or (dot event ''toolName'') (dot event ''tool_name'')) JNull;
          given = dot event ''tool_input'';
          toolInput = (if truthy given \<and> typeof_object given then own_props given else []);
          rawArgs = dot event ''toolArgs'';
          (name, input) =
            (if toolName = JStr ''apply_patch'' \<or> looksLikeApplyPatch parse rawArgs then
               (let patch = applyPatchText parse rawArgs
                in if truthy patch then (JStr ''apply_patch'', obj_set toolInput ''command'' patch) else (toolName, toolInput))
             else
               (let args = parseGitHubToolArgs parse rawArgs;
                    filePath = js_or (js_or (js_or (dot args ''path'') (dot args ''file_path'')) (dot args ''filePath'')) (dot args ''target_file'')
                in (toolName, if is_str filePath \<and> truthy filePath then obj_set toolInput ''file_path'' filePath else toolInput)))
      in JObj (obj_merge (own_props event) [(''cwd'', cwd), (''session_id'', sessionId), (''tool_name'', name), (''tool_input'', JObj input)]))"

definition normalizeHookEvent :: "(string \<Rightarrow> jsval option) \<Rightarrow> hook_env \<Rightarrow> jsval \<Rightarrow> string \<Rightarrow> string \<Rightarrow> jsval" where
  "normalizeHookEvent parse env event projectCwd harness =
     (if \<not> truthy event \<or> \<not> typeof_object event then event
      else if harness = ''github'' then normalizeGitHubEvent parse env event projectCwd
      else if harness \<noteq> ''cursor'' then event
      else
       (let cwd = event_cwd env projectCwd (js_or (dot event ''cwd'') (first_root (dot event ''workspace_roots'')));
            sessionId = js_or (js_or (dot event ''session_id'') (dot event ''conversation_id'')) (JStr ''unknown'');
            given = dot event ''tool_input'';
            ti = (if truthy given \<and> typeof_object given then given else JObj []);
            filePath = js_or (js_or (dot ti ''file_path'') (dot ti ''path'')) (dot event ''file_path'');
            base = [(''cwd'', cwd), (''session_id'', sessionId)]
        in JObj (obj_merge (own_props event)
             (if truthy filePath then base @ [(''tool_input'', JObj (obj_set (own_props ti) ''file_path'' filePath))] else base))))"

section \<open>Files of an event\<close>

text \<open>The lines of a text, which end at a line feed or a carriage return.\<close>

definition text_lines :: "string \<Rightarrow> string list" where
  "text_lines s = concat (map (split_on CR) (split_on NL s))"

definition patch_path :: "string \<Rightarrow> string option" where
  "patch_path line =
     (let rest = (if starts_with line ''*** Update File: '' then drop 17 line
                  else if starts_with line ''*** Add File: '' then drop 14 line else [])
      in if trim rest = [] then None else Some (trim rest))"

definition parseApplyPatchPaths :: "string \<Rightarrow> string \<Rightarrow> string list" where
  "parseApplyPatchPaths command projectCwd =
     map (\<lambda>p. if isAbsolute p then p else path_resolve projectCwd p) (List.map_filter patch_path (text_lines command))"

definition add_target :: "jsval \<Rightarrow> string list \<Rightarrow> string list" where
  "add_target filePath out = (case filePath of JStr (c # cs) \<Rightarrow> if c # cs \<in> set out then out else out @ [c # cs] | _ \<Rightarrow> out)"

definition resolveTargetFiles :: "jsval \<Rightarrow> string \<Rightarrow> string list" where
  "resolveTargetFiles event projectCwd =
     (let ti = dot event ''tool_input'';
          patched = (case dot ti ''command'' of
            JStr command \<Rightarrow> if dot event ''tool_name'' = JStr ''apply_patch'' then parseApplyPatchPaths command projectCwd else []
          | _ \<Rightarrow> [])
      in fold add_target (map JStr patched @ [dot ti ''file_path'', dot ti ''path'', dot event ''file_path'']) [])"

section \<open>The disk\<close>

record hook_disk =
  hd_exists :: "string \<Rightarrow> bool"
  hd_read :: "string \<Rightarrow> string option"
  hd_size :: "string \<Rightarrow> nat"
  hd_realpath :: "string \<Rightarrow> string option"
  hd_home :: string

definition hasPathTraversal :: "string \<Rightarrow> bool" where
  "hasPathTraversal filePath = str_includes filePath ''..''"

definition isInsideProject :: "string \<Rightarrow> string \<Rightarrow> bool" where
  "isInsideProject filePath projectCwd =
     (filePath \<noteq> [] \<and> projectCwd \<noteq> [] \<and> \<not> hasPathTraversal filePath \<and>
      (let rel = path_relative projectCwd filePath in rel = [] \<or> (\<not> starts_with rel ''..'' \<and> \<not> isAbsolute rel)))"

text \<open>The nearest ancestor that exists, with the rest appended; \<open>n\<close> counts the segments still there.\<close>

fun canonical_from :: "hook_disk \<Rightarrow> string list \<Rightarrow> nat \<Rightarrow> string" where
  "canonical_from d segs 0 = (case hd_realpath d ''/'' of
      Some r \<Rightarrow> if segs = [] then r else path_join r (join_with ''/'' segs)
    | None \<Rightarrow> abs_path segs)"
| "canonical_from d segs (Suc n) = (case hd_realpath d (abs_path (take (Suc n) segs)) of
      Some r \<Rightarrow> if drop (Suc n) segs = [] then r else path_join r (join_with ''/'' (drop (Suc n) segs))
    | None \<Rightarrow> canonical_from d segs n)"

definition canonicalPath :: "hook_disk \<Rightarrow> string \<Rightarrow> string" where
  "canonicalPath d p = (let segs = path_segments p in canonical_from d segs (length segs))"

definition isScanTargetInsideProject :: "hook_disk \<Rightarrow> string \<Rightarrow> string \<Rightarrow> bool" where
  "isScanTargetInsideProject d filePath projectCwd =
     (filePath \<noteq> [] \<and> projectCwd \<noteq> [] \<and> isInsideProject (canonicalPath d filePath) (canonicalPath d projectCwd))"

definition looksLikeProjectRoot :: "hook_disk \<Rightarrow> string list \<Rightarrow> bool" where
  "looksLikeProjectRoot d segs = list_ex (\<lambda>marker. hd_exists d (abs_path (segs @ [marker]))) [''.git'', ''package.json'', ''.impeccable'']"

text \<open>The climb from the directory of the file to the nearest root.\<close>

fun climb :: "hook_disk \<Rightarrow> string list \<Rightarrow> string list \<Rightarrow> nat \<Rightarrow> string list" where
  "climb d base segs 0 = (if path_segments (hd_home d) = [] then base else if looksLikeProjectRoot d [] then [] else base)"
| "climb d base segs (Suc n) =
     (let dir = take (Suc n) segs
      in if dir = path_segments (hd_home d) then base else if looksLikeProjectRoot d dir then dir else climb d base segs n)"

definition resolveCacheCwd :: "hook_disk \<Rightarrow> string option \<Rightarrow> string \<Rightarrow> string" where
  "resolveCacheCwd d primaryFile sessionCwd =
     (let base = path_segments sessionCwd in
      abs_path (case primaryFile of
          None \<Rightarrow> base
        | Some f \<Rightarrow>
            if f = [] \<or> hasPathTraversal f \<or> looksLikeProjectRoot d base then base
            else (let segs = butlast (path_segments f) in climb d base segs (length segs))))"

section \<open>Files to scan\<close>

definition UI_CODE_EXTS :: "string list" where "UI_CODE_EXTS = [''.jsx'', ''.tsx'', ''.vue'', ''.svelte'', ''.astro'']"
definition STYLE_EXTS :: "string list" where "STYLE_EXTS = [''.css'', ''.scss'', ''.sass'', ''.less'']"

definition CO_SCAN_STYLE_NAMES :: "string list" where
  "CO_SCAN_STYLE_NAMES = concat (map (\<lambda>name. map ((@) name) STYLE_EXTS) [''styles'', ''index'', ''global'', ''globals''])"

definition MAX_SCAN_TARGETS :: nat where "MAX_SCAN_TARGETS = 6"

definition import_char :: "char \<Rightarrow> bool" where
  "import_char c = (is_word_char c \<or> c \<in> set ''*{},$'' \<or> is_ws c)"

definition STATIC_STYLE_IMPORT_RE :: re where
  "STATIC_STYLE_IMPORT_RE = seq [lit_i ''import'', many1 is_ws,
     Opt (seq [many1 import_char, many1 is_ws, lit_i ''from'', many1 is_ws]), Cls is_quote,
     Grp 1 (seq [many1 (\<lambda>c. \<not> is_quote c), lit ''.'', alts [lit_i ''css'', lit_i ''scss'', lit_i ''sass'', lit_i ''less'']]), Cls is_quote]"

definition import_path :: "string list \<Rightarrow> string \<Rightarrow> exec_result \<Rightarrow> string option" where
  "import_path dir projectCwd m =
     (let p = trim (group_text m 1);
          full = (if starts_with p ''.'' then path_resolve (abs_path dir) p else if isAbsolute p then p else path_resolve projectCwd p)
      in if p \<noteq> [] \<and> isInsideProject full projectCwd then Some full else None)"

definition parseStaticStyleImports :: "string \<Rightarrow> string \<Rightarrow> string \<Rightarrow> string list" where
  "parseStaticStyleImports content fromFile projectCwd =
     List.map_filter (import_path (butlast (path_segments fromFile)) projectCwd) (match_all STATIC_STYLE_IMPORT_RE content)"

definition coLocatedStylesheets :: "hook_disk \<Rightarrow> string \<Rightarrow> string list" where
  "coLocatedStylesheets d filePath =
     (let dir = butlast (path_segments filePath); name = path_basename filePath;
          base = take (length name - length (path_extname filePath)) name;
          own = concat (map (\<lambda>ext. [base @ ext, base @ ''.module'' @ ext]) STYLE_EXTS)
      in filter (hd_exists d) (unique_from [] (map (\<lambda>n. abs_path (dir @ [n])) (own @ CO_SCAN_STYLE_NAMES))))"

definition normalize_target :: "string \<Rightarrow> string \<Rightarrow> string" where
  "normalize_target baseCwd p = (if hasPathTraversal p then p else if isAbsolute p then p else path_resolve baseCwd p)"

definition add_scan :: "string \<Rightarrow> string \<Rightarrow> string list \<Rightarrow> string list" where
  "add_scan baseCwd p ordered =
     (let target = normalize_target baseCwd p
      in if MAX_SCAN_TARGETS \<le> length ordered \<or> target \<in> set ordered then ordered else ordered @ [target])"

definition normalizeScanTargets :: "string list \<Rightarrow> string \<Rightarrow> string list" where
  "normalizeScanTargets primaryTargets projectCwd = fold (add_scan projectCwd) primaryTargets []"

definition related_styles :: "hook_disk \<Rightarrow> string \<Rightarrow> string \<Rightarrow> string list" where
  "related_styles d projectCwd p =
     (if isInsideProject p projectCwd \<and> toLowerCase (path_extname p) \<in> set UI_CODE_EXTS
      then parseStaticStyleImports (case hd_read d p of None \<Rightarrow> [] | Some c \<Rightarrow> c) p projectCwd @ coLocatedStylesheets d p
      else [])"

definition expandScanTargets :: "hook_disk \<Rightarrow> string list \<Rightarrow> string \<Rightarrow> string list" where
  "expandScanTargets d primaryTargets projectCwd =
     (let ordered = normalizeScanTargets primaryTargets projectCwd
      in fold (add_scan projectCwd) (concat (map (related_styles d projectCwd) ordered)) ordered)"

section \<open>Bounds\<close>

lemma add_scan_bound: "length ordered \<le> MAX_SCAN_TARGETS \<Longrightarrow> length (add_scan cwd p ordered) \<le> MAX_SCAN_TARGETS"
  by (simp add: add_scan_def Let_def)

lemma add_scan_distinct: "distinct ordered \<Longrightarrow> distinct (add_scan cwd p ordered)"
  by (simp add: add_scan_def Let_def)

lemma add_scan_prefix: "\<exists>more. add_scan cwd p ordered = ordered @ more"
  by (simp add: add_scan_def Let_def)

lemma fold_add_scan:
  assumes "length ordered \<le> MAX_SCAN_TARGETS" "distinct ordered"
  shows "length (fold (add_scan cwd) ps ordered) \<le> MAX_SCAN_TARGETS \<and> distinct (fold (add_scan cwd) ps ordered) \<and>
    (\<exists>more. fold (add_scan cwd) ps ordered = ordered @ more)"
  using assms
proof (induction ps arbitrary: ordered)
  case (Cons p ps)
  from Cons.IH [OF add_scan_bound [OF Cons.prems(1)] add_scan_distinct [OF Cons.prems(2)], of cwd p]
  show ?case using add_scan_prefix [of cwd p ordered] by auto
qed simp

lemma expand_bounds:
  "length (expandScanTargets d ps cwd) \<le> MAX_SCAN_TARGETS \<and> distinct (expandScanTargets d ps cwd) \<and>
    (\<exists>more. expandScanTargets d ps cwd = normalizeScanTargets ps cwd @ more)"
proof -
  have "length (normalizeScanTargets ps cwd) \<le> MAX_SCAN_TARGETS \<and> distinct (normalizeScanTargets ps cwd)"
    using fold_add_scan [of "[]" cwd ps] by (simp add: normalizeScanTargets_def MAX_SCAN_TARGETS_def)
  then show ?thesis unfolding expandScanTargets_def Let_def by (intro fold_add_scan) simp_all
qed

end
