(* ===== verification/Hook_Run.thy ===== *)
theory Hook_Run
  imports Hook_Events
begin

text \<open>
  The cache of the hook and its two passes (\<^verbatim>\<open>scripts/hook-lib.mjs\<close>): \<open>runHook\<close> after each edit and
  \<open>runStopHook\<close> at the end of a turn.

  The cache is what the hook itself writes: sessions with the files that were scanned. The detector, the
  loader of the project's platform, \<^verbatim>\<open>JSON.parse\<close> and the clock are parameters; one reading of the clock
  serves a whole pass. The entries of the audit log are reduced to the outcome of the pass, and a message is
  what it is made from; its text is not modelled. An exception inside of a pass is the outcome \<open>Failed\<close>.
\<close>

section \<open>The cache\<close>

record hook_file =
  hf_editCount :: nat
  hf_findings :: "string list"
  hf_cleanAcked :: bool

record hook_session =
  hs_updatedAt :: nat
  hs_files :: "(string \<times> hook_file) list"

type_synonym hook_cache = "(string \<times> hook_session) list"

text \<open>The cache file: missing, unreadable or of another version, or with the sessions.\<close>

datatype cache_file = No_Cache | Cache_File hook_cache

definition readCache :: "cache_file \<Rightarrow> hook_cache" where
  "readCache f = (case f of No_Cache \<Rightarrow> [] | Cache_File c \<Rightarrow> c)"

definition persistCache :: "hook_cache \<Rightarrow> cache_file" where
  "persistCache cache = Cache_File
     (if CACHE_MAX_SESSIONS < length cache
      then take CACHE_MAX_SESSIONS (sort_key (\<lambda>(_, s). - int (hs_updatedAt s)) cache) else cache)"

definition new_session :: "nat \<Rightarrow> hook_session" where "new_session now = \<lparr>hs_updatedAt = now, hs_files = []\<rparr>"
definition new_file :: hook_file where "new_file = \<lparr>hf_editCount = 0, hf_findings = [], hf_cleanAcked = False\<rparr>"

definition ensureSession :: "nat \<Rightarrow> hook_cache \<Rightarrow> string \<Rightarrow> hook_session" where
  "ensureSession now cache sid = (case map_of cache sid of Some s \<Rightarrow> s | None \<Rightarrow> new_session now)"

definition file_entry :: "hook_cache \<Rightarrow> string \<Rightarrow> string \<Rightarrow> hook_file" where
  "file_entry cache sid file = (case map_of cache sid of None \<Rightarrow> new_file
     | Some s \<Rightarrow> (case map_of (hs_files s) file of Some f \<Rightarrow> f | None \<Rightarrow> new_file))"

text \<open>The entry of a file replaced, and the session's time with it when \<open>t\<close> is given.\<close>

definition put_file :: "nat \<Rightarrow> nat option \<Rightarrow> hook_cache \<Rightarrow> string \<Rightarrow> string \<Rightarrow> hook_file \<Rightarrow> hook_cache" where
  "put_file now t cache sid file entry =
     (let s = ensureSession now cache sid
      in set_key cache sid \<lparr>hs_updatedAt = (case t of Some n \<Rightarrow> n | None \<Rightarrow> hs_updatedAt s), hs_files = set_key (hs_files s) file entry\<rparr>)"

definition ensureFile :: "nat \<Rightarrow> hook_cache \<Rightarrow> string \<Rightarrow> string \<Rightarrow> hook_cache" where
  "ensureFile now cache sid file = put_file now None cache sid file (file_entry cache sid file)"

definition bumpEditCount :: "nat \<Rightarrow> hook_cache \<Rightarrow> string \<Rightarrow> string \<Rightarrow> hook_cache \<times> nat" where
  "bumpEditCount now cache sid file =
     (let e = file_entry cache sid file; n = hf_editCount e + 1
      in (put_file now (Some now) cache sid file (e\<lparr>hf_editCount := n\<rparr>), n))"

definition touchFile :: "nat \<Rightarrow> hook_cache \<Rightarrow> string \<Rightarrow> string \<Rightarrow> hook_cache" where
  "touchFile now cache sid file = put_file now (Some now) cache sid file (file_entry cache sid file)"

fun fresh_from :: "(jsval \<Rightarrow> string) \<Rightarrow> string list \<Rightarrow> jsval list \<Rightarrow> jsval list" where
  "fresh_from key known [] = []"
| "fresh_from key known (f # fs) =
     (if key f \<in> set known then fresh_from key known fs else f # fresh_from key (key f # known) fs)"

definition dedupeAgainstCache :: "(jsval \<Rightarrow> string) \<Rightarrow> nat \<Rightarrow> jsval list \<Rightarrow> hook_cache \<Rightarrow> string \<Rightarrow> string \<Rightarrow> hook_cache \<times> jsval list" where
  "dedupeAgainstCache key now findings cache sid file =
     (if findings = [] then (cache, [])
      else (ensureFile now cache sid file, fresh_from key (hf_findings (file_entry cache sid file)) findings))"

definition rememberFindings :: "(jsval \<Rightarrow> string) \<Rightarrow> nat \<Rightarrow> hook_cache \<Rightarrow> string \<Rightarrow> string \<Rightarrow> jsval list \<Rightarrow> hook_cache" where
  "rememberFindings key now cache sid file findings =
     put_file now (Some now) cache sid file ((file_entry cache sid file)\<lparr>hf_findings := unique_from [] (map key findings)\<rparr>)"

section \<open>Which files are scanned\<close>

text \<open>
  What a pass works with. \<open>hk_text\<close> and \<open>hk_html\<close> are the two detectors, \<open>None\<close> for one that throws;
  the second may be missing. \<open>hk_platform\<close> is the platform that the project's product file names.
\<close>

record hook_world =
  hk_env :: hook_env
  hk_cwd :: string
  hk_now :: nat
  hk_parse :: "string \<Rightarrow> jsval option"
  hk_decode :: "string \<Rightarrow> string option"
  hk_disk :: hook_disk
  hk_configs :: config_files
  hk_platform :: "string \<Rightarrow> string option"
  hk_detector :: bool
  hk_text :: "hook_config \<Rightarrow> string \<Rightarrow> string \<Rightarrow> jsval list option"
  hk_html :: "(hook_config \<Rightarrow> string \<Rightarrow> jsval list option) option"

definition relativize :: "string \<Rightarrow> string \<Rightarrow> string" where
  "relativize filePath cwd = (let rel = path_relative cwd filePath in if rel = [] \<or> starts_with rel ''..'' then filePath else rel)"

definition path_skip :: "hook_world \<Rightarrow> hook_config \<Rightarrow> string \<Rightarrow> string \<Rightarrow> string option" where
  "path_skip w config projectCwd file =
     (if hasPathTraversal file \<or> re_test SENSITIVE_PATH file then Some ''sensitive''
      else if re_test GENERATED_PATH file then Some ''generated''
      else if toLowerCase (path_extname file) \<notin> set ALLOWED_EXTS \<and>
              matchConfiguredExtension file (extensions_arr (hc_extensions config)) = None then Some ''extension''
      else if matchesAnyGlob (relativize file projectCwd) (hc_ignoreFiles config) \<or> matchesAnyGlob file (hc_ignoreFiles config)
        then Some ''config-ignore-file''
      else if \<not> hd_exists (hk_disk w) file then Some ''file-missing''
      else if \<not> isScanTargetInsideProject (hk_disk w) file projectCwd then Some ''outside-project''
      else None)"

definition too_large :: "hook_world \<Rightarrow> hook_config \<Rightarrow> string \<Rightarrow> bool" where
  "too_large w config file = (0 < hc_maxFileBytes config \<and> hc_maxFileBytes config < of_nat (hd_size (hk_disk w) file))"

definition uses_html :: "hook_config \<Rightarrow> string \<Rightarrow> bool" where
  "uses_html config file = (case matchConfiguredExtension file (extensions_arr (hc_extensions config)) of
      Some (_, engine) \<Rightarrow> engine = ''html''
    | None \<Rightarrow> toLowerCase (path_extname file) = ''.html'' \<or> toLowerCase (path_extname file) = ''.htm'')"

definition detect :: "hook_world \<Rightarrow> hook_config \<Rightarrow> string \<Rightarrow> string \<Rightarrow> jsval list option" where
  "detect w config content file = (case hk_html w of
      Some html \<Rightarrow> if uses_html config file then html config file else hk_text w config content file
    | None \<Rightarrow> hk_text w config content file)"

definition detected :: "hook_world \<Rightarrow> hook_config \<Rightarrow> string \<Rightarrow> string \<Rightarrow> jsval list" where
  "detected w config content file =
     filterFindings (hk_decode w) (case detect w config content file of Some fs \<Rightarrow> fs | None \<Rightarrow> []) config"

definition shouldEmitAckForFile :: "string \<Rightarrow> hook_config \<Rightarrow> bool" where
  "shouldEmitAckForFile file config =
     (toLowerCase (path_extname file) \<in> set ACK_EXTS \<or>
      (case matchConfiguredExtension file (extensions_arr (hc_extensions config)) of Some (_, engine) \<Rightarrow> engine = ''html'' | None \<Rightarrow> False))"

definition isNativePlatform :: "string option \<Rightarrow> bool" where
  "isNativePlatform platform = (platform \<in> {Some ''ios'', Some ''android'', Some ''adaptive''})"

section \<open>The pass after an edit\<close>

type_synonym group_findings = "string \<times> jsval list"

record scan_state =
  sc_cache :: hook_cache
  sc_fresh :: "group_findings list"
  sc_pending :: "(string \<times> string list) option"
  sc_clean :: "string option"
  sc_suppression :: "string option"
  sc_deduped :: bool
  sc_threw :: bool
  sc_lastSkip :: string
  sc_suppressedHit :: bool
  sc_dirty :: bool
  sc_deferred :: nat

definition scan_start :: "hook_cache \<Rightarrow> scan_state" where
  "scan_start cache = \<lparr>sc_cache = cache, sc_fresh = [], sc_pending = None, sc_clean = None, sc_suppression = None, sc_deduped = False,
     sc_threw = False, sc_lastSkip = ''no-scannable-file'', sc_suppressedHit = False, sc_dirty = False, sc_deferred = 0\<rparr>"

text \<open>The acknowledgement that a file without fresh findings leaves behind.\<close>

definition acknowledge :: "hook_world \<Rightarrow> hook_config \<Rightarrow> bool \<Rightarrow> string \<Rightarrow> string \<Rightarrow> jsval list \<Rightarrow> scan_state \<Rightarrow> scan_state" where
  "acknowledge w config quiet sid file immediate st =
     (if immediate \<noteq> [] \<and> sc_pending st = None
      then st\<lparr>sc_pending := Some (file, map (findingCacheKey (hk_decode w)) immediate)\<rparr>
      else if immediate = [] \<and> sc_clean st = None then
        (if quiet \<or> \<not> shouldEmitAckForFile file config then st\<lparr>sc_clean := Some file\<rparr>
         else if hf_cleanAcked (file_entry (sc_cache st) sid file) then st\<lparr>sc_deduped := True\<rparr>
         else st\<lparr>sc_cache := put_file (hk_now w) None (sc_cache st) sid file ((file_entry (sc_cache st) sid file)\<lparr>hf_cleanAcked := True\<rparr>),
            sc_clean := Some file, sc_deduped := False\<rparr>)
      else st)"

definition scan_content :: "hook_world \<Rightarrow> hook_config \<Rightarrow> bool \<Rightarrow> bool \<Rightarrow> string \<Rightarrow> string \<Rightarrow> string \<Rightarrow> scan_state \<Rightarrow> scan_state" where
  "scan_content w config quiet tiered sid file content st =
     (let key = findingCacheKey (hk_decode w); filtered = detected w config content file;
          (immediate, deferred) = (if tiered then splitFindingsByTier filtered else (filtered, []));
          st1 = (if deferred \<noteq> []
            then st\<lparr>sc_cache := touchFile (hk_now w) (sc_cache st) sid file, sc_dirty := True, sc_deferred := sc_deferred st + length deferred\<rparr> else st);
          (cache2, fresh) = dedupeAgainstCache key (hk_now w) immediate (sc_cache st1) sid file;
          st2 = st1\<lparr>sc_cache := cache2\<rparr>
      in if detect w config content file = None then st2\<lparr>sc_threw := True\<rparr>
         else
          (let st3 = st2\<lparr>sc_cache := rememberFindings key (hk_now w) (sc_cache st2) sid file immediate, sc_dirty := True\<rparr>
           in if fresh \<noteq> [] then st3\<lparr>sc_fresh := sc_fresh st3 @ [(file, fresh)]\<rparr>
              else acknowledge w config quiet sid file immediate st3))"

definition scan_file :: "hook_world \<Rightarrow> hook_config \<Rightarrow> bool \<Rightarrow> bool \<Rightarrow> string \<Rightarrow> string list \<Rightarrow> string \<Rightarrow> string \<Rightarrow> scan_state option \<Rightarrow> scan_state option" where
  "scan_file w config quiet tiered projectCwd primary sid file acc = (case acc of None \<Rightarrow> None | Some st \<Rightarrow>
     (case path_skip w config projectCwd file of
        Some reason \<Rightarrow> Some (st\<lparr>sc_lastSkip := reason\<rparr>)
      | None \<Rightarrow>
         if too_large w config file then Some (st\<lparr>sc_lastSkip := ''too-large''\<rparr>)
         else
          (let (st1, suppressed) =
             (if file \<in> set primary then
               (let (cache, editCount) = bumpEditCount (hk_now w) (sc_cache st) sid file; st' = st\<lparr>sc_cache := cache, sc_dirty := True\<rparr>
                in if EDIT_COUNT_THRESHOLD < editCount
                   then (st'\<lparr>sc_suppression := (if editCount = EDIT_COUNT_THRESHOLD + 1 \<and> sc_suppression st' = None then Some file else sc_suppression st'),
                          sc_lastSkip := ''suppressed'', sc_suppressedHit := True\<rparr>, True)
                   else (st', False))
              else (st, False))
           in if suppressed then Some st1
              else (case hd_read (hk_disk w) file of
                  None \<Rightarrow> None
                | Some content \<Rightarrow> Some (scan_content w config quiet tiered sid file content st1)))))"

datatype emission =
    Fresh "group_findings list"
  | Pending string "string list"
  | Suppression string
  | Clean string
  | Deep "group_findings list"

datatype hook_out =
    Reentrant
  | Skipped string
  | Emitted emission
  | Detector_Threw
  | Quiet
  | Suppressed
  | Failed

definition hook_outcome :: "hook_config \<Rightarrow> bool \<Rightarrow> scan_state \<Rightarrow> hook_out" where
  "hook_outcome config quiet st =
     (if sc_fresh st \<noteq> [] then Emitted (Fresh (sc_fresh st))
      else if sc_threw st \<and> sc_pending st = None \<and> sc_clean st = None then Detector_Threw
      else if quiet then Quiet
      else if sc_pending st \<noteq> None \<and> shouldEmitAckForFile (fst (the (sc_pending st))) config
        then Emitted (Pending (fst (the (sc_pending st))) (snd (the (sc_pending st))))
      else if sc_suppression st \<noteq> None then Emitted (Suppression (the (sc_suppression st)))
      else if sc_clean st \<noteq> None \<and> \<not> sc_deduped st \<and> shouldEmitAckForFile (the (sc_clean st)) config then Emitted (Clean (the (sc_clean st)))
      else if sc_pending st \<noteq> None \<or> sc_clean st \<noteq> None then Skipped ''non-ui-ack''
      else if sc_deduped st then Skipped ''clean-ack-deduped''
      else if sc_suppressedHit st then Suppressed
      else Skipped (sc_lastSkip st))"

text \<open>What stops a pass before it reads the event.\<close>

definition guarded :: "hook_world \<Rightarrow> hook_out option" where
  "guarded w =
     (if depthIsSet (hk_env w ''IMPECCABLE_HOOK_DEPTH'') \<or> depthIsSet (hk_env w ''CLAUDE_HOOK_DEPTH'') then Some Reentrant
      else if env_truthy (hk_env w ''IMPECCABLE_HOOK_DISABLED'') then Some (Skipped ''env-disabled'')
      else None)"

definition read_event :: "hook_world \<Rightarrow> string \<Rightarrow> hook_out + jsval" where
  "read_event w stdin = (case hk_parse w stdin of
      None \<Rightarrow> Inl (Skipped ''stdin-malformed'')
    | Some event \<Rightarrow> if \<not> truthy event \<or> \<not> typeof_object event then Inl (Skipped ''stdin-empty'') else Inr event)"

definition session_of :: "jsval \<Rightarrow> string" where
  "session_of event = js_text (js_or (dot event ''session_id'') (JStr ''unknown''))"

definition edit_pass :: "hook_world \<Rightarrow> jsval \<Rightarrow> string \<Rightarrow> string \<Rightarrow> cache_file \<Rightarrow> cache_file \<times> hook_out" where
  "edit_pass w event harness sessionCwd f =
     (let primary = normalizeScanTargets (resolveTargetFiles event sessionCwd) sessionCwd;
          projectCwd = resolveCacheCwd (hk_disk w) (if primary = [] then None else Some (hd primary)) sessionCwd;
          targets = expandScanTargets (hk_disk w) primary projectCwd; config = readConfig (hk_configs w) projectCwd
      in if targets = [] then (f, Skipped ''no-file-path'')
         else if \<not> hc_enabled config then (f, Skipped ''config-disabled'')
         else if isNativePlatform (hk_platform w projectCwd) then (f, Skipped ''native-platform'')
         else if \<not> hk_detector w then (f, Skipped ''detector-missing'')
         else
          (let quiet = (env_truthy (hk_env w ''IMPECCABLE_HOOK_QUIET'') \<or> hc_quiet config)
           in case fold (scan_file w config quiet (perEditTieringActive config harness) projectCwd primary (session_of event)) targets
                  (Some (scan_start (readCache f))) of
                None \<Rightarrow> (f, Failed)
              | Some st \<Rightarrow>
                 (if sc_fresh st \<noteq> [] \<or> 0 < sc_deferred st \<or> (sc_dirty st \<and> hd_exists (hk_disk w) (path_join projectCwd ''.impeccable''))
                  then persistCache (sc_cache st) else f,
                  hook_outcome config quiet st)))"

definition runHook :: "hook_world \<Rightarrow> string \<Rightarrow> cache_file \<Rightarrow> cache_file \<times> hook_out" where
  "runHook w stdin f = (case guarded w of Some r \<Rightarrow> (f, r) | None \<Rightarrow>
     (case read_event w stdin of Inl r \<Rightarrow> (f, r) | Inr raw \<Rightarrow>
       (let harness = resolveHarness (hk_env w) raw; event = normalizeHookEvent (hk_parse w) (hk_env w) raw (hk_cwd w) harness
        in case js_or (dot event ''cwd'') (JStr (hk_cwd w)) of
             JStr sessionCwd \<Rightarrow> edit_pass w event harness sessionCwd f
           | _ \<Rightarrow> (f, Failed))))"

section \<open>The pass at the end of a turn\<close>

definition STOP_MAX_FILES :: nat where "STOP_MAX_FILES = 20"

text \<open>The files that are scanned: of those that pass the checks the first ones, as many as fit.\<close>

definition stop_targets :: "hook_world \<Rightarrow> hook_config \<Rightarrow> string \<Rightarrow> string list \<Rightarrow> string list" where
  "stop_targets w config projectCwd touched = take STOP_MAX_FILES (filter (\<lambda>file. path_skip w config projectCwd file = None) touched)"

definition stop_file :: "hook_world \<Rightarrow> hook_config \<Rightarrow> string \<Rightarrow> string \<Rightarrow> hook_cache \<times> group_findings list \<Rightarrow> hook_cache \<times> group_findings list" where
  "stop_file w config sid file acc = (case hd_read (hk_disk w) file of
      None \<Rightarrow> acc
    | Some content \<Rightarrow>
       (let key = findingCacheKey (hk_decode w);
            (cache, fresh) = dedupeAgainstCache key (hk_now w) (detected w config content file) (fst acc) sid file
        in if fresh \<noteq> [] then (rememberFindings key (hk_now w) cache sid file fresh, snd acc @ [(file, fresh)]) else (cache, snd acc)))"

definition touched_files :: "hook_cache \<Rightarrow> string \<Rightarrow> string list" where
  "touched_files cache sid = (case map_of cache sid of None \<Rightarrow> [] | Some s \<Rightarrow> map fst (hs_files s))"

definition stop_pass :: "hook_world \<Rightarrow> string \<Rightarrow> string \<Rightarrow> cache_file \<Rightarrow> cache_file \<times> hook_out" where
  "stop_pass w sid projectCwd f =
     (let config = readConfig (hk_configs w) projectCwd; cache = readCache f; touched = touched_files cache sid in
      if \<not> hc_enabled config then (f, Skipped ''config-disabled'')
      else if touched = [] then (f, Skipped ''no-touched-files'')
      else if isNativePlatform (hk_platform w projectCwd) then (f, Skipped ''native-platform'')
      else if \<not> hk_detector w then (f, Skipped ''detector-missing'')
      else
       (case fold (stop_file w config sid) (stop_targets w config projectCwd touched) (cache, []) of (cache', groups) \<Rightarrow>
          if groups = [] then (f, Skipped ''stop-clean'') else (persistCache cache', Emitted (Deep groups))))"

definition runStopHook :: "hook_world \<Rightarrow> string \<Rightarrow> cache_file \<Rightarrow> cache_file \<times> hook_out" where
  "runStopHook w stdin f = (case guarded w of Some r \<Rightarrow> (f, r) | None \<Rightarrow>
     (case read_event w stdin of Inl r \<Rightarrow> (f, r) | Inr event \<Rightarrow>
       if dot event ''stop_hook_active'' = JBool True then (f, Skipped ''stop-hook-active'')
       else (case js_or (dot event ''cwd'') (JStr (hk_cwd w)) of
           JStr cwd \<Rightarrow> stop_pass w (session_of event) (abs_path (path_segments cwd)) f
         | _ \<Rightarrow> (f, Failed))))"

end
