(* ===== verification/Hook_Properties.thy ===== *)
theory Hook_Properties
  imports Hook_Run
begin

text \<open>
  What holds of the passes of the design hook: which files are scanned and which findings are reported,
  when a finding is reported again, and how large the cache grows.
\<close>

section \<open>Entries of the cache\<close>

lemma map_of_set_key: "map_of (set_key m k v) = (map_of m)(k \<mapsto> v)"
  by (induction m k v rule: set_key.induct) auto

lemma file_entry_put: "file_entry (put_file now t cache sid path e) sid path' = (if path' = path then e else file_entry cache sid path')"
  by (auto simp: put_file_def file_entry_def map_of_set_key Let_def ensureSession_def new_session_def split: option.splits)

lemma file_entry_ensure: "file_entry (ensureFile now cache sid path) sid path' = file_entry cache sid path'"
  by (simp add: ensureFile_def file_entry_put)

lemma file_entry_touch: "file_entry (touchFile now cache sid path) sid path' = file_entry cache sid path'"
  by (simp add: touchFile_def file_entry_put)

lemma file_entry_bump:
  "file_entry (fst (bumpEditCount now cache sid path)) sid path' =
    (if path' = path then (file_entry cache sid path)\<lparr>hf_editCount := hf_editCount (file_entry cache sid path) + 1\<rparr> else file_entry cache sid path')"
  by (simp add: bumpEditCount_def Let_def file_entry_put)

lemma snd_bump: "snd (bumpEditCount now cache sid path) = hf_editCount (file_entry cache sid path) + 1"
  by (simp add: bumpEditCount_def Let_def)

lemma file_entry_dedupe: "file_entry (fst (dedupeAgainstCache key now fs cache sid path)) sid path' = file_entry cache sid path'"
  by (simp add: dedupeAgainstCache_def file_entry_ensure)

lemma snd_dedupe: "snd (dedupeAgainstCache key now fs cache sid path) = fresh_from key (hf_findings (file_entry cache sid path)) fs"
  by (simp add: dedupeAgainstCache_def)

lemma file_entry_remember:
  "file_entry (rememberFindings key now cache sid path fs) sid path' =
    (if path' = path then (file_entry cache sid path)\<lparr>hf_findings := unique_from [] (map key fs)\<rparr> else file_entry cache sid path')"
  by (simp add: rememberFindings_def file_entry_put)

lemmas file_entry_simps = file_entry_put file_entry_ensure file_entry_touch file_entry_bump file_entry_dedupe file_entry_remember

lemma unique_from_set: "set (unique_from seen xs) = set xs - set seen"
  by (induction xs arbitrary: seen) auto

lemma fresh_from_mem: "f \<in> set (fresh_from key known fs) \<Longrightarrow> f \<in> set fs \<and> key f \<notin> set known"
proof (induction fs arbitrary: known)
  case (Cons a fs)
  then show ?case using Cons.IH [of known] Cons.IH [of "key a # known"] by (auto split: if_splits)
qed simp

lemma fresh_from_distinct: "distinct (map key (fresh_from key known fs))"
proof (induction fs arbitrary: known)
  case (Cons f fs)
  have "key f \<notin> key ` set (fresh_from key (key f # known) fs)" using fresh_from_mem [of _ key "key f # known" fs] by force
  then show ?case using Cons.IH by simp
qed simp

lemma fresh_from_known: "key ` set fs \<subseteq> set known \<Longrightarrow> fresh_from key known fs = []"
  by (induction fs) auto

lemma fresh_from_covers: "key ` set fs \<subseteq> set known \<union> key ` set (fresh_from key known fs)"
proof (induction fs arbitrary: known)
  case (Cons f fs)
  then show ?case using Cons.IH [of known] Cons.IH [of "key f # known"] by auto
qed simp

lemma fresh_from_all:
  assumes "distinct (map key fs)"
  shows "fresh_from key known fs = filter (\<lambda>f. key f \<notin> set known) fs"
  using assms
proof (induction fs arbitrary: known)
  case (Cons a fs)
  have "filter (\<lambda>f. key f \<notin> set (key a # known)) fs = filter (\<lambda>f. key f \<notin> set known) fs"
    using Cons.prems by (intro filter_cong) (auto simp: image_iff)
  then show ?case using Cons.IH [of known] Cons.IH [of "key a # known"] Cons.prems by simp
qed simp

section \<open>One file\<close>

text \<open>The part of the findings that the pass after an edit looks at.\<close>

definition shown_tier :: "hook_world \<Rightarrow> hook_config \<Rightarrow> bool \<Rightarrow> string \<Rightarrow> string \<Rightarrow> jsval list" where
  "shown_tier w config tiered content path =
     (if tiered then filter is_immediate (detected w config content path) else detected w config content path)"

definition fresh_in :: "hook_world \<Rightarrow> hook_config \<Rightarrow> bool \<Rightarrow> hook_cache \<Rightarrow> string \<Rightarrow> string \<Rightarrow> string \<Rightarrow> jsval list" where
  "fresh_in w config tiered cache sid content path =
     fresh_from (findingCacheKey (hk_decode w)) (hf_findings (file_entry cache sid path)) (shown_tier w config tiered content path)"

lemma ack_entry:
  "hf_findings (file_entry (sc_cache (acknowledge w config quiet sid path im st)) sid path') = hf_findings (file_entry (sc_cache st) sid path') \<and>
   hf_editCount (file_entry (sc_cache (acknowledge w config quiet sid path im st)) sid path') = hf_editCount (file_entry (sc_cache st) sid path')"
  by (simp add: acknowledge_def file_entry_simps)

lemma ack_fresh: "sc_fresh (acknowledge w config quiet sid path im st) = sc_fresh st"
  by (simp add: acknowledge_def)

lemma scan_content_fresh:
  "sc_fresh (scan_content w config quiet tiered sid path content st) = sc_fresh st @
    (if detect w config content path \<noteq> None \<and> fresh_in w config tiered (sc_cache st) sid content path \<noteq> []
     then [(path, fresh_in w config tiered (sc_cache st) sid content path)] else [])"
  by (simp add: scan_content_def Let_def splitFindingsByTier_def fresh_in_def shown_tier_def case_prod_beta snd_dedupe file_entry_simps ack_fresh)

lemma scan_content_entry:
  "hf_editCount (file_entry (sc_cache (scan_content w config quiet tiered sid path content st)) sid path') = hf_editCount (file_entry (sc_cache st) sid path') \<and>
   hf_findings (file_entry (sc_cache (scan_content w config quiet tiered sid path content st)) sid path') =
     (if path' = path \<and> detect w config content path \<noteq> None
      then unique_from [] (map (findingCacheKey (hk_decode w)) (shown_tier w config tiered content path))
      else hf_findings (file_entry (sc_cache st) sid path'))"
  by (cases "detect w config content path")
     (simp_all add: scan_content_def Let_def splitFindingsByTier_def shown_tier_def case_prod_beta file_entry_simps ack_entry)

definition scannable :: "hook_world \<Rightarrow> hook_config \<Rightarrow> string \<Rightarrow> string \<Rightarrow> bool" where
  "scannable w config cwd path \<longleftrightarrow> path_skip w config cwd path = None \<and> \<not> too_large w config path"

text \<open>A primary file that was edited too often already.\<close>

definition worn_out :: "string list \<Rightarrow> hook_cache \<Rightarrow> string \<Rightarrow> string \<Rightarrow> bool" where
  "worn_out primary cache sid path \<longleftrightarrow> path \<in> set primary \<and> EDIT_COUNT_THRESHOLD \<le> hf_editCount (file_entry cache sid path)"

text \<open>The state after the count of an edit, for a file that is scanned.\<close>

definition counted :: "hook_world \<Rightarrow> string list \<Rightarrow> string \<Rightarrow> string \<Rightarrow> scan_state \<Rightarrow> scan_state" where
  "counted w primary sid path st =
     (if path \<in> set primary then st\<lparr>sc_cache := fst (bumpEditCount (hk_now w) (sc_cache st) sid path), sc_dirty := True\<rparr> else st)"

lemma scan_file_scanned:
  assumes "scannable w config cwd path" "\<not> worn_out primary (sc_cache st) sid path"
  shows "scan_file w config quiet tiered cwd primary sid path (Some st) =
    map_option (\<lambda>content. scan_content w config quiet tiered sid path content (counted w primary sid path st)) (hd_read (hk_disk w) path)"
  using assms
  by (auto simp: scan_file_def scannable_def worn_out_def counted_def Let_def case_prod_beta snd_bump EDIT_COUNT_THRESHOLD_def split: option.splits)

lemma scan_file_passed:
  assumes "\<not> scannable w config cwd path \<or> worn_out primary (sc_cache st) sid path"
  shows "\<exists>st'. scan_file w config quiet tiered cwd primary sid path (Some st) = Some st' \<and> sc_fresh st' = sc_fresh st \<and>
    (\<forall>path'. hf_findings (file_entry (sc_cache st') sid path') = hf_findings (file_entry (sc_cache st) sid path')) \<and>
    (\<forall>path'. hf_editCount (file_entry (sc_cache st) sid path') \<le> hf_editCount (file_entry (sc_cache st') sid path')) \<and>
    (\<forall>path'. path' \<noteq> path \<longrightarrow> hf_editCount (file_entry (sc_cache st') sid path') = hf_editCount (file_entry (sc_cache st) sid path'))"
  using assms
  by (auto simp: scan_file_def scannable_def worn_out_def Let_def case_prod_beta snd_bump file_entry_simps EDIT_COUNT_THRESHOLD_def split: option.splits)

lemma counted_entry:
  "hf_findings (file_entry (sc_cache (counted w primary sid path st)) sid path') = hf_findings (file_entry (sc_cache st) sid path')"
  "path' \<noteq> path \<Longrightarrow> hf_editCount (file_entry (sc_cache (counted w primary sid path st)) sid path') = hf_editCount (file_entry (sc_cache st) sid path')"
  "hf_editCount (file_entry (sc_cache st) sid path') \<le> hf_editCount (file_entry (sc_cache (counted w primary sid path st)) sid path')"
  "sc_fresh (counted w primary sid path st) = sc_fresh st"
  by (simp_all add: counted_def file_entry_simps)

text \<open>A file that gives nothing new when it is scanned as it is.\<close>

definition settled :: "hook_world \<Rightarrow> hook_config \<Rightarrow> bool \<Rightarrow> string \<Rightarrow> string list \<Rightarrow> hook_cache \<Rightarrow> string \<Rightarrow> string \<Rightarrow> bool" where
  "settled w config tiered cwd primary cache sid path \<longleftrightarrow>
     \<not> scannable w config cwd path \<or> worn_out primary cache sid path \<or>
     (\<forall>content. hd_read (hk_disk w) path = Some content \<longrightarrow>
        detect w config content path = None \<or> fresh_in w config tiered cache sid content path = [])"

definition same_entry :: "hook_cache \<Rightarrow> hook_cache \<Rightarrow> string \<Rightarrow> string \<Rightarrow> bool" where
  "same_entry c c' sid path \<longleftrightarrow>
     hf_findings (file_entry c' sid path) = hf_findings (file_entry c sid path) \<and> hf_editCount (file_entry c' sid path) = hf_editCount (file_entry c sid path)"

text \<open>The findings of a file that the pass reports, given the cache at its start.\<close>

definition reported :: "hook_world \<Rightarrow> hook_config \<Rightarrow> bool \<Rightarrow> string \<Rightarrow> string list \<Rightarrow> hook_cache \<Rightarrow> string \<Rightarrow> string \<Rightarrow> group_findings list" where
  "reported w config tiered cwd primary cache sid path =
     (if scannable w config cwd path \<and> \<not> worn_out primary cache sid path
      then (case hd_read (hk_disk w) path of None \<Rightarrow> []
         | Some content \<Rightarrow> if detect w config content path \<noteq> None \<and> fresh_in w config tiered cache sid content path \<noteq> []
             then [(path, fresh_in w config tiered cache sid content path)] else [])
      else [])"

lemma scan_file_step:
  assumes "scan_file w config quiet tiered cwd primary sid path (Some st) = Some st'"
  shows "sc_fresh st' = sc_fresh st @ reported w config tiered cwd primary (sc_cache st) sid path"
    "path' \<noteq> path \<Longrightarrow> same_entry (sc_cache st) (sc_cache st') sid path'"
    "settled w config tiered cwd primary (sc_cache st') sid path"
proof -
  have "sc_fresh st' = sc_fresh st @ reported w config tiered cwd primary (sc_cache st) sid path \<and>
      (\<forall>path'. path' \<noteq> path \<longrightarrow> same_entry (sc_cache st) (sc_cache st') sid path') \<and> settled w config tiered cwd primary (sc_cache st') sid path"
  proof (cases "scannable w config cwd path \<and> \<not> worn_out primary (sc_cache st) sid path")
    case True
    then obtain content where c: "hd_read (hk_disk w) path = Some content"
        "st' = scan_content w config quiet tiered sid path content (counted w primary sid path st)"
      using assms scan_file_scanned [where w = w and config = config and cwd = cwd and path = path and primary = primary and st = st and sid = sid] by auto
    have fresh: "fresh_in w config tiered (sc_cache (counted w primary sid path st)) sid content path = fresh_in w config tiered (sc_cache st) sid content path"
      by (simp add: fresh_in_def counted_entry)
    have "detect w config content path = None \<or> fresh_in w config tiered (sc_cache st') sid content path = []"
      by (auto simp: fresh_in_def c(2) scan_content_entry unique_from_set intro!: fresh_from_known)
    then show ?thesis using True c
      by (simp add: reported_def scan_content_fresh fresh counted_entry same_entry_def scan_content_entry settled_def)
  next
    case False
    then obtain st'' where q: "scan_file w config quiet tiered cwd primary sid path (Some st) = Some st''" "sc_fresh st'' = sc_fresh st"
        "\<forall>path'. hf_findings (file_entry (sc_cache st'') sid path') = hf_findings (file_entry (sc_cache st) sid path')"
        "\<forall>path'. hf_editCount (file_entry (sc_cache st) sid path') \<le> hf_editCount (file_entry (sc_cache st'') sid path')"
        "\<forall>path'. path' \<noteq> path \<longrightarrow> hf_editCount (file_entry (sc_cache st'') sid path') = hf_editCount (file_entry (sc_cache st) sid path')"
      using scan_file_passed [where w = w and config = config and cwd = cwd and path = path and primary = primary and st = st and sid = sid] by blast
    have "st'' = st'" using assms q(1) by simp
    moreover have "worn_out primary (sc_cache st) sid path \<Longrightarrow> worn_out primary (sc_cache st'') sid path"
      using q(4) by (auto simp: worn_out_def intro: le_trans)
    ultimately show ?thesis using q(2,3,5) False by (auto simp: reported_def same_entry_def settled_def)
  qed
  then show "sc_fresh st' = sc_fresh st @ reported w config tiered cwd primary (sc_cache st) sid path"
    "path' \<noteq> path \<Longrightarrow> same_entry (sc_cache st) (sc_cache st') sid path'"
    "settled w config tiered cwd primary (sc_cache st') sid path" by blast+
qed

lemma same_entry_views:
  assumes "same_entry c c' sid path"
  shows "worn_out primary c' sid path \<longleftrightarrow> worn_out primary c sid path" "fresh_in w config tiered c' sid content path = fresh_in w config tiered c sid content path"
  using assms by (simp_all add: same_entry_def worn_out_def fresh_in_def)

lemma same_entry_reported: "same_entry c c' sid path \<Longrightarrow> reported w config tiered cwd primary c' sid path = reported w config tiered cwd primary c sid path"
  unfolding reported_def by (simp only: same_entry_views)

lemma same_entry_settled: "same_entry c c' sid path \<Longrightarrow> settled w config tiered cwd primary c' sid path = settled w config tiered cwd primary c sid path"
  unfolding settled_def by (simp only: same_entry_views)

section \<open>A whole pass\<close>

lemma scan_fold_None: "fold (scan_file w config quiet tiered cwd primary sid) files None = None"
  by (induction files) (simp_all add: scan_file_def)

lemma scan_all:
  assumes "fold (scan_file w config quiet tiered cwd primary sid) files (Some st) = Some st'" "distinct files"
  shows "sc_fresh st' = sc_fresh st @ concat (map (reported w config tiered cwd primary (sc_cache st) sid) files) \<and>
    (\<forall>path. path \<notin> set files \<longrightarrow> same_entry (sc_cache st) (sc_cache st') sid path) \<and>
    (\<forall>path \<in> set files. settled w config tiered cwd primary (sc_cache st') sid path)"
  using assms
proof (induction files arbitrary: st)
  case Nil
  then show ?case by (simp add: same_entry_def)
next
  case (Cons path files)
  obtain st1 where st1: "scan_file w config quiet tiered cwd primary sid path (Some st) = Some st1"
    using Cons.prems(1) scan_fold_None by (cases "scan_file w config quiet tiered cwd primary sid path (Some st)") auto
  note step = scan_file_step [OF st1]
  have IH: "sc_fresh st' = sc_fresh st1 @ concat (map (reported w config tiered cwd primary (sc_cache st1) sid) files)"
    "\<And>path. path \<notin> set files \<Longrightarrow> same_entry (sc_cache st1) (sc_cache st') sid path"
    "\<And>path. path \<in> set files \<Longrightarrow> settled w config tiered cwd primary (sc_cache st') sid path"
    using Cons.IH [of st1] Cons.prems st1 by auto
  have "concat (map (reported w config tiered cwd primary (sc_cache st1) sid) files) = concat (map (reported w config tiered cwd primary (sc_cache st) sid) files)"
    using step(2) Cons.prems(2) same_entry_reported by (intro arg_cong [of _ _ concat] map_cong refl) (metis distinct.simps(2))
  moreover have "settled w config tiered cwd primary (sc_cache st') sid path"
    using step(3) IH(2) [of path] Cons.prems(2) same_entry_settled by auto
  moreover have "same_entry (sc_cache st) (sc_cache st') sid path'" if "path' \<notin> set (path # files)" for path'
    using step(2) [of path'] IH(2) [of path'] that by (auto simp: same_entry_def)
  ultimately show ?case using IH(1,3) step(1) by auto
qed

lemma settled_reported: "settled w config tiered cwd primary cache sid path \<Longrightarrow> reported w config tiered cwd primary cache sid path = []"
  by (auto simp: settled_def reported_def split: option.splits)

lemma reported_cases:
  "reported w config tiered cwd primary cache sid path = [] \<or>
   (\<exists>content. scannable w config cwd path \<and> \<not> worn_out primary cache sid path \<and> hd_read (hk_disk w) path = Some content \<and>
      fresh_in w config tiered cache sid content path \<noteq> [] \<and>
      reported w config tiered cwd primary cache sid path = [(path, fresh_in w config tiered cache sid content path)])"
  by (simp add: reported_def split: option.splits)

lemma reported_facts:
  assumes "(p, fs) \<in> set (reported w config tiered cwd primary cache sid path)"
  shows "p = path" "isScanTargetInsideProject (hk_disk w) p cwd" "\<not> hasPathTraversal p" "\<not> re_test SENSITIVE_PATH p" "\<not> too_large w config p"
    "p \<in> set primary \<Longrightarrow> hf_editCount (file_entry cache sid p) < EDIT_COUNT_THRESHOLD"
    "fs \<noteq> []" "distinct (map (findingCacheKey (hk_decode w)) fs)"
    "\<exists>content. hd_read (hk_disk w) p = Some content \<and> set fs \<subseteq> set (detected w config content p)"
    "\<forall>x \<in> set fs. findingCacheKey (hk_decode w) x \<notin> set (hf_findings (file_entry cache sid p))"
proof -
  from reported_cases [of w config tiered cwd primary cache sid path] assms
  obtain content where c: "p = path" "scannable w config cwd p" "\<not> worn_out primary cache sid p" "hd_read (hk_disk w) p = Some content"
      "fs = fresh_in w config tiered cache sid content p" "fs \<noteq> []"
    by auto
  have skip: "path_skip w config cwd p = None" "\<not> too_large w config p" using c(2) by (simp_all add: scannable_def)
  show "p = path" "\<not> too_large w config p" "fs \<noteq> []" using c(1,6) skip(2) by simp_all
  show "isScanTargetInsideProject (hk_disk w) p cwd" "\<not> hasPathTraversal p" "\<not> re_test SENSITIVE_PATH p"
    using skip(1) by (auto simp: path_skip_def split: if_splits)
  show "p \<in> set primary \<Longrightarrow> hf_editCount (file_entry cache sid p) < EDIT_COUNT_THRESHOLD" using c(3) by (auto simp: worn_out_def)
  show "distinct (map (findingCacheKey (hk_decode w)) fs)" using c(5) fresh_from_distinct by (simp add: fresh_in_def)
  have "set (shown_tier w config tiered content p) \<subseteq> set (detected w config content p)" by (auto simp: shown_tier_def)
  then show "\<exists>content. hd_read (hk_disk w) p = Some content \<and> set fs \<subseteq> set (detected w config content p)"
    using c(4,5) fresh_from_mem unfolding fresh_in_def by blast
  show "\<forall>x \<in> set fs. findingCacheKey (hk_decode w) x \<notin> set (hf_findings (file_entry cache sid p))"
    using c(5) fresh_from_mem unfolding fresh_in_def by blast
qed

text \<open>The state in which the pass after an edit ends, when it scans at all.\<close>

definition edit_files :: "jsval \<Rightarrow> string \<Rightarrow> string list" where
  "edit_files event sessionCwd = normalizeScanTargets (resolveTargetFiles event sessionCwd) sessionCwd"

definition edit_project :: "hook_world \<Rightarrow> jsval \<Rightarrow> string \<Rightarrow> string" where
  "edit_project w event sessionCwd =
     resolveCacheCwd (hk_disk w) (if edit_files event sessionCwd = [] then None else Some (hd (edit_files event sessionCwd))) sessionCwd"

lemma hook_outcome_fresh: "hook_outcome config quiet st = Emitted (Fresh groups) \<longleftrightarrow> sc_fresh st = groups \<and> groups \<noteq> []"
  by (auto simp: hook_outcome_def)

lemma edit_pass_fresh:
  assumes "edit_pass w event harness scwd f = (f', Emitted (Fresh groups))"
  defines "config \<equiv> readConfig (hk_configs w) (edit_project w event scwd)"
  shows "\<exists>quiet st. fold (scan_file w config quiet (perEditTieringActive config harness) (edit_project w event scwd) (edit_files event scwd) (session_of event))
      (expandScanTargets (hk_disk w) (edit_files event scwd) (edit_project w event scwd)) (Some (scan_start (readCache f))) = Some st \<and>
    sc_fresh st = groups \<and> f' = persistCache (sc_cache st)"
  using assms(1) unfolding edit_pass_def Let_def edit_files_def [symmetric] edit_project_def [symmetric] config_def [symmetric]
  by (auto simp: hook_outcome_fresh split: if_splits option.splits)

text \<open>
  C19: What the pass after an edit reports. It reports findings of at most six files. Each of them lies in
  the project also when symbolic links are followed, is neither sensitive nor larger than the limit, and
  was edited at most six times in the session. Its findings were found in the file as it is now, pass the filters of the
  configuration, differ from each other and were not known from the scan before.
\<close>

theorem edit_pass_reports:
  assumes "edit_pass w event harness scwd f = (f', Emitted (Fresh groups))"
    and "cwd = edit_project w event scwd" "config = readConfig (hk_configs w) cwd"
  shows "length groups \<le> MAX_SCAN_TARGETS \<and>
    (\<forall>(p, fs) \<in> set groups.
       isScanTargetInsideProject (hk_disk w) p cwd \<and> \<not> hasPathTraversal p \<and> \<not> re_test SENSITIVE_PATH p \<and> \<not> too_large w config p \<and>
       (p \<in> set (edit_files event scwd) \<longrightarrow> hf_editCount (file_entry (readCache f) (session_of event) p) < EDIT_COUNT_THRESHOLD) \<and>
       fs \<noteq> [] \<and> distinct (map (findingCacheKey (hk_decode w)) fs) \<and>
       (\<exists>content. hd_read (hk_disk w) p = Some content \<and> set fs \<subseteq> set (detected w config content p)) \<and>
       (\<forall>x \<in> set fs. findingCacheKey (hk_decode w) x \<notin> set (hf_findings (file_entry (readCache f) (session_of event) p))))"
proof -
  let ?targets = "expandScanTargets (hk_disk w) (edit_files event scwd) cwd" and ?tiered = "perEditTieringActive config harness"
  let ?rep = "reported w config ?tiered cwd (edit_files event scwd) (readCache f) (session_of event)"
  note bounds = expand_bounds [of "hk_disk w" "edit_files event scwd" cwd]
  obtain quiet st where st: "fold (scan_file w config quiet ?tiered cwd (edit_files event scwd) (session_of event)) ?targets (Some (scan_start (readCache f))) = Some st"
      "sc_fresh st = groups"
    using edit_pass_fresh [OF assms(1)] unfolding assms(2,3) by blast
  have groups: "groups = concat (map ?rep ?targets)" using scan_all [OF st(1)] st(2) bounds by (simp add: scan_start_def)
  have one: "length (?rep p) \<le> 1" for p by (simp add: reported_def split: option.splits)
  have "length (concat (map ?rep ps)) \<le> length ps" for ps
  proof (induction ps)
    case (Cons p ps)
    then show ?case using one [of p] by simp
  qed simp
  then have "length groups \<le> MAX_SCAN_TARGETS" using groups bounds le_trans by blast
  moreover have from_file: "\<exists>path. (p, fs) \<in> set (?rep path)" if "(p, fs) \<in> set groups" for p fs using that unfolding groups by auto
  have "isScanTargetInsideProject (hk_disk w) p cwd \<and> \<not> hasPathTraversal p \<and> \<not> re_test SENSITIVE_PATH p \<and> \<not> too_large w config p \<and>
       (p \<in> set (edit_files event scwd) \<longrightarrow> hf_editCount (file_entry (readCache f) (session_of event) p) < EDIT_COUNT_THRESHOLD) \<and>
       fs \<noteq> [] \<and> distinct (map (findingCacheKey (hk_decode w)) fs) \<and>
       (\<exists>content. hd_read (hk_disk w) p = Some content \<and> set fs \<subseteq> set (detected w config content p)) \<and>
       (\<forall>x \<in> set fs. findingCacheKey (hk_decode w) x \<notin> set (hf_findings (file_entry (readCache f) (session_of event) p)))"
    if "(p, fs) \<in> set groups" for p fs
  proof -
    have "\<exists>path. (p, fs) \<in> set (?rep path)" using that by (rule from_file)
    then obtain path where "(p, fs) \<in> set (?rep path)" ..
    from reported_facts [OF this] show ?thesis by blast
  qed
  ultimately show ?thesis by blast
qed

section \<open>What a pass does to the cache\<close>

text \<open>
  Every pass changes the cache through \<open>put_file\<close> alone, at one time and in one session. A property that
  this operation keeps is kept by the whole pass.
\<close>

locale cache_property =
  fixes now :: nat and sid :: string and P :: "hook_cache \<Rightarrow> bool"
  assumes put_keeps: "P c \<Longrightarrow> t = None \<or> t = Some now \<Longrightarrow> P (put_file now t c sid path e)"
begin

lemma ops_keep:
  assumes "P c"
  shows "P (ensureFile now c sid path)" "P (fst (bumpEditCount now c sid path))" "P (touchFile now c sid path)"
    "P (fst (dedupeAgainstCache key now fs c sid path))" "P (rememberFindings key now c sid path fs)"
  using assms by (simp_all add: ensureFile_def bumpEditCount_def touchFile_def dedupeAgainstCache_def rememberFindings_def Let_def put_keeps)

lemma acknowledge_keeps: "P (sc_cache st) \<Longrightarrow> hk_now w = now \<Longrightarrow> P (sc_cache (acknowledge w config quiet sid path im st))"
  by (simp add: acknowledge_def put_keeps)

lemma scan_content_keeps:
  assumes "P (sc_cache st)" "hk_now w = now"
  shows "P (sc_cache (scan_content w config quiet tiered sid path content st))"
  using assms(1) by (simp add: scan_content_def Let_def case_prod_beta ops_keep acknowledge_keeps assms(2))

lemma scan_file_keeps:
  assumes "scan_file w config quiet tiered cwd primary sid path (Some st) = Some st'" "P (sc_cache st)" "hk_now w = now"
  shows "P (sc_cache st')"
  using assms(1,2) by (auto simp: scan_file_def Let_def case_prod_beta ops_keep scan_content_keeps assms(3) split: option.splits if_splits)

lemma scan_all_keeps:
  assumes "fold (scan_file w config quiet tiered cwd primary sid) files (Some st) = Some st'" "P (sc_cache st)" "hk_now w = now"
  shows "P (sc_cache st')"
  using assms(1,2)
proof (induction files arbitrary: st)
  case (Cons path files)
  obtain st1 where st1: "scan_file w config quiet tiered cwd primary sid path (Some st) = Some st1"
    using Cons.prems(1) scan_fold_None by (cases "scan_file w config quiet tiered cwd primary sid path (Some st)") auto
  show ?case using Cons.IH [of st1] Cons.prems st1 scan_file_keeps [OF st1 _ assms(3)] by simp
qed simp

lemma stop_file_keeps:
  assumes "P (fst acc)" "hk_now w = now"
  shows "P (fst (stop_file w config sid path acc))"
  using assms(1) by (auto simp: assms(2) stop_file_def Let_def case_prod_beta ops_keep split: option.splits)

end

text \<open>The other sessions stay as they were, and the session of the pass is stamped with its time.\<close>

definition others_kept :: "string \<Rightarrow> hook_cache \<Rightarrow> hook_cache \<Rightarrow> bool" where
  "others_kept sid c0 c \<longleftrightarrow> distinct (map fst c) \<and> (\<forall>k. k \<noteq> sid \<longrightarrow> map_of c k = map_of c0 k)"

definition stamped :: "string \<Rightarrow> nat \<Rightarrow> hook_cache \<Rightarrow> bool" where
  "stamped sid now c \<longleftrightarrow> (\<exists>s. map_of c sid = Some s \<and> hs_updatedAt s = now)"

lemma put_file_stamped: "stamped sid now (put_file now (Some now) c sid path e)"
  by (simp add: stamped_def put_file_def Let_def map_of_set_key)

interpretation others: cache_property now sid "others_kept sid c0" for now sid c0
  by unfold_locales (auto simp: others_kept_def put_file_def Let_def map_of_set_key set_key_distinct)

interpretation stamped: cache_property now sid "stamped sid now" for now sid
  by unfold_locales (auto simp: stamped_def put_file_def Let_def map_of_set_key ensureSession_def)

lemma remembered_stamped: "stamped sid now (rememberFindings key now c sid path fs)"
  by (simp add: rememberFindings_def put_file_stamped)

lemma scan_content_stamped:
  assumes "detect w config content path \<noteq> None"
  shows "stamped sid (hk_now w) (sc_cache (scan_content w config quiet tiered sid path content st))"
  using assms by (auto simp: scan_content_def Let_def case_prod_beta remembered_stamped intro!: stamped.acknowledge_keeps)

lemma scan_file_stamped:
  assumes "scan_file w config quiet tiered cwd primary sid path (Some st) = Some st'" "sc_fresh st \<noteq> [] \<longrightarrow> stamped sid (hk_now w) (sc_cache st)"
    "sc_fresh st' \<noteq> []"
  shows "stamped sid (hk_now w) (sc_cache st')"
proof (cases "sc_fresh st = []")
  case True
  then have "reported w config tiered cwd primary (sc_cache st) sid path \<noteq> []" using scan_file_step(1) [OF assms(1)] assms(3) by simp
  then obtain content where c: "scannable w config cwd path" "\<not> worn_out primary (sc_cache st) sid path"
      "hd_read (hk_disk w) path = Some content" "detect w config content path \<noteq> None"
    by (auto simp: reported_def split: if_splits option.splits)
  then have "st' = scan_content w config quiet tiered sid path content (counted w primary sid path st)"
    using assms(1) scan_file_scanned [OF c(1,2)] by simp
  then show ?thesis using scan_content_stamped [OF c(4)] by simp
qed (use stamped.scan_file_keeps [OF assms(1)] assms(2) in simp)

lemma scan_all_stamped:
  assumes "fold (scan_file w config quiet tiered cwd primary sid) files (Some st) = Some st'" "sc_fresh st \<noteq> [] \<longrightarrow> stamped sid (hk_now w) (sc_cache st)"
    "sc_fresh st' \<noteq> []"
  shows "stamped sid (hk_now w) (sc_cache st')"
  using assms(1,2)
proof (induction files arbitrary: st)
  case (Cons path files)
  obtain st1 where st1: "scan_file w config quiet tiered cwd primary sid path (Some st) = Some st1"
    using Cons.prems(1) scan_fold_None by (cases "scan_file w config quiet tiered cwd primary sid path (Some st)") auto
  show ?case using Cons.IH [of st1] Cons.prems st1 scan_file_stamped [OF st1] by simp
qed (use assms(3) in simp)

section \<open>What is written of the cache\<close>

lemma sort_key_least:
  fixes f :: "'a \<Rightarrow> 'b :: linorder"
  assumes "x \<in> set xs" "\<forall>y \<in> set xs. y \<noteq> x \<longrightarrow> f x < f y"
  shows "\<exists>ys. sort_key f xs = x # ys"
proof (cases "sort_key f xs")
  case Nil
  then show ?thesis using assms(1) by (metis empty_iff list.set(1) set_sort)
next
  case (Cons y ys)
  have "y \<in> set xs" "x \<in> set (y # ys)" "\<forall>z \<in> set ys. f y \<le> f z"
    using assms(1) Cons sorted_sort_key [of f xs] by (metis list.set_intros(1) set_sort, metis set_sort, simp)
  then have "y = x" using assms(2) by force
  then show ?thesis using Cons by simp
qed

text \<open>Pruning keeps a session that is newer than all others, and at most eight of them.\<close>

lemma persist_keeps:
  assumes "distinct (map fst c)" "map_of c sid = Some s" "\<forall>k s'. map_of c k = Some s' \<longrightarrow> k \<noteq> sid \<longrightarrow> hs_updatedAt s' < hs_updatedAt s"
  shows "map_of (readCache (persistCache c)) sid = Some s"
proof (cases "CACHE_MAX_SESSIONS < length c")
  case True
  have "(sid, s) \<in> set c" using assms(2) by (rule map_of_SomeD)
  moreover have "(\<lambda>(_, s). - int (hs_updatedAt s)) (sid, s) < (\<lambda>(_, s). - int (hs_updatedAt s)) y" if "y \<in> set c" "y \<noteq> (sid, s)" for y
  proof -
    have y: "map_of c (fst y) = Some (snd y)" using that(1) assms(1) by simp
    then have "fst y \<noteq> sid" using that(2) assms(2) by (metis option.inject prod.collapse)
    then show ?thesis using assms(3) y by (simp add: case_prod_beta)
  qed
  ultimately obtain ys where "sort_key (\<lambda>(_, s). - int (hs_updatedAt s)) c = (sid, s) # ys" using sort_key_least by meson
  then show ?thesis using True by (simp add: persistCache_def readCache_def CACHE_MAX_SESSIONS_def)
qed (simp add: persistCache_def readCache_def assms)

lemma persist_bound: "length (readCache (persistCache c)) \<le> CACHE_MAX_SESSIONS"
  by (simp add: persistCache_def readCache_def)

lemma file_entry_map: "map_of c' sid = map_of c sid \<Longrightarrow> file_entry c' sid path = file_entry c sid path"
  by (simp add: file_entry_def)

section \<open>A second pass over the same files\<close>

lemma world_time:
  "path_skip (w\<lparr>hk_now := t\<rparr>) config cwd path = path_skip w config cwd path" "too_large (w\<lparr>hk_now := t\<rparr>) config path = too_large w config path"
  "detect (w\<lparr>hk_now := t\<rparr>) config content path = detect w config content path"
  "hk_decode (w\<lparr>hk_now := t\<rparr>) = hk_decode w" "hk_disk (w\<lparr>hk_now := t\<rparr>) = hk_disk w"
  by (simp_all add: path_skip_def too_large_def detect_def split: option.split)

lemma reported_time: "reported (w\<lparr>hk_now := t\<rparr>) config tiered cwd primary cache sid path = reported w config tiered cwd primary cache sid path"
  unfolding reported_def scannable_def fresh_in_def shown_tier_def detected_def world_time ..

lemma edit_pass_ne: "edit_pass w event harness scwd f = (f', Emitted (Fresh groups)) \<Longrightarrow> groups \<noteq> []"
  unfolding edit_pass_def Let_def by (auto simp: hook_outcome_fresh split: if_splits option.splits)

lemma persisted_entry:
  assumes "others_kept sid c0 c" "stamped sid now c" "\<forall>k s. map_of c0 k = Some s \<longrightarrow> k \<noteq> sid \<longrightarrow> hs_updatedAt s < now"
  shows "file_entry (readCache (persistCache c)) sid path = file_entry c sid path"
proof (rule file_entry_map)
  obtain s where s: "map_of c sid = Some s" "hs_updatedAt s = now" using assms(2) by (auto simp: stamped_def)
  then show "map_of (readCache (persistCache c)) sid = map_of c sid"
    using persist_keeps [of c sid s] assms(1,3) unfolding others_kept_def by metis
qed


section \<open>A session on a small project\<close>

definition demo_finding :: "nat \<Rightarrow> jsval" where
  "demo_finding n = JObj [(''antipattern'', JStr ''broken-image''), (''line'', jint (int n))]"

definition demo_findings :: "jsval list" where "demo_findings = [demo_finding 3, demo_finding 4]"

definition demo_disk :: hook_disk where
  "demo_disk = \<lparr>hd_exists = (\<lambda>p. p \<in> {''/p/package.json'', ''/p/a.css''}), hd_read = (\<lambda>p. if p = ''/p/a.css'' then Some ''a {}'' else None),
     hd_size = (\<lambda>_. 4), hd_realpath = (\<lambda>p. Some p), hd_home = ''/root''\<rparr>"

definition demo_world :: hook_world where
  "demo_world = \<lparr>hk_env = (\<lambda>_. None), hk_cwd = ''/p'', hk_now = 7, hk_parse = (\<lambda>_. None), hk_decode = Some, hk_disk = demo_disk, hk_configs = (\<lambda>_. None),
     hk_platform = (\<lambda>_. None), hk_detector = True, hk_text = (\<lambda>_ _ _. Some demo_findings), hk_html = None\<rparr>"

definition demo_edit :: jsval where
  "demo_edit = JObj [(''session_id'', JStr ''s''), (''tool_input'', JObj [(''file_path'', JStr ''/p/a.css'')])]"

lemma demo_targets: "edit_files demo_edit ''/p'' = [''/p/a.css'']" "edit_project demo_world demo_edit ''/p'' = ''/p''"
  "expandScanTargets demo_disk [''/p/a.css''] ''/p'' = [''/p/a.css'']" "session_of demo_edit = ''s''"
  "resolveCacheCwd demo_disk (Some ''/p/a.css'') ''/p'' = ''/p''"
  by code_simp+

lemma demo_config: "readConfig (hk_configs demo_world) ''/p'' = cloneDefaultConfig"
  by (simp add: demo_world_def readConfig_def safeReadJson_def hookSection_def detectorSection_def section_of_def applyConfigSource_def applyDetectorConfigSource_def)

lemma demo_rule: "normalizeIgnoreRule (JStr ''broken-image'') = ''broken-image''" by code_simp

lemma demo_not_sensitive: "\<not> re_test SENSITIVE_PATH ''/p/a.css''"
proof -
  have none: "steps (lit_i p) q = {}" if "CHR ''r'' \<in> set p" "set (fst (snd q)) \<subseteq> set ''/p/a.css''" for p q
  proof -
    have "lower_char (CHR ''r'') \<notin> lower_char ` set ''/p/a.css''" by code_simp
    then show ?thesis using steps_lit_i_needs [OF _ that(1), of _ q] that(2) by blast
  qed
  have "\<not> re_test (seq [segment_start, lit_i ''.env'', Alt (lit ''.'') Eol]) ''/p/a.css''"
    "\<not> re_test (seq [segment_start, lit_i ''.git'', Alt (Cls is_slash) Eol]) ''/p/a.css''"
    "\<not> re_test (seq [segment_start, lit_i ''id_rsa'', Alt Eol (Cls is_joiner), Many not_slash, Eol]) ''/p/a.css''"
    "\<not> re_test (seq [segment_start, Many not_slash, lit_i ''.pem'', Eol]) ''/p/a.css''"
    by code_simp+
  then show ?thesis unfolding SENSITIVE_PATH_def alts.simps re_test_Alt unfolding seq.simps
    by (auto simp del: lit_i.simps intro!: third_needed simp: none)
qed

lemma demo_not_generated: "\<not> re_test GENERATED_PATH ''/p/a.css''"
proof -
  have "\<not> re_test (seq [lit_i ''.generated.'', many1 is_letter_i, Eol]) ''/p/a.css''"
    "\<not> re_test (seq [lit_i ''.d.ts'', Eol]) ''/p/a.css''"
    "\<not> re_test (seq [lit_i ''.min.'', many1 is_letter_i, Eol]) ''/p/a.css''"
    "\<not> re_test (seq [Cls is_slash, lit_i ''node_modules'', Cls is_slash]) ''/p/a.css''"
    "\<not> re_test (seq [Cls is_slash, lit_i ''generated'', Cls is_slash]) ''/p/a.css''"
    "\<not> re_test (seq [Cls is_slash, alts [lit_i ''dist'', lit_i ''build'', lit_i ''out'', lit_i ''.next'', lit_i ''.cache'', lit_i ''coverage''], Cls is_slash]) ''/p/a.css''"
    "\<not> re_test (seq [Opt (Cls is_slash), many1 not_slash, lit_i ''.lock'', Opt (lit_i ''.json''), Eol]) ''/p/a.css''"
    by code_simp+
  then show ?thesis unfolding GENERATED_PATH_def alts.simps re_test_Alt by blast
qed

lemma demo_path:
  "toLowerCase (path_extname ''/p/a.css'') \<in> set ALLOWED_EXTS" "isScanTargetInsideProject demo_disk ''/p/a.css'' ''/p''" "\<not> hasPathTraversal ''/p/a.css''"
  by code_simp+

lemma demo_scannable: "scannable demo_world cloneDefaultConfig ''/p'' ''/p/a.css''"
  using demo_not_sensitive demo_not_generated demo_path
  by (simp add: scannable_def too_large_def path_skip_def matchesAnyGlob_def demo_world_def cloneDefaultConfig_def demo_disk_def)

lemma demo_detected: "detected demo_world cloneDefaultConfig ''a {}'' ''/p/a.css'' = demo_findings"
  by code_simp

lemma demo_tier: "filter is_immediate demo_findings = demo_findings"
  by (simp add: demo_findings_def is_immediate_def demo_finding_def demo_rule, simp add: IMMEDIATE_TIER_RULES_def)

lemma demo_keys: "map (findingCacheKey Some) demo_findings = [''broken-image:3'', ''broken-image:4'']"
  by code_simp

lemma demo_edit_pass:
  "\<exists>f'. edit_pass demo_world demo_edit ''claude'' ''/p'' No_Cache = (f', Emitted (Fresh [(''/p/a.css'', demo_findings)]))"
proof -
  have shown: "perEditTieringActive cloneDefaultConfig ''claude''" "hc_enabled cloneDefaultConfig" "\<not> hc_quiet cloneDefaultConfig" by code_simp+
  have host: "hk_disk demo_world = demo_disk" "hk_decode demo_world = Some" "hk_detector demo_world" "hk_platform demo_world = (\<lambda>_. None)"
      "detect demo_world cloneDefaultConfig ''a {}'' ''/p/a.css'' \<noteq> None" "hd_read demo_disk ''/p/a.css'' = Some ''a {}''"
    by (simp_all add: demo_world_def demo_disk_def detect_def)
  have unworn: "\<not> worn_out [''/p/a.css''] (sc_cache (scan_start [])) ''s'' ''/p/a.css''"
    by (simp add: worn_out_def scan_start_def file_entry_def new_file_def EDIT_COUNT_THRESHOLD_def)
  note scanned = scan_file_scanned [OF demo_scannable unworn]
  have "fresh_from (findingCacheKey Some) [] demo_findings = demo_findings"
    using fresh_from_all [of "findingCacheKey Some" demo_findings "[]"] demo_keys by simp
  then have "fresh_in demo_world cloneDefaultConfig True (sc_cache (counted demo_world [''/p/a.css''] ''s'' ''/p/a.css'' (scan_start []))) ''s'' ''a {}'' ''/p/a.css'' =
      demo_findings"
    by (simp add: fresh_in_def shown_tier_def demo_detected demo_tier counted_entry host(2)) (simp add: scan_start_def file_entry_def new_file_def)
  then have content: "sc_fresh (scan_content demo_world cloneDefaultConfig q True ''s'' ''/p/a.css'' ''a {}'' (counted demo_world [''/p/a.css''] ''s'' ''/p/a.css'' (scan_start []))) =
      [(''/p/a.css'', demo_findings)]" for q
    using host(5) by (simp add: scan_content_fresh counted_entry) (simp add: scan_start_def demo_findings_def)
  show ?thesis
    using shown content
    unfolding edit_pass_def Let_def edit_files_def [symmetric] edit_project_def [symmetric] demo_targets demo_config host
    by (simp add: demo_targets demo_config host isNativePlatform_def readCache_def scanned hook_outcome_def)
qed

theorem edit_pass_reports_witness:
  "\<exists>groups. snd (edit_pass demo_world demo_edit ''claude'' ''/p'' No_Cache) = Emitted (Fresh groups) \<and> groups \<noteq> [] \<and> length groups \<le> MAX_SCAN_TARGETS"
proof -
  obtain f' where f': "edit_pass demo_world demo_edit ''claude'' ''/p'' No_Cache = (f', Emitted (Fresh [(''/p/a.css'', demo_findings)]))"
    using demo_edit_pass by blast
  from edit_pass_reports [OF this refl refl] show ?thesis using f' by auto
qed


section \<open>The pass at the end of a turn\<close>

text \<open>A cache in which the session has touched one file, with what of the findings \<open>D\<close> is remembered.\<close>

definition one_touched :: "(jsval \<Rightarrow> string) \<Rightarrow> string \<Rightarrow> string \<Rightarrow> jsval list \<Rightarrow> jsval list \<Rightarrow> cache_file \<Rightarrow> bool" where
  "one_touched key sid path D known f \<longleftrightarrow> touched_files (readCache f) sid = [path] \<and> length (readCache f) \<le> CACHE_MAX_SESSIONS \<and>
     filter (\<lambda>x. key x \<in> set (hf_findings (file_entry (readCache f) sid path))) D = known"

lemma set_key_length: "map_of m k \<noteq> None \<Longrightarrow> length (set_key m k v) = length m"
  by (induction m k v rule: set_key.induct) (auto split: if_splits)

lemma put_touched:
  assumes "touched_files c sid = [path]"
  shows "touched_files (put_file now t c sid path e) sid = [path]" "length (put_file now t c sid path e) = length c"
proof -
  obtain s e0 where s: "map_of c sid = Some s" "hs_files s = [(path, e0)]"
    using assms by (auto simp: touched_files_def split: option.splits)
  then show "touched_files (put_file now t c sid path e) sid = [path]" "length (put_file now t c sid path e) = length c"
    by (simp_all add: put_file_def touched_files_def ensureSession_def map_of_set_key set_key_length Let_def)
qed

lemma stop_round:
  assumes config: "config = readConfig (hk_configs w) cwd" "hc_enabled config" "\<not> isNativePlatform (hk_platform w cwd)" "hk_detector w"
    and scan: "path_skip w config cwd path = None" "hd_read (hk_disk w) path = Some content" "D = detected w config content path"
    and keys: "key = findingCacheKey (hk_decode w)" "distinct (map key D)"
    and f: "one_touched key sid path D known f" "filter (\<lambda>x. x \<notin> set known) D \<noteq> []"
  shows "\<exists>f'. stop_pass w sid cwd f = (f', Emitted (Deep [(path, filter (\<lambda>x. x \<notin> set known) D)])) \<and>
    one_touched key sid path D (filter (\<lambda>x. x \<notin> set known) D) f'"
proof -
  let ?c = "readCache f" and ?new = "filter (\<lambda>x. x \<notin> set known) D"
  have t: "touched_files ?c sid = [path]" and n: "length ?c \<le> CACHE_MAX_SESSIONS" using f(1) by (simp_all add: one_touched_def)
  have "?new = filter (\<lambda>x. key x \<notin> set (hf_findings (file_entry ?c sid path))) D"
    using f(1) by (intro filter_cong) (auto simp: one_touched_def)
  then have fresh: "fresh_from key (hf_findings (file_entry ?c sid path)) D = ?new" using fresh_from_all [OF keys(2)] by simp
  define c' where "c' = rememberFindings key (hk_now w) (ensureFile (hk_now w) ?c sid path) sid path ?new"
  have c': "touched_files c' sid = [path]" "length c' = length ?c"
    unfolding c'_def rememberFindings_def ensureFile_def using put_touched t by simp_all
  have "D \<noteq> []" using f(2) by auto
  then have "stop_file w config sid path (?c, []) = (c', [(path, ?new)])"
    using f(2) fresh scan by (simp add: stop_file_def dedupeAgainstCache_def keys(1) [symmetric] c'_def)
  then have pass: "stop_pass w sid cwd f = (persistCache c', Emitted (Deep [(path, ?new)]))"
    using config scan(1) t by (simp add: stop_pass_def stop_targets_def STOP_MAX_FILES_def Let_def)
  have "readCache (persistCache c') = c'" using n c'(2) by (simp add: persistCache_def readCache_def)
  moreover have "filter (\<lambda>x. key x \<in> key ` set ?new) D = ?new"
    using keys(2) by (intro filter_cong) (auto simp: distinct_map dest: inj_onD)
  ultimately have "one_touched key sid path D ?new (persistCache c')"
    using c' n by (simp add: one_touched_def c'_def file_entry_remember unique_from_set)
  then show ?thesis using pass by blast
qed


definition demo_touched :: cache_file where
  "demo_touched = Cache_File [(''s'', \<lparr>hs_updatedAt = 7,
     hs_files = [(''/p/a.css'', \<lparr>hf_editCount = 1, hf_findings = [''broken-image:3''], hf_cleanAcked = False\<rparr>)]\<rparr>)]"

lemma demo_known:
  "filter (\<lambda>x. findingCacheKey Some x \<in> set (hf_findings (file_entry (readCache demo_touched) ''s'' ''/p/a.css''))) demo_findings = [demo_finding 3]"
proof -
  have "findingCacheKey Some (demo_finding 3) = ''broken-image:3''" "findingCacheKey Some (demo_finding 4) = ''broken-image:4''"
    using demo_keys by (simp_all add: demo_findings_def)
  then show ?thesis by (simp add: demo_findings_def demo_touched_def readCache_def file_entry_def)
qed


end
