(* ===== verification/Spec2Isabelle.thy ===== *)
theory Spec2Isabelle
  imports Session_Properties Edit_Properties Server_Properties Source_Lock Roll_Properties Detection_Properties Filter_Properties
    Tag_Properties Inject_Journal Source_Search Variant_Insert Inline_Ignores Hook_Properties
begin

text \<open>
  A verification library for the scripts of the design skill under
  \<^verbatim>\<open>src/.agents/skills/impeccable/scripts\<close>: the live mode, in which a browser overlay, a local
  server and a coding agent edit a page together, and the tools around it. File names below are
  relative to that directory.

  \<^bold>\<open>The program.\<close> The overlay posts events (\<^verbatim>\<open>POST /events\<close>): generate variants of an element,
  accept or discard one, checkpoint what is shown, save copy edits. The server
  (\<^verbatim>\<open>live-server.mjs\<close>) validates them, journals those that belong to a session, and queues
  them. The agent polls (\<^verbatim>\<open>GET /poll\<close>), is handed one event at a time under a lease, works on the
  sources, and replies (\<^verbatim>\<open>POST /poll\<close>); what happened is broadcast to the overlay. A session is a
  journal of entries that a reducer folds to a snapshot (\<^verbatim>\<open>live/session-store.mjs\<close>), so that a
  crash of any of the three loses nothing that was journalled. Copy edits are staged in a buffer and
  applied in chunks by the agent, with rollback. Writers of source files share a lock. Apart from the
  live mode, a design hook and a command line run a detector whose findings a configuration filters,
  and a seeder rolls concepts and compositions from a catalog.

  \<^bold>\<open>Language.\<close> \<open>Js_Values\<close> has the untyped values, coercions and operators of JavaScript that the
  scripts use; \<open>Js_Text\<close> has case conversion, regular expressions with the leftmost, greedy
  matcher and what they mean, and rounding to binary64; \<open>Regex_Lemmas\<close> reasons about that matcher; \<open>Paths\<close> has the functions of
  \<^verbatim>\<open>node:path\<close>. An exception is \<open>Inl\<close>, an uncaught one of a handler ends the server.

  \<^bold>\<open>Sessions.\<close> \<open>Live_Vocabulary\<close> (\<^verbatim>\<open>live/vocabulary.mjs\<close>); \<open>Event_Validation\<close>
  (\<^verbatim>\<open>live/event-validation.mjs\<close>); \<open>Session_Reducer\<close> (\<^verbatim>\<open>applyEvent\<close> and its cases over the
  record \<open>snapshot\<close>, with its well-formedness and its fences); \<open>Session_Json\<close> (the fragment of
  snapshots that survives a file); \<open>Session_Store\<close> (journal, snapshot file and cache of several
  processes that share one directory, and every operation of the store); \<open>Store_Coherence\<close> (the
  locale \<open>event_log\<close>: a log whose reads are the fold of its entries, interpreted on the store);
  \<open>Store_Properties\<close> and \<open>Session_Properties\<close>. They show that a read is the replay of the
  journal whatever the caches hold, that cancellation is durable, that garbage in a journal does no
  harm, that an accepted message has a safe id, and where the store loses an entry.

  \<^bold>\<open>Server.\<close> \<open>Poll_Lanes\<close> (\<^verbatim>\<open>live/poll-lanes.mjs\<close>, \<^verbatim>\<open>live/completion.mjs\<close>); \<open>Live_Queue\<close> (the
  record \<open>server\<close>, the queue, leases, timers and broadcasts), \<open>Live_Server\<close> (\<^verbatim>\<open>/events\<close> and
  \<^verbatim>\<open>GET /poll\<close>) and \<open>Live_Replies\<close> (\<^verbatim>\<open>POST /poll\<close>), all of \<^verbatim>\<open>live-server.mjs\<close>. A handler is
  a function on the state that runs to its end; what happens later (a scaffold that finishes, a timer,
  a closed connection) is a step of its own. \<open>Queue_Invariants\<close> and \<open>Server_Invariants\<close> have the
  invariant, one lemma per operation, and the step relation \<open>server_step\<close>, which lets these steps
  come in any order and so has at least the runs of the event loop; \<open>Server_Properties\<close> has what
  follows for all reachable states, the order in which events are served, the gate on unknown
  sessions, and the inputs that end the process.

  \<^bold>\<open>Copy edits.\<close> \<open>Manual_Edits\<close> (\<^verbatim>\<open>live/manual-edits-buffer.mjs\<close>); \<open>Manual_Apply\<close> and
  \<open>Apply_Properties\<close> (\<^verbatim>\<open>live/manual-apply.mjs\<close>): chunks partition a batch, every entry gets
  one verdict, a rollback restores and stays inside the project. \<open>Edit_Verify\<close>, \<open>Edit_Commit\<close> and
  \<open>Edit_Properties\<close> (\<^verbatim>\<open>live-commit-manual-edits.mjs\<close>, and the checks of \<^verbatim>\<open>live-copy-edit-agent.mjs\<close>): the commit of a
  batch over files and buffer, with the agent as a parameter that may change both. The locale \<open>reply_law\<close> has what every
  way to settle a reply keeps; it is interpreted for what is cleared and for what is restored. An edit is cleared only when the source
  shows it, a refused commit restores the sources, and a Save while a commit runs can be lost.

  \<^bold>\<open>Lock.\<close> \<open>Source_Lock\<close> (\<^verbatim>\<open>live/source-lock.mjs\<close>): writers are program counters over one lock
  file, and each turn is one operation of the file system. Mutual exclusion holds while nobody dies;
  a dead owner is swept in five turns; and two sweepers of a dead owner can both get in.

  \<^bold>\<open>Rolls.\<close> \<open>Roll_Selection\<close> and \<open>Roll_Properties\<close> (\<^verbatim>\<open>lib/roll-selection.mjs\<close>): a generator
  is a \<open>sel\<close>, and both drivers give the same roll; what a roll contains does not depend on the
  digest or on the collation, which are parameters.

  \<^bold>\<open>Detector configuration.\<close> \<open>Detection_Config\<close>, \<open>Detection_Filter\<close>, \<open>Detection_Properties\<close>
  and \<open>Filter_Properties\<close> (\<^verbatim>\<open>lib/impeccable-config.mjs\<close>): configuration and consent in their two
  files, globs, colours, the value of a finding, the filters, and the block in git's exclude file.

  \<^bold>\<open>Inline ignore directives.\<close> \<open>Inline_Ignores\<close> (\<^verbatim>\<open>detector/shared/inline-ignores.mjs\<close>): what is kept
  are exactly the findings that no directive of the text waives, and a star behind a comment waives too much.

  \<^bold>\<open>Variants.\<close> \<open>Variant_Wrap\<close> (\<^verbatim>\<open>live-wrap.mjs\<close>: queries, elements by their tags, buffered copy edits, the
  wrapper and the whole command), \<open>Variant_Accept\<close> (\<^verbatim>\<open>live-accept.mjs\<close>: marker blocks, extraction,
  carbonizing, receipts and the whole command; \<^verbatim>\<open>live/accept-verify.mjs\<close>), \<open>Variant_Insert\<close>
  (\<^verbatim>\<open>live-insert.mjs\<close>), \<open>Wrap_Roundtrip\<close> and \<open>Variant_Properties\<close>. A handled decision happens once, a discard
  puts the wrapped lines back and takes an insertion out without a trace, only the
  lines of the block change, and an unfinished cleanup does not pass the check.

  \<^bold>\<open>Injection.\<close> \<open>Tag_Injection\<close> and \<open>Tag_Properties\<close> (\<^verbatim>\<open>live/frameworks/tag-strategy.mjs\<close>,
  \<^verbatim>\<open>script-src.mjs\<close>, and \<^verbatim>\<open>validateConfig\<close> of \<^verbatim>\<open>live-inject.mjs\<close>): what is injected is removed again, and
  the loop that removes it ends. \<open>Inject_Journal\<close> (\<^verbatim>\<open>live/frameworks/journal.mjs\<close>): files and directories of
  a project and the journal of what was injected; healing is confined to the project and idempotent, and
  takes an inherited property for an undo.

  \<^bold>\<open>Source search.\<close> \<open>Source_Search\<close> (\<^verbatim>\<open>live/source-search.mjs\<close>, \<^verbatim>\<open>lib/template-extensions.mjs\<close>,
  \<^verbatim>\<open>lib/is-generated.mjs\<close>, the traits of \<^verbatim>\<open>live/frameworks/index.mjs\<close>): a directory is a tree of nodes, and the
  walk is a function on it that ends.

  \<^bold>\<open>Hook.\<close> \<open>Hook_Config\<close> (settings, tiers and keys of findings), \<open>Hook_Events\<close> (events of the harnesses, and
  which files they lead to), \<open>Hook_Run\<close> (the cache, \<open>runHook\<close> and \<open>runStopHook\<close>) and
  \<open>Hook_Properties\<close>, all of \<^verbatim>\<open>hook-lib.mjs\<close>. The locale \<open>cache_property\<close> says that a pass changes the
  cache through one operation only; it is interpreted for the sessions that a pass leaves alone and for the time it
  stamps. They show the shape of all settings, what a pass reports, that it does not repeat itself, and that
  the pass at the end of a turn forgets what was reported before.

  \<^bold>\<open>Bounds.\<close> The only fuel is that of \<open>flush_loop\<close>, the number of parked polls; every round serves
  one of them, and \<open>flush_serves_all\<close> shows that nothing is left to serve at the end. All other
  loops are recursive functions that terminate; the loop of \<open>removeTag\<close> has its number of rounds bounded too.

  \<^bold>\<open>Parameters.\<close> What the host decides is an argument: the clock, random tokens, digests, the
  collation of \<^verbatim>\<open>localeCompare\<close>, \<^verbatim>\<open>decodeURIComponent\<close>, \<^verbatim>\<open>JSON.parse\<close>, failures of file operations,
  symbolic links, git's answers, the scaffold a generate is prepared with, the detector, and the preview of a
  Svelte component.

  \<^bold>\<open>Not modelled.\<close> Strings have code units below 256. Routes that only read or serve files and the
  start-up of the server; writing and pruning evidence files; the texts of the hook's messages and its
  audit log. Of the other scripts: the routes of copy edits, the search for their evidence and the processes of the agent, patching of
  content security policies, and the parsers and validators of documents. The overlay
  (\<^verbatim>\<open>live-browser.js\<close>), the heuristics of the detector, the framework adapters and the command line
  front ends depend on a DOM, on third-party parsers, or only print. The Go service and the Vue
  application of the repository are in other languages.
\<close>

end
